(* ===== verification/Prelude.thy ===== *)
theory Prelude
  imports Main "HOL-Library.AList" "HOL-Library.Char_ord" "HOL-Library.List_Lexorder"
begin

text \<open>
  Shared vocabulary of the development.  A Go \<open>string\<close> or \<open>[]byte\<close> is a list of
  characters, one \<open>char\<close> per byte.  A Go map is an association list: the order of the
  list stands for the (unspecified) order in which Go iterates over the map.  Instants
  and durations are nanoseconds in \<open>int\<close>; \<open>Sub\<close> is \<open>time.Time.Sub\<close>,
  which saturates at the ends of the 64-bit range.  The collections \<open>model_defs\<close> and
  \<open>table_simps\<close> gather the facts that the component proofs share.
\<close>

named_theorems table_simps \<open>association lists used as Go maps\<close>
named_theorems str_simps \<open>the strings package\<close>

type_synonym bytes = string
type_synonym time = int
type_synonym duration = int

section \<open>Time\<close>

definition max_duration :: int where "max_duration = 2 ^ 63 - 1"
definition min_duration :: int where "min_duration = - (2 ^ 63)"

definition Sub :: "time \<Rightarrow> time \<Rightarrow> duration" where
  "Sub t u = max min_duration (min max_duration (t - u))"

definition Second :: duration where "Second = 1000000000"
definition Minute :: duration where "Minute = 60 * Second"
definition Hour :: duration where "Hour = 60 * Minute"

lemma Second_pos [simp]: "0 < Second" "Second \<noteq> 0"
  by (simp_all add: Second_def)

lemma Sub_self [simp]: "Sub t t = 0"
  by (simp add: Sub_def max_duration_def min_duration_def)

lemma Sub_lt_iff: "min_duration < d \<Longrightarrow> d \<le> max_duration \<Longrightarrow> Sub t u < d \<longleftrightarrow> t - u < d"
  by (auto simp: Sub_def max_def min_def)

lemma Sub_ge_iff: "min_duration < d \<Longrightarrow> d \<le> max_duration \<Longrightarrow> d \<le> Sub t u \<longleftrightarrow> d \<le> t - u"
  by (auto simp: Sub_def max_def min_def)

lemma Sub_le_iff: "min_duration \<le> d \<Longrightarrow> d < max_duration \<Longrightarrow> Sub t u \<le> d \<longleftrightarrow> t - u \<le> d"
  by (auto simp: Sub_def max_def min_def)

lemma Sub_mono: "t \<le> t' \<Longrightarrow> Sub t u \<le> Sub t' u"
  by (auto simp: Sub_def max_def min_def)

lemma Sub_antimono: "u \<le> u' \<Longrightarrow> Sub t u' \<le> Sub t u"
  by (auto simp: Sub_def max_def min_def)

section \<open>Go maps as association lists\<close>

abbreviation keys :: "('k \<times> 'v) list \<Rightarrow> 'k list" where "keys m \<equiv> map fst m"

definition wf_map :: "('k \<times> 'v) list \<Rightarrow> bool" where
  "wf_map m \<longleftrightarrow> distinct (keys m)"

lemma map_of_upd [table_simps]: "map_of (AList.update k v m) = (map_of m)(k \<mapsto> v)"
  by (rule update_conv')

lemma map_of_del [table_simps]: "map_of (AList.delete k m) = (map_of m)(k := None)"
  by (rule delete_conv')

lemma map_of_filter_key [table_simps]:
  "map_of (filter (\<lambda>(k, v). P k) m) k = (if P k then map_of m k else None)"
  by (induction m) auto

lemma wf_map_Nil [simp, table_simps]: "wf_map []"
  by (simp add: wf_map_def)

lemma wf_map_update [table_simps]: "wf_map m \<Longrightarrow> wf_map (AList.update k v m)"
  by (simp add: wf_map_def distinct_update)

lemma wf_map_delete [table_simps]: "wf_map m \<Longrightarrow> wf_map (AList.delete k m)"
  by (simp add: wf_map_def distinct_delete)

lemma wf_map_filter [table_simps]: "wf_map m \<Longrightarrow> wf_map (filter P m)"
  by (simp add: wf_map_def distinct_map_filter)

lemma map_of_filter [table_simps]:
  "wf_map m \<Longrightarrow> map_of (filter P m) k =
     (case map_of m k of None \<Rightarrow> None | Some v \<Rightarrow> if P (k, v) then Some v else None)"
  by (induction m) (auto simp: wf_map_def map_of_eq_None_iff[symmetric] dest: map_of_SomeD split: option.splits)

lemma length_delete_le [table_simps]: "length (AList.delete k m) \<le> length m"
  by (simp add: AList.delete_eq)

lemma length_delete_less [table_simps]:
  "map_of m k = Some v \<Longrightarrow> length (AList.delete k m) < length m"
proof (induction m)
  case (Cons kv m)
  then show ?case
    by (cases kv) (auto simp: AList.delete_eq less_Suc_eq_le split: if_splits)
qed simp

lemma length_update [table_simps]:
  "length (AList.update k v m) = (if k \<in> set (keys m) then length m else Suc (length m))"
  by (induction m) auto

lemma length_update_le: "length (AList.update k v m) \<le> Suc (length m)"
  by (simp add: length_update)

lemma delete_absent [table_simps]: "map_of m k = None \<Longrightarrow> AList.delete k m = m"
  by (induction m) (auto simp: AList.delete_eq split: if_splits)

lemma map_of_None_keys: "map_of m k = None \<longleftrightarrow> k \<notin> set (keys m)"
  by (simp add: map_of_eq_None_iff)

section \<open>Lists\<close>

lemma takeWhile_append_stop: "\<lbrakk>\<forall>x\<in>set xs. P x; \<not> P y\<rbrakk> \<Longrightarrow> takeWhile P (xs @ y # ys) = xs"
  by (induction xs) auto

lemma dropWhile_append_stop: "\<lbrakk>\<forall>x\<in>set xs. P x; \<not> P y\<rbrakk> \<Longrightarrow> dropWhile P (xs @ y # ys) = y # ys"
  by (induction xs) auto

lemma find_Some_mem: "find P xs = Some x \<Longrightarrow> x \<in> set xs \<and> P x"
  by (auto simp: find_Some_iff)

lemma find_None_all: "find P xs = None \<longleftrightarrow> (\<forall>x\<in>set xs. \<not> P x)"
  by (auto simp: find_None_iff)

lemma dropWhile_le_sorted:
  "sorted (map f xs) \<Longrightarrow> dropWhile (\<lambda>x. f x \<le> c) xs = filter (\<lambda>x. c < f x) xs"
proof (induction xs)
  case (Cons x xs)
  show ?case
  proof (cases "f x \<le> c")
    case True
    then show ?thesis using Cons by simp
  next
    case False
    with Cons.prems have "\<forall>y\<in>set (x # xs). c < f y" by auto
    then show ?thesis using False by (simp add: filter_id_conv)
  qed
qed simp

end
