(* ===== verification/Encoding.thy ===== *)
theory Encoding
  imports Go_Strings
begin

text \<open>
  The text encodings of the standard library the program relies on: \<open>encoding/hex\<close>
  (ETags, signatures), \<open>encoding/base64\<close> in its URL and standard alphabets
  (continuation tokens, the encryption key) with its inverse law, and the validity and
  rune-count functions of \<open>unicode/utf8\<close>.
\<close>

section \<open>encoding/hex\<close>

definition hex_digit :: "nat \<Rightarrow> char" where
  "hex_digit n = (if n < 10 then char_of (48 + n) else char_of (87 + n))"

definition hex_val :: "char \<Rightarrow> nat option" where
  "hex_val c = (let n = (of_char c :: nat) in
     if 48 \<le> n \<and> n \<le> 57 then Some (n - 48)
     else if 97 \<le> n \<and> n \<le> 102 then Some (n - 87)
     else if 65 \<le> n \<and> n \<le> 70 then Some (n - 55) else None)"

fun hex_encode :: "bytes \<Rightarrow> string" where
  "hex_encode [] = []"
| "hex_encode (c # cs) = hex_digit (of_char c div 16) # hex_digit (of_char c mod 16) # hex_encode cs"

fun hex_decode :: "string \<Rightarrow> bytes option" where
  "hex_decode [] = Some []"
| "hex_decode [c] = None"
| "hex_decode (a # b # r) =
     (case hex_val a of None \<Rightarrow> None
      | Some x \<Rightarrow> (case hex_val b of None \<Rightarrow> None
          | Some y \<Rightarrow> map_option (\<lambda>cs. char_of (16 * x + y) # cs) (hex_decode r)))"

lemma hex_val_digit: "n < 16 \<Longrightarrow> hex_val (hex_digit n) = Some n"
  by (auto simp: hex_val_def hex_digit_def Let_def of_char_char_of_small)

lemma of_char_lt: "(of_char c :: nat) < 256"
  using nat_of_char_less_256[of c] by simp

lemma hex_decode_encode [simp]: "hex_decode (hex_encode bs) = Some bs"
proof (induction bs)
  case (Cons c cs)
  have "(of_char c :: nat) div 16 < 16" using of_char_lt[of c] by linarith
  with Cons show ?case
    by (simp add: hex_val_digit del: of_char_of)
qed simp

lemma length_hex_encode [simp]: "length (hex_encode bs) = 2 * length bs"
  by (induction bs) auto

lemma hex_encode_inj: "hex_encode a = hex_encode b \<longleftrightarrow> a = b"
  by (metis hex_decode_encode option.inject)

lemma hex_encode_no_quote: "CHR 0x22 \<notin> set (hex_encode bs)"
proof (induction bs)
  case (Cons c cs)
  have "hex_digit n \<noteq> CHR 0x22" if "n < 16" for n
    using that hex_val_digit[of n] by (auto simp: hex_val_def)
  moreover have "(of_char c :: nat) div 16 < 16" using of_char_lt[of c] by linarith
  ultimately show ?case using Cons by (auto simp del: of_char_of) (metis mod_less_divisor zero_less_numeral)+
qed simp

section \<open>encoding/base64\<close>

text \<open>The two alphabets differ in their last two characters, given as a pair.\<close>

type_synonym alphabet = "char \<times> char"

definition URLEncoding :: alphabet where "URLEncoding = (CHR ''-'', CHR ''_'')"
definition StdEncoding :: alphabet where "StdEncoding = (CHR ''+'', CHR ''/'')"

definition b64_digit :: "alphabet \<Rightarrow> nat \<Rightarrow> char" where
  "b64_digit al n =
     (if n < 26 then char_of (65 + n) else if n < 52 then char_of (71 + n)
      else if n < 62 then char_of (n - 4) else if n = 62 then fst al else snd al)"

definition b64_val :: "alphabet \<Rightarrow> char \<Rightarrow> nat option" where
  "b64_val al c = (let n = (of_char c :: nat) in
     if 65 \<le> n \<and> n \<le> 90 then Some (n - 65)
     else if 97 \<le> n \<and> n \<le> 122 then Some (n - 71)
     else if 48 \<le> n \<and> n \<le> 57 then Some (n + 4)
     else if c = fst al then Some 62 else if c = snd al then Some 63 else None)"

fun b64_encode_nats :: "alphabet \<Rightarrow> nat list \<Rightarrow> string" where
  "b64_encode_nats al [] = []"
| "b64_encode_nats al [a] =
     [b64_digit al (a div 4), b64_digit al (a mod 4 * 16), CHR ''='', CHR ''='']"
| "b64_encode_nats al [a, b] =
     [b64_digit al (a div 4), b64_digit al (a mod 4 * 16 + b div 16),
      b64_digit al (b mod 16 * 4), CHR ''='']"
| "b64_encode_nats al (a # b # c # r) =
     b64_digit al (a div 4) # b64_digit al (a mod 4 * 16 + b div 16) #
     b64_digit al (b mod 16 * 4 + c div 64) # b64_digit al (c mod 64) # b64_encode_nats al r"

fun b64_decode_groups :: "alphabet \<Rightarrow> string \<Rightarrow> nat list option" where
  "b64_decode_groups al [] = Some []"
| "b64_decode_groups al (w # x # y # z # r) =
     (case (b64_val al w, b64_val al x) of
        (Some a, Some b) \<Rightarrow>
          (if y = CHR ''='' then (if z = CHR ''='' \<and> r = [] then Some [a * 4 + b div 16] else None)
           else case b64_val al y of
               None \<Rightarrow> None
             | Some c \<Rightarrow>
                 (if z = CHR ''='' then
                    (if r = [] then Some [a * 4 + b div 16, b mod 16 * 16 + c div 4] else None)
                  else case b64_val al z of
                      None \<Rightarrow> None
                    | Some d \<Rightarrow> map_option
                        (\<lambda>t. (a * 4 + b div 16) # (b mod 16 * 16 + c div 4) # (c mod 4 * 64 + d) # t)
                        (b64_decode_groups al r)))
      | _ \<Rightarrow> None)"
| "b64_decode_groups al _ = None"

definition b64_encode :: "alphabet \<Rightarrow> bytes \<Rightarrow> string" where
  "b64_encode al s = b64_encode_nats al (map of_char s)"

text \<open>\<open>DecodeString\<close> skips line breaks wherever they stand.\<close>

definition b64_decode :: "alphabet \<Rightarrow> string \<Rightarrow> bytes option" where
  "b64_decode al s =
     map_option (map char_of) (b64_decode_groups al (filter (\<lambda>c. c \<noteq> CHR 0x0A \<and> c \<noteq> CHR 0x0D) s))"

definition ok_alphabet :: "alphabet \<Rightarrow> bool" where
  "ok_alphabet al \<longleftrightarrow> al = URLEncoding \<or> al = StdEncoding"

lemma ok_alphabets [simp]: "ok_alphabet URLEncoding" "ok_alphabet StdEncoding"
  by (simp_all add: ok_alphabet_def)

lemma b64_val_digit: "\<lbrakk>ok_alphabet al; n < 64\<rbrakk> \<Longrightarrow> b64_val al (b64_digit al n) = Some n"
  by (auto simp: b64_val_def b64_digit_def Let_def of_char_char_of_small ok_alphabet_def
      URLEncoding_def StdEncoding_def)

lemma b64_digit_plain:
  assumes "ok_alphabet al" "n < 64"
  shows "b64_digit al n \<noteq> CHR ''=''" "b64_digit al n \<noteq> CHR 0x0A" "b64_digit al n \<noteq> CHR 0x0D"
  using b64_val_digit[OF assms] assms(1)
  by (auto simp: b64_val_def ok_alphabet_def URLEncoding_def StdEncoding_def split: if_splits)

lemma b64_decode_encode_nats:
  "\<lbrakk>ok_alphabet al; \<forall>x\<in>set ns. x < 256\<rbrakk> \<Longrightarrow> b64_decode_groups al (b64_encode_nats al ns) = Some ns"
proof (induction al ns rule: b64_encode_nats.induct)
  case (2 al a)
  then have "a div 4 < 64" "a mod 4 * 16 < 64" by auto
  with 2 show ?case by (simp add: b64_val_digit)
next
  case (3 al a b)
  then have "a div 4 < 64" "a mod 4 * 16 + b div 16 < 64" "b mod 16 * 4 < 64" by auto
  moreover have "a div 4 * 4 + (a mod 4 * 16 + b div 16) div 16 = a"
    using 3 by auto
  moreover have "(a mod 4 * 16 + b div 16) mod 16 * 16 + b mod 16 * 4 div 4 = b"
    using 3 by auto
  ultimately show ?case using 3 by (simp add: b64_val_digit b64_digit_plain del: div_mult_self_is_m nonzero_mult_div_cancel_right)
next
  case (4 al a b c r)
  then have b: "a < 256" "b < 256" "c < 256" by auto
  then have "a div 4 < 64" "a mod 4 * 16 + b div 16 < 64" "b mod 16 * 4 + c div 64 < 64" "c mod 64 < 64"
    by auto
  moreover have "a div 4 * 4 + (a mod 4 * 16 + b div 16) div 16 = a"
    using b by auto
  moreover have "(a mod 4 * 16 + b div 16) mod 16 * 16 + (b mod 16 * 4 + c div 64) div 4 = b"
    using b by auto
  moreover have "(b mod 16 * 4 + c div 64) mod 4 * 64 + c mod 64 = c"
    using b by auto
  ultimately show ?case using 4 by (simp add: b64_val_digit b64_digit_plain)
qed simp

lemma b64_encode_nats_no_breaks:
  "\<lbrakk>ok_alphabet al; \<forall>x\<in>set ns. x < 256\<rbrakk> \<Longrightarrow>
     filter (\<lambda>c. c \<noteq> CHR 0x0A \<and> c \<noteq> CHR 0x0D) (b64_encode_nats al ns) = b64_encode_nats al ns"
proof (induction al ns rule: b64_encode_nats.induct)
  case (2 al a)
  then have "a div 4 < 64" "a mod 4 * 16 < 64" by auto
  with 2 show ?case by (simp add: b64_digit_plain)
next
  case (3 al a b)
  then have "a div 4 < 64" "a mod 4 * 16 + b div 16 < 64" "b mod 16 * 4 < 64" by auto
  with 3 show ?case by (simp add: b64_digit_plain)
next
  case (4 al a b c r)
  then have "a div 4 < 64" "a mod 4 * 16 + b div 16 < 64" "b mod 16 * 4 + c div 64 < 64" "c mod 64 < 64"
    by auto
  with 4 show ?case by (simp add: b64_digit_plain)
qed simp

lemma b64_decode_encode: "ok_alphabet al \<Longrightarrow> b64_decode al (b64_encode al s) = Some s"
proof -
  assume "ok_alphabet al"
  moreover have "\<forall>x\<in>set (map of_char s). x < (256::nat)" by (auto simp: of_char_lt)
  moreover have "map char_of (map of_char s :: nat list) = s" by (induction s) auto
  ultimately show ?thesis
    by (simp add: b64_decode_def b64_encode_def b64_encode_nats_no_breaks b64_decode_encode_nats del: map_map)
qed

lemma b64_encode_empty_iff: "b64_encode al s = [] \<longleftrightarrow> s = []"
proof -
  have "b64_encode_nats al ns = [] \<longleftrightarrow> ns = []" for ns
    by (cases "(al, ns)" rule: b64_encode_nats.cases) auto
  then show ?thesis by (simp add: b64_encode_def)
qed

text \<open>\<open>RawURLEncoding\<close> leaves the padding out.\<close>

definition RawURLEncode :: "bytes \<Rightarrow> string" where
  "RawURLEncode s = TrimRight (b64_encode URLEncoding s) CHR ''=''"

lemma TrimRight_append: "TrimRight ys c \<noteq> [] \<Longrightarrow> TrimRight (xs @ ys) c = xs @ TrimRight ys c"
  by (auto simp: TrimRight_def dropWhile_append)

lemma TrimRight_snoc: "x \<noteq> c \<Longrightarrow> TrimRight (xs @ [x]) c = xs @ [x]"
  by (simp add: TrimRight_def)

lemma length_b64_raw:
  "\<lbrakk>ok_alphabet al; \<forall>x\<in>set ns. x < 256\<rbrakk> \<Longrightarrow>
     length (TrimRight (b64_encode_nats al ns) CHR ''='') = length ns div 3 * 4 + (length ns mod 3 * 8 + 5) div 6"
proof (induction al ns rule: b64_encode_nats.induct)
  case (1 al)
  then show ?case by (simp add: TrimRight_def)
next
  case (2 al a)
  then have "a mod 4 * 16 < 64" by auto
  with 2 show ?case by (simp add: TrimRight_def b64_digit_plain)
next
  case (3 al a b)
  then have "b mod 16 * 4 < 64" by auto
  with 3 show ?case by (simp add: TrimRight_def b64_digit_plain)
next
  case (4 al a b c r)
  let ?h = "[b64_digit al (a div 4), b64_digit al (a mod 4 * 16 + b div 16),
      b64_digit al (b mod 16 * 4 + c div 64), b64_digit al (c mod 64)]"
  have IH: "length (TrimRight (b64_encode_nats al r) CHR ''='') = length r div 3 * 4 + (length r mod 3 * 8 + 5) div 6"
    using 4 by simp
  have len: "length (TrimRight (?h @ b64_encode_nats al r) CHR ''='') = 4 + (length r div 3 * 4 + (length r mod 3 * 8 + 5) div 6)"
  proof (cases "r = []")
    case True
    have "c mod 64 < 64" by simp
    then have "b64_digit al (c mod 64) \<noteq> CHR ''=''" using b64_digit_plain(1) 4 by blast
    with True show ?thesis by (simp add: TrimRight_def)
  next
    case False
    have "r \<noteq> [] \<Longrightarrow> 0 < length r div 3 * 4 + (length r mod 3 * 8 + 5) div 6"
      by (cases "length r < 3"; cases r) auto
    then have "TrimRight (b64_encode_nats al r) CHR ''='' \<noteq> []" using IH False by auto
    then show ?thesis using IH by (subst TrimRight_append) simp_all
  qed
  have enc: "b64_encode_nats al (a # b # c # r) = ?h @ b64_encode_nats al r" by simp
  have "length (a # b # c # r) div 3 = length r div 3 + 1" "length (a # b # c # r) mod 3 = length r mod 3"
    by simp_all
  then show ?case unfolding enc len by simp
qed

lemma length_RawURLEncode: "length (RawURLEncode s) = length s div 3 * 4 + (length s mod 3 * 8 + 5) div 6"
  using length_b64_raw[of URLEncoding "map of_char s"] by (auto simp: RawURLEncode_def b64_encode_def of_char_lt)

section \<open>net/url escaping\<close>

definition is_unreserved :: "char \<Rightarrow> bool" where
  "is_unreserved c = (let n = (of_char c :: nat) in
     (48 \<le> n \<and> n \<le> 57) \<or> (65 \<le> n \<and> n \<le> 90) \<or> (97 \<le> n \<and> n \<le> 122) \<or> c \<in> set ''-_.~'')"

definition upper_hex :: "nat \<Rightarrow> char" where
  "upper_hex n = (if n < 10 then char_of (48 + n) else char_of (55 + n))"

definition percent :: "char \<Rightarrow> string" where
  "percent c = [CHR ''%'', upper_hex (of_char c div 16), upper_hex (of_char c mod 16)]"

definition QueryEscape :: "string \<Rightarrow> string" where
  "QueryEscape s = concat (map (\<lambda>c.
     if is_unreserved c then [c] else if c = CHR '' '' then ''+'' else percent c) s)"

text \<open>A path segment also keeps \<open>$ & + : = @\<close>.\<close>

definition PathEscape :: "string \<Rightarrow> string" where
  "PathEscape s = concat (map (\<lambda>c. if is_unreserved c \<or> c \<in> set ''$&+:=@'' then [c] else percent c) s)"

text \<open>\<open>URL.EscapedPath\<close> of a path that was set by hand: everything but \<open>?\<close> of the
  reserved characters is kept.\<close>

definition EscapePath :: "string \<Rightarrow> string" where
  "EscapePath s = concat (map (\<lambda>c. if is_unreserved c \<or> c \<in> set ''$&+,/:;=@'' then [c] else percent c) s)"

fun PathUnescape :: "string \<Rightarrow> string option" where
  "PathUnescape [] = Some []"
| "PathUnescape (c # r) =
     (if c = CHR ''%'' then
        (case r of
           a # b # r' \<Rightarrow>
             (case (hex_val a, hex_val b) of
                (Some x, Some y) \<Rightarrow> map_option (\<lambda>t. char_of (16 * x + y) # t) (PathUnescape r')
              | _ \<Rightarrow> None)
         | _ \<Rightarrow> None)
      else map_option (\<lambda>t. c # t) (PathUnescape r))"

lemma upper_hex_val: "n < 16 \<Longrightarrow> hex_val (upper_hex n) = Some n"
  by (auto simp: hex_val_def upper_hex_def Let_def of_char_char_of_small)

lemma PathUnescape_percent: "PathUnescape (percent c @ s) = map_option (\<lambda>t. c # t) (PathUnescape s)"
proof -
  have "(of_char c :: nat) div 16 < 16" using of_char_lt[of c] by linarith
  then show ?thesis by (simp add: percent_def upper_hex_val del: of_char_of)
qed

lemma PathUnescape_escape: "PathUnescape (PathEscape s) = Some s"
proof (induction s)
  case Nil
  then show ?case by (simp add: PathEscape_def)
next
  case (Cons c s)
  have np: "is_unreserved c \<or> c \<in> set ''$&+:=@'' \<Longrightarrow> c \<noteq> CHR ''%''"
    by (auto simp: is_unreserved_def)
  have "PathEscape (c # s) = (if is_unreserved c \<or> c \<in> set ''$&+:=@'' then [c] else percent c) @ PathEscape s"
    by (simp add: PathEscape_def)
  then show ?case using Cons np PathUnescape_percent[of c "PathEscape s"] by auto
qed

lemma PathUnescape_EscapePath: "PathUnescape (EscapePath s) = Some s"
proof (induction s)
  case Nil
  then show ?case by (simp add: EscapePath_def)
next
  case (Cons c s)
  have np: "is_unreserved c \<or> c \<in> set ''$&+,/:;=@'' \<Longrightarrow> c \<noteq> CHR ''%''"
    by (auto simp: is_unreserved_def)
  have "EscapePath (c # s) = (if is_unreserved c \<or> c \<in> set ''$&+,/:;=@'' then [c] else percent c) @ EscapePath s"
    by (simp add: EscapePath_def)
  then show ?case using Cons np PathUnescape_percent[of c "EscapePath s"] by auto
qed

section \<open>unicode/utf8\<close>

definition cont :: "char \<Rightarrow> bool" where
  "cont c = (let n = (of_char c :: nat) in 128 \<le> n \<and> n \<le> 191)"

definition byte_in :: "nat \<Rightarrow> nat \<Rightarrow> char \<Rightarrow> bool" where
  "byte_in lo hi c = (let n = (of_char c :: nat) in lo \<le> n \<and> n \<le> hi)"

text \<open>The width of the well-formed rune at the head of the string, 0 when there is none.\<close>

fun rune_width :: "string \<Rightarrow> nat" where
  "rune_width [] = 0"
| "rune_width (a # r) =
     (if byte_in 0 127 a then 1
      else if byte_in 194 223 a then (case r of b # _ \<Rightarrow> if cont b then 2 else 0 | _ \<Rightarrow> 0)
      else if byte_in 224 239 a then
        (case r of b # c # _ \<Rightarrow>
            if cont b \<and> cont c \<and> (of_char a = (224::nat) \<longrightarrow> byte_in 160 191 b)
                \<and> (of_char a = (237::nat) \<longrightarrow> byte_in 128 159 b) then 3 else 0
          | _ \<Rightarrow> 0)
      else if byte_in 240 244 a then
        (case r of b # c # d # _ \<Rightarrow>
            if cont b \<and> cont c \<and> cont d \<and> (of_char a = (240::nat) \<longrightarrow> byte_in 144 191 b)
                \<and> (of_char a = (244::nat) \<longrightarrow> byte_in 128 143 b) then 4 else 0
          | _ \<Rightarrow> 0)
      else 0)"

function ValidString :: "string \<Rightarrow> bool" where
  "ValidString s =
     (if s = [] then True else if rune_width s = 0 then False else ValidString (drop (rune_width s) s))"
  by pat_completeness auto
termination
  by (relation "measure length") (auto simp: length_greater_0_conv)

function RuneCount :: "string \<Rightarrow> nat" where
  "RuneCount s = (if s = [] then 0 else Suc (RuneCount (drop (max 1 (rune_width s)) s)))"
  by pat_completeness auto
termination
  by (relation "measure length") auto

declare ValidString.simps [simp del] RuneCount.simps [simp del] rune_width.simps [simp del]

lemma ValidString_Nil [simp]: "ValidString []"
  by (simp add: ValidString.simps)

lemma RuneCount_Nil [simp]: "RuneCount [] = 0"
  by (simp add: RuneCount.simps)

lemma rune_width_ascii: "(of_char a :: nat) < 128 \<Longrightarrow> rune_width (a # r) = 1"
  by (simp add: rune_width.simps byte_in_def Let_def)

lemma ValidString_ascii: "\<forall>c\<in>set s. (of_char c :: nat) < 128 \<Longrightarrow> ValidString s"
proof (induction s)
  case (Cons a s)
  then show ?case by (subst ValidString.simps) (simp add: rune_width_ascii)
qed simp

lemma RuneCount_le_length: "RuneCount s \<le> length s"
proof (induction s rule: RuneCount.induct)
  case (1 s)
  show ?case
  proof (cases "s = []")
    case False
    with "1.IH" have "RuneCount (drop (max 1 (rune_width s)) s) \<le> length s - max 1 (rune_width s)" by simp
    also have "\<dots> < length s" using False by (simp add: max_def)
    finally show ?thesis using False by (subst RuneCount.simps) simp
  qed simp
qed

lemma RuneCount_pos: "s \<noteq> [] \<Longrightarrow> 0 < RuneCount s"
  by (subst RuneCount.simps) simp

lemma RuneCount_ascii: "\<forall>c\<in>set s. (of_char c :: nat) < 128 \<Longrightarrow> RuneCount s = length s"
proof (induction s)
  case (Cons a s)
  then show ?case by (subst RuneCount.simps) (simp add: rune_width_ascii)
qed simp

end
