(* ===== verification/Library.thy ===== *)
theory Library
  imports Encoding
begin

text \<open>
  The code the program calls and that is not under \<open>src/\<close>, as parameters: the
  record \<open>lib\<close> holds the digest, cipher, codec and parsing functions, the record
  \<open>bolt\<close> the operations of the embedded key-value store.  The predicates
  \<open>bolt_ok\<close>, \<open>cipher_ok\<close>, \<open>user_codec_ok\<close>, \<open>meta_codec_ok\<close> and
  \<open>tags_codec_ok\<close> state the documented behaviour the lemmas rely on.
\<close>

section \<open>Data the codecs carry\<close>

record ACLRule =
  Effect :: string
  Buckets :: "string list"
  Actions :: "string list"

text \<open>\<open>CreatedAt\<close> is \<open>None\<close> for Go's zero time.\<close>

record User =
  AccessKeyID :: string
  EncryptedSecret :: string
  ACL :: "ACLRule list"
  CreatedAt :: "time option"
  SecretAccessKey :: string

type_synonym meta_map = "(string \<times> string) list"

record ObjectTag =
  TagKey :: string
  TagValue :: string

record BucketCORSRule =
  RuleID :: string
  AllowedOrigins :: "string list"
  AllowedMethods :: "string list"
  AllowedHeaders :: "string list"
  ExposeHeaders :: "string list"
  MaxAgeSeconds :: int

record grant =
  granteeURI :: string
  grantPermission :: string

text \<open>A parsed IP address: its canonical text and the classes \<open>net.IP\<close> reports.\<close>

record ip_addr =
  ip_string :: string
  ip_global_unicast :: bool
  ip_private :: bool
  ip_cgnat :: bool

record MultipartUpload =
  mpUploadID :: string
  mpBucket :: string
  mpKey :: string
  mpInitiated :: time
  mpMetadata :: meta_map

record lib =
  md5 :: "bytes \<Rightarrow> bytes"
  crc32 :: "bytes \<Rightarrow> bytes"
  sha256 :: "bytes \<Rightarrow> bytes"
  hmac :: "bytes \<Rightarrow> bytes \<Rightarrow> bytes"
  gcm_seal :: "bytes \<Rightarrow> bytes \<Rightarrow> bytes \<Rightarrow> bytes"
  gcm_open :: "bytes \<Rightarrow> bytes \<Rightarrow> bytes \<Rightarrow> bytes option"
  user_enc :: "User \<Rightarrow> bytes option"
  user_dec :: "bytes \<Rightarrow> User option"
  meta_enc :: "meta_map \<Rightarrow> bytes option"
  meta_dec :: "bytes \<Rightarrow> meta_map option"
  tags_enc :: "ObjectTag list \<Rightarrow> bytes option"
  tags_dec :: "bytes \<Rightarrow> ObjectTag list option"
  cors_enc :: "BucketCORSRule list \<Rightarrow> bytes option"
  cors_dec :: "bytes \<Rightarrow> BucketCORSRule list option"
  canned_enc :: "string \<Rightarrow> bytes option"
  canned_dec :: "bytes \<Rightarrow> string option"
  manifest_enc :: "MultipartUpload \<Rightarrow> bytes option"
  manifest_dec :: "bytes \<Rightarrow> MultipartUpload option"
  ParseIP :: "string \<Rightarrow> ip_addr option"
  url_Host :: "string \<Rightarrow> string option"
  url_Scheme :: "string \<Rightarrow> string"
  ParseAmzDate :: "string \<Rightarrow> time option"
  FormatAmzDate :: "time \<Rightarrow> string"
  ParseHTTPTime :: "string \<Rightarrow> time option"
  FormatHTTPTime :: "time \<Rightarrow> string"
  ParseRFC1123 :: "string \<Rightarrow> time option"
  FormatRFC3339 :: "time \<Rightarrow> string"
  DetectContentType :: "bytes \<Rightarrow> string"
  delete_dec_json :: "bytes \<Rightarrow> (string list \<times> bool) option"
  delete_dec_xml :: "bytes \<Rightarrow> (string list \<times> bool) option"
  tags_dec_xml :: "bytes \<Rightarrow> ObjectTag list option"
  tags_dec_json :: "bytes \<Rightarrow> ObjectTag list option"
  cors_dec_xml :: "bytes \<Rightarrow> BucketCORSRule list option"
  acl_dec_json :: "bytes \<Rightarrow> string option"
  acl_dec_xml :: "bytes \<Rightarrow> grant list option"
  parts_dec_json :: "bytes \<Rightarrow> (int \<times> string) list option"
  parts_dec_xml :: "bytes \<Rightarrow> (int \<times> string) list option"
  login_dec :: "bytes \<Rightarrow> (string \<times> string) option"
  FormatMillis :: "time \<Rightarrow> string"
  ParseSeconds :: "string \<Rightarrow> duration option"

section \<open>Documented behaviour of the parameters\<close>

definition cipher_ok :: "lib \<Rightarrow> bool" where
  "cipher_ok L \<longleftrightarrow> (\<forall>k n p. gcm_open L k n (gcm_seal L k n p) = Some p)"

text \<open>
  JSON carries valid UTF-8 only, and that is what decoding gives; a secret is never
  written.  A \<open>User\<close> fails to encode when its year has more than four digits.
\<close>

definition valid_rule :: "ACLRule \<Rightarrow> bool" where
  "valid_rule a \<longleftrightarrow> ValidString (Effect a) \<and> list_all ValidString (Buckets a) \<and> list_all ValidString (Actions a)"

definition valid_user :: "User \<Rightarrow> bool" where
  "valid_user u \<longleftrightarrow> ValidString (AccessKeyID u) \<and> ValidString (EncryptedSecret u) \<and> list_all valid_rule (ACL u)"

definition user_codec_ok :: "lib \<Rightarrow> bool" where
  "user_codec_ok L \<longleftrightarrow>
     (\<forall>u d. valid_user u \<and> user_enc L u = Some d \<longrightarrow> user_dec L d = Some (u\<lparr>SecretAccessKey := []\<rparr>))
   \<and> (\<forall>d u. user_dec L d = Some u \<longrightarrow> valid_user u)"

lemma user_dec_enc: "\<lbrakk>user_codec_ok L; valid_user u; user_enc L u = Some d\<rbrakk> \<Longrightarrow> user_dec L d = Some (u\<lparr>SecretAccessKey := []\<rparr>)"
  unfolding user_codec_ok_def by blast

lemma user_dec_valid: "\<lbrakk>user_codec_ok L; user_dec L d = Some u\<rbrakk> \<Longrightarrow> valid_user u"
  unfolding user_codec_ok_def by blast

definition valid_meta :: "meta_map \<Rightarrow> bool" where
  "valid_meta m \<longleftrightarrow> (\<forall>(k, v)\<in>set m. ValidString k \<and> ValidString v)"

definition meta_codec_ok :: "lib \<Rightarrow> bool" where
  "meta_codec_ok L \<longleftrightarrow>
     (\<forall>m. valid_meta m \<longrightarrow> (\<exists>d m'. meta_enc L m = Some d \<and> meta_dec L d = Some m' \<and> map_of m' = map_of m))"

definition tags_codec_ok :: "lib \<Rightarrow> bool" where
  "tags_codec_ok L \<longleftrightarrow>
     (\<forall>ts. (\<forall>t\<in>set ts. ValidString (TagKey t) \<and> ValidString (TagValue t))
        \<longrightarrow> (\<exists>d. tags_enc L ts = Some d \<and> tags_dec L d = Some ts))"

definition canned_codec_ok :: "lib \<Rightarrow> bool" where
  "canned_codec_ok L \<longleftrightarrow>
     (\<forall>s. ValidString s \<longrightarrow> (\<exists>d. canned_enc L s = Some d \<and> canned_dec L d = Some s))"

definition valid_cors :: "BucketCORSRule \<Rightarrow> bool" where
  "valid_cors c \<longleftrightarrow> ValidString (RuleID c)
     \<and> list_all ValidString (AllowedOrigins c @ AllowedMethods c @ AllowedHeaders c @ ExposeHeaders c)"

definition cors_codec_ok :: "lib \<Rightarrow> bool" where
  "cors_codec_ok L \<longleftrightarrow>
     (\<forall>rs. list_all valid_cors rs \<longrightarrow> (\<exists>d. cors_enc L rs = Some d \<and> cors_dec L d = Some rs))"

definition manifest_codec_ok :: "lib \<Rightarrow> bool" where
  "manifest_codec_ok L \<longleftrightarrow>
     (\<forall>u. valid_meta (mpMetadata u) \<and> ValidString (mpKey u) \<and> ValidString (mpBucket u) \<and> ValidString (mpUploadID u) \<longrightarrow>
       (\<exists>d m'. manifest_enc L u = Some d \<and> manifest_dec L d = Some (u\<lparr>mpMetadata := m'\<rparr>)
          \<and> map_of m' = map_of (mpMetadata u) \<and> valid_meta m'))"

text \<open>
  The compact time of a signature (\<open>20060102T150405Z\<close>) has 16 characters and loses the
  fraction of the second; \<open>year_10000\<close> is the end of the four-digit years.  \<open>ParseSeconds s\<close> is
  \<open>time.ParseDuration(s + "s")\<close>.
\<close>

definition year_10000 :: time where "year_10000 = 253402300800 * Second"

definition amz_time_ok :: "lib \<Rightarrow> bool" where
  "amz_time_ok L \<longleftrightarrow>
     (\<forall>t. 0 \<le> t \<and> t < year_10000 \<longrightarrow>
        length (FormatAmzDate L t) = 16
        \<and> (\<forall>c\<in>set (FormatAmzDate L t). is_digit c \<or> c = CHR ''T'' \<or> c = CHR ''Z'')
        \<and> ParseAmzDate L (FormatAmzDate L t) = Some (t - t mod Second))"

definition hmac_ok :: "lib \<Rightarrow> bool" where
  "hmac_ok L \<longleftrightarrow> (\<forall>k m. hmac L k m \<noteq> [])"

definition seconds_ok :: "lib \<Rightarrow> bool" where
  "seconds_ok L \<longleftrightarrow> (\<forall>n. 0 \<le> n \<and> n * Second \<le> max_duration \<longrightarrow> ParseSeconds L (Itoa n) = Some (n * Second))"

section \<open>The bolt database\<close>

text \<open>
  A database is a set of named buckets of key-value pairs kept in key order.  Writers
  run one at a time; a transaction that fails leaves the database as it was, so a write
  returns \<open>None\<close> on an error and the new database otherwise.
\<close>

record 'db bolt =
  bget :: "string \<Rightarrow> bytes \<Rightarrow> 'db \<Rightarrow> bytes option"
  bput :: "string \<Rightarrow> bytes \<Rightarrow> bytes \<Rightarrow> 'db \<Rightarrow> 'db option"
  bdelete :: "string \<Rightarrow> bytes \<Rightarrow> 'db \<Rightarrow> 'db option"
  bitems :: "string \<Rightarrow> 'db \<Rightarrow> (bytes \<times> bytes) list"

definition bolt_ok :: "'db bolt \<Rightarrow> bool" where
  "bolt_ok B \<longleftrightarrow>
     (\<forall>b k v d d'. bput B b k v d = Some d' \<longrightarrow>
        (\<forall>b' k'. bget B b' k' d' = (if b' = b \<and> k' = k then Some v else bget B b' k' d)))
   \<and> (\<forall>b k d d'. bdelete B b k d = Some d' \<longrightarrow>
        (\<forall>b' k'. bget B b' k' d' = (if b' = b \<and> k' = k then None else bget B b' k' d)))
   \<and> (\<forall>b d. sorted (map fst (bitems B b d)) \<and> distinct (map fst (bitems B b d))
        \<and> map_of (bitems B b d) = (\<lambda>k. bget B b k d))"

lemma bolt_put: "\<lbrakk>bolt_ok B; bput B b k v d = Some d'\<rbrakk> \<Longrightarrow>
    bget B b' k' d' = (if b' = b \<and> k' = k then Some v else bget B b' k' d)"
  by (auto simp: bolt_ok_def)

lemma bolt_delete: "\<lbrakk>bolt_ok B; bdelete B b k d = Some d'\<rbrakk> \<Longrightarrow>
    bget B b' k' d' = (if b' = b \<and> k' = k then None else bget B b' k' d)"
  by (auto simp: bolt_ok_def)

lemma bolt_items:
  assumes "bolt_ok B"
  shows "sorted (map fst (bitems B b d))" "distinct (map fst (bitems B b d))"
    "map_of (bitems B b d) k = bget B b k d"
  using assms by (auto simp: bolt_ok_def)

lemma bolt_items_mem: "bolt_ok B \<Longrightarrow> (k, v) \<in> set (bitems B b d) \<longleftrightarrow> bget B b k d = Some v"
  using bolt_items[of B b d] by (metis map_of_eq_Some_iff)

text \<open>Two databases with the same content have the same items.\<close>

lemma bolt_items_eqI:
  assumes "bolt_ok B" "\<And>k. bget B b k d = bget B b k d'"
  shows "bitems B b d = bitems B b d'"
proof -
  have ks: "set (map fst (bitems B b x)) = {k. bget B b k x \<noteq> None}" for x
    using bolt_items_mem[OF assms(1), of _ _ b x] by force
  have "map fst (bitems B b d) = map fst (bitems B b d')"
    using bolt_items(1,2)[OF assms(1)] ks assms(2) by (intro sorted_distinct_set_unique) auto
  moreover have "map snd (bitems B b x) = map (\<lambda>k. the (bget B b k x)) (map fst (bitems B b x))" for x
    using bolt_items_mem[OF assms(1), of _ _ b x] by force
  ultimately show ?thesis
    using assms(2) by (metis (no_types, lifting) map_cong zip_map_fst_snd)
qed

end
