(* ===== verification/Reference_Lib.thy ===== *)
theory Reference_Lib
  imports Library
begin

text \<open>
  One instance of the parameters of \<open>Library\<close>: executable codecs over self-delimiting
  strings and a store that is an association list.  It shows that the documented behaviour
  the lemmas assume can hold, and lets concrete runs of the program be evaluated.
\<close>

section \<open>Self-delimiting encodings\<close>

fun put_str :: "string \<Rightarrow> bytes" where
  "put_str [] = ''.''"
| "put_str (c # s) = CHR ''x'' # c # put_str s"

fun get_str :: "bytes \<Rightarrow> (string \<times> bytes) option" where
  "get_str [] = None"
| "get_str [x] = (if x = CHR ''.'' then Some ([], []) else None)"
| "get_str (x # c # b) =
     (if x = CHR ''.'' then Some ([], c # b)
      else case get_str b of None \<Rightarrow> None | Some (s, r) \<Rightarrow> Some (c # s, r))"

lemma get_put_str [simp]: "get_str (put_str s @ r) = Some (s, r)"
proof (induction s)
  case Nil
  then show ?case by (cases r) simp_all
qed simp

fun put_list :: "('a \<Rightarrow> bytes) \<Rightarrow> 'a list \<Rightarrow> bytes" where
  "put_list p [] = ''.''"
| "put_list p (x # xs) = CHR ''x'' # p x @ put_list p xs"

fun get_list :: "(bytes \<Rightarrow> ('a \<times> bytes) option) \<Rightarrow> nat \<Rightarrow> bytes \<Rightarrow> ('a list \<times> bytes) option" where
  "get_list g 0 b = None"
| "get_list g (Suc n) [] = None"
| "get_list g (Suc n) (c # b) =
     (if c = CHR ''.'' then Some ([], b)
      else case g b of
          None \<Rightarrow> None
        | Some (x, r) \<Rightarrow> (case get_list g n r of None \<Rightarrow> None | Some (xs, r') \<Rightarrow> Some (x # xs, r')))"

abbreviation get_all :: "(bytes \<Rightarrow> ('a \<times> bytes) option) \<Rightarrow> bytes \<Rightarrow> ('a list \<times> bytes) option" where
  "get_all g b \<equiv> get_list g (length b) b"

lemma get_put_list:
  "\<lbrakk>\<And>x r. x \<in> set xs \<Longrightarrow> g (p x @ r) = Some (x, r); length xs < n\<rbrakk> \<Longrightarrow> get_list g n (put_list p xs @ r) = Some (xs, r)"
proof (induction xs arbitrary: n)
  case Nil
  then show ?case by (cases n) simp_all
next
  case (Cons x xs)
  then show ?case by (cases n) simp_all
qed

lemma length_put_list: "length xs < length (put_list p xs)"
  by (induction xs) simp_all

lemma get_put_all:
  "(\<And>x r. x \<in> set xs \<Longrightarrow> g (p x @ r) = Some (x, r)) \<Longrightarrow> get_all g (put_list p xs @ r) = Some (xs, r)"
  using length_put_list[of xs p] by (intro get_put_list) simp_all

definition put_int :: "int \<Rightarrow> bytes" where
  "put_int i = put_str ((if i < 0 then CHR ''-'' else CHR ''+'') # replicate (nat \<bar>i\<bar>) CHR ''1'')"

definition get_int :: "bytes \<Rightarrow> (int \<times> bytes) option" where
  "get_int b = (case get_str b of
       Some (c # ds, r) \<Rightarrow> Some (if c = CHR ''-'' then - int (length ds) else int (length ds), r)
     | _ \<Rightarrow> None)"

lemma get_put_int [simp]: "get_int (put_int i @ r) = Some (i, r)"
  by (auto simp: get_int_def put_int_def)

definition whole_input :: "('a \<times> bytes) option \<Rightarrow> 'a option" where
  "whole_input x = (case x of Some (a, []) \<Rightarrow> Some a | _ \<Rightarrow> None)"

lemma whole_input_Some [simp]: "whole_input (Some (a, [])) = Some a"
  by (simp add: whole_input_def)

definition put_pair :: "string \<times> string \<Rightarrow> bytes" where
  "put_pair kv = put_str (fst kv) @ put_str (snd kv)"

definition get_pair :: "bytes \<Rightarrow> ((string \<times> string) \<times> bytes) option" where
  "get_pair b = (case get_str b of None \<Rightarrow> None | Some (k, r) \<Rightarrow>
     (case get_str r of None \<Rightarrow> None | Some (v, r') \<Rightarrow> Some ((k, v), r')))"

lemma get_put_pair [simp]: "get_pair (put_pair kv @ r) = Some (kv, r)"
  by (simp add: get_pair_def put_pair_def)

section \<open>The program's records\<close>

definition put_strs :: "string list \<Rightarrow> bytes" where "put_strs = put_list put_str"
definition get_strs :: "bytes \<Rightarrow> (string list \<times> bytes) option" where "get_strs b = get_all get_str b"

lemma get_put_strs [simp]: "get_strs (put_strs xs @ r) = Some (xs, r)"
  unfolding get_strs_def put_strs_def by (rule get_put_all) simp

text \<open>A record is written as the list of its fields.\<close>

definition put_meta :: "meta_map \<Rightarrow> bytes" where "put_meta = put_list put_pair"
definition get_meta :: "bytes \<Rightarrow> (meta_map \<times> bytes) option" where "get_meta b = get_all get_pair b"

lemma get_put_meta [simp]: "get_meta (put_meta m @ r) = Some (m, r)"
  unfolding get_meta_def put_meta_def by (rule get_put_all) simp

definition put_rule :: "ACLRule \<Rightarrow> bytes" where
  "put_rule a = put_str (Effect a) @ put_strs (Buckets a) @ put_strs (Actions a)"

definition get_rule :: "bytes \<Rightarrow> (ACLRule \<times> bytes) option" where
  "get_rule b = (case get_str b of None \<Rightarrow> None | Some (e, r) \<Rightarrow>
     (case get_strs r of None \<Rightarrow> None | Some (bs, r') \<Rightarrow>
     (case get_strs r' of None \<Rightarrow> None | Some (acts, r'') \<Rightarrow> Some (\<lparr>Effect = e, Buckets = bs, Actions = acts\<rparr>, r''))))"

lemma get_put_rule [simp]: "get_rule (put_rule a @ r) = Some (a, r)"
  by (simp add: get_rule_def put_rule_def)

definition put_time :: "time option \<Rightarrow> bytes" where
  "put_time t = (case t of None \<Rightarrow> put_list put_int [] | Some i \<Rightarrow> put_list put_int [i])"

definition get_time :: "bytes \<Rightarrow> (time option \<times> bytes) option" where
  "get_time b = (case get_all get_int b of Some ([], r) \<Rightarrow> Some (None, r) | Some (i # _, r) \<Rightarrow> Some (Some i, r) | None \<Rightarrow> None)"

lemma get_put_time [simp]: "get_time (put_time t @ r) = Some (t, r)"
proof -
  have l: "get_all get_int (put_list put_int xs @ r) = Some (xs, r)" for xs by (rule get_put_all) simp
  show ?thesis using l[of "[]"] l[of "[the t]"] by (cases t) (simp_all add: get_time_def put_time_def)
qed

definition ref_user_enc :: "User \<Rightarrow> bytes option" where
  "ref_user_enc u = Some (put_str (AccessKeyID u) @ put_str (EncryptedSecret u) @ put_time (CreatedAt u) @ put_list put_rule (ACL u))"

definition ref_user_dec :: "bytes \<Rightarrow> User option" where
  "ref_user_dec b = (case get_str b of None \<Rightarrow> None | Some (k, r) \<Rightarrow>
     (case get_str r of None \<Rightarrow> None | Some (s, r') \<Rightarrow>
     (case get_time r' of None \<Rightarrow> None | Some (t, r'') \<Rightarrow>
     (case whole_input (get_all get_rule r'') of None \<Rightarrow> None | Some acl \<Rightarrow>
        let u = \<lparr>AccessKeyID = k, EncryptedSecret = s, ACL = acl, CreatedAt = t, SecretAccessKey = []\<rparr>
        in if valid_user u then Some u else None))))"

lemma ref_user:
  assumes "valid_user u"
  shows "ref_user_dec (put_str (AccessKeyID u) @ put_str (EncryptedSecret u) @ put_time (CreatedAt u) @ put_list put_rule (ACL u))
     = Some (u\<lparr>SecretAccessKey := []\<rparr>)"
proof -
  have "get_all get_rule (put_list put_rule (ACL u) @ []) = Some (ACL u, [])" by (rule get_put_all) simp
  then show ?thesis using assms by (simp add: ref_user_dec_def valid_user_def Let_def)
qed

lemma ref_user_valid: "ref_user_dec d = Some u \<Longrightarrow> valid_user u"
  by (auto simp: ref_user_dec_def Let_def split: option.splits if_splits)

definition ref_meta_dec :: "bytes \<Rightarrow> meta_map option" where
  "ref_meta_dec b = whole_input (get_meta b)"

lemma ref_meta [simp]: "ref_meta_dec (put_meta m) = Some m"
  using get_put_meta[of m "[]"] by (simp add: ref_meta_dec_def del: get_put_meta)

definition ref_tags_enc :: "ObjectTag list \<Rightarrow> bytes option" where
  "ref_tags_enc ts = Some (put_meta (map (\<lambda>t. (TagKey t, TagValue t)) ts))"

definition ref_tags_dec :: "bytes \<Rightarrow> ObjectTag list option" where
  "ref_tags_dec b = map_option (map (\<lambda>(k, v). \<lparr>TagKey = k, TagValue = v\<rparr>)) (ref_meta_dec b)"

lemma ref_tags: "ref_tags_enc ts = Some d \<Longrightarrow> ref_tags_dec d = Some ts"
  by (auto simp: ref_tags_enc_def ref_tags_dec_def comp_def map_idI)

definition put_cors :: "BucketCORSRule \<Rightarrow> bytes" where
  "put_cors c = put_str (RuleID c) @ put_strs (AllowedOrigins c) @ put_strs (AllowedMethods c)
     @ put_strs (AllowedHeaders c) @ put_strs (ExposeHeaders c) @ put_int (MaxAgeSeconds c)"

definition get_cors :: "bytes \<Rightarrow> (BucketCORSRule \<times> bytes) option" where
  "get_cors b = (case get_str b of None \<Rightarrow> None | Some (i, r1) \<Rightarrow>
     (case get_strs r1 of None \<Rightarrow> None | Some (os, r2) \<Rightarrow>
     (case get_strs r2 of None \<Rightarrow> None | Some (ms, r3) \<Rightarrow>
     (case get_strs r3 of None \<Rightarrow> None | Some (hs, r4) \<Rightarrow>
     (case get_strs r4 of None \<Rightarrow> None | Some (es, r5) \<Rightarrow>
     (case get_int r5 of None \<Rightarrow> None | Some (a, r6) \<Rightarrow>
       Some (\<lparr>RuleID = i, AllowedOrigins = os, AllowedMethods = ms, AllowedHeaders = hs, ExposeHeaders = es,
              MaxAgeSeconds = a\<rparr>, r6)))))))"

lemma get_put_cors [simp]: "get_cors (put_cors c @ r) = Some (c, r)"
  by (simp add: get_cors_def put_cors_def)

definition ref_cors_enc :: "BucketCORSRule list \<Rightarrow> bytes option" where
  "ref_cors_enc rs = Some (put_list put_cors rs)"

definition ref_cors_dec :: "bytes \<Rightarrow> BucketCORSRule list option" where
  "ref_cors_dec b = whole_input (get_all get_cors b)"

lemma ref_cors: "ref_cors_enc rs = Some d \<Longrightarrow> ref_cors_dec d = Some rs"
  using get_put_all[of rs get_cors put_cors "[]"] by (auto simp: ref_cors_enc_def ref_cors_dec_def)

definition ref_manifest_enc :: "MultipartUpload \<Rightarrow> bytes option" where
  "ref_manifest_enc u = Some (put_str (mpUploadID u) @ put_str (mpBucket u) @ put_str (mpKey u)
     @ put_int (mpInitiated u) @ put_meta (mpMetadata u))"

definition ref_manifest_dec :: "bytes \<Rightarrow> MultipartUpload option" where
  "ref_manifest_dec b = (case get_str b of None \<Rightarrow> None | Some (i, r1) \<Rightarrow>
     (case get_str r1 of None \<Rightarrow> None | Some (bk, r2) \<Rightarrow>
     (case get_str r2 of None \<Rightarrow> None | Some (k, r3) \<Rightarrow>
     (case get_int r3 of None \<Rightarrow> None | Some (t, r4) \<Rightarrow>
     (case ref_meta_dec r4 of None \<Rightarrow> None | Some m \<Rightarrow>
       Some \<lparr>mpUploadID = i, mpBucket = bk, mpKey = k, mpInitiated = t, mpMetadata = m\<rparr>)))))"

lemma ref_manifest: "ref_manifest_enc u = Some d \<Longrightarrow> ref_manifest_dec d = Some u"
  by (auto simp: ref_manifest_enc_def ref_manifest_dec_def)

section \<open>The instance\<close>

text \<open>
  A checksum that adds up the bytes, a cipher that prefixes the nonce; request bodies are
  decoded by the sidecar codecs and a time is written in decimal seconds.
\<close>

definition byte_sum :: "bytes \<Rightarrow> bytes" where
  "byte_sum b = [char_of (sum_list (map (of_char :: char \<Rightarrow> int) b) mod 256)]"

definition ref_seconds :: "string \<Rightarrow> time option" where
  "ref_seconds s = (case ParseInt s of Inl _ \<Rightarrow> None | Inr i \<Rightarrow> Some (i * Second))"

definition pad16 :: "string \<Rightarrow> string" where
  "pad16 s = replicate (16 - length s) CHR ''0'' @ s"

definition ref_lib :: lib where
  "ref_lib = \<lparr>
     md5 = byte_sum, crc32 = byte_sum, sha256 = byte_sum,
     hmac = (\<lambda>k m. byte_sum (k @ m)),
     gcm_seal = (\<lambda>k n p. n @ p),
     gcm_open = (\<lambda>k n c. if take (length n) c = n then Some (drop (length n) c) else None),
     user_enc = ref_user_enc, user_dec = ref_user_dec,
     meta_enc = (\<lambda>m. Some (put_meta m)), meta_dec = ref_meta_dec,
     tags_enc = ref_tags_enc, tags_dec = ref_tags_dec,
     cors_enc = ref_cors_enc, cors_dec = ref_cors_dec,
     canned_enc = Some, canned_dec = Some,
     manifest_enc = ref_manifest_enc, manifest_dec = ref_manifest_dec,
     ParseIP = (\<lambda>s. if s = [] then None
        else Some \<lparr>ip_string = s, ip_global_unicast = True, ip_private = HasPrefix s ''10.'', ip_cgnat = False\<rparr>),
     url_Host = (\<lambda>s. Some (TrimPrefix s ''https://'')),
     url_Scheme = (\<lambda>_. ''https''),
     ParseAmzDate = ref_seconds, FormatAmzDate = (\<lambda>t. pad16 (nat_digits (nat (t div Second)))),
     ParseHTTPTime = ref_seconds, FormatHTTPTime = (\<lambda>t. Itoa (t div Second)),
     ParseRFC1123 = ref_seconds, FormatRFC3339 = (\<lambda>t. Itoa (t div Second)),
     DetectContentType = (\<lambda>_. ''text/plain; charset=utf-8''),
     delete_dec_json = (\<lambda>b. map_option (\<lambda>ks. (ks, False)) (whole_input (get_strs b))),
     delete_dec_xml = (\<lambda>b. map_option (\<lambda>ks. (ks, False)) (whole_input (get_strs b))),
     tags_dec_xml = ref_tags_dec, tags_dec_json = ref_tags_dec,
     cors_dec_xml = ref_cors_dec,
     acl_dec_json = Some,
     acl_dec_xml = (\<lambda>b. map_option (map (\<lambda>(u, p). \<lparr>granteeURI = u, grantPermission = p\<rparr>)) (ref_meta_dec b)),
     parts_dec_json = (\<lambda>b. map_option (map (\<lambda>(n, e). (int (length n), e))) (ref_meta_dec b)),
     parts_dec_xml = (\<lambda>b. map_option (map (\<lambda>(n, e). (int (length n), e))) (ref_meta_dec b)),
     login_dec = (\<lambda>b. case ref_meta_dec b of Some (p # _) \<Rightarrow> Some p | _ \<Rightarrow> None),
     FormatMillis = (\<lambda>t. Itoa (t div Second)),
     ParseSeconds = ref_seconds\<rparr>"

lemma ref_manifest_ok: "manifest_codec_ok ref_lib"
  unfolding manifest_codec_ok_def
proof (intro allI impI)
  fix u :: MultipartUpload assume "valid_meta (mpMetadata u) \<and> ValidString (mpKey u) \<and> ValidString (mpBucket u) \<and> ValidString (mpUploadID u)"
  moreover have "manifest_enc ref_lib u = Some (the (ref_manifest_enc u))" by (simp add: ref_lib_def ref_manifest_enc_def)
  moreover have "manifest_dec ref_lib (the (ref_manifest_enc u)) = Some (u\<lparr>mpMetadata := mpMetadata u\<rparr>)"
    by (simp add: ref_lib_def ref_manifest ref_manifest_enc_def)
  ultimately show "\<exists>d m'. manifest_enc ref_lib u = Some d \<and> manifest_dec ref_lib d = Some (u\<lparr>mpMetadata := m'\<rparr>)
      \<and> map_of m' = map_of (mpMetadata u) \<and> valid_meta m'" by blast
qed

lemma ref_lib_ok:
  "cipher_ok ref_lib" "user_codec_ok ref_lib" "meta_codec_ok ref_lib" "tags_codec_ok ref_lib"
  "canned_codec_ok ref_lib" "cors_codec_ok ref_lib"
  using ref_user ref_user_valid ref_tags ref_cors
  by (auto simp: cipher_ok_def user_codec_ok_def meta_codec_ok_def tags_codec_ok_def canned_codec_ok_def
      cors_codec_ok_def ref_lib_def ref_user_enc_def ref_tags_enc_def ref_cors_enc_def)

lemma nat_digits_length: "n < 10 ^ k \<Longrightarrow> 0 < k \<Longrightarrow> length (nat_digits n) \<le> k"
proof (induction k arbitrary: n)
  case (Suc k)
  show ?case
  proof (cases "n < 10")
    case True
    then show ?thesis by (subst nat_digits.simps) simp
  next
    case False
    then have "n div 10 < 10 ^ k" "0 < k" using Suc.prems by (cases k; auto)+
    then show ?thesis using Suc.IH[of "n div 10"] False by (subst nat_digits.simps) simp
  qed
qed simp

lemma ref_pad16:
  assumes "n < 10 ^ 16"
  shows "length (pad16 (nat_digits n)) = 16" "\<forall>c\<in>set (pad16 (nat_digits n)). is_digit c" "ParseInt (pad16 (nat_digits n)) = Inr (int n)"
proof -
  have len: "length (nat_digits n) \<le> 16" using nat_digits_length[OF assms] by simp
  then show "length (pad16 (nat_digits n)) = 16" by (simp add: pad16_def)
  show "\<forall>c\<in>set (pad16 (nat_digits n)). is_digit c"
    using nat_digits_all_digits[of _ n] by (auto simp: pad16_def is_digit_def)
  let ?s = "pad16 (nat_digits n)"
  have p: "parse_uint_loop 0 ?s = Inr n" using parse_nat_digits[of n] assms by (simp add: pad16_def parse_zeros)
  have h: "hd ?s \<noteq> CHR ''-''" "hd ?s \<noteq> CHR ''+''" "?s \<noteq> []"
    using hd_nat_digits_not_sign[of n] len by (auto simp: pad16_def hd_append)
  then obtain c t where ct: "?s = c # t" "c \<noteq> CHR ''-''" "c \<noteq> CHR ''+''" by (cases ?s) auto
  then show "ParseInt ?s = Inr (int n)" using p assms by (simp add: ParseInt_def ParseUint_def)
qed

lemma ref_time_ok: "amz_time_ok ref_lib"
  unfolding amz_time_ok_def
proof (intro allI impI)
  fix t :: time assume t: "0 \<le> t \<and> t < year_10000"
  then have "nat (t div Second) < 10 ^ 16" by (auto simp: year_10000_def Second_def)
  note p = ref_pad16[OF this]
  have "t div Second * Second = t - t mod Second" by (simp add: minus_mod_eq_div_mult)
  then show "length (FormatAmzDate ref_lib t) = 16
      \<and> (\<forall>c\<in>set (FormatAmzDate ref_lib t). is_digit c \<or> c = CHR ''T'' \<or> c = CHR ''Z'')
      \<and> ParseAmzDate ref_lib (FormatAmzDate ref_lib t) = Some (t - t mod Second)"
    using p t by (simp add: ref_lib_def ref_seconds_def pos_imp_zdiv_nonneg_iff)
qed

lemma ref_hmac_ok: "hmac_ok ref_lib"
  by (simp add: hmac_ok_def ref_lib_def byte_sum_def)

lemma ref_seconds_ok: "seconds_ok ref_lib"
  unfolding seconds_ok_def
proof (intro allI impI)
  fix n :: int assume n: "0 \<le> n \<and> n * Second \<le> max_duration"
  then have "n < 2 ^ 63" by (auto simp: max_duration_def Second_def)
  then show "ParseSeconds ref_lib (Itoa n) = Some (n * Second)"
    using ParseInt_Itoa[of n] n by (simp add: ref_lib_def ref_seconds_def)
qed

section \<open>A store\<close>

type_synonym ref_db = "((string \<times> bytes) \<times> bytes) list"

definition ref_items :: "string \<Rightarrow> ref_db \<Rightarrow> (bytes \<times> bytes) list" where
  "ref_items b d =
     sort_key fst (map (\<lambda>((_, k), v). (k, v)) (filter (\<lambda>((b', _), _). b' = b) (AList.clearjunk d)))"

definition ref_bolt :: "ref_db bolt" where
  "ref_bolt = \<lparr>
     bget = (\<lambda>b k d. map_of d (b, k)),
     bput = (\<lambda>b k v d. Some (AList.update (b, k) v d)),
     bdelete = (\<lambda>b k d. Some (AList.delete (b, k) d)),
     bitems = ref_items\<rparr>"

lemma ref_items_mem: "(k, v) \<in> set (ref_items b d) \<longleftrightarrow> map_of d (b, k) = Some v"
proof -
  have "(k, v) \<in> set (ref_items b d) \<longleftrightarrow> ((b, k), v) \<in> set (AList.clearjunk d)"
    by (force simp: ref_items_def)
  also have "\<dots> \<longleftrightarrow> map_of d (b, k) = Some v"
    using map_of_eq_Some_iff[OF distinct_clearjunk[of d]] by (simp add: map_of_clearjunk)
  finally show ?thesis .
qed

lemma ref_items_distinct: "distinct (map fst (ref_items b d))"
proof -
  have "distinct (map fst (map (\<lambda>((_, k), v). (k, v)) (filter (\<lambda>((b', _), _). b' = b) m)))"
    if "distinct (map fst m)" for m :: ref_db
    using that by (induction m) (auto simp: image_iff)
  from this[OF distinct_clearjunk[of d]] show ?thesis
    unfolding ref_items_def by (simp add: distinct_map inj_on_def)
qed

lemma ref_bolt_ok: "bolt_ok ref_bolt"
proof -
  have "map_of (ref_items b d) = (\<lambda>k. map_of d (b, k))" for b d
  proof
    fix k
    show "map_of (ref_items b d) k = map_of d (b, k)"
      using map_of_eq_Some_iff[OF ref_items_distinct[of b d], of k] ref_items_mem[of k _ b d]
      by (metis option.exhaust)
  qed
  moreover have "sorted (map fst (ref_items b d))" for b d by (simp add: ref_items_def)
  ultimately show ?thesis
    using ref_items_distinct by (auto simp: bolt_ok_def ref_bolt_def map_of_upd map_of_del)
qed

end
