(* ===== verification/Names.thy ===== *)
theory Names
  imports Encoding
begin

text \<open>
  Names and paths: \<open>internal/storage/names.go\<close> (bucket and key validation, \<open>SafeJoin\<close>)
  over a model of the lexical part of \<open>path/filepath\<close> on Unix.  The lemmas show what an
  accepted name looks like, that \<open>SafeJoin\<close> never leaves its base, and that an accepted
  bucket and key always pass \<open>SafeJoin\<close>.
\<close>

section \<open>path/filepath\<close>

text \<open>\<open>Clean\<close> keeps a stack of segments, the last one first.\<close>

definition clean_step :: "bool \<Rightarrow> string list \<Rightarrow> string \<Rightarrow> string list" where
  "clean_step rooted st seg =
     (if seg = [] \<or> seg = ''.'' then st
      else if seg = ''..'' then
        (case st of [] \<Rightarrow> if rooted then [] else [''..'']
         | t # st' \<Rightarrow> if t = ''..'' then ''..'' # st else st')
      else seg # st)"

definition clean_segs :: "bool \<Rightarrow> string list \<Rightarrow> string list" where
  "clean_segs rooted segs = rev (foldl (clean_step rooted) [] segs)"

definition IsAbs :: "string \<Rightarrow> bool" where
  "IsAbs p \<longleftrightarrow> HasPrefix p ''/''"

definition Clean :: "string \<Rightarrow> string" where
  "Clean p = (let out = clean_segs (IsAbs p) (Split CHR ''/'' p)
              in if IsAbs p then CHR ''/'' # Join ''/'' out
                 else if out = [] then ''.'' else Join ''/'' out)"

definition IsLocal :: "string \<Rightarrow> bool" where
  "IsLocal p =
     (if IsAbs p \<or> p = [] then False
      else let hasDots = list_ex (\<lambda>s. s = ''.'' \<or> s = ''..'') (Split CHR ''/'' p);
               q = (if hasDots then Clean p else p)
           in \<not> (q = ''..'' \<or> HasPrefix q ''../''))"

definition PathJoin :: "string list \<Rightarrow> string" where
  "PathJoin elems = (let es = filter (\<lambda>e. e \<noteq> []) elems
                     in if es = [] then [] else Clean (Join ''/'' es))"

definition proper_seg :: "string \<Rightarrow> bool" where
  "proper_seg s \<longleftrightarrow> s \<noteq> [] \<and> s \<noteq> ''.'' \<and> s \<noteq> ''..'' \<and> CHR ''/'' \<notin> set s"

text \<open>The absolute path made of the given segments.\<close>

definition abs_path :: "string list \<Rightarrow> string" where
  "abs_path segs = CHR ''/'' # Join ''/'' segs"

section \<open>names.go\<close>

datatype name_error = ErrInvalidBucketName | ErrInvalidObjectKey | ErrPathEscape

definition name_char :: "char \<Rightarrow> bool" where
  "name_char c = (let n = (of_char c :: nat) in (97 \<le> n \<and> n \<le> 122) \<or> (48 \<le> n \<and> n \<le> 57))"

text \<open>\<open>bucketNameRe.MatchString\<close>, the expression \<open>^[a-z0-9]+(-[a-z0-9]+)*$\<close>.\<close>

definition bucketNameRe :: "string \<Rightarrow> bool" where
  "bucketNameRe s = list_all (\<lambda>l. l \<noteq> [] \<and> list_all name_char l) (Split CHR ''-'' s)"

definition bucketNameMaxLen :: nat where "bucketNameMaxLen = 63"

definition ValidateBucketName :: "string \<Rightarrow> name_error option" where
  "ValidateBucketName name =
     (if name = [] \<or> length name > bucketNameMaxLen then Some ErrInvalidBucketName
      else if \<not> bucketNameRe name then Some ErrInvalidBucketName
      else None)"

definition reservedSidecarSuffixes :: "string list" where
  "reservedSidecarSuffixes = [''.meta'', ''.tags.json'']"

definition reservedBucketSidecars :: "string list" where
  "reservedBucketSidecars = [''.acl.json'', ''.cors.json'']"

definition segmentIsSafe :: "string \<Rightarrow> bool" where
  "segmentIsSafe seg =
     (if seg = [] \<or> seg = ''.'' \<or> seg = ''..'' then False
      else if seg \<in> set reservedBucketSidecars then False
      else \<not> list_ex (HasSuffix seg) reservedSidecarSuffixes)"

definition control_byte :: "char \<Rightarrow> bool" where
  "control_byte b = ((of_char b :: nat) < 0x20 \<or> (of_char b :: nat) = 0x7F)"

definition ValidateObjectKey :: "string \<Rightarrow> name_error + string" where
  "ValidateObjectKey key =
     (if key = [] then Inl ErrInvalidObjectKey
      else if list_ex control_byte key then Inl ErrInvalidObjectKey
      else if \<not> ValidString key then Inl ErrInvalidObjectKey
      else let clean = TrimPrefix key ''/''
           in if clean = [] then Inl ErrInvalidObjectKey
              else if \<not> list_all segmentIsSafe (Split CHR ''/'' clean) then Inl ErrInvalidObjectKey
              else Inr clean)"

fun SafeJoin :: "string \<Rightarrow> string list \<Rightarrow> name_error + string" where
  "SafeJoin p [] = Inr p"
| "SafeJoin p (n # names) =
     (if \<not> IsLocal n \<or> Clean n = ''.'' then Inl ErrPathEscape
      else SafeJoin (PathJoin [p, n]) names)"

section \<open>Paths\<close>

lemma IsAbs_simps [simp]: "IsAbs (CHR ''/'' # s)" "\<not> IsAbs []" "IsAbs (c # s) \<longleftrightarrow> c = CHR ''/''"
  by (auto simp: IsAbs_def HasPrefix_def)

lemma Join_append: "\<lbrakk>xs \<noteq> []; ys \<noteq> []\<rbrakk> \<Longrightarrow> Join sep (xs @ ys) = Join sep xs @ sep @ Join sep ys"
proof (induction xs)
  case (Cons x xs)
  show ?case
  proof (cases xs)
    case Nil
    then show ?thesis using Cons.prems by (cases ys) auto
  next
    case (Cons z zs)
    then show ?thesis using Cons.IH Cons.prems by simp
  qed
qed simp

lemma Split_append: "Split c (s @ c # t) = Split c s @ Split c t"
  by (induction s) (auto split: list.splits)

lemma Split_abs_path: "list_all proper_seg segs \<Longrightarrow> segs \<noteq> [] \<Longrightarrow> Split CHR ''/'' (abs_path segs) = [] # segs"
  by (simp add: abs_path_def Split_Join list_all_iff proper_seg_def)

lemma foldl_clean_proper:
  "list_all proper_seg segs \<Longrightarrow> foldl (clean_step r) st segs = rev segs @ st"
  by (induction segs arbitrary: st) (auto simp: clean_step_def proper_seg_def)

lemma foldl_clean_relative:
  "\<lbrakk>foldl (clean_step False) a segs = b; ''..'' \<notin> set b\<rbrakk>
     \<Longrightarrow> ''..'' \<notin> set a \<and> foldl (clean_step True) (a @ st) segs = b @ st"
proof (induction segs arbitrary: a)
  case (Cons s segs)
  then have IH: "''..'' \<notin> set (clean_step False a s)"
      "foldl (clean_step True) (clean_step False a s @ st) segs = b @ st" by auto
  have "''..'' \<notin> set a \<and> clean_step True (a @ st) s = clean_step False a s @ st"
    using IH(1) by (cases a) (auto simp: clean_step_def split: if_splits)
  with IH(2) show ?case by simp
qed simp

lemma foldl_clean_mem:
  "x \<in> set (foldl (clean_step r) a segs) \<Longrightarrow> x \<in> set a \<or> x = ''..'' \<or> x \<in> set segs \<and> x \<noteq> [] \<and> x \<noteq> ''.''"
proof (induction segs arbitrary: a)
  case (Cons s segs)
  then have "x \<in> set (clean_step r a s) \<or> x = ''..'' \<or> x \<in> set segs \<and> x \<noteq> [] \<and> x \<noteq> ''.''"
    by auto
  moreover have "x \<in> set (clean_step r a s) \<Longrightarrow> x \<in> set a \<or> x = ''..'' \<or> x = s \<and> x \<noteq> [] \<and> x \<noteq> ''.''"
    by (auto simp: clean_step_def split: if_splits list.splits)
  ultimately show ?case by auto
qed simp

text \<open>Climbing segments stay at the bottom of the stack of a relative path.\<close>

lemma foldl_clean_climb:
  assumes "''..'' \<in> set a \<longrightarrow> last a = ''..''" "''..'' \<in> set (foldl (clean_step False) a segs)"
  shows "last (foldl (clean_step False) a segs) = ''..''"
  using assms
proof (induction segs arbitrary: a)
  case (Cons s segs)
  have "''..'' \<in> set (clean_step False a s) \<longrightarrow> last (clean_step False a s) = ''..''"
    using Cons.prems(1) by (cases a) (auto simp: clean_step_def)
  with Cons show ?case by simp
qed simp

lemma foldl_clean_no_dots:
  "\<forall>s\<in>set segs. s \<noteq> ''.'' \<and> s \<noteq> ''..''
     \<Longrightarrow> foldl (clean_step r) a segs = rev (filter (\<lambda>s. s \<noteq> []) segs) @ a"
  by (induction segs arbitrary: a) (auto simp: clean_step_def)

text \<open>What \<open>IsLocal\<close> promises: the cleaned segments do not climb.\<close>

lemma hd_Split: "s \<noteq> [] \<Longrightarrow> hd s \<noteq> c \<Longrightarrow> hd (Split c s) \<noteq> []"
  by (cases s) (auto split: list.splits)

lemma Join_climb:
  "\<lbrakk>CHR ''/'' \<notin> set (hd xs); xs \<noteq> []; hd xs = ''..''\<rbrakk> \<Longrightarrow> Join ''/'' xs = ''..'' \<or> HasPrefix (Join ''/'' xs) ''../''"
  by (cases xs; cases "tl xs") (auto simp: HasPrefix_def)

lemma IsLocal_no_climb:
  assumes "IsLocal p"
  shows "''..'' \<notin> set (foldl (clean_step False) [] (Split CHR ''/'' p))"
proof
  let ?st = "foldl (clean_step False) [] (Split CHR ''/'' p)"
  assume climb: "''..'' \<in> set ?st"
  then have ne: "?st \<noteq> []" and last: "last ?st = ''..''" using foldl_clean_climb[of "[]"] by auto
  have "list_ex (\<lambda>s. s = ''.'' \<or> s = ''..'') (Split CHR ''/'' p)"
  proof (rule ccontr)
    assume "\<not> ?thesis"
    then have nd: "\<forall>s\<in>set (Split CHR ''/'' p). s \<noteq> ''.'' \<and> s \<noteq> ''..''" by (auto simp: list_ex_iff)
    then have "?st = rev (filter (\<lambda>s. s \<noteq> []) (Split CHR ''/'' p)) @ []" by (rule foldl_clean_no_dots)
    with climb nd show False by auto
  qed
  moreover have rel: "\<not> IsAbs p" using assms by (auto simp: IsLocal_def)
  moreover have "Clean p = Join ''/'' (rev ?st)"
    using ne rel by (simp add: Clean_def clean_segs_def)
  moreover have "hd (rev ?st) = ''..''" using last ne by (simp add: hd_rev)
  ultimately have "Clean p = ''..'' \<or> HasPrefix (Clean p) ''../''"
    using Join_climb[of "rev ?st"] ne by simp
  moreover have "\<not> (Clean p = ''..'' \<or> HasPrefix (Clean p) ''../'')"
    using assms \<open>list_ex _ _\<close> by (simp add: IsLocal_def Let_def split: if_split_asm)
  ultimately show False by contradiction
qed

lemma clean_segs_proper:
  assumes "IsLocal p"
  shows "list_all proper_seg (clean_segs False (Split CHR ''/'' p))"
proof -
  let ?st = "foldl (clean_step False) [] (Split CHR ''/'' p)"
  have "proper_seg x" if "x \<in> set ?st" for x
  proof -
    have "x \<noteq> ''..''" using that IsLocal_no_climb[OF assms] by metis
    with foldl_clean_mem[OF that] show ?thesis
      using Split_no_sep[of x "CHR ''/''" p] by (auto simp: proper_seg_def)
  qed
  then show ?thesis by (auto simp: clean_segs_def list_all_iff)
qed

lemma PathJoin_abs:
  assumes base: "list_all proper_seg bs" and loc: "IsLocal n"
  shows "PathJoin [abs_path bs, n] = abs_path (bs @ clean_segs False (Split CHR ''/'' n))"
proof -
  let ?st = "foldl (clean_step False) [] (Split CHR ''/'' n)"
  have n: "n \<noteq> []" using loc by (auto simp: IsLocal_def)
  have "foldl (clean_step True) (rev bs) (Split CHR ''/'' n) = ?st @ rev bs"
    using foldl_clean_relative[OF refl IsLocal_no_climb[OF loc], of "rev bs"] by simp
  moreover have "foldl (clean_step True) [] (Split CHR ''/'' (abs_path bs @ ''/'' @ n))
      = foldl (clean_step True) (rev bs) (Split CHR ''/'' n)"
  proof (cases "bs = []")
    case True
    then show ?thesis by (simp add: abs_path_def clean_step_def)
  next
    case False
    then show ?thesis
      using foldl_clean_proper[OF base, of True "[]"]
      by (simp add: Split_append Split_abs_path[OF base] clean_step_def)
  qed
  ultimately have "clean_segs True (Split CHR ''/'' (abs_path bs @ ''/'' @ n)) = bs @ rev ?st"
    by (simp add: clean_segs_def)
  then show ?thesis using n
    by (simp add: PathJoin_def Clean_def clean_segs_def abs_path_def Let_def)
qed

text \<open>One level below an absolute base, for every name.\<close>

lemma SafeJoin_step:
  assumes "list_all proper_seg bs" "IsLocal n" "Clean n \<noteq> ''.''"
  obtains ss where "ss \<noteq> []" "list_all proper_seg ss" "PathJoin [abs_path bs, n] = abs_path (bs @ ss)"
proof -
  let ?ss = "clean_segs False (Split CHR ''/'' n)"
  have "\<not> IsAbs n" using assms(2) by (auto simp: IsLocal_def)
  then have "?ss \<noteq> []" using assms(3) by (auto simp: Clean_def)
  then show thesis using that clean_segs_proper[OF assms(2)] PathJoin_abs[OF assms(1,2)] by blast
qed

lemma SafeJoin_below:
  "\<lbrakk>SafeJoin (abs_path bs) names = Inr p; list_all proper_seg bs\<rbrakk>
     \<Longrightarrow> \<exists>ss. p = abs_path (bs @ ss) \<and> list_all proper_seg ss \<and> length names \<le> length ss"
proof (induction names arbitrary: bs)
  case Nil
  then show ?case by (intro exI[of _ "[]"]) simp
next
  case (Cons n names)
  then have loc: "IsLocal n" "Clean n \<noteq> ''.''" by (auto split: if_splits)
  obtain ss where ss: "ss \<noteq> []" "list_all proper_seg ss" "PathJoin [abs_path bs, n] = abs_path (bs @ ss)"
    using SafeJoin_step[OF Cons.prems(2) loc] by blast
  have "SafeJoin (abs_path (bs @ ss)) names = Inr p" using Cons.prems(1) loc ss(3) by simp
  from Cons.IH[OF this] ss(2) Cons.prems(2)
  obtain ts where "p = abs_path ((bs @ ss) @ ts)" "list_all proper_seg ts" "length names \<le> length ts" by auto
  with ss show ?case
    by (intro exI[of _ "ss @ ts"]) (cases ss; auto)
qed

section \<open>Accepted names\<close>

text \<open>The regular expression as a grammar: a label, then any number of hyphen-label groups.\<close>

inductive label :: "string \<Rightarrow> bool" where
  one: "name_char c \<Longrightarrow> label [c]"
| more: "\<lbrakk>name_char c; label l\<rbrakk> \<Longrightarrow> label (c # l)"

inductive bucket_shape :: "string \<Rightarrow> bool" where
  single: "label l \<Longrightarrow> bucket_shape l"
| hyphen: "\<lbrakk>label l; bucket_shape s\<rbrakk> \<Longrightarrow> bucket_shape (l @ CHR ''-'' # s)"

inductive_cases label_elim: "label s"
inductive_cases bucket_shape_elim: "bucket_shape s"

lemma label_iff: "label l \<longleftrightarrow> l \<noteq> [] \<and> list_all name_char l"
proof
  show "label l \<Longrightarrow> l \<noteq> [] \<and> list_all name_char l" by (induction rule: label.induct) auto
  show "l \<noteq> [] \<and> list_all name_char l \<Longrightarrow> label l"
  proof (induction l)
    case (Cons c l)
    then show ?case by (cases "l = []") (auto intro: label.one label.more)
  qed simp
qed

lemma name_char_not [simp]:
  "\<not> name_char (CHR ''-'')" "\<not> name_char (CHR ''/'')" "\<not> name_char (CHR ''.'')"
  by (simp_all add: name_char_def)

lemma label_no_sep: "label l \<Longrightarrow> CHR ''-'' \<notin> set l \<and> CHR ''/'' \<notin> set l \<and> CHR ''.'' \<notin> set l"
  by (auto simp: label_iff list_all_iff)

lemma bucketNameRe_shape: "bucketNameRe s \<longleftrightarrow> bucket_shape s"
proof
  have shape: "bucket_shape (Join ''-'' ls)" if "ls \<noteq> []" "\<forall>l\<in>set ls. label l" for ls
    using that
  proof (induction ls)
    case (Cons l ls)
    then show ?case by (cases ls) (auto intro: bucket_shape.intros)
  qed simp
  show "bucket_shape s" if "bucketNameRe s"
    using that shape[of "Split CHR ''-'' s"] Join_Split[of "CHR ''-''" s]
    by (auto simp: bucketNameRe_def list_all_iff label_iff)
  show "bucketNameRe s" if "bucket_shape s"
    using that
  proof (induction rule: bucket_shape.induct)
    case (single l)
    then show ?case using label_no_sep[of l] by (simp add: bucketNameRe_def Split_single label_iff)
  next
    case (hyphen l s)
    then show ?case using label_no_sep[of l] by (simp add: bucketNameRe_def Split_append_sep label_iff)
  qed
qed

lemma bucketNameRe_chars: "bucketNameRe s \<Longrightarrow> \<forall>c\<in>set s. name_char c \<or> c = CHR ''-''"
  unfolding bucketNameRe_shape
  by (induction rule: bucket_shape.induct) (auto simp: label_iff list_all_iff)

lemma bucketNameRe_nonempty: "bucketNameRe s \<Longrightarrow> s \<noteq> []"
  by (auto simp: bucketNameRe_def)

lemma ValidateBucketName_ok_iff:
  "ValidateBucketName n = None \<longleftrightarrow> length n \<le> 63 \<and> bucket_shape n"
  using bucketNameRe_nonempty[of n]
  by (auto simp: ValidateBucketName_def bucketNameMaxLen_def bucketNameRe_shape)

lemma ValidateBucketName_proper: "ValidateBucketName n = None \<Longrightarrow> proper_seg n"
  using bucketNameRe_chars[of n] bucketNameRe_nonempty[of n]
  by (auto simp: ValidateBucketName_ok_iff bucketNameRe_shape proper_seg_def)

lemma segmentIsSafe_proper: "segmentIsSafe s \<Longrightarrow> s \<in> set (Split CHR ''/'' k) \<Longrightarrow> proper_seg s"
  using Split_no_sep[of s "CHR ''/''" k] by (auto simp: segmentIsSafe_def proper_seg_def split: if_splits)

lemma ValidateObjectKey_ok:
  assumes "ValidateObjectKey key = Inr c"
  shows "c = TrimPrefix key ''/''" "c \<noteq> []" "list_all segmentIsSafe (Split CHR ''/'' c)"
    "list_all proper_seg (Split CHR ''/'' c)" "ValidString key" "\<forall>b\<in>set c. \<not> control_byte b"
proof -
  show c: "c = TrimPrefix key ''/''" "c \<noteq> []" and safe: "list_all segmentIsSafe (Split CHR ''/'' c)"
    and "ValidString key"
    using assms by (auto simp: ValidateObjectKey_def Let_def split: if_splits)
  show "list_all proper_seg (Split CHR ''/'' c)"
    using safe segmentIsSafe_proper by (auto simp: list_all_iff)
  have "\<forall>b\<in>set key. \<not> control_byte b"
    using assms by (auto simp: ValidateObjectKey_def list_ex_iff split: if_splits)
  moreover have "set c \<subseteq> set key" unfolding c(1) TrimPrefix_def by (simp add: set_drop_subset)
  ultimately show "\<forall>b\<in>set c. \<not> control_byte b" by auto
qed

text \<open>A relative path of proper segments is local and joins as it stands.\<close>

lemma filter_proper: "list_all proper_seg ss \<Longrightarrow> filter (\<lambda>s. s \<noteq> []) ss = ss"
  by (auto simp: list_all_iff proper_seg_def filter_id_conv)

lemma proper_not_abs: "list_all proper_seg (Split CHR ''/'' k) \<Longrightarrow> \<not> IsAbs k \<and> k \<noteq> []"
  by (cases k) (auto simp: proper_seg_def)

lemma proper_IsLocal:
  assumes "list_all proper_seg (Split CHR ''/'' k)"
  shows "IsLocal k" "Clean k \<noteq> ''.''" "clean_segs False (Split CHR ''/'' k) = Split CHR ''/'' k"
proof -
  let ?ss = "Split CHR ''/'' k"
  have nd: "\<forall>s\<in>set ?ss. s \<noteq> [] \<and> s \<noteq> ''.'' \<and> s \<noteq> ''..''" using assms by (auto simp: list_all_iff proper_seg_def)
  show segs: "clean_segs False ?ss = ?ss"
    by (simp add: clean_segs_def foldl_clean_proper[OF assms])
  have clean: "Clean k = k"
    using segs proper_not_abs[OF assms] by (simp add: Clean_def Join_Split)
  have in_segs: "''.'' \<notin> set ?ss" "''..'' \<notin> set ?ss" using nd by metis+
  have "k \<noteq> ''.''" "k \<noteq> ''..''" using in_segs by force+
  moreover have "\<not> HasPrefix k ''../''"
  proof
    assume "HasPrefix k ''../''"
    then obtain r where "k = ''..'' @ CHR ''/'' # r" by (auto simp: HasPrefix_iff)
    then have "?ss = ''..'' # Split CHR ''/'' r" using Split_append_sep[of "CHR ''/''" "''..''" r] by simp
    with in_segs show False by simp
  qed
  ultimately show "Clean k \<noteq> ''.''" "IsLocal k"
    using clean proper_not_abs[OF assms] by (auto simp: IsLocal_def Let_def)
qed

lemma SafeJoin_proper:
  "\<lbrakk>list_all proper_seg bs; \<forall>k\<in>set names. list_all proper_seg (Split CHR ''/'' k)\<rbrakk>
     \<Longrightarrow> SafeJoin (abs_path bs) names = Inr (abs_path (bs @ concat (map (Split CHR ''/'') names)))"
proof (induction names arbitrary: bs)
  case (Cons n names)
  have p: "list_all proper_seg (Split CHR ''/'' n)" using Cons.prems(2) by auto
  have "PathJoin [abs_path bs, n] = abs_path (bs @ Split CHR ''/'' n)"
    using PathJoin_abs[OF Cons.prems(1) proper_IsLocal(1)[OF p]] proper_IsLocal(3)[OF p] by metis
  moreover have "SafeJoin (abs_path (bs @ Split CHR ''/'' n)) names
      = Inr (abs_path ((bs @ Split CHR ''/'' n) @ concat (map (Split CHR ''/'') names)))"
    by (rule Cons.IH) (use Cons.prems p in auto)
  ultimately show ?case
    using proper_IsLocal(1,2)[OF p] by simp
qed simp

lemma Split_bucket: "ValidateBucketName b = None \<Longrightarrow> Split CHR ''/'' b = [b]"
  using ValidateBucketName_proper[of b] by (simp add: proper_seg_def Split_single)

lemma SafeJoin_validated:
  assumes "list_all proper_seg bs" "ValidateBucketName b = None" "ValidateObjectKey key = Inr k"
  shows "SafeJoin (abs_path bs) [b, k] = Inr (abs_path (bs @ b # Split CHR ''/'' k))"
  using SafeJoin_proper[OF assms(1), of "[b, k]"] Split_bucket[OF assms(2)]
    ValidateBucketName_proper[OF assms(2)] ValidateObjectKey_ok(4)[OF assms(3)]
  by simp

lemma ValidateObjectKey_not_sidecar:
  assumes "ValidateObjectKey key = Inr c" "x \<in> set (Split CHR ''/'' c)"
  shows "\<not> HasSuffix x ''.meta''" "\<not> HasSuffix x ''.tags.json''" "x \<noteq> ''.acl.json''" "x \<noteq> ''.cors.json''"
  using ValidateObjectKey_ok(3)[OF assms(1)] assms(2)
  by (auto simp: list_all_iff segmentIsSafe_def reservedSidecarSuffixes_def reservedBucketSidecars_def
      split: if_splits)

lemma ValidateObjectKey_idem:
  assumes "ValidateObjectKey key = Inr c"
  shows "ValidateObjectKey c = Inr c"
proof -
  note ok = ValidateObjectKey_ok[OF assms]
  have "\<not> HasPrefix c ''/''" using proper_not_abs[OF ok(4)] by (simp add: IsAbs_def)
  then have tp: "TrimPrefix c ''/'' = c" by (simp add: TrimPrefix_id)
  have "ValidString c"
  proof (cases "HasPrefix key ''/''")
    case True
    then obtain r where r: "key = CHR ''/'' # r" by (auto simp: HasPrefix_iff)
    with ok(1) have "c = r" by (simp add: TrimPrefix_def HasPrefix_def)
    moreover have "ValidString (CHR ''/'' # r) = ValidString r"
      by (subst ValidString.simps) (simp add: rune_width_ascii)
    ultimately show ?thesis using ok(5) r by simp
  next
    case False
    with ok(1,5) show ?thesis by (simp add: TrimPrefix_id)
  qed
  then show ?thesis
    using ok tp by (auto simp: ValidateObjectKey_def list_ex_iff list_all_iff)
qed

end
