(* ===== verification/File_Sys.thy ===== *)
theory File_Sys
  imports Names
begin

text \<open>
  The file system behind the \<open>os\<close> and \<open>filepath\<close> calls of the program.  A file system
  maps the segments of a path to a directory or to a file with its bytes and modification
  time; the root always exists.  Every call can fail for reasons outside the program (a
  full disk, permissions): \<open>fault\<close> says which calls do, per path, and how many bytes a
  failing write leaves behind.  \<open>fs_wf\<close> (every entry lies in a directory) is kept by every
  operation.
\<close>

datatype node = Dir | File bytes time

type_synonym path = "string list"
type_synonym fs = "(path \<times> node) list"

datatype os_error = ENOENT | ENOTDIR | EISDIR | ENOTEMPTY | EFAULT

datatype oscall = OpStat | OpRead | OpReadDir | OpMkdir | OpCreate | OpWrite | OpRename | OpRemove | OpSync | OpChmod | OpClose

record fault =
  fails :: "oscall \<Rightarrow> path \<Rightarrow> bool"
  short_write :: "path \<Rightarrow> nat"

definition no_fault :: fault where
  "no_fault = \<lparr>fails = (\<lambda>_ _. False), short_write = (\<lambda>_. 0)\<rparr>"

definition IsNotExist :: "os_error \<Rightarrow> bool" where "IsNotExist e \<longleftrightarrow> e = ENOENT"

text \<open>The segments the kernel sees; empty ones (doubled or trailing slashes) do not count.\<close>

definition psegs :: "string \<Rightarrow> path" where
  "psegs p = filter (\<lambda>s. s \<noteq> []) (Split CHR ''/'' p)"

definition node_at :: "fs \<Rightarrow> path \<Rightarrow> node option" where
  "node_at fs q = (if q = [] then Some Dir else map_of fs q)"

fun resolve :: "fs \<Rightarrow> path \<Rightarrow> path \<Rightarrow> os_error + node" where
  "resolve fs pre [] = (case node_at fs pre of None \<Rightarrow> Inl ENOENT | Some n \<Rightarrow> Inr n)"
| "resolve fs pre (s # ss) =
     (case node_at fs pre of
        None \<Rightarrow> Inl ENOENT
      | Some Dir \<Rightarrow> resolve fs (pre @ [s]) ss
      | Some (File _ _) \<Rightarrow> Inl ENOTDIR)"

abbreviation lookup_path :: "fs \<Rightarrow> path \<Rightarrow> os_error + node" where
  "lookup_path fs q \<equiv> resolve fs [] q"

definition Stat :: "fault \<Rightarrow> fs \<Rightarrow> string \<Rightarrow> os_error + node" where
  "Stat ft fs p = (if fails ft OpStat (psegs p) then Inl EFAULT else lookup_path fs (psegs p))"

definition ReadFile :: "fault \<Rightarrow> fs \<Rightarrow> string \<Rightarrow> os_error + bytes" where
  "ReadFile ft fs p =
     (if fails ft OpRead (psegs p) then Inl EFAULT
      else case lookup_path fs (psegs p) of
          Inl e \<Rightarrow> Inl e
        | Inr Dir \<Rightarrow> Inl EISDIR
        | Inr (File b _) \<Rightarrow> Inr b)"

definition WriteFile :: "fault \<Rightarrow> time \<Rightarrow> string \<Rightarrow> bytes \<Rightarrow> fs \<Rightarrow> os_error option \<times> fs" where
  "WriteFile ft now p b fs =
     (let q = psegs p
      in if q = [] then (Some EISDIR, fs)
         else case lookup_path fs (butlast q) of
             Inl e \<Rightarrow> (Some e, fs)
           | Inr (File _ _) \<Rightarrow> (Some ENOTDIR, fs)
           | Inr Dir \<Rightarrow>
               if node_at fs q = Some Dir then (Some EISDIR, fs)
               else if fails ft OpCreate q then (Some EFAULT, fs)
               else if fails ft OpWrite q
                    then (Some EFAULT, AList.update q (File (take (short_write ft q) b) now) fs)
               else (None, AList.update q (File b now) fs))"

fun mkdirs :: "fault \<Rightarrow> path \<Rightarrow> path \<Rightarrow> fs \<Rightarrow> os_error option \<times> fs" where
  "mkdirs ft pre [] fs = (None, fs)"
| "mkdirs ft pre (s # ss) fs =
     (case node_at fs (pre @ [s]) of
        Some Dir \<Rightarrow> mkdirs ft (pre @ [s]) ss fs
      | Some (File _ _) \<Rightarrow> (Some ENOTDIR, fs)
      | None \<Rightarrow>
          if fails ft OpMkdir (pre @ [s]) then (Some EFAULT, fs)
          else mkdirs ft (pre @ [s]) ss (AList.update (pre @ [s]) Dir fs))"

definition MkdirAll :: "fault \<Rightarrow> string \<Rightarrow> fs \<Rightarrow> os_error option \<times> fs" where
  "MkdirAll ft p fs = mkdirs ft [] (psegs p) fs"

text \<open>The program renames files only; a directory is refused.\<close>

definition Rename :: "fault \<Rightarrow> string \<Rightarrow> string \<Rightarrow> fs \<Rightarrow> os_error option \<times> fs" where
  "Rename ft old new fs =
     (let q = psegs old; r = psegs new
      in case lookup_path fs q of
          Inl e \<Rightarrow> (Some e, fs)
        | Inr Dir \<Rightarrow> (Some EISDIR, fs)
        | Inr (File b t) \<Rightarrow>
            (case lookup_path fs (butlast r) of
               Inl e \<Rightarrow> (Some e, fs)
             | Inr (File _ _) \<Rightarrow> (Some ENOTDIR, fs)
             | Inr Dir \<Rightarrow>
                 if node_at fs r = Some Dir then (Some EISDIR, fs)
                 else if fails ft OpRename q then (Some EFAULT, fs)
                 else (None, AList.update r (File b t) (AList.delete q fs))))"

definition has_children :: "fs \<Rightarrow> path \<Rightarrow> bool" where
  "has_children fs q = list_ex (\<lambda>(k, _). k \<noteq> [] \<and> butlast k = q) fs"

definition Remove :: "fault \<Rightarrow> string \<Rightarrow> fs \<Rightarrow> os_error option \<times> fs" where
  "Remove ft p fs =
     (let q = psegs p
      in case lookup_path fs q of
          Inl e \<Rightarrow> (Some e, fs)
        | Inr n \<Rightarrow>
            if q = [] \<or> fails ft OpRemove q then (Some EFAULT, fs)
            else if n = Dir \<and> has_children fs q then (Some ENOTEMPTY, fs)
            else (None, AList.delete q fs))"

definition below :: "path \<Rightarrow> path \<Rightarrow> bool" where
  "below q k \<longleftrightarrow> take (length q) k = q"

definition RemoveAll :: "fault \<Rightarrow> string \<Rightarrow> fs \<Rightarrow> os_error option \<times> fs" where
  "RemoveAll ft p fs =
     (if fails ft OpRemove (psegs p) then (Some EFAULT, fs)
      else (None, filter (\<lambda>(k, _). \<not> below (psegs p) k) fs))"

definition children :: "fs \<Rightarrow> path \<Rightarrow> (string \<times> node) list" where
  "children fs q = map (\<lambda>(k, n). (last k, n)) (filter (\<lambda>(k, _). k \<noteq> [] \<and> butlast k = q) fs)"

text \<open>\<open>os.ReadDir\<close> sorts its entries by name.\<close>

definition ReadDir :: "fault \<Rightarrow> fs \<Rightarrow> string \<Rightarrow> os_error + (string \<times> node) list" where
  "ReadDir ft fs p =
     (if fails ft OpReadDir (psegs p) then Inl EFAULT
      else case lookup_path fs (psegs p) of
          Inl e \<Rightarrow> Inl e
        | Inr (File _ _) \<Rightarrow> Inl ENOTDIR
        | Inr Dir \<Rightarrow> Inr (sort_key fst (children fs (psegs p))))"

text \<open>
  The files below a directory as \<open>filepath.WalkDir\<close> meets them, by their relative
  segments.  The order of the list is that of the map: the program sorts, or asks whether
  the list is empty.  A fault of the walk is attributed to its root.
\<close>

definition walk_files :: "fs \<Rightarrow> path \<Rightarrow> (path \<times> bytes \<times> time) list" where
  "walk_files fs q =
     concat (map (\<lambda>(k, n). case n of Dir \<Rightarrow> [] | File b t \<Rightarrow> [(drop (length q) k, b, t)])
       (filter (\<lambda>(k, _). below q k \<and> k \<noteq> q) fs))"

definition WalkDir :: "fault \<Rightarrow> fs \<Rightarrow> string \<Rightarrow> os_error + (path \<times> bytes \<times> time) list" where
  "WalkDir ft fs p =
     (if fails ft OpReadDir (psegs p) then Inl EFAULT
      else case lookup_path fs (psegs p) of
          Inl e \<Rightarrow> Inl e
        | Inr (File b t) \<Rightarrow> Inr [([], b, t)]
        | Inr Dir \<Rightarrow> Inr (walk_files fs (psegs p)))"

text \<open>\<open>filepath.Dir\<close> on a clean absolute path.\<close>

definition path_dir :: "string \<Rightarrow> string" where
  "path_dir p = abs_path (butlast (psegs p))"

section \<open>Well-formed file systems\<close>

definition seg_ok :: "string \<Rightarrow> bool" where
  "seg_ok s \<longleftrightarrow> s \<noteq> [] \<and> CHR ''/'' \<notin> set s"

definition fs_wf :: "fs \<Rightarrow> bool" where
  "fs_wf fs \<longleftrightarrow> wf_map fs \<and>
     (\<forall>q n. map_of fs q = Some n \<longrightarrow> q \<noteq> [] \<and> list_all seg_ok q \<and> node_at fs (butlast q) = Some Dir)"

lemma node_at_root [simp]: "node_at fs [] = Some Dir"
  by (simp add: node_at_def)

lemma node_at_cons: "q \<noteq> [] \<Longrightarrow> node_at fs q = map_of fs q"
  by (simp add: node_at_def)

lemma node_at_update [simp]:
  "r \<noteq> [] \<Longrightarrow> node_at (AList.update r n fs) q = (if q = r then Some n else node_at fs q)"
  by (simp add: node_at_def map_of_upd)

lemma node_at_delete: "r \<noteq> [] \<Longrightarrow> node_at (AList.delete r fs) q = (if q = r then None else node_at fs q)"
  by (simp add: node_at_def map_of_del)

lemma fs_wf_parent: "\<lbrakk>fs_wf fs; node_at fs (q @ [s]) = Some n\<rbrakk> \<Longrightarrow> node_at fs q = Some Dir"
  by (auto simp: fs_wf_def node_at_cons)

lemma fs_wf_ancestors: "\<lbrakk>fs_wf fs; node_at fs (q @ r) = Some n; r \<noteq> []\<rbrakk> \<Longrightarrow> node_at fs q = Some Dir"
proof (induction r arbitrary: n rule: rev_induct)
  case (snoc s r)
  have "node_at fs (q @ r) = Some Dir" using fs_wf_parent[of fs "q @ r" s n] snoc.prems by simp
  then show ?case using snoc.IH snoc.prems(1) by (cases "r = []") auto
qed simp

lemma resolve_Inr: "resolve fs pre ss = Inr n \<Longrightarrow> node_at fs (pre @ ss) = Some n"
proof (induction ss arbitrary: pre)
  case (Cons s ss)
  then show ?case using Cons.IH[of "pre @ [s]"] by (auto split: option.splits node.splits)
qed (auto split: option.splits)

lemma resolve_found: "\<lbrakk>fs_wf fs; node_at fs (pre @ ss) = Some n\<rbrakk> \<Longrightarrow> resolve fs pre ss = Inr n"
proof (induction ss arbitrary: pre)
  case (Cons s ss)
  then have "node_at fs pre = Some Dir" using fs_wf_ancestors[of fs pre "s # ss" n] by simp
  then show ?case using Cons by simp
qed simp

lemma lookup_iff: "fs_wf fs \<Longrightarrow> lookup_path fs q = Inr n \<longleftrightarrow> node_at fs q = Some n"
  using resolve_Inr[of fs "[]" q n] resolve_found[of fs "[]" q n] by auto

lemma lookup_Inl: "fs_wf fs \<Longrightarrow> lookup_path fs q = Inl e \<Longrightarrow> node_at fs q = None \<and> (e = ENOENT \<or> e = ENOTDIR)"
proof -
  assume wf: "fs_wf fs" and e: "lookup_path fs q = Inl e"
  have "resolve fs pre ss = Inl e \<Longrightarrow> e = ENOENT \<or> e = ENOTDIR" for pre ss
    by (induction ss arbitrary: pre) (auto split: option.splits node.splits)
  then have "e = ENOENT \<or> e = ENOTDIR" using e by blast
  moreover have "node_at fs q = None" using e lookup_iff[OF wf, of q] by (cases "node_at fs q") auto
  ultimately show ?thesis by blast
qed

lemma lookup_under_file:
  "\<lbrakk>fs_wf fs; node_at fs q = Some (File b t); r \<noteq> []\<rbrakk> \<Longrightarrow> lookup_path fs (q @ r) = Inl ENOTDIR"
proof -
  assume wf: "fs_wf fs" and f: "node_at fs q = Some (File b t)" and r: "r \<noteq> []"
  have "node_at fs (pre @ ss) = Some (File b t) \<Longrightarrow> resolve fs pre (ss @ r) = Inl ENOTDIR" for pre ss
  proof (induction ss arbitrary: pre)
    case Nil
    then show ?case using r by (cases r) auto
  next
    case (Cons s ss)
    then have "node_at fs pre = Some Dir" using fs_wf_ancestors[OF wf, of pre "s # ss"] by simp
    with Cons show ?case by simp
  qed
  from this[of "[]" q] f show ?thesis by simp
qed

lemma psegs_ok: "list_all seg_ok (psegs p)"
  using Split_no_sep[of _ "CHR ''/''" p] by (auto simp: psegs_def list_all_iff seg_ok_def)

lemma psegs_abs_path: "list_all seg_ok ss \<Longrightarrow> psegs (abs_path ss) = ss"
proof (cases "ss = []")
  case False
  assume ok: "list_all seg_ok ss"
  then have "Split CHR ''/'' (Join ''/'' ss) = ss" using False by (intro Split_Join) (auto simp: list_all_iff seg_ok_def)
  moreover have "filter (\<lambda>s. s \<noteq> []) ss = ss" using ok by (auto simp: list_all_iff seg_ok_def filter_id_conv)
  ultimately show ?thesis by (simp add: psegs_def abs_path_def)
qed (simp add: psegs_def abs_path_def)

lemma psegs_suffix:
  assumes "list_all seg_ok ss" "ss \<noteq> []" "CHR ''/'' \<notin> set x"
  shows "psegs (abs_path ss @ x) = butlast ss @ [last ss @ x]"
proof -
  have "Join sep (ys @ [y]) @ x = Join sep (ys @ [y @ x])" for sep ys and y :: string
    by (cases "ys = []") (simp_all add: Join_append)
  then have "abs_path ss @ x = abs_path (butlast ss @ [last ss @ x])"
    using assms(2) by (metis abs_path_def append_Cons append_butlast_last_id)
  moreover have "list_all seg_ok (butlast ss @ [last ss @ x])"
    using assms by (auto simp: list_all_iff seg_ok_def dest: in_set_butlastD)
  ultimately show ?thesis by (simp add: psegs_abs_path)
qed

lemma psegs_path_dir [simp]: "psegs (path_dir p) = butlast (psegs p)"
proof -
  have "list_all seg_ok (butlast (psegs p))" using psegs_ok[of p] by (auto simp: list_all_iff dest: in_set_butlastD)
  then show ?thesis by (simp add: path_dir_def psegs_abs_path)
qed

text \<open>Writing a file or a directory into an existing directory.\<close>

lemma fs_wf_update:
  assumes "fs_wf fs" "q \<noteq> []" "list_all seg_ok q" "node_at fs (butlast q) = Some Dir"
    "n = Dir \<or> node_at fs q \<noteq> Some Dir"
  shows "fs_wf (AList.update q n fs)"
proof -
  have nq: "butlast q \<noteq> q" using assms(2) by (metis append_butlast_last_id not_Cons_self2 self_append_conv)
  have "node_at (AList.update q n fs) (butlast r) = Some Dir" if "map_of fs r = Some m" for r m
  proof (cases "butlast r = q")
    case True
    then have "node_at fs q = Some Dir" using that assms(1) by (auto simp: fs_wf_def)
    then show ?thesis using assms(2,5) True by simp
  next
    case False
    then show ?thesis using that assms(1,2) by (auto simp: fs_wf_def)
  qed
  then show ?thesis
    using assms nq unfolding fs_wf_def by (auto simp: wf_map_update map_of_upd split: if_splits)
qed

lemma has_children_iff: "wf_map fs \<Longrightarrow> has_children fs q \<longleftrightarrow> (\<exists>k n. map_of fs k = Some n \<and> k \<noteq> [] \<and> butlast k = q)"
  by (force simp: has_children_def list_ex_iff wf_map_def map_of_eq_Some_iff)

lemma fs_wf_delete:
  assumes "fs_wf fs" "node_at fs q \<noteq> Some Dir \<or> \<not> has_children fs q"
  shows "fs_wf (AList.delete q fs)"
proof -
  have wf: "wf_map fs" using assms(1) by (simp add: fs_wf_def)
  have "node_at (AList.delete q fs) (butlast r) = Some Dir" if "map_of fs r = Some m" "r \<noteq> q" for r m
  proof (cases "butlast r = q \<and> q \<noteq> []")
    case True
    then have "has_children fs q" using that assms(1) wf by (auto simp: has_children_iff fs_wf_def)
    moreover have "node_at fs q = Some Dir" using that assms(1) True by (auto simp: fs_wf_def)
    ultimately show ?thesis using assms(2) by simp
  next
    case False
    then show ?thesis using that assms(1) by (cases "q = []") (auto simp: fs_wf_def node_at_def map_of_del)
  qed
  then show ?thesis
    using assms(1) unfolding fs_wf_def by (auto simp: wf_map_delete map_of_del split: if_splits)
qed

section \<open>The operations keep well-formedness\<close>

lemma psegs_butlast_ok: "list_all seg_ok (psegs p)" by (rule psegs_ok)

lemma WriteFile_wf: "fs_wf fs \<Longrightarrow> fs_wf (snd (WriteFile ft now p b fs))"
proof -
  assume wf: "fs_wf fs"
  have "fs_wf (AList.update (psegs p) (File c now) fs)"
    if "psegs p \<noteq> []" "lookup_path fs (butlast (psegs p)) = Inr Dir" "node_at fs (psegs p) \<noteq> Some Dir" for c
    using that wf lookup_iff[OF wf] psegs_ok by (intro fs_wf_update) auto
  then show ?thesis using wf by (auto simp: WriteFile_def Let_def split: sum.splits node.splits)
qed

lemma mkdirs_wf:
  "\<lbrakk>fs_wf fs; node_at fs pre = Some Dir; list_all seg_ok (pre @ ss)\<rbrakk> \<Longrightarrow> fs_wf (snd (mkdirs ft pre ss fs))"
proof (induction ss arbitrary: pre fs)
  case (Cons s ss)
  show ?case
  proof (cases "node_at fs (pre @ [s])")
    case None
    have "fs_wf (AList.update (pre @ [s]) Dir fs)"
      using Cons.prems None by (intro fs_wf_update) auto
    then have "fs_wf (snd (mkdirs ft (pre @ [s]) ss (AList.update (pre @ [s]) Dir fs)))"
      using Cons.prems(3) by (intro Cons.IH) auto
    then show ?thesis using None Cons.prems(1) by simp
  next
    case (Some n)
    then show ?thesis using Cons.prems Cons.IH[of fs "pre @ [s]"] by (cases n) auto
  qed
qed simp

lemma MkdirAll_wf: "fs_wf fs \<Longrightarrow> fs_wf (snd (MkdirAll ft p fs))"
  unfolding MkdirAll_def using psegs_ok by (intro mkdirs_wf) auto

lemma Rename_wf: "fs_wf fs \<Longrightarrow> fs_wf (snd (Rename ft old new fs))"
proof -
  assume wf: "fs_wf fs"
  let ?q = "psegs old" and ?r = "psegs new"
  have "fs_wf (AList.update ?r (File b t) (AList.delete ?q fs))"
    if "lookup_path fs ?q = Inr (File b t)" "lookup_path fs (butlast ?r) = Inr Dir" "node_at fs ?r \<noteq> Some Dir" for b t
  proof -
    have q: "node_at fs ?q = Some (File b t)" and par: "node_at fs (butlast ?r) = Some Dir"
      using that lookup_iff[OF wf] by auto
    then have qn: "?q \<noteq> []" and rn: "?r \<noteq> []" using that(3) by auto
    have "fs_wf (AList.delete ?q fs)" using wf q by (intro fs_wf_delete) auto
    then show ?thesis
      using rn qn q par that(3) psegs_ok by (intro fs_wf_update) (auto simp: node_at_delete)
  qed
  then show ?thesis using wf by (auto simp: Rename_def Let_def split: sum.splits node.splits)
qed

lemma Remove_wf: "fs_wf fs \<Longrightarrow> fs_wf (snd (Remove ft p fs))"
proof -
  assume wf: "fs_wf fs"
  have "fs_wf (AList.delete (psegs p) fs)"
    if "lookup_path fs (psegs p) = Inr n" "\<not> (n = Dir \<and> has_children fs (psegs p))" for n
    using that wf lookup_iff[OF wf] by (intro fs_wf_delete) auto
  then show ?thesis using wf by (auto simp: Remove_def Let_def split: sum.splits)
qed

lemma map_of_filter_keys: "map_of (filter (\<lambda>(k, _). P k) m) k = (if P k then map_of m k else None)"
  by (induction m) auto

lemma below_iff: "below q k \<longleftrightarrow> (\<exists>r. k = q @ r)"
  unfolding below_def by (metis append_eq_conv_conj append_take_drop_id)

lemma below_parent:
  assumes "\<not> below q k" "k \<noteq> []"
  shows "\<not> below q (butlast k)"
proof
  assume "below q (butlast k)"
  then obtain r where "butlast k = q @ r" by (auto simp: below_iff)
  then have "k = q @ r @ [last k]" using assms(2) by (metis append.assoc append_butlast_last_id)
  then show False using assms(1) by (auto simp: below_iff)
qed

lemma RemoveAll_wf: "fs_wf fs \<Longrightarrow> fs_wf (snd (RemoveAll ft p fs))"
proof -
  assume wf: "fs_wf fs"
  let ?fs = "filter (\<lambda>(k, _). \<not> below (psegs p) k) fs"
  have "node_at ?fs (butlast r) = Some Dir" if "map_of fs r = Some m" "\<not> below (psegs p) r" for r m
  proof -
    have "r \<noteq> []" "node_at fs (butlast r) = Some Dir" using that wf by (auto simp: fs_wf_def)
    then show ?thesis using below_parent[OF that(2)] by (auto simp: node_at_def map_of_filter_keys)
  qed
  then have "fs_wf ?fs" using wf unfolding fs_wf_def
    by (auto simp: wf_map_filter map_of_filter_keys split: if_splits)
  then show ?thesis using wf by (simp add: RemoveAll_def)
qed

section \<open>What the operations change\<close>

lemma WriteFile_ok:
  assumes "WriteFile ft now p b fs = (None, fs')"
  shows "fs' = AList.update (psegs p) (File b now) fs" "psegs p \<noteq> []"
    "lookup_path fs (butlast (psegs p)) = Inr Dir" "node_at fs (psegs p) \<noteq> Some Dir"
  using assms by (auto simp: WriteFile_def Let_def split: if_splits sum.splits node.splits)

lemma WriteFile_succeeds:
  assumes "fs_wf fs" "psegs p \<noteq> []" "node_at fs (butlast (psegs p)) = Some Dir" "node_at fs (psegs p) \<noteq> Some Dir"
    "\<not> fails ft OpCreate (psegs p)" "\<not> fails ft OpWrite (psegs p)"
  shows "WriteFile ft now p b fs = (None, AList.update (psegs p) (File b now) fs)"
  using assms lookup_iff[OF assms(1), of "butlast (psegs p)" Dir] by (simp add: WriteFile_def Let_def)

lemma WriteFile_frame: "r \<noteq> psegs p \<Longrightarrow> node_at (snd (WriteFile ft now p b fs)) r = node_at fs r"
  by (auto simp: WriteFile_def Let_def split: sum.splits node.splits)

lemma mkdirs_frame: "node_at fs r \<noteq> None \<Longrightarrow> node_at (snd (mkdirs ft pre ss fs)) r = node_at fs r"
proof (induction ss arbitrary: pre fs)
  case (Cons s ss)
  show ?case
  proof (cases "node_at fs (pre @ [s])")
    case None
    then have "node_at (AList.update (pre @ [s]) Dir fs) r = node_at fs r" using Cons.prems by auto
    then show ?thesis using Cons None by simp
  next
    case (Some n)
    then show ?thesis using Cons by (cases n) auto
  qed
qed simp

lemma mkdirs_only_dirs:
  "node_at (snd (mkdirs ft pre ss fs)) r = Some (File b t) \<Longrightarrow> node_at fs r = Some (File b t)"
proof (induction ss arbitrary: pre fs)
  case (Cons s ss)
  show ?case
  proof (cases "node_at fs (pre @ [s])")
    case None
    then have "node_at (snd (mkdirs ft (pre @ [s]) ss (AList.update (pre @ [s]) Dir fs))) r = Some (File b t) \<or> node_at fs r = Some (File b t)"
      using Cons.prems by (auto split: if_splits)
    then show ?thesis using Cons.IH[of "pre @ [s]" "AList.update (pre @ [s]) Dir fs"] None by (auto split: if_splits)
  next
    case (Some n)
    then show ?thesis using Cons by (cases n) auto
  qed
qed simp

lemma mkdirs_ok: "\<lbrakk>mkdirs ft pre ss fs = (None, fs'); node_at fs pre = Some Dir\<rbrakk> \<Longrightarrow> node_at fs' (pre @ ss) = Some Dir"
proof (induction ss arbitrary: pre fs)
  case (Cons s ss)
  then show ?case
    using Cons.IH[of "pre @ [s]"] by (auto split: option.splits node.splits if_splits)
qed simp

lemma MkdirAll_ok: "MkdirAll ft p fs = (None, fs') \<Longrightarrow> node_at fs' (psegs p) = Some Dir"
  using mkdirs_ok[of ft "[]" "psegs p" fs fs'] by (simp add: MkdirAll_def)

lemma MkdirAll_frame: "node_at fs r \<noteq> None \<Longrightarrow> node_at (snd (MkdirAll ft p fs)) r = node_at fs r"
  by (simp add: MkdirAll_def mkdirs_frame)

lemma MkdirAll_files: "node_at (snd (MkdirAll ft p fs)) r = Some (File b t) \<Longrightarrow> node_at fs r = Some (File b t)"
  unfolding MkdirAll_def by (rule mkdirs_only_dirs)

text \<open>New directories lie on the way to the target.\<close>

lemma mkdirs_new:
  "\<lbrakk>node_at (snd (mkdirs ft pre ss fs)) r = Some Dir; node_at fs r = None\<rbrakk> \<Longrightarrow> \<exists>k. r = pre @ take k ss"
proof (induction ss arbitrary: pre fs)
  case (Cons s ss)
  show ?case
  proof (cases "node_at fs (pre @ [s])")
    case None
    show ?thesis
    proof (cases "r = pre @ [s]")
      case True
      then show ?thesis by (intro exI[of _ 1]) simp
    next
      case False
      then have "node_at (AList.update (pre @ [s]) Dir fs) r = None" using Cons.prems(2) by simp
      then obtain k where "r = (pre @ [s]) @ take k ss"
        using Cons.IH[of "pre @ [s]" "AList.update (pre @ [s]) Dir fs"] Cons.prems None by (auto split: if_splits)
      then show ?thesis by (intro exI[of _ "Suc k"]) simp
    qed
  next
    case (Some n)
    then show ?thesis
    proof (cases n)
      case Dir
      then obtain k where "r = (pre @ [s]) @ take k ss"
        using Cons.IH[of "pre @ [s]" fs] Cons.prems Some by auto
      then show ?thesis by (intro exI[of _ "Suc k"]) simp
    next
      case (File b t)
      then show ?thesis using Some Cons.prems by simp
    qed
  qed
qed simp

lemma Rename_ok:
  assumes "Rename ft old new fs = (None, fs')"
  shows "\<exists>b t. lookup_path fs (psegs old) = Inr (File b t)
     \<and> fs' = AList.update (psegs new) (File b t) (AList.delete (psegs old) fs)"
    "psegs new \<noteq> []" "lookup_path fs (butlast (psegs new)) = Inr Dir"
  using assms by (auto simp: Rename_def Let_def split: sum.splits node.splits if_splits)

lemma Rename_frame:
  "\<lbrakk>r \<noteq> psegs old; r \<noteq> psegs new; psegs new \<noteq> []; psegs old \<noteq> []\<rbrakk>
     \<Longrightarrow> node_at (snd (Rename ft old new fs)) r = node_at fs r"
  by (auto simp: Rename_def Let_def node_at_delete split: sum.splits node.splits)

lemma Rename_error: "Rename ft old new fs = (Some e, fs') \<Longrightarrow> fs' = fs"
  by (auto simp: Rename_def Let_def split: sum.splits node.splits if_splits)

lemma Remove_frame: "r \<noteq> psegs p \<Longrightarrow> node_at (snd (Remove ft p fs)) r = node_at fs r"
  by (auto simp: Remove_def Let_def node_at_delete split: sum.splits)

lemma Remove_ok: "\<lbrakk>Remove ft p fs = (None, fs')\<rbrakk> \<Longrightarrow> psegs p \<noteq> [] \<and> node_at fs' (psegs p) = None"
  by (auto simp: Remove_def Let_def node_at_delete split: sum.splits if_splits)

lemma Remove_error: "Remove ft p fs = (Some e, fs') \<Longrightarrow> fs' = fs"
  by (auto simp: Remove_def Let_def split: sum.splits if_splits)

lemma Remove_missing: "\<lbrakk>fs_wf fs; Remove ft p fs = (Some ENOENT, fs')\<rbrakk> \<Longrightarrow> node_at fs (psegs p) = None"
  by (auto simp: Remove_def Let_def dest: lookup_Inl split: sum.splits if_splits)

lemma ReadFile_at:
  "fs_wf fs \<Longrightarrow> ReadFile ft fs p = Inr b \<longleftrightarrow>
     \<not> fails ft OpRead (psegs p) \<and> (\<exists>t. node_at fs (psegs p) = Some (File b t))"
proof (cases "lookup_path fs (psegs p)")
  case (Inl e)
  assume "fs_wf fs"
  from lookup_Inl[OF this Inl] show ?thesis by (simp add: ReadFile_def Inl)
next
  case (Inr n)
  then have "node_at fs (psegs p) = Some n" using resolve_Inr[of fs "[]"] by simp
  then show ?thesis by (cases n) (simp_all add: ReadFile_def Inr)
qed

lemma Stat_at: "fs_wf fs \<Longrightarrow> Stat ft fs p = Inr n \<longleftrightarrow> \<not> fails ft OpStat (psegs p) \<and> node_at fs (psegs p) = Some n"
  by (auto simp: Stat_def lookup_iff)

text \<open>Reads depend on the file system only through \<open>node_at\<close>.\<close>

lemma resolve_cong:
  "(\<And>q. node_at fs q = node_at fs' q) \<Longrightarrow> resolve fs pre ss = resolve fs' pre ss"
  by (induction ss arbitrary: pre) (simp_all split: option.splits node.splits)

end
