(* ===== verification/Users.thy ===== *)
theory Users
  imports Library
begin

text \<open>
  \<open>internal/storage/storage.go\<close> and \<open>internal/util/rand.go\<close>: the user records in
  the bolt bucket \<open>Users\<close>, the AES-GCM wrapping of their secrets, and the random
  credentials.  An operation returns its result and the database after it; the clock, the
  nonce and the random draws are arguments.
\<close>

section \<open>rand.go\<close>

definition AccessKeyCharset :: string where
  "AccessKeyCharset = ''ABCDEFGHIJKLMNOPQRSTUVWXYZabcdefghijklmnopqrstuvwxyz0123456789''"

definition SecretAccessKeyCharset :: string where
  "SecretAccessKeyCharset = ''ABCDEFGHIJKLMNOPQRSTUVWXYZabcdefghijklmnopqrstuvwxyz0123456789/+''"

text \<open>\<open>draw i\<close> is the \<open>i\<close>-th integer of the random source, reduced below the bound.\<close>

definition GenerateRandomString :: "(nat \<Rightarrow> nat) \<Rightarrow> nat \<Rightarrow> string \<Rightarrow> string" where
  "GenerateRandomString draw n charset =
     map (\<lambda>i. charset ! (draw i mod length charset)) [0..<n]"

section \<open>AES-GCM\<close>

definition NewCipher :: "bytes \<Rightarrow> bool" where
  "NewCipher key \<longleftrightarrow> length key = 16 \<or> length key = 24 \<or> length key = 32"

definition NonceSize :: nat where "NonceSize = 12"

definition Encrypt :: "lib \<Rightarrow> bytes \<Rightarrow> bytes \<Rightarrow> string \<Rightarrow> string option" where
  "Encrypt L encryptionKey nonce plaintext =
     (if \<not> NewCipher encryptionKey then None
      else Some (b64_encode StdEncoding (nonce @ gcm_seal L encryptionKey nonce plaintext)))"

definition Decrypt :: "lib \<Rightarrow> bytes \<Rightarrow> string \<Rightarrow> string option" where
  "Decrypt L encryptionKey cipherText =
     (case b64_decode StdEncoding cipherText of
        None \<Rightarrow> None
      | Some data \<Rightarrow>
          if \<not> NewCipher encryptionKey then None
          else if length data < NonceSize then None
          else gcm_open L encryptionKey (take NonceSize data) (drop NonceSize data))"

lemma Decrypt_Encrypt:
  "\<lbrakk>cipher_ok L; length nonce = NonceSize; Encrypt L key nonce p = Some c\<rbrakk> \<Longrightarrow> Decrypt L key c = Some p"
  by (auto simp: Encrypt_def Decrypt_def b64_decode_encode cipher_ok_def split: if_splits)

section \<open>The user store\<close>

datatype user_error = ErrUserNotFound | ErrUserExists | ErrUserCodec | ErrUserDB

definition users_bucket :: string where "users_bucket = ''Users''"

definition CreateUser :: "lib \<Rightarrow> 'db bolt \<Rightarrow> time \<Rightarrow> User \<Rightarrow> 'db \<Rightarrow> (user_error + User) \<times> 'db" where
  "CreateUser L B now user d =
     (let u = (if CreatedAt user = None then user\<lparr>CreatedAt := Some now\<rparr> else user)
      in if bget B users_bucket (AccessKeyID u) d \<noteq> None then (Inl ErrUserExists, d)
         else case user_enc L u of
             None \<Rightarrow> (Inl ErrUserCodec, d)
           | Some raw \<Rightarrow>
               (case bput B users_bucket (AccessKeyID u) raw d of
                  None \<Rightarrow> (Inl ErrUserDB, d)
                | Some d' \<Rightarrow> (Inr u, d')))"

definition GetUser :: "lib \<Rightarrow> 'db bolt \<Rightarrow> string \<Rightarrow> 'db \<Rightarrow> user_error + User" where
  "GetUser L B accessKey d =
     (case bget B users_bucket accessKey d of
        None \<Rightarrow> Inl ErrUserNotFound
      | Some v \<Rightarrow> (case user_dec L v of None \<Rightarrow> Inl ErrUserCodec | Some u \<Rightarrow> Inr u))"

fun decode_users :: "lib \<Rightarrow> (bytes \<times> bytes) list \<Rightarrow> user_error + User list" where
  "decode_users L [] = Inr []"
| "decode_users L ((k, v) # kvs) =
     (case user_dec L v of
        None \<Rightarrow> Inl ErrUserCodec
      | Some u \<Rightarrow> (case decode_users L kvs of Inl e \<Rightarrow> Inl e | Inr us \<Rightarrow> Inr (u # us)))"

definition ListUsers :: "lib \<Rightarrow> 'db bolt \<Rightarrow> 'db \<Rightarrow> user_error + User list" where
  "ListUsers L B d = decode_users L (bitems B users_bucket d)"

definition UsersExist :: "'db bolt \<Rightarrow> 'db \<Rightarrow> bool" where
  "UsersExist B d \<longleftrightarrow> bitems B users_bucket d \<noteq> []"

definition admin_rule :: ACLRule where
  "admin_rule = \<lparr>Effect = ''Allow'', Buckets = [''*''], Actions = [''*'']\<rparr>"

definition CreateSuperUser ::
  "lib \<Rightarrow> 'db bolt \<Rightarrow> bytes \<Rightarrow> bytes \<Rightarrow> time \<Rightarrow> string \<Rightarrow> string \<Rightarrow> 'db \<Rightarrow> (user_error + User) \<times> 'db" where
  "CreateSuperUser L B key nonce now ak secret d =
     (case Encrypt L key nonce secret of
        None \<Rightarrow> (Inl ErrUserCodec, d)
      | Some enc \<Rightarrow>
          CreateUser L B now
            \<lparr>AccessKeyID = ak, EncryptedSecret = enc, ACL = [admin_rule], CreatedAt = None,
             SecretAccessKey = []\<rparr> d)"

definition CreateUserWithACL ::
  "lib \<Rightarrow> 'db bolt \<Rightarrow> bytes \<Rightarrow> bytes \<Rightarrow> (nat \<Rightarrow> nat) \<Rightarrow> (nat \<Rightarrow> nat) \<Rightarrow> time \<Rightarrow> ACLRule list \<Rightarrow> 'db
     \<Rightarrow> (user_error + User) \<times> 'db" where
  "CreateUserWithACL L B key nonce draw1 draw2 now aclRules d =
     (let accessKeyID = GenerateRandomString draw1 20 AccessKeyCharset;
          secretAccessKey = GenerateRandomString draw2 40 SecretAccessKeyCharset
      in case Encrypt L key nonce secretAccessKey of
           None \<Rightarrow> (Inl ErrUserCodec, d)
         | Some enc \<Rightarrow>
             CreateUser L B now
               \<lparr>AccessKeyID = accessKeyID, EncryptedSecret = enc, ACL = aclRules, CreatedAt = None,
                SecretAccessKey = secretAccessKey\<rparr> d)"

definition UpdateUserACL ::
  "lib \<Rightarrow> 'db bolt \<Rightarrow> string \<Rightarrow> ACLRule list \<Rightarrow> 'db \<Rightarrow> user_error option \<times> 'db" where
  "UpdateUserACL L B accessKeyID aclRules d =
     (case bget B users_bucket accessKeyID d of
        None \<Rightarrow> (Some ErrUserNotFound, d)
      | Some v \<Rightarrow>
          (case user_dec L v of
             None \<Rightarrow> (Some ErrUserCodec, d)
           | Some u \<Rightarrow>
               (case user_enc L (u\<lparr>ACL := aclRules\<rparr>) of
                  None \<Rightarrow> (Some ErrUserCodec, d)
                | Some raw \<Rightarrow>
                    (case bput B users_bucket accessKeyID raw d of
                       None \<Rightarrow> (Some ErrUserDB, d)
                     | Some d' \<Rightarrow> (None, d')))))"

definition DeleteUser :: "'db bolt \<Rightarrow> string \<Rightarrow> 'db \<Rightarrow> user_error option \<times> 'db" where
  "DeleteUser B accessKeyID d =
     (case bdelete B users_bucket accessKeyID d of
        None \<Rightarrow> (Some ErrUserDB, d)
      | Some d' \<Rightarrow> (None, d'))"

section \<open>The store as a map\<close>

text \<open>The abstract view: the user each access key names.\<close>

definition user_view :: "lib \<Rightarrow> 'db bolt \<Rightarrow> 'db \<Rightarrow> string \<Rightarrow> User option" where
  "user_view L B d ak = (case GetUser L B ak d of Inl _ \<Rightarrow> None | Inr u \<Rightarrow> Some u)"

lemma GetUser_after_put:
  assumes "bolt_ok B" "user_codec_ok L" "valid_user u" "user_enc L u = Some raw" "bput B users_bucket ak raw d = Some d'"
  shows "GetUser L B k d' = (if k = ak then Inr (u\<lparr>SecretAccessKey := []\<rparr>) else GetUser L B k d)"
proof -
  have "user_dec L raw = Some (u\<lparr>SecretAccessKey := []\<rparr>)"
    using user_dec_enc[OF assms(2-4)] .
  then show ?thesis by (simp add: GetUser_def bolt_put[OF assms(1,5)])
qed

lemma CreateUser_view:
  assumes "bolt_ok B" "user_codec_ok L" "valid_user user" "CreateUser L B now user d = (Inr u, d')"
  shows "user_view L B d (AccessKeyID user) = None"
    "user_view L B d' = (user_view L B d)(AccessKeyID user \<mapsto> u\<lparr>SecretAccessKey := []\<rparr>)"
    "CreatedAt u \<noteq> None" "AccessKeyID u = AccessKeyID user" "ACL u = ACL user"
proof -
  let ?u = "if CreatedAt user = None then user\<lparr>CreatedAt := Some now\<rparr> else user"
  obtain raw where raw: "user_enc L ?u = Some raw" "bput B users_bucket (AccessKeyID ?u) raw d = Some d'"
    and u: "u = ?u" and fresh: "bget B users_bucket (AccessKeyID ?u) d = None"
    using assms(4) by (auto simp: CreateUser_def Let_def split: if_splits option.splits)
  show "AccessKeyID u = AccessKeyID user" "ACL u = ACL user" "CreatedAt u \<noteq> None" using u by auto
  show "user_view L B d (AccessKeyID user) = None" using fresh by (simp add: user_view_def GetUser_def split: if_splits)
  show "user_view L B d' = (user_view L B d)(AccessKeyID user \<mapsto> u\<lparr>SecretAccessKey := []\<rparr>)"
    using GetUser_after_put[OF assms(1,2) _ raw] u assms(3) unfolding valid_user_def
    by (intro ext) (simp add: user_view_def split: if_splits)
qed

lemma CreateUser_error: "CreateUser L B now user d = (Inl e, d') \<Longrightarrow> d' = d"
  by (auto simp: CreateUser_def Let_def split: if_splits option.splits)

lemma UpdateUserACL_view:
  assumes "bolt_ok B" "user_codec_ok L" "list_all valid_rule rules" "UpdateUserACL L B ak rules d = (None, d')"
  shows "\<exists>u. user_view L B d ak = Some u
     \<and> user_view L B d' = (user_view L B d)(ak \<mapsto> u\<lparr>ACL := rules, SecretAccessKey := []\<rparr>)"
proof -
  obtain v u raw where v: "bget B users_bucket ak d = Some v" "user_dec L v = Some u"
    and put: "user_enc L (u\<lparr>ACL := rules\<rparr>) = Some raw" "bput B users_bucket ak raw d = Some d'"
    using assms(4) by (auto simp: UpdateUserACL_def split: option.splits)
  have "valid_user (u\<lparr>ACL := rules\<rparr>)" using user_dec_valid[OF assms(2) v(2)] assms(3) by (simp add: valid_user_def)
  note g = GetUser_after_put[OF assms(1,2) this put]
  have "user_view L B d' = (user_view L B d)(ak \<mapsto> u\<lparr>ACL := rules, SecretAccessKey := []\<rparr>)"
    by (rule ext) (simp add: user_view_def g)
  moreover have "user_view L B d ak = Some u" using v by (simp add: user_view_def GetUser_def)
  ultimately show ?thesis by blast
qed

lemma UpdateUserACL_error: "UpdateUserACL L B ak rules d = (Some e, d') \<Longrightarrow> d' = d"
  by (auto simp: UpdateUserACL_def split: option.splits)

lemma DeleteUser_view:
  "\<lbrakk>bolt_ok B; DeleteUser B ak d = (None, d')\<rbrakk> \<Longrightarrow> user_view L B d' = (user_view L B d)(ak := None)"
  by (intro ext) (auto simp: DeleteUser_def user_view_def GetUser_def bolt_delete split: option.splits)

lemma length_GenerateRandomString [simp]: "length (GenerateRandomString draw n cs) = n"
  by (simp add: GenerateRandomString_def)

lemma GenerateRandomString_charset: "cs \<noteq> [] \<Longrightarrow> set (GenerateRandomString draw n cs) \<subseteq> set cs"
  by (auto simp: GenerateRandomString_def)

end
