(* ===== verification/Http.thy ===== *)
theory Http
  imports Users Names
begin

text \<open>
  The HTTP vocabulary: a request as the handlers see it (net/http fields, gin's route
  parameters and the keys middleware publishes on the gin context), a response, and the
  shared responders of \<open>internal/handlers/respond.go\<close>,
  \<open>internal/middleware/body_limit.go\<close>, \<open>names.go\<close> and \<open>request_id.go\<close>.
  A body is a tree of fields that is encoded as JSON or as XML; \<open>TFrac\<close> is a \<open>float64\<close> as a fraction.  A request body is the
  bytes that can be read and whether reading past them fails.
\<close>

section \<open>Requests and responses\<close>

record request =
  req_method :: string
  req_path :: string
  req_escaped_path :: string
  req_query :: "(string \<times> string list) list"
  req_header :: "(string \<times> string list) list"
  req_cookie :: "(string \<times> string) list"
  req_host :: string
  req_remote :: string
  req_tls :: bool
  req_body :: bytes
  req_body_fails :: bool
  param_bucket :: string
  param_objectKey :: string
  ctx_user :: "User option"
  ctx_authMethod :: string
  ctx_requestID :: string
  ctx_cleanedKey :: string

datatype tree = TStr string | TInt int | TFrac int int | TBool bool | TNull | TList "tree list" | TObj "(string \<times> tree) list"

datatype payload = NoBody | RawBody bytes | JSON tree | XML string tree

record response =
  status :: nat
  headers :: "(string \<times> string) list"
  payload :: payload
  error_code :: string

definition header_values :: "request \<Rightarrow> string \<Rightarrow> string list" where
  "header_values r name =
     (case map_of (req_header r) (CanonicalHeaderKey name) of None \<Rightarrow> [] | Some vs \<Rightarrow> vs)"

definition GetHeader :: "request \<Rightarrow> string \<Rightarrow> string" where
  "GetHeader r name = (case header_values r name of [] \<Rightarrow> [] | v # _ \<Rightarrow> v)"

definition Query :: "request \<Rightarrow> string \<Rightarrow> string" where
  "Query r name = (case map_of (req_query r) name of Some (v # _) \<Rightarrow> v | _ \<Rightarrow> [])"

definition hasQuery :: "request \<Rightarrow> string \<Rightarrow> bool" where
  "hasQuery r name \<longleftrightarrow> map_of (req_query r) name \<noteq> None"

definition Cookie :: "request \<Rightarrow> string \<Rightarrow> string option" where
  "Cookie r name = map_of (req_cookie r) name"

text \<open>\<open>io.ReadAll\<close>, and \<open>io.ReadAll(io.LimitReader(body, n))\<close>.\<close>

definition ReadAll :: "request \<Rightarrow> bytes option" where
  "ReadAll r = (if req_body_fails r then None else Some (req_body r))"

definition ReadLimited :: "nat \<Rightarrow> request \<Rightarrow> bytes option" where
  "ReadLimited n r =
     (if req_body_fails r \<and> length (req_body r) < n then None else Some (take n (req_body r)))"

definition json_type :: string where "json_type = ''application/json; charset=utf-8''"
definition xml_type :: string where "xml_type = ''application/xml; charset=utf-8''"

definition Status :: "nat \<Rightarrow> response" where
  "Status s = \<lparr>status = s, headers = [], payload = NoBody, error_code = []\<rparr>"

text \<open>\<open>c.Header\<close>: an empty value deletes the header.\<close>

definition set_header :: "string \<Rightarrow> string \<Rightarrow> (string \<times> string) list \<Rightarrow> (string \<times> string) list" where
  "set_header k v hs =
     (if v = [] then AList.delete (CanonicalHeaderKey k) hs else AList.update (CanonicalHeaderKey k) v hs)"

definition with_header :: "string \<Rightarrow> string \<Rightarrow> response \<Rightarrow> response" where
  "with_header k v resp = resp\<lparr>headers := set_header k v (headers resp)\<rparr>"

text \<open>
  The headers a handler had set before it called a responder.  The responder's own win,
  except the content type of gin's renderers, which is set only when none is there.
\<close>

definition rendered_type :: "(string \<times> string) list \<Rightarrow> string \<times> string \<Rightarrow> bool" where
  "rendered_type hs kv \<longleftrightarrow>
     fst kv = ''Content-Type'' \<and> (snd kv = json_type \<or> snd kv = xml_type) \<and> map_of hs ''Content-Type'' \<noteq> None"

definition add_headers :: "(string \<times> string) list \<Rightarrow> response \<Rightarrow> response" where
  "add_headers hs resp =
     resp\<lparr>headers := fold (\<lambda>(k, v). AList.update k v) (filter (\<lambda>kv. \<not> rendered_type hs kv) (headers resp)) hs\<rparr>"

definition c_JSON :: "nat \<Rightarrow> tree \<Rightarrow> response" where
  "c_JSON s t = \<lparr>status = s, headers = [(''Content-Type'', json_type)], payload = JSON t, error_code = []\<rparr>"

definition c_XML :: "nat \<Rightarrow> string \<Rightarrow> tree \<Rightarrow> response" where
  "c_XML s root t = \<lparr>status = s, headers = [(''Content-Type'', xml_type)], payload = XML root t, error_code = []\<rparr>"

text \<open>A nil slice is rendered as \<open>null\<close>; a field with \<open>omitempty\<close> is left out when empty.\<close>

definition json_slice :: "tree list \<Rightarrow> tree" where
  "json_slice xs = (if xs = [] then TNull else TList xs)"

definition omit_empty :: "string \<Rightarrow> string \<Rightarrow> (string \<times> tree) list" where
  "omit_empty k v = (if v = [] then [] else [(k, TStr v)])"

section \<open>respond.go\<close>

definition S3ErrorBody :: "string \<Rightarrow> string \<Rightarrow> string \<Rightarrow> tree" where
  "S3ErrorBody code message rid =
     TObj [(''Code'', TStr code), (''Message'', TStr message), (''RequestId'', TStr rid)]"

definition S3ErrorJSON :: "string \<Rightarrow> string \<Rightarrow> string \<Rightarrow> tree" where
  "S3ErrorJSON code message rid =
     TObj [(''code'', TStr code), (''message'', TStr message), (''requestId'', TStr rid)]"

definition wantsJSON :: "request \<Rightarrow> bool" where
  "wantsJSON r =
     (if HasPrefix (req_path r) ''/api'' then True
      else Contains (GetHeader r ''Accept'') ''application/json'')"

definition respondError :: "request \<Rightarrow> nat \<Rightarrow> string \<Rightarrow> string \<Rightarrow> response" where
  "respondError r s code message =
     (if wantsJSON r
      then \<lparr>status = s, headers = [(''Content-Type'', json_type)],
            payload = JSON (S3ErrorJSON code message (ctx_requestID r)), error_code = code\<rparr>
      else \<lparr>status = s, headers = [(''Content-Type'', ''application/xml'')],
            payload = XML ''Error'' (S3ErrorBody code message (ctx_requestID r)), error_code = code\<rparr>)"

definition respondXMLOrJSON :: "request \<Rightarrow> nat \<Rightarrow> string \<times> tree \<Rightarrow> tree \<Rightarrow> response" where
  "respondXMLOrJSON r s s3XML adminJSON =
     (if wantsJSON r then c_JSON s adminJSON else c_XML s (fst s3XML) (snd s3XML))"

section \<open>body\_limit.go\<close>

definition prefersJSON :: "request \<Rightarrow> bool" where
  "prefersJSON r =
     (if HasPrefix (req_path r) ''/api'' then True
      else Contains (GetHeader r ''Accept'') ''application/json'')"

definition writeS3Error :: "request \<Rightarrow> nat \<Rightarrow> string \<Rightarrow> string \<Rightarrow> response" where
  "writeS3Error r s code message =
     (if prefersJSON r
      then \<lparr>status = s, headers = [(''Content-Type'', ''application/json'')],
            payload = JSON (S3ErrorJSON code message (ctx_requestID r)), error_code = []\<rparr>
      else \<lparr>status = s, headers = [(''Content-Type'', ''application/xml'')],
            payload = XML ''Error'' (S3ErrorBody code message (ctx_requestID r)), error_code = []\<rparr>)"

definition entityTooLargeMessage :: string where
  "entityTooLargeMessage = ''Your proposed upload exceeds the maximum allowed size''"

text \<open>\<open>hs\<close> are the headers already set on the response.\<close>

definition writeEntityTooLarge :: "request \<Rightarrow> (string \<times> string) list \<Rightarrow> response" where
  "writeEntityTooLarge r hs =
     (let rid = (case map_of hs (CanonicalHeaderKey ''x-amz-request-id'') of None \<Rightarrow> [] | Some v \<Rightarrow> v)
      in add_headers hs (writeS3Error (r\<lparr>ctx_requestID := rid\<rparr>) 413 ''EntityTooLarge'' entityTooLargeMessage))"

text \<open>
  \<open>BodyLimit\<close> around a handler.  The handler sees a body cut at the limit whose next read
  fails; \<open>reads r\<close> is the number of bytes it asks for, and the headers that the response has
  when it does.  When it runs past the limit the 413 is written there and then: those headers
  stay, the request id is the one among them, and the handler's own response is dropped.
\<close>

definition limit_body :: "nat \<Rightarrow> request \<Rightarrow> request" where
  "limit_body n r =
     (if length (req_body r) \<le> n then r
      else r\<lparr>req_body := take n (req_body r), req_body_fails := True\<rparr>)"

definition BodyLimit ::
  "int \<Rightarrow> (request \<Rightarrow> nat \<times> (string \<times> string) list) \<Rightarrow> (request \<Rightarrow> 'w \<Rightarrow> response \<times> 'w)
     \<Rightarrow> request \<Rightarrow> 'w \<Rightarrow> response \<times> 'w" where
  "BodyLimit maxBytes reads next r w =
     (if maxBytes \<le> 0 then next r w
      else let n = nat maxBytes;
               (resp, w') = next (limit_body n r) w;
               (asked, hs) = reads r
           in if length (req_body r) > n \<and> asked > n then (writeEntityTooLarge r hs, w')
              else (resp, w'))"

section \<open>middleware/names.go\<close>

definition abortInvalid :: "request \<Rightarrow> string \<Rightarrow> string \<Rightarrow> response" where
  "abortInvalid r code message =
     (if HasPrefix (req_path r) ''/api'' \<or> Contains (GetHeader r ''Accept'') ''application/json''
      then c_JSON 400 (S3ErrorJSON code message (ctx_requestID r))
      else \<lparr>status = 400, headers = [(''Content-Type'', ''application/xml'')],
            payload = XML ''Error'' (S3ErrorBody code message (ctx_requestID r)), error_code = []\<rparr>)"

definition msg_bucket_name :: string where
  "msg_bucket_name = ''Bucket name must be 3-63 chars, lowercase alphanumeric and hyphens, starting and ending alphanumeric''"

definition msg_object_key :: string where
  "msg_object_key = ''Object key must not contain path traversal, NUL bytes, or reserved sidecar names''"

text \<open>A middleware either answers or hands the request on, possibly with more context.\<close>

definition ValidateNames :: "request \<Rightarrow> response + request" where
  "ValidateNames r =
     (if param_bucket r \<noteq> [] \<and> ValidateBucketName (param_bucket r) \<noteq> None
      then Inl (abortInvalid r ''InvalidBucketName'' msg_bucket_name)
      else let trimmed = TrimPrefix (param_objectKey r) ''/''
           in if trimmed = [] then Inr r
              else case ValidateObjectKey trimmed of
                  Inl _ \<Rightarrow> Inl (abortInvalid r ''InvalidArgument'' msg_object_key)
                | Inr cleaned \<Rightarrow> Inr (r\<lparr>ctx_cleanedKey := cleaned\<rparr>))"

section \<open>Facts\<close>

lemma status_simps [simp]:
  "status (respondError r s c m) = s" "status (writeS3Error r s c m) = s" "status (Status s) = s"
  "status (c_JSON s t) = s" "status (c_XML s n t) = s" "status (abortInvalid r c m) = 400"
  "status (with_header k v resp) = status resp" "status (add_headers hs resp) = status resp" "status (respondXMLOrJSON r s x j) = s"
  by (simp_all add: respondError_def writeS3Error_def Status_def c_JSON_def c_XML_def abortInvalid_def
      with_header_def add_headers_def respondXMLOrJSON_def)

lemma error_code_simps [simp]:
  "error_code (respondError r s c m) = c" "error_code (Status s) = []"
  "error_code (c_JSON s t) = []" "error_code (c_XML s n t) = []"
  "error_code (with_header k v resp) = error_code resp" "error_code (add_headers hs resp) = error_code resp"
  by (simp_all add: respondError_def Status_def c_JSON_def c_XML_def with_header_def add_headers_def)

lemma payload_simps [simp]:
  "payload (with_header k v resp) = payload resp" "payload (add_headers hs resp) = payload resp" "payload (Status s) = NoBody"
  "payload (c_JSON s t) = JSON t" "payload (c_XML s n t) = XML n t"
  by (simp_all add: with_header_def add_headers_def Status_def c_JSON_def c_XML_def)

lemma ReadLimited_length: "ReadLimited n r = Some b \<Longrightarrow> length b \<le> n"
  by (auto simp: ReadLimited_def split: if_splits)

lemma ValidateNames_Inr:
  assumes "ValidateNames r = Inr r'"
  shows "param_bucket r' = param_bucket r" "param_objectKey r' = param_objectKey r"
    "param_bucket r \<noteq> [] \<Longrightarrow> ValidateBucketName (param_bucket r) = None"
    "TrimPrefix (param_objectKey r) ''/'' \<noteq> [] \<Longrightarrow>
       ValidateObjectKey (TrimPrefix (param_objectKey r) ''/'') = Inr (ctx_cleanedKey r')"
  using assms by (auto simp: ValidateNames_def Let_def split: if_splits sum.splits)

text \<open>What every route under the validator can rely on: its names stay below the root.\<close>

lemma ValidateNames_contained:
  assumes "ValidateNames r = Inr r'" "param_bucket r \<noteq> []" "TrimPrefix (param_objectKey r) ''/'' \<noteq> []"
    "list_all proper_seg root"
  shows "SafeJoin (abs_path root) [param_bucket r, ctx_cleanedKey r']
       = Inr (abs_path (root @ param_bucket r # Split CHR ''/'' (ctx_cleanedKey r')))"
  using SafeJoin_validated[OF assms(4) ValidateNames_Inr(3)[OF assms(1,2)] ValidateNames_Inr(4)[OF assms(1,3)]] .

end
