(* ===== verification/Client_Ip.thy ===== *)
theory Client_Ip
  imports Http
begin

text \<open>
  \<open>internal/middleware/clientip.go\<close> and the address helpers of \<open>ratelimit.go\<close>: which
  address stands for the client.  \<open>net.ParseIP\<close> is the field \<open>ParseIP\<close> of
  \<open>lib\<close>; the trusted-proxy configuration is an argument.
\<close>

text \<open>
  \<open>net.SplitHostPort\<close> on \<open>host:port\<close> and \<open>[host]:port\<close>, the shapes of a socket
  address; \<open>None\<close> when it reports an error.
\<close>

definition split_last_colon :: "string \<Rightarrow> (string \<times> string) option" where
  "split_last_colon s =
     (if CHR '':'' \<in> set s
      then Some (rev (tl (dropWhile (\<lambda>c. c \<noteq> CHR '':'') (rev s))), rev (takeWhile (\<lambda>c. c \<noteq> CHR '':'') (rev s)))
      else None)"

definition SplitHost :: "string \<Rightarrow> string option" where
  "SplitHost s =
     (case split_last_colon s of
        None \<Rightarrow> None
      | Some (h, port) \<Rightarrow>
          if h \<noteq> [] \<and> hd h = CHR ''['' then
            (if last h = CHR '']'' \<and> 2 \<le> length h
                \<and> CHR ''['' \<notin> set (butlast (tl h)) \<and> CHR '']'' \<notin> set (butlast (tl h)) \<and> CHR ''['' \<notin> set port \<and> CHR '']'' \<notin> set port
             then Some (butlast (tl h)) else None)
          else if CHR '':'' \<in> set h \<or> CHR ''['' \<in> set s \<or> CHR '']'' \<in> set s then None
          else Some h)"

definition remoteAddrIP :: "request \<Rightarrow> string" where
  "remoteAddrIP r = (case SplitHost (req_remote r) of None \<Rightarrow> req_remote r | Some host \<Rightarrow> host)"

definition splitTrim :: "string \<Rightarrow> string list" where
  "splitTrim s = filter (\<lambda>v. v \<noteq> []) (map TrimSpace (Split CHR '','' s))"

fun first_ip :: "lib \<Rightarrow> string list \<Rightarrow> string" where
  "first_ip L [] = []"
| "first_ip L (p # ps) = (case ParseIP L p of Some ip \<Rightarrow> ip_string ip | None \<Rightarrow> first_ip L ps)"

definition pickIP :: "lib \<Rightarrow> string list \<Rightarrow> bool \<Rightarrow> string" where
  "pickIP L parts useLeftmost = first_ip L (if useLeftmost then parts else rev parts)"

fun resolveClientIP :: "lib \<Rightarrow> request \<Rightarrow> string list \<Rightarrow> bool \<Rightarrow> string" where
  "resolveClientIP L r [] useLeftmost = remoteAddrIP r"
| "resolveClientIP L r (h # hs) useLeftmost =
     (case header_values r h of
        [] \<Rightarrow> resolveClientIP L r hs useLeftmost
      | values \<Rightarrow>
          (let ip = pickIP L (splitTrim (last values)) useLeftmost
           in if ip \<noteq> [] then ip else resolveClientIP L r hs useLeftmost))"

record TrustedProxyConfig =
  tpHeaders :: "string list"
  tpUseLeftmostIP :: bool

definition ResolveClientIP :: "lib \<Rightarrow> TrustedProxyConfig \<Rightarrow> request \<Rightarrow> string" where
  "ResolveClientIP L cfg r = resolveClientIP L r (tpHeaders cfg) (tpUseLeftmostIP cfg)"

definition proxyHeaderFallbacks :: "string list" where
  "proxyHeaderFallbacks =
     [''CF-Connecting-IP'', ''Fly-Client-IP'', ''True-Client-IP'', ''X-Real-IP'', ''X-Forwarded-For'']"

definition DetectProxyHeader :: "request \<Rightarrow> string list \<Rightarrow> string" where
  "DetectProxyHeader r configured =
     (case find (\<lambda>h. GetHeader r h \<noteq> []) configured of
        Some h \<Rightarrow> h
      | None \<Rightarrow>
          (case find (\<lambda>h. GetHeader r h \<noteq> []) proxyHeaderFallbacks of
             Some h \<Rightarrow> h
           | None \<Rightarrow> []))"

definition RemoteIP :: "request \<Rightarrow> string" where
  "RemoteIP r = remoteAddrIP r"

section \<open>Which address wins\<close>

text \<open>With no trusted header configured, no header can change the address.\<close>

lemma ResolveClientIP_untrusted: "tpHeaders cfg = [] \<Longrightarrow> ResolveClientIP L cfg r = remoteAddrIP r"
  by (simp add: ResolveClientIP_def)

lemma first_ip_cases: "first_ip L ps = [] \<or> (\<exists>p\<in>set ps. \<exists>ip. ParseIP L p = Some ip \<and> first_ip L ps = ip_string ip)"
  by (induction ps) (auto split: option.splits)

lemma resolveClientIP_only_headers:
  assumes "\<forall>h\<in>set hs. header_values r h = header_values r' h" "req_remote r = req_remote r'"
  shows "resolveClientIP L r hs b = resolveClientIP L r' hs b"
  using assms
proof (induction hs)
  case (Cons h hs)
  then show ?case by (cases "header_values r' h") (simp_all add: Let_def)
qed (auto simp: remoteAddrIP_def split: option.splits)

lemma first_ip_append:
  "first_ip L (xs @ ys) = (if \<forall>x\<in>set xs. ParseIP L x = None then first_ip L ys else first_ip L xs)"
  by (induction xs) (auto split: option.splits)

text \<open>
  The rightmost scan reads what the nearest proxy appended: entries a client put in front
  do not matter once the appended one is an address.
\<close>

lemma Split_filter_append: "splitTrim (a @ CHR '','' # b) = splitTrim a @ splitTrim b"
  by (simp add: splitTrim_def Split_append)

lemma resolveClientIP_rightmost:
  assumes "header_values r h = vs @ [forged @ CHR '','' # addr]" "CHR '','' \<notin> set addr"
    "ParseIP L (TrimSpace addr) = Some ip" "TrimSpace addr \<noteq> []" "ip_string ip \<noteq> []"
  shows "resolveClientIP L r (h # hs) False = ip_string ip"
proof -
  have "splitTrim addr = [TrimSpace addr]" using assms(2,4) by (simp add: splitTrim_def Split_single)
  then have "pickIP L (splitTrim (forged @ CHR '','' # addr)) False = ip_string ip"
    using assms(3) by (simp add: pickIP_def Split_filter_append)
  then show ?thesis using assms(1,5) by (cases vs) (simp_all add: Let_def)
qed

end
