(* ===== verification/Sidecars.thy ===== *)
theory Sidecars
  imports File_Sys Http Client_Ip
begin

text \<open>
  The JSON sidecar files: \<open>internal/storage/acl.go\<close>, \<open>tagging.go\<close> and
  \<open>bucket_cors.go\<close>.  Every sidecar is replaced by writing a temporary file and renaming
  it; \<open>write_replace\<close> is that pair of calls.  The locale \<open>sidecar\<close> states what a
  sidecar promises (a put is read back, and touches only its own two files) and is
  interpreted on the bucket ACL, the CORS configuration and the object tags.
\<close>

section \<open>What an operation can see\<close>

text \<open>
  The environment of one operation: the libraries, the faults of the file system, the
  clock, the random identifiers it would draw, and the process-wide settings.
\<close>

record env =
  lb :: lib
  ft :: fault
  now :: time
  uuid :: string
  tmp_suffix :: string
  durable :: bool
  tproxy :: TrustedProxyConfig
  enc_key :: bytes

datatype store_error = PathErr | OsErr os_error | CodecErr | NoSuchConfig | UnsupportedACL | ErrInvalidTagSet

definition root_segs :: path where "root_segs = [''data'', ''objects'']"
definition ObjectsRoot :: string where "ObjectsRoot = abs_path root_segs"

definition meta_get :: "meta_map \<Rightarrow> string \<Rightarrow> string" where
  "meta_get m k = (case map_of m k of None \<Rightarrow> [] | Some v \<Rightarrow> v)"

text \<open>\<open>os.WriteFile(path + ".tmp")\<close>, then \<open>os.Rename\<close> onto the path.\<close>

definition write_replace :: "env \<Rightarrow> string \<Rightarrow> bytes \<Rightarrow> fs \<Rightarrow> os_error option \<times> fs" where
  "write_replace E p data fs =
     (case WriteFile (ft E) (now E) (p @ ''.tmp'') data fs of
        (Some e, fs1) \<Rightarrow> (Some e, fs1)
      | (None, fs1) \<Rightarrow> Rename (ft E) (p @ ''.tmp'') p fs1)"

section \<open>acl.go\<close>

definition ACLPrivate :: string where "ACLPrivate = ''private''"
definition ACLPublicRead :: string where "ACLPublicRead = ''public-read''"

definition NormalizeCannedACL :: "string \<Rightarrow> store_error + string" where
  "NormalizeCannedACL v =
     (let s = ToLower (TrimSpace v)
      in if s = [] \<or> s = ACLPrivate then Inr ACLPrivate
         else if s = ACLPublicRead then Inr ACLPublicRead
         else Inl UnsupportedACL)"

definition IsPublicRead :: "string \<Rightarrow> bool" where
  "IsPublicRead acl = EqualFold acl ACLPublicRead"

definition bucketACLPath :: "string \<Rightarrow> store_error + string" where
  "bucketACLPath bucket =
     (case SafeJoin ObjectsRoot [bucket, ''.acl.json''] of Inl _ \<Rightarrow> Inl PathErr | Inr p \<Rightarrow> Inr p)"

text \<open>The document has the one field \<open>Canned\<close>, so it is its value here.\<close>

definition GetBucketACL :: "env \<Rightarrow> string \<Rightarrow> fs \<Rightarrow> store_error + string" where
  "GetBucketACL E bucket fs =
     (case bucketACLPath bucket of
        Inl e \<Rightarrow> Inl e
      | Inr p \<Rightarrow>
          (case ReadFile (ft E) fs p of
             Inl e \<Rightarrow> if IsNotExist e then Inl NoSuchConfig else Inl (OsErr e)
           | Inr data \<Rightarrow>
               (case canned_dec (lb E) data of None \<Rightarrow> Inl CodecErr | Some acl \<Rightarrow> Inr acl)))"

definition PutBucketACL :: "env \<Rightarrow> string \<Rightarrow> string \<Rightarrow> fs \<Rightarrow> store_error option \<times> fs" where
  "PutBucketACL E bucket acl fs =
     (case NormalizeCannedACL acl of
        Inl e \<Rightarrow> (Some e, fs)
      | Inr canned \<Rightarrow>
          (case canned_enc (lb E) canned of
             None \<Rightarrow> (Some CodecErr, fs)
           | Some data \<Rightarrow>
               (case bucketACLPath bucket of
                  Inl e \<Rightarrow> (Some e, fs)
                | Inr p \<Rightarrow>
                    (case write_replace E p data fs of
                       (Some e, fs') \<Rightarrow> (Some (OsErr e), fs')
                     | (None, fs') \<Rightarrow> (None, fs')))))"

definition EffectiveBucketACL :: "env \<Rightarrow> string \<Rightarrow> fs \<Rightarrow> store_error + string" where
  "EffectiveBucketACL E bucket fs =
     (case GetBucketACL E bucket fs of
        Inl e \<Rightarrow> if e = NoSuchConfig then Inr ACLPrivate else Inl e
      | Inr acl \<Rightarrow> Inr acl)"

definition objectACLFromSidecar :: "env \<Rightarrow> string \<Rightarrow> fs \<Rightarrow> store_error + string" where
  "objectACLFromSidecar E objectPath fs =
     (case ReadFile (ft E) fs (objectPath @ ''.meta'') of
        Inl e \<Rightarrow> if IsNotExist e then Inr [] else Inl (OsErr e)
      | Inr data \<Rightarrow>
          (case meta_dec (lb E) data of None \<Rightarrow> Inl CodecErr | Some meta \<Rightarrow> Inr (meta_get meta ''acl'')))"

definition ACLSourceObject :: string where "ACLSourceObject = ''object''"
definition ACLSourceBucket :: string where "ACLSourceBucket = ''bucket''"
definition ACLSourceDefault :: string where "ACLSourceDefault = ''default''"

definition ResolveObjectACL :: "env \<Rightarrow> string \<Rightarrow> string \<Rightarrow> fs \<Rightarrow> store_error + string \<times> string" where
  "ResolveObjectACL E bucket objectPath fs =
     (case objectACLFromSidecar E objectPath fs of
        Inl e \<Rightarrow> Inl e
      | Inr obj \<Rightarrow>
          if obj \<noteq> [] then Inr (ToLower obj, ACLSourceObject)
          else (case GetBucketACL E bucket fs of
                  Inr b \<Rightarrow> Inr (b, ACLSourceBucket)
                | Inl e \<Rightarrow> if e = NoSuchConfig then Inr (ACLPrivate, ACLSourceDefault) else Inl e))"

definition EffectiveObjectACL :: "env \<Rightarrow> string \<Rightarrow> string \<Rightarrow> fs \<Rightarrow> store_error + string" where
  "EffectiveObjectACL E bucket objectPath fs =
     (case objectACLFromSidecar E objectPath fs of
        Inl e \<Rightarrow> Inl e
      | Inr obj \<Rightarrow> if obj \<noteq> [] then Inr (ToLower obj) else EffectiveBucketACL E bucket fs)"

definition SetObjectACL :: "env \<Rightarrow> string \<Rightarrow> string \<Rightarrow> fs \<Rightarrow> store_error option \<times> fs" where
  "SetObjectACL E objectPath acl fs =
     (case NormalizeCannedACL acl of
        Inl e \<Rightarrow> (Some e, fs)
      | Inr canned \<Rightarrow>
          (let metaPath = objectPath @ ''.meta'';
               old = (case ReadFile (ft E) fs metaPath of
                        Inr data \<Rightarrow> (case meta_dec (lb E) data of None \<Rightarrow> Inl CodecErr | Some m \<Rightarrow> Inr m)
                      | Inl e \<Rightarrow> if IsNotExist e then Inr [] else Inl (OsErr e))
           in case old of
                Inl e \<Rightarrow> (Some e, fs)
              | Inr meta \<Rightarrow>
                  (case meta_enc (lb E) (AList.update ''acl'' canned meta) of
                     None \<Rightarrow> (Some CodecErr, fs)
                   | Some raw \<Rightarrow>
                       (case write_replace E metaPath raw fs of
                          (Some e, fs') \<Rightarrow> (Some (OsErr e), fs')
                        | (None, fs') \<Rightarrow> (None, fs')))))"

section \<open>tagging.go\<close>

definition MaxObjectTags :: nat where "MaxObjectTags = 10"
definition MaxTagKeyLen :: nat where "MaxTagKeyLen = 128"
definition MaxTagValueLen :: nat where "MaxTagValueLen = 256"

definition objectTagsPath :: "string \<Rightarrow> string" where
  "objectTagsPath objectPath = objectPath @ ''.tags.json''"

fun valid_tags :: "string list \<Rightarrow> ObjectTag list \<Rightarrow> bool" where
  "valid_tags seen [] = True"
| "valid_tags seen (t # ts) =
     (let kl = RuneCount (TagKey t)
      in if kl < 1 \<or> kl > MaxTagKeyLen then False
         else if RuneCount (TagValue t) > MaxTagValueLen then False
         else if \<not> ValidString (TagKey t) \<or> \<not> ValidString (TagValue t) then False
         else if TagKey t \<in> set seen then False
         else valid_tags (TagKey t # seen) ts)"

definition ValidateObjectTags :: "ObjectTag list \<Rightarrow> store_error option" where
  "ValidateObjectTags tags =
     (if length tags > MaxObjectTags then Some ErrInvalidTagSet
      else if \<not> valid_tags [] tags then Some ErrInvalidTagSet
      else None)"

definition GetObjectTags :: "env \<Rightarrow> string \<Rightarrow> fs \<Rightarrow> store_error + ObjectTag list" where
  "GetObjectTags E objectPath fs =
     (case ReadFile (ft E) fs (objectTagsPath objectPath) of
        Inl e \<Rightarrow> if IsNotExist e then Inr [] else Inl (OsErr e)
      | Inr data \<Rightarrow> (case tags_dec (lb E) data of None \<Rightarrow> Inl CodecErr | Some ts \<Rightarrow> Inr ts))"

definition SetObjectTags :: "env \<Rightarrow> string \<Rightarrow> ObjectTag list \<Rightarrow> fs \<Rightarrow> store_error option \<times> fs" where
  "SetObjectTags E objectPath tags fs =
     (case ValidateObjectTags tags of
        Some e \<Rightarrow> (Some e, fs)
      | None \<Rightarrow>
          (case tags_enc (lb E) tags of
             None \<Rightarrow> (Some CodecErr, fs)
           | Some data \<Rightarrow>
               (case write_replace E (objectTagsPath objectPath) data fs of
                  (Some e, fs') \<Rightarrow> (Some (OsErr e), fs')
                | (None, fs') \<Rightarrow> (None, fs'))))"

definition DeleteObjectTags :: "env \<Rightarrow> string \<Rightarrow> fs \<Rightarrow> store_error option \<times> fs" where
  "DeleteObjectTags E objectPath fs =
     (case Remove (ft E) (objectTagsPath objectPath) fs of
        (None, fs') \<Rightarrow> (None, fs')
      | (Some e, fs') \<Rightarrow> if IsNotExist e then (None, fs') else (Some (OsErr e), fs'))"

section \<open>bucket\_cors.go\<close>

definition bucketCORSPath :: "string \<Rightarrow> store_error + string" where
  "bucketCORSPath bucket =
     (case SafeJoin ObjectsRoot [bucket, ''.cors.json''] of Inl _ \<Rightarrow> Inl PathErr | Inr p \<Rightarrow> Inr p)"

definition GetBucketCORS :: "env \<Rightarrow> string \<Rightarrow> fs \<Rightarrow> store_error + BucketCORSRule list" where
  "GetBucketCORS E bucket fs =
     (case bucketCORSPath bucket of
        Inl e \<Rightarrow> Inl e
      | Inr p \<Rightarrow>
          (case ReadFile (ft E) fs p of
             Inl e \<Rightarrow> if IsNotExist e then Inl NoSuchConfig else Inl (OsErr e)
           | Inr data \<Rightarrow> (case cors_dec (lb E) data of None \<Rightarrow> Inl CodecErr | Some rs \<Rightarrow> Inr rs)))"

definition PutBucketCORS :: "env \<Rightarrow> string \<Rightarrow> BucketCORSRule list \<Rightarrow> fs \<Rightarrow> store_error option \<times> fs" where
  "PutBucketCORS E bucket cfg fs =
     (case cors_enc (lb E) cfg of
        None \<Rightarrow> (Some CodecErr, fs)
      | Some data \<Rightarrow>
          (case bucketCORSPath bucket of
             Inl e \<Rightarrow> (Some e, fs)
           | Inr p \<Rightarrow>
               (case write_replace E p data fs of
                  (Some e, fs') \<Rightarrow> (Some (OsErr e), fs')
                | (None, fs') \<Rightarrow> (None, fs'))))"

definition DeleteBucketCORS :: "env \<Rightarrow> string \<Rightarrow> fs \<Rightarrow> store_error option \<times> fs" where
  "DeleteBucketCORS E bucket fs =
     (case bucketCORSPath bucket of
        Inl e \<Rightarrow> (Some e, fs)
      | Inr p \<Rightarrow>
          (case Remove (ft E) p fs of
             (None, fs') \<Rightarrow> (None, fs')
           | (Some e, fs') \<Rightarrow> if IsNotExist e then (Some NoSuchConfig, fs') else (Some (OsErr e), fs')))"

section \<open>Replacing a file\<close>

abbreviation tmp_segs :: "string \<Rightarrow> path" where "tmp_segs p \<equiv> psegs (p @ ''.tmp'')"

lemma write_replace_wf: "fs_wf fs \<Longrightarrow> fs_wf (snd (write_replace E p d fs))"
  using WriteFile_wf[of fs "ft E" "now E" "p @ ''.tmp''" d] Rename_wf
  by (auto simp: write_replace_def split: prod.splits option.splits)

lemma write_replace_ok:
  assumes "fs_wf fs" "write_replace E p d fs = (None, fs')"
  shows "node_at fs' (psegs p) = Some (File d (now E))" "psegs p \<noteq> []"
proof -
  obtain fs1 where w: "WriteFile (ft E) (now E) (p @ ''.tmp'') d fs = (None, fs1)"
    and rn: "Rename (ft E) (p @ ''.tmp'') p fs1 = (None, fs')"
    using assms(2) by (auto simp: write_replace_def split: prod.splits option.splits)
  note w1 = WriteFile_ok[OF w]
  have wf1: "fs_wf fs1" using WriteFile_wf[OF assms(1), of "ft E" "now E" "p @ ''.tmp''" d] w by simp
  obtain b t where l: "lookup_path fs1 (tmp_segs p) = Inr (File b t)"
    and fs': "fs' = AList.update (psegs p) (File b t) (AList.delete (tmp_segs p) fs1)"
    using Rename_ok(1)[OF rn] by blast
  have "node_at fs1 (tmp_segs p) = Some (File d (now E))" using w1(1,2) by simp
  with l lookup_iff[OF wf1] have "b = d \<and> t = now E" by auto
  with fs' Rename_ok(2)[OF rn] show "node_at fs' (psegs p) = Some (File d (now E))" "psegs p \<noteq> []" by auto
qed

lemma write_replace_frame:
  assumes "r \<noteq> psegs p" "r \<noteq> tmp_segs p"
  shows "node_at (snd (write_replace E p d fs)) r = node_at fs r"
proof -
  have fr: "node_at (snd (Rename (ft E) (p @ ''.tmp'') p fs1)) r = node_at fs1 r" for fs1
  proof (cases "Rename (ft E) (p @ ''.tmp'') p fs1")
    case (Pair e fs2)
    show ?thesis
    proof (cases e)
      case None
      with Pair Rename_ok[of "ft E" "p @ ''.tmp''" p fs1 fs2] obtain b t where
        "fs2 = AList.update (psegs p) (File b t) (AList.delete (tmp_segs p) fs1)" "psegs p \<noteq> []" by auto
      then show ?thesis using Pair assms by (cases "r = []") (auto simp: node_at_def map_of_upd map_of_del)
    next
      case (Some x)
      then show ?thesis using Pair Rename_error[of "ft E" "p @ ''.tmp''" p fs1 x fs2] by simp
    qed
  qed
  obtain e fs1 where w: "WriteFile (ft E) (now E) (p @ ''.tmp'') d fs = (e, fs1)" by (metis surj_pair)
  then have "node_at fs1 r = node_at fs r"
    using WriteFile_frame[OF assms(2), of "ft E" "now E" d fs] by simp
  then show ?thesis using fr[of fs1] by (cases e) (simp_all add: write_replace_def w)
qed

text \<open>A failing replacement leaves the old content: the file is never torn.\<close>

lemma write_replace_error:
  assumes "write_replace E p d fs = (Some e, fs')" "r \<noteq> tmp_segs p"
  shows "node_at fs' r = node_at fs r"
proof -
  obtain x fs1 where w: "WriteFile (ft E) (now E) (p @ ''.tmp'') d fs = (x, fs1)" by (metis surj_pair)
  then have fr: "node_at fs1 r = node_at fs r" using WriteFile_frame[OF assms(2), of "ft E" "now E" d fs] by simp
  show ?thesis
  proof (cases x)
    case None
    then show ?thesis using assms(1) w fr Rename_error[of "ft E" "p @ ''.tmp''" p fs1 e fs']
      by (simp add: write_replace_def)
  next
    case (Some y)
    then show ?thesis using assms(1) w fr by (simp add: write_replace_def)
  qed
qed

section \<open>The contract of a sidecar\<close>

text \<open>
  \<open>slot\<close> is the sidecar file, \<open>scratch\<close> its temporary file.  A put either fails and
  leaves the slot alone, or succeeds and is read back as \<open>stored v\<close>; no other path changes.
\<close>

locale sidecar =
  fixes get :: "fs \<Rightarrow> 'e + 'v" and put :: "'v \<Rightarrow> fs \<Rightarrow> 'f option \<times> fs"
    and ready :: "'v \<Rightarrow> bool" and stored :: "'v \<Rightarrow> 'v"
    and slot :: path and scratch :: path
  assumes get_put: "\<lbrakk>fs_wf fs; ready v; put v fs = (None, fs')\<rbrakk> \<Longrightarrow> get fs' = Inr (stored v)"
    and put_wf: "fs_wf fs \<Longrightarrow> fs_wf (snd (put v fs))"
    and put_frame: "\<lbrakk>r \<noteq> slot; r \<noteq> scratch\<rbrakk> \<Longrightarrow> node_at (snd (put v fs)) r = node_at fs r"
    and put_error: "\<lbrakk>put v fs = (Some e, fs'); r \<noteq> scratch\<rbrakk> \<Longrightarrow> node_at fs' r = node_at fs r"
begin

lemma last_put_wins:
  assumes "fs_wf fs" "put v fs = (x, fs1)" "ready w" "put w fs1 = (None, fs2)"
  shows "get fs2 = Inr (stored w)"
  using assms put_wf[OF assms(1), of v] get_put[of fs1 w fs2] by simp

lemma puts_frame:
  "\<lbrakk>r \<noteq> slot; r \<noteq> scratch\<rbrakk> \<Longrightarrow> node_at (fold (\<lambda>v fs. snd (put v fs)) vs fs) r = node_at fs r"
  by (induction vs arbitrary: fs) (simp_all add: put_frame)

lemma puts_wf: "fs_wf fs \<Longrightarrow> fs_wf (fold (\<lambda>v fs. snd (put v fs)) vs fs)"
  by (induction vs arbitrary: fs) (simp_all add: put_wf)

text \<open>After any number of puts the last successful one is what a reader finds.\<close>

lemma puts_then_get:
  assumes "fs_wf fs" "ready v" "put v (fold (\<lambda>v fs. snd (put v fs)) vs fs) = (None, fs')"
  shows "get fs' = Inr (stored v)"
  using get_put[OF puts_wf[OF assms(1)] assms(2,3)] .

end

definition canonACL :: "string \<Rightarrow> string" where
  "canonACL v = (case NormalizeCannedACL v of Inr c \<Rightarrow> c | Inl _ \<Rightarrow> v)"

lemma NormalizeCannedACL_cases: "NormalizeCannedACL v = Inr c \<Longrightarrow> c = ACLPrivate \<or> c = ACLPublicRead"
  by (auto simp: NormalizeCannedACL_def Let_def split: if_splits)

lemma ValidString_canned [simp]: "ValidString ACLPrivate" "ValidString ACLPublicRead"
  by (auto intro!: ValidString_ascii simp: ACLPrivate_def ACLPublicRead_def)

lemma ReadFile_written:
  "\<lbrakk>fs_wf fs; node_at fs (psegs p) = Some (File d t); \<not> fails (ft E) OpRead (psegs p)\<rbrakk>
     \<Longrightarrow> ReadFile (ft E) fs p = Inr d"
  by (simp add: ReadFile_at)

definition acl_slot :: "string \<Rightarrow> string" where
  "acl_slot b = (case bucketACLPath b of Inr p \<Rightarrow> p | Inl _ \<Rightarrow> [])"

definition cors_slot :: "string \<Rightarrow> string" where
  "cors_slot b = (case bucketCORSPath b of Inr p \<Rightarrow> p | Inl _ \<Rightarrow> [])"

lemma PutBucketACL_cases:
  assumes "PutBucketACL E b v fs = (x, fs')"
  obtains e where "x = Some e" "fs' = fs"
  | c d where "NormalizeCannedACL v = Inr c" "canned_enc (lb E) c = Some d" "bucketACLPath b = Inr (acl_slot b)"
      "(x = None \<and> write_replace E (acl_slot b) d fs = (None, fs'))
       \<or> (\<exists>e. x = Some (OsErr e) \<and> write_replace E (acl_slot b) d fs = (Some e, fs'))"
  using assms by (auto simp: PutBucketACL_def acl_slot_def split: sum.splits option.splits prod.splits)

text \<open>Every put of the program is some refusal before the replacement, or the replacement.\<close>

definition replaces :: "env \<Rightarrow> string \<Rightarrow> ('v \<Rightarrow> bytes \<Rightarrow> bool) \<Rightarrow> ('v \<Rightarrow> fs \<Rightarrow> 'f option \<times> fs) \<Rightarrow> bool" where
  "replaces E p enc put \<longleftrightarrow>
     (\<forall>v fs x fs'. put v fs = (x, fs') \<longrightarrow>
        (x \<noteq> None \<and> fs' = fs)
      \<or> (\<exists>d. enc v d \<and> (x = None \<and> write_replace E p d fs = (None, fs')
                      \<or> x \<noteq> None \<and> (\<exists>e. write_replace E p d fs = (Some e, fs')))))"

lemma sidecar_by_replace:
  assumes rep: "replaces E p enc put"
    and read: "\<And>v d fs. \<lbrakk>enc v d; ready v; ReadFile (ft E) fs p = Inr d\<rbrakk> \<Longrightarrow> get fs = Inr (stored v)"
    and nf: "\<And>v. ready v \<Longrightarrow> \<not> fails (ft E) OpRead (psegs p)"
  shows "sidecar get put ready stored (psegs p) (tmp_segs p)"
proof
  fix fs v fs'
  assume wf: "fs_wf fs" and rd: "ready v" and put: "put v fs = (None, fs')"
  from rep[unfolded replaces_def] put obtain d where d: "enc v d" "write_replace E p d fs = (None, fs')" by blast
  have "fs_wf fs'" using write_replace_wf[OF wf, of E p d] d(2) by simp
  then have "ReadFile (ft E) fs' p = Inr d"
    using write_replace_ok(1)[OF wf d(2)] nf[OF rd] by (auto intro: ReadFile_written)
  then show "get fs' = Inr (stored v)" using read d(1) rd by blast
next
  fix fs v
  assume wf: "fs_wf fs"
  obtain x fs' where put: "put v fs = (x, fs')" by (cases "put v fs")
  with rep[unfolded replaces_def] have "fs' = fs \<or> (\<exists>d y. write_replace E p d fs = (y, fs'))" by blast
  then show "fs_wf (snd (put v fs))" using wf write_replace_wf[OF wf] put by (metis snd_conv)
next
  fix r v fs
  assume r: "r \<noteq> psegs p" "r \<noteq> tmp_segs p"
  obtain x fs' where put: "put v fs = (x, fs')" by (cases "put v fs")
  with rep[unfolded replaces_def] have "fs' = fs \<or> (\<exists>d y. write_replace E p d fs = (y, fs'))" by blast
  then show "node_at (snd (put v fs)) r = node_at fs r"
    using write_replace_frame[OF r] put by (metis snd_conv)
next
  fix v fs e fs' r
  assume put: "put v fs = (Some e, fs')" and r: "r \<noteq> tmp_segs p"
  with rep[unfolded replaces_def] have "fs' = fs \<or> (\<exists>d x. write_replace E p d fs = (Some x, fs'))" by blast
  then show "node_at fs' r = node_at fs r" using write_replace_error[OF _ r] by blast
qed

lemma PutBucketACL_replaces:
  "replaces E (acl_slot b) (\<lambda>v d. \<exists>c. NormalizeCannedACL v = Inr c \<and> canned_enc (lb E) c = Some d
     \<and> bucketACLPath b = Inr (acl_slot b)) (PutBucketACL E b)"
  unfolding replaces_def
  by (auto simp: PutBucketACL_def acl_slot_def split: sum.splits option.splits prod.splits)

lemma PutBucketCORS_replaces:
  "replaces E (cors_slot b) (\<lambda>v d. cors_enc (lb E) v = Some d \<and> bucketCORSPath b = Inr (cors_slot b)) (PutBucketCORS E b)"
  unfolding replaces_def
  by (auto simp: PutBucketCORS_def cors_slot_def split: sum.splits option.splits prod.splits)

lemma SetObjectTags_replaces:
  "replaces E (objectTagsPath p) (\<lambda>v d. ValidateObjectTags v = None \<and> tags_enc (lb E) v = Some d) (SetObjectTags E p)"
  unfolding replaces_def
  by (auto simp: SetObjectTags_def split: option.splits prod.splits)

lemma valid_tags_strings: "valid_tags seen ts \<Longrightarrow> t \<in> set ts \<Longrightarrow> ValidString (TagKey t) \<and> ValidString (TagValue t)"
  by (induction seen ts rule: valid_tags.induct) (auto simp: Let_def split: if_splits)

interpretation bucket_acl: sidecar "GetBucketACL E b" "PutBucketACL E b"
  "\<lambda>_. canned_codec_ok (lb E) \<and> \<not> fails (ft E) OpRead (psegs (acl_slot b))" canonACL
  "psegs (acl_slot b)" "tmp_segs (acl_slot b)"
proof (rule sidecar_by_replace[OF PutBucketACL_replaces])
  fix v d fs
  assume "\<exists>c. NormalizeCannedACL v = Inr c \<and> canned_enc (lb E) c = Some d \<and> bucketACLPath b = Inr (acl_slot b)"
    and rd: "canned_codec_ok (lb E) \<and> \<not> fails (ft E) OpRead (psegs (acl_slot b))"
    and read: "ReadFile (ft E) fs (acl_slot b) = Inr d"
  then obtain c where c: "NormalizeCannedACL v = Inr c" "canned_enc (lb E) c = Some d" "bucketACLPath b = Inr (acl_slot b)" by blast
  have "ValidString c" using NormalizeCannedACL_cases[OF c(1)] by auto
  then have "canned_dec (lb E) d = Some c" using rd c(2) by (metis canned_codec_ok_def option.inject)
  then show "GetBucketACL E b fs = Inr (canonACL v)"
    using c read by (simp add: GetBucketACL_def canonACL_def)
qed simp

interpretation bucket_cors: sidecar "GetBucketCORS E b" "PutBucketCORS E b"
  "\<lambda>v. list_all valid_cors v \<and> cors_codec_ok (lb E) \<and> \<not> fails (ft E) OpRead (psegs (cors_slot b))" "\<lambda>v. v"
  "psegs (cors_slot b)" "tmp_segs (cors_slot b)"
proof (rule sidecar_by_replace[OF PutBucketCORS_replaces])
  fix v d fs
  assume "cors_enc (lb E) v = Some d \<and> bucketCORSPath b = Inr (cors_slot b)"
    "list_all valid_cors v \<and> cors_codec_ok (lb E) \<and> \<not> fails (ft E) OpRead (psegs (cors_slot b))"
    "ReadFile (ft E) fs (cors_slot b) = Inr d"
  moreover from this have "cors_dec (lb E) d = Some v" by (metis cors_codec_ok_def option.inject)
  ultimately show "GetBucketCORS E b fs = Inr v" by (simp add: GetBucketCORS_def)
qed simp

interpretation object_tags: sidecar "GetObjectTags E p" "SetObjectTags E p"
  "\<lambda>_. tags_codec_ok (lb E) \<and> \<not> fails (ft E) OpRead (psegs (objectTagsPath p))" "\<lambda>v. v"
  "psegs (objectTagsPath p)" "tmp_segs (objectTagsPath p)"
proof (rule sidecar_by_replace[OF SetObjectTags_replaces])
  fix v d fs
  assume v: "ValidateObjectTags v = None \<and> tags_enc (lb E) v = Some d"
    and ok: "tags_codec_ok (lb E) \<and> \<not> fails (ft E) OpRead (psegs (objectTagsPath p))"
    and read: "ReadFile (ft E) fs (objectTagsPath p) = Inr d"
  have "valid_tags [] v" using v by (auto simp: ValidateObjectTags_def split: if_splits)
  then have "\<forall>t\<in>set v. ValidString (TagKey t) \<and> ValidString (TagValue t)" using valid_tags_strings by blast
  then have "tags_dec (lb E) d = Some v" using ok v by (metis tags_codec_ok_def option.inject)
  then show "GetObjectTags E p fs = Inr v" using read by (simp add: GetObjectTags_def)
qed simp

section \<open>Tag sets and ACLs\<close>

text \<open>The limits of a legal tag set, declaratively.\<close>

definition legal_tags :: "ObjectTag list \<Rightarrow> bool" where
  "legal_tags ts \<longleftrightarrow> length ts \<le> 10 \<and> distinct (map TagKey ts) \<and>
     (\<forall>t\<in>set ts. 1 \<le> RuneCount (TagKey t) \<and> RuneCount (TagKey t) \<le> 128 \<and> RuneCount (TagValue t) \<le> 256
        \<and> ValidString (TagKey t) \<and> ValidString (TagValue t))"

lemma valid_tags_iff:
  "valid_tags seen ts \<longleftrightarrow> distinct (map TagKey ts) \<and> set (map TagKey ts) \<inter> set seen = {} \<and>
     (\<forall>t\<in>set ts. 1 \<le> RuneCount (TagKey t) \<and> RuneCount (TagKey t) \<le> 128 \<and> RuneCount (TagValue t) \<le> 256
        \<and> ValidString (TagKey t) \<and> ValidString (TagValue t))"
proof (induction seen ts rule: valid_tags.induct)
  case (2 seen t ts)
  show ?case
  proof (cases "1 \<le> RuneCount (TagKey t) \<and> RuneCount (TagKey t) \<le> 128 \<and> RuneCount (TagValue t) \<le> 256
      \<and> ValidString (TagKey t) \<and> ValidString (TagValue t) \<and> TagKey t \<notin> set seen")
    case True
    then have "valid_tags seen (t # ts) = valid_tags (TagKey t # seen) ts"
      by (simp add: MaxTagKeyLen_def MaxTagValueLen_def Let_def)
    then show ?thesis using 2 True by (auto simp: MaxTagKeyLen_def MaxTagValueLen_def)
  next
    case False
    then show ?thesis by (auto simp: MaxTagKeyLen_def MaxTagValueLen_def Let_def)
  qed
qed simp

lemma ValidateObjectTags_iff: "ValidateObjectTags ts = None \<longleftrightarrow> legal_tags ts"
  by (auto simp: ValidateObjectTags_def valid_tags_iff legal_tags_def MaxObjectTags_def)

text \<open>An object's own ACL wins, then the bucket's, then private.\<close>

lemma EffectiveObjectACL_precedence:
  "objectACLFromSidecar E p fs = Inr a \<Longrightarrow> a \<noteq> [] \<Longrightarrow> EffectiveObjectACL E b p fs = Inr (ToLower a)"
  "objectACLFromSidecar E p fs = Inr [] \<Longrightarrow> EffectiveObjectACL E b p fs = EffectiveBucketACL E b fs"
  "objectACLFromSidecar E p fs = Inl e \<Longrightarrow> EffectiveObjectACL E b p fs = Inl e"
  by (simp_all add: EffectiveObjectACL_def)

lemma ResolveObjectACL_agrees:
  "map_sum id fst (ResolveObjectACL E b p fs) = EffectiveObjectACL E b p fs"
  by (auto simp: ResolveObjectACL_def EffectiveObjectACL_def EffectiveBucketACL_def split: sum.splits)

end
