(* ===== verification/Object_Meta.thy ===== *)
theory Object_Meta
  imports Sidecars
begin

text \<open>
  The pure parts of the object handlers: ETags and the \<open>.meta\<close> sidecar
  (\<open>internal/handlers/object\_meta.go\<close>), preconditions (\<open>conditional.go\<close>), byte ranges
  (\<open>object.go\<close>) and \<open>http.ServeContent\<close> for the requests that reach it.
\<close>

section \<open>object\_meta.go\<close>

definition etagMetaKey :: string where "etagMetaKey = ''ETag''"
definition contentTypeMetaKey :: string where "contentTypeMetaKey = ''Content-Type''"

definition formatETag :: "bytes \<Rightarrow> string" where
  "formatETag digest = CHR 0x22 # hex_encode digest @ [CHR 0x22]"

definition computeFileETag :: "env \<Rightarrow> string \<Rightarrow> fs \<Rightarrow> store_error + string" where
  "computeFileETag E path fs =
     (case ReadFile (ft E) fs path of
        Inl e \<Rightarrow> Inl (OsErr e)
      | Inr b \<Rightarrow> Inr (formatETag (md5 (lb E) b)))"

definition loadOrBackfillETag :: "env \<Rightarrow> string \<Rightarrow> fs \<Rightarrow> (store_error + string) \<times> fs" where
  "loadOrBackfillETag E objectPath fs =
     (let metadataPath = objectPath @ ''.meta'';
          backfill = (\<lambda>metadata.
            (case computeFileETag E objectPath fs of
               Inl e \<Rightarrow> (Inl e, fs)
             | Inr tag \<Rightarrow>
                 (case meta_enc (lb E) (AList.update etagMetaKey tag metadata) of
                    None \<Rightarrow> (Inl CodecErr, fs)
                  | Some raw \<Rightarrow> (Inr tag, snd (WriteFile (ft E) (now E) metadataPath raw fs)))))
      in case ReadFile (ft E) fs metadataPath of
           Inr data \<Rightarrow>
             (case meta_dec (lb E) data of
                None \<Rightarrow> (Inl CodecErr, fs)
              | Some metadata \<Rightarrow>
                  if meta_get metadata etagMetaKey \<noteq> [] then (Inr (meta_get metadata etagMetaKey), fs)
                  else backfill metadata)
         | Inl e \<Rightarrow> if IsNotExist e then backfill [] else (Inl (OsErr e), fs))"

text \<open>One \<open>c.Header\<close> per entry, in the order the map is visited.\<close>

definition meta_header :: "lib \<Rightarrow> string \<times> string \<Rightarrow> (string \<times> string) list \<Rightarrow> (string \<times> string) list" where
  "meta_header L kv hs =
     (let (key, value) = kv; lk = ToLower key
      in if lk = ''content-type'' then set_header ''Content-Type'' value hs
         else if lk = ''content-length'' then set_header ''Content-Length'' value hs
         else if lk = ''last-modified'' then
           set_header ''Last-Modified''
             (case ParseRFC1123 L value of Some t \<Rightarrow> FormatHTTPTime L t | None \<Rightarrow> value) hs
         else if lk = ''etag'' then set_header ''ETag'' value hs
         else set_header key value hs)"

definition applyMetadataHeaders :: "lib \<Rightarrow> meta_map \<Rightarrow> (string \<times> string) list \<Rightarrow> (string \<times> string) list" where
  "applyMetadataHeaders L metadata hs = fold (meta_header L) metadata hs"

definition hasMetaKey :: "meta_map \<Rightarrow> string \<Rightarrow> bool" where
  "hasMetaKey metadata name = list_ex (\<lambda>(k, _). EqualFold k name) metadata"

section \<open>conditional.go\<close>

definition strip_weak :: "string \<Rightarrow> string" where
  "strip_weak cand = TrimSpace (TrimPrefix (TrimSpace cand) ''W/'')"

definition etagMatches :: "string \<Rightarrow> string \<Rightarrow> bool" where
  "etagMatches header etag =
     (let h = TrimSpace header
      in if h = ''*'' then True
         else list_ex (\<lambda>cand. strip_weak cand = etag) (Split CHR '','' h))"

definition StatusOK :: nat where "StatusOK = 200"
definition StatusNotModified :: nat where "StatusNotModified = 304"
definition StatusPreconditionFailed :: nat where "StatusPreconditionFailed = 412"

definition truncate_second :: "time \<Rightarrow> time" where
  "truncate_second t = t - t mod Second"

text \<open>\<open>None\<close> is the Go pair \<open>(0, false)\<close>.\<close>

definition evaluateGetConditional :: "lib \<Rightarrow> request \<Rightarrow> string \<Rightarrow> time \<Rightarrow> nat option" where
  "evaluateGetConditional L r etag modTime =
     (let im = GetHeader r ''If-Match''; ius = GetHeader r ''If-Unmodified-Since'';
          inm = GetHeader r ''If-None-Match''; ims = GetHeader r ''If-Modified-Since'';
          step1 = (if im \<noteq> [] then \<not> etagMatches im etag
                   else ius \<noteq> [] \<and> (case ParseHTTPTime L ius of Some t \<Rightarrow> modTime > t | None \<Rightarrow> False));
          step2 = (if inm \<noteq> [] then etagMatches inm etag
                   else ims \<noteq> [] \<and>
                     (case ParseHTTPTime L ims of Some t \<Rightarrow> \<not> truncate_second modTime > t | None \<Rightarrow> False))
      in if step1 then Some StatusPreconditionFailed
         else if step2 then Some StatusNotModified
         else None)"

definition stripConditionalHeaders :: "request \<Rightarrow> request" where
  "stripConditionalHeaders r =
     r\<lparr>req_header := fold AList.delete
        [''If-Match'', ''If-None-Match'', ''If-Modified-Since'', ''If-Unmodified-Since''] (req_header r)\<rparr>"

text \<open>The short-circuit response, or \<open>None\<close> to go on; \<open>hs\<close> are the headers set so far.\<close>

definition applyGetConditional ::
  "lib \<Rightarrow> request \<Rightarrow> (string \<times> string) list \<Rightarrow> string \<Rightarrow> time \<Rightarrow> response option \<times> request" where
  "applyGetConditional L r hs etag modTime =
     (let r' = stripConditionalHeaders r
      in case evaluateGetConditional L r etag modTime of
           None \<Rightarrow> (None, r')
         | Some st \<Rightarrow>
             if st = StatusNotModified
             then (Some (with_header ''ETag'' etag (add_headers hs (Status StatusNotModified))), r')
             else (Some (add_headers hs (respondError r' StatusPreconditionFailed ''PreconditionFailed''
                     ''At least one precondition failed'')), r'))"

text \<open>The \<open>If-Match\<close> half, then both.\<close>

definition put_if_match :: "env \<Rightarrow> string \<Rightarrow> string \<Rightarrow> bool \<Rightarrow> fs \<Rightarrow> nat option \<times> fs" where
  "put_if_match E ifMatch dstPath exists fs =
     (if ifMatch = [] then (None, fs)
      else if \<not> exists then (Some StatusPreconditionFailed, fs)
      else case loadOrBackfillETag E dstPath fs of
          (Inl _, fs') \<Rightarrow> (Some 500, fs')
        | (Inr etag, fs') \<Rightarrow>
            (if etagMatches ifMatch etag then None else Some StatusPreconditionFailed, fs'))"

definition object_exists :: "env \<Rightarrow> string \<Rightarrow> fs \<Rightarrow> bool" where
  "object_exists E p fs = (case Stat (ft E) fs p of Inr (File _ _) \<Rightarrow> True | _ \<Rightarrow> False)"

definition evaluatePutConditional :: "env \<Rightarrow> request \<Rightarrow> string \<Rightarrow> fs \<Rightarrow> nat option \<times> fs" where
  "evaluatePutConditional E r dstPath fs =
     (let ifMatch = GetHeader r ''If-Match''; ifNoneMatch = GetHeader r ''If-None-Match'';
          exists = object_exists E dstPath fs
      in if ifMatch = [] \<and> ifNoneMatch = [] then (None, fs)
         else if ifNoneMatch = [] then put_if_match E ifMatch dstPath exists fs
         else if ifNoneMatch = ''*'' then
           (if exists then (Some StatusPreconditionFailed, fs) else put_if_match E ifMatch dstPath exists fs)
         else if exists then
           (case loadOrBackfillETag E dstPath fs of
              (Inr etag, fs') \<Rightarrow>
                if etagMatches ifNoneMatch etag then (Some StatusPreconditionFailed, fs')
                else put_if_match E ifMatch dstPath exists fs'
            | (Inl _, fs') \<Rightarrow> put_if_match E ifMatch dstPath exists fs')
         else put_if_match E ifMatch dstPath exists fs)"

section \<open>Ranges\<close>

datatype rangeClass = rangeIgnore | rangeSatisfiable | rangeUnsatisfiable

definition classifySuffixRange :: "string \<Rightarrow> int \<Rightarrow> rangeClass" where
  "classifySuffixRange suffix sz =
     (case ParseInt suffix of
        Inl _ \<Rightarrow> rangeIgnore
      | Inr n \<Rightarrow>
          if n \<le> 0 then rangeIgnore
          else if sz = 0 then rangeUnsatisfiable
          else rangeSatisfiable)"

definition classifyOffsetRange :: "string \<Rightarrow> string \<Rightarrow> int \<Rightarrow> rangeClass" where
  "classifyOffsetRange startStr endStr sz =
     (case ParseInt startStr of
        Inl e \<Rightarrow> if e = ErrRange then rangeUnsatisfiable else rangeIgnore
      | Inr strt \<Rightarrow>
          if strt < 0 then rangeIgnore
          else if strt \<ge> sz then rangeUnsatisfiable
          else if endStr = [] then rangeSatisfiable
          else (case ParseInt endStr of
                  Inl _ \<Rightarrow> rangeIgnore
                | Inr en \<Rightarrow> if en < strt then rangeIgnore else rangeSatisfiable))"

definition classifyRange :: "string \<Rightarrow> int \<Rightarrow> rangeClass" where
  "classifyRange header sz =
     (if header = [] \<or> \<not> HasPrefix header ''bytes='' then rangeIgnore
      else let spec = TrimSpace (drop 6 header)
           in if spec = [] \<or> Contains spec '','' then rangeIgnore
              else let (a, b, ok) = Cut CHR ''-'' spec
                   in if \<not> ok then rangeIgnore
                      else let startStr = TrimSpace a; endStr = TrimSpace b
                           in if startStr = [] then classifySuffixRange endStr sz
                              else classifyOffsetRange startStr endStr sz)"

text \<open>
  \<open>parseRange\<close> of \<open>net/http\<close> for one range: the first byte and the length,
  \<open>None\<close> when it reports an error.
\<close>

definition parse_one_range :: "string \<Rightarrow> int \<Rightarrow> (int \<times> int) option" where
  "parse_one_range header sz =
     (let (a, b, _) = Cut CHR ''-'' (TrimSpace (drop 6 header));
          startStr = TrimSpace a; endStr = TrimSpace b
      in if startStr = [] then
           (case ParseInt endStr of
              Inl _ \<Rightarrow> None
            | Inr n \<Rightarrow> if n < 0 then None else Some (sz - min n sz, min n sz))
         else case ParseInt startStr of
             Inl _ \<Rightarrow> None
           | Inr s \<Rightarrow>
               if s < 0 \<or> s \<ge> sz then None
               else if endStr = [] then Some (s, sz - s)
               else (case ParseInt endStr of
                       Inl _ \<Rightarrow> None
                     | Inr e \<Rightarrow> if s > e then None else Some (s, min e (sz - 1) - s + 1)))"

text \<open>\<open>scanETag\<close> and the \<open>If-Range\<close> check of \<open>net/http\<close>: may the range be honoured?\<close>

definition if_range_ok :: "lib \<Rightarrow> request \<Rightarrow> string \<Rightarrow> time \<Rightarrow> bool" where
  "if_range_ok L r etag modTime =
     (let ir = GetHeader r ''If-Range''
      in if ir = [] then True
         else if HasPrefix ir [CHR 0x22] \<and> CHR 0x22 \<in> set (tl ir)
         then CHR 0x22 # takeWhile (\<lambda>c. c \<noteq> CHR 0x22) (tl ir) @ [CHR 0x22] = etag
         else if HasPrefix ir ''W/'' then False
         else case ParseHTTPTime L ir of
             None \<Rightarrow> False
           | Some t \<Rightarrow> truncate_second t = truncate_second modTime)"

definition slice :: "int \<Rightarrow> int \<Rightarrow> bytes \<Rightarrow> bytes" where
  "slice strt len b = take (nat len) (drop (nat strt) b)"

definition content_range :: "int \<Rightarrow> int \<Rightarrow> int \<Rightarrow> string" where
  "content_range strt len sz =
     ''bytes '' @ Itoa strt @ ''-'' @ Itoa (strt + len - 1) @ ''/'' @ Itoa sz"

text \<open>
  \<open>http.ServeContent\<close> with the headers set so far, for a request without the four
  precondition headers and whose \<open>Range\<close>, if any, is one satisfiable range.
\<close>

definition ServeContent :: "lib \<Rightarrow> request \<Rightarrow> (string \<times> string) list \<Rightarrow> time \<Rightarrow> bytes \<Rightarrow> response" where
  "ServeContent L r hs modTime b =
     (let sz = int (length b);
          hs1 = set_header ''Last-Modified'' (FormatHTTPTime L modTime) hs;
          hs2 = (if map_of hs1 ''Content-Type'' = None then set_header ''Content-Type'' (DetectContentType L b) hs1 else hs1);
          etag = (case map_of hs1 ''Etag'' of Some t \<Rightarrow> t | None \<Rightarrow> []);
          range = GetHeader r ''Range'';
          rng = (if range = [] \<or> \<not> if_range_ok L r etag modTime then None else parse_one_range range sz);
          fin = (\<lambda>h n. let h' = set_header ''Accept-Ranges'' ''bytes'' h
                       in if map_of h' ''Content-Encoding'' = None then set_header ''Content-Length'' (Itoa n) h' else h')
      in case rng of
           None \<Rightarrow> \<lparr>status = 200, headers = fin hs2 sz, payload = RawBody b, error_code = []\<rparr>
         | Some (s, n) \<Rightarrow>
             \<lparr>status = 206, headers = fin (set_header ''Content-Range'' (content_range s n sz) hs2) n,
              payload = RawBody (slice s n b), error_code = []\<rparr>)"

section \<open>Facts\<close>

lemma formatETag_inj: "formatETag a = formatETag b \<longleftrightarrow> a = b"
  by (simp add: formatETag_def hex_encode_inj)

lemma formatETag_nonempty [simp]: "formatETag d \<noteq> []"
  by (simp add: formatETag_def)

lemma etagMatches_star: "etagMatches ''*'' etag"
  by (simp add: etagMatches_def TrimSpace_def is_space_def)

text \<open>A range that is classified satisfiable is parsed to a non-empty slice inside the object.\<close>

lemma classifySuffixRange_sat:
  "\<lbrakk>classifySuffixRange e sz = rangeSatisfiable; 0 \<le> sz\<rbrakk> \<Longrightarrow> \<exists>n. ParseInt e = Inr n \<and> 0 < n \<and> 0 < sz"
  by (auto simp: classifySuffixRange_def split: sum.splits if_splits)

lemma classifyOffsetRange_sat:
  "classifyOffsetRange a e sz = rangeSatisfiable \<Longrightarrow>
     \<exists>s. ParseInt a = Inr s \<and> 0 \<le> s \<and> s < sz \<and> (e = [] \<or> (\<exists>n. ParseInt e = Inr n \<and> s \<le> n))"
  by (auto simp: classifyOffsetRange_def split: sum.splits if_splits)

lemma classifyRange_parts:
  assumes "classifyRange h sz = rangeSatisfiable"
  shows "\<exists>a b. Cut CHR ''-'' (TrimSpace (drop 6 h)) = (a, b, True)
     \<and> (TrimSpace a = [] \<longrightarrow> classifySuffixRange (TrimSpace b) sz = rangeSatisfiable)
     \<and> (TrimSpace a \<noteq> [] \<longrightarrow> classifyOffsetRange (TrimSpace a) (TrimSpace b) sz = rangeSatisfiable)"
proof -
  obtain a b ok where c: "Cut CHR ''-'' (TrimSpace (drop 6 h)) = (a, b, ok)" by (metis surj_pair)
  then show ?thesis
    using assms by (auto simp: classifyRange_def Let_def split: if_splits)
qed

lemma classifyRange_sound:
  assumes "classifyRange h sz = rangeSatisfiable" "0 \<le> sz"
  shows "\<exists>s n. parse_one_range h sz = Some (s, n) \<and> 0 \<le> s \<and> 0 < n \<and> s + n \<le> sz"
proof -
  obtain a b where c: "Cut CHR ''-'' (TrimSpace (drop 6 h)) = (a, b, True)"
    and suf: "TrimSpace a = [] \<longrightarrow> classifySuffixRange (TrimSpace b) sz = rangeSatisfiable"
    and off: "TrimSpace a \<noteq> [] \<longrightarrow> classifyOffsetRange (TrimSpace a) (TrimSpace b) sz = rangeSatisfiable"
    using classifyRange_parts[OF assms(1)] by blast
  show ?thesis
  proof (cases "TrimSpace a = []")
    case True
    then obtain n where "ParseInt (TrimSpace b) = Inr n" "0 < n" "0 < sz"
      using classifySuffixRange_sat[OF _ assms(2)] suf by blast
    then show ?thesis using True c by (simp add: parse_one_range_def)
  next
    case False
    then obtain s where s: "ParseInt (TrimSpace a) = Inr s" "0 \<le> s" "s < sz"
      and e: "TrimSpace b = [] \<or> (\<exists>n. ParseInt (TrimSpace b) = Inr n \<and> s \<le> n)"
      using classifyOffsetRange_sat off by blast
    then show ?thesis using False c by (auto simp: parse_one_range_def Let_def min_def)
  qed
qed

lemma length_slice: "\<lbrakk>0 \<le> s; 0 \<le> n; s + n \<le> int (length b)\<rbrakk> \<Longrightarrow> length (slice s n b) = nat n"
  by (simp add: slice_def)

lemma ServeContent_no_range:
  "GetHeader r ''Range'' = [] \<Longrightarrow> status (ServeContent L r hs t b) = 200 \<and> payload (ServeContent L r hs t b) = RawBody b"
  by (simp add: ServeContent_def Let_def)

lemma ServeContent_range:
  assumes "GetHeader r ''Range'' = h" "h \<noteq> []" "GetHeader r ''If-Range'' = []"
    "parse_one_range h (int (length b)) = Some (s, n)"
  shows "status (ServeContent L r hs t b) = 206" "payload (ServeContent L r hs t b) = RawBody (slice s n b)"
  using assms by (simp_all add: ServeContent_def Let_def if_range_ok_def)

text \<open>Backfilling only ever writes the metadata file.\<close>

lemma loadOrBackfillETag_frame:
  "r \<noteq> psegs (p @ ''.meta'') \<Longrightarrow> node_at (snd (loadOrBackfillETag E p fs)) r = node_at fs r"
  by (auto simp: loadOrBackfillETag_def Let_def WriteFile_frame split: sum.splits option.splits)

lemma loadOrBackfillETag_wf: "fs_wf fs \<Longrightarrow> fs_wf (snd (loadOrBackfillETag E p fs))"
  by (auto simp: loadOrBackfillETag_def Let_def WriteFile_wf split: sum.splits option.splits)

lemma loadOrBackfillETag_stored:
  assumes "ReadFile (ft E) fs (p @ ''.meta'') = Inr d" "meta_dec (lb E) d = Some m" "meta_get m ''ETag'' \<noteq> []"
  shows "loadOrBackfillETag E p fs = (Inr (meta_get m ''ETag''), fs)"
  using assms by (simp add: loadOrBackfillETag_def etagMetaKey_def)

lemma put_if_match_frame:
  "r \<noteq> psegs (p @ ''.meta'') \<Longrightarrow> node_at (snd (put_if_match E m p ex fs)) r = node_at fs r"
  using loadOrBackfillETag_frame[of r p E fs]
  by (cases "loadOrBackfillETag E p fs") (auto simp: put_if_match_def split: sum.splits)

lemma put_if_match_wf: "fs_wf fs \<Longrightarrow> fs_wf (snd (put_if_match E m p ex fs))"
  using loadOrBackfillETag_wf[of fs E p]
  by (cases "loadOrBackfillETag E p fs") (auto simp: put_if_match_def split: sum.splits)

lemma evaluatePutConditional_snd:
  "snd (evaluatePutConditional E q p fs) \<in>
     {fs, snd (loadOrBackfillETag E p fs)} \<union> (\<lambda>fs. snd (put_if_match E (GetHeader q ''If-Match'') p (object_exists E p fs0) fs)) ` {fs, snd (loadOrBackfillETag E p fs)}"
  if "fs0 = fs"
  using that
  by (cases "loadOrBackfillETag E p fs") (auto simp: evaluatePutConditional_def Let_def split: sum.splits)

lemma evaluatePutConditional_frame:
  "r \<noteq> psegs (p @ ''.meta'') \<Longrightarrow> node_at (snd (evaluatePutConditional E q p fs)) r = node_at fs r"
  using evaluatePutConditional_snd[OF refl, of E q p fs] by (auto simp: put_if_match_frame loadOrBackfillETag_frame)

lemma evaluatePutConditional_wf: "fs_wf fs \<Longrightarrow> fs_wf (snd (evaluatePutConditional E q p fs))"
  using evaluatePutConditional_snd[OF refl, of E q p fs] by (auto simp: put_if_match_wf loadOrBackfillETag_wf)

lemma evaluatePutConditional_none:
  "\<lbrakk>GetHeader r ''If-Match'' = []; GetHeader r ''If-None-Match'' = []\<rbrakk> \<Longrightarrow> evaluatePutConditional E r p fs = (None, fs)"
  by (simp add: evaluatePutConditional_def)

text \<open>\<open>If-None-Match: *\<close> creates only.\<close>

lemma evaluatePutConditional_create_only:
  assumes "GetHeader r ''If-None-Match'' = ''*''" "GetHeader r ''If-Match'' = []"
  shows "evaluatePutConditional E r p fs =
     (if \<exists>b t. Stat (ft E) fs p = Inr (File b t) then (Some 412, fs) else (None, fs))"
  using assms by (auto simp: evaluatePutConditional_def put_if_match_def object_exists_def Let_def
      StatusPreconditionFailed_def split: sum.splits node.splits)

end
