(* ===== verification/Objects.thy ===== *)
theory Objects
  imports Object_Meta
begin

text \<open>
  \<open>internal/handlers/object.go\<close>, with the audit line of \<open>acl.go\<close>, the metadata
  collection of \<open>multipart.go\<close> and the counters of \<open>middleware/metrics\_s3activity.go\<close>:
  upload, download, delete and head of an object.  The state of the handlers is
  \<open>world\<close>: the file system, the metrics and the ACL audit lines.  A handler runs with its
  stripe lock held and is one step here; \<open>upload_check\<close> and \<open>upload_commit\<close> are the
  two steps of an upload, because the precondition is checked before the lock is taken.
\<close>

section \<open>State\<close>

record acl_change =
  ch_resource :: string
  ch_bucket :: string
  ch_key :: string
  ch_from :: string
  ch_to :: string
  ch_actor :: string
  ch_request_id :: string
  ch_remote_ip :: string

record world =
  disk :: fs
  ObjectsBytesTotal :: "(string \<times> int) list"
  s3OperationsTotal :: "((string \<times> string) \<times> nat) list"
  s3BytesTransferredTotal :: "((string \<times> string) \<times> nat) list"
  MultipartUploadsInProgress :: int
  acl_log :: "acl_change list"

type_synonym handler = "env \<Rightarrow> request \<Rightarrow> world \<Rightarrow> response \<times> world"

definition bump :: "'k \<Rightarrow> 'n::monoid_add \<Rightarrow> ('k \<times> 'n) list \<Rightarrow> ('k \<times> 'n) list" where
  "bump k n m = AList.update k ((case map_of m k of None \<Rightarrow> 0 | Some x \<Rightarrow> x) + n) m"

definition add_bytes :: "string \<Rightarrow> int \<Rightarrow> world \<Rightarrow> world" where
  "add_bytes b n w = w\<lparr>ObjectsBytesTotal := bump b n (ObjectsBytesTotal w)\<rparr>"

definition RecordObjectUpload :: "string \<Rightarrow> nat \<Rightarrow> world \<Rightarrow> world" where
  "RecordObjectUpload b n w =
     (let w1 = w\<lparr>s3OperationsTotal := bump (b, ''upload'') 1 (s3OperationsTotal w)\<rparr>
      in if n > 0 then w1\<lparr>s3BytesTransferredTotal := bump (b, ''in'') n (s3BytesTransferredTotal w1)\<rparr> else w1)"

definition RecordObjectDownload :: "string \<Rightarrow> nat \<Rightarrow> world \<Rightarrow> world" where
  "RecordObjectDownload b n w =
     (let w1 = w\<lparr>s3OperationsTotal := bump (b, ''download'') 1 (s3OperationsTotal w)\<rparr>
      in if n > 0 then w1\<lparr>s3BytesTransferredTotal := bump (b, ''out'') n (s3BytesTransferredTotal w1)\<rparr> else w1)"

definition RecordObjectDelete :: "string \<Rightarrow> world \<Rightarrow> world" where
  "RecordObjectDelete b w = w\<lparr>s3OperationsTotal := bump (b, ''delete'') 1 (s3OperationsTotal w)\<rparr>"

definition actor_of :: "request \<Rightarrow> string" where
  "actor_of r = (case ctx_user r of None \<Rightarrow> [] | Some u \<Rightarrow> AccessKeyID u)"

definition auditACLChange ::
  "env \<Rightarrow> request \<Rightarrow> string \<Rightarrow> string \<Rightarrow> string \<Rightarrow> string \<Rightarrow> string \<Rightarrow> world \<Rightarrow> world" where
  "auditACLChange E r kind b key oldACL newACL w =
     (if oldACL = newACL then w
      else w\<lparr>acl_log := acl_log w @
        [\<lparr>ch_resource = kind, ch_bucket = b, ch_key = key, ch_from = oldACL, ch_to = newACL,
          ch_actor = actor_of r, ch_request_id = ctx_requestID r,
          ch_remote_ip = ResolveClientIP (lb E) (tproxy E) r\<rparr>]\<rparr>)"

section \<open>Paths and request headers\<close>

definition msgPathEscape :: string where
  "msgPathEscape = ''Bucket name or object key resolves outside its bucket''"

definition resolvePath :: "request \<Rightarrow> string list \<Rightarrow> response + string" where
  "resolvePath r names =
     (case SafeJoin ObjectsRoot names of
        Inl _ \<Rightarrow> Inl (respondError r 400 ''InvalidArgument'' msgPathEscape)
      | Inr p \<Rightarrow> Inr p)"

definition resolveObjectPath :: "request \<Rightarrow> string \<Rightarrow> string \<Rightarrow> response + string" where
  "resolveObjectPath r b key = resolvePath r [b, TrimPrefix key ''/'']"

definition resolveCannedACL :: "request \<Rightarrow> response + string" where
  "resolveCannedACL r =
     (let h = GetHeader r ''x-amz-acl''
      in if h = [] then Inr []
         else case NormalizeCannedACL h of
             Inl _ \<Rightarrow> Inl (respondError r 400 ''InvalidArgument'' ''Unsupported x-amz-acl value'')
           | Inr n \<Rightarrow> Inr n)"

definition contentTypeOrOctet :: "request \<Rightarrow> string" where
  "contentTypeOrOctet r =
     (let ct = TrimSpace (GetHeader r ''Content-Type'')
      in if ct \<noteq> [] then ct else ''application/octet-stream'')"

definition userMetadataMaxBytes :: nat where "userMetadataMaxBytes = 2 * 1024"

fun collect_meta :: "nat \<Rightarrow> meta_map \<Rightarrow> (string \<times> string list) list \<Rightarrow> meta_map option" where
  "collect_meta tot out [] = Some out"
| "collect_meta tot out ((k, vs) # hs) =
     (case vs of
        [] \<Rightarrow> collect_meta tot out hs
      | v # _ \<Rightarrow>
          if \<not> HasPrefix (ToLower k) ''x-amz-meta-'' then collect_meta tot out hs
          else let tot' = tot + (length k + length v)
               in if tot' > userMetadataMaxBytes then None
                  else collect_meta tot' (AList.update k v out) hs)"

definition collectUserMetadataChecked :: "request \<Rightarrow> meta_map option" where
  "collectUserMetadataChecked r = collect_meta 0 [] (req_header r)"

section \<open>Writing an object\<close>

text \<open>
  The source is the bytes it delivers and whether it then fails.  The temporary file's
  name is fresh (\<open>os.CreateTemp\<close> opens with \<open>O_EXCL\<close>).
\<close>

definition streamToObject ::
  "env \<Rightarrow> string \<Rightarrow> string \<Rightarrow> bytes \<Rightarrow> bool \<Rightarrow> fs \<Rightarrow> (os_error + string \<times> string \<times> nat) \<times> fs" where
  "streamToObject E dir dstPath src src_fails fs =
     (let q = psegs dir @ [''.upload-'' @ tmp_suffix E]; tmpName = abs_path q
      in case lookup_path fs (psegs dir) of
           Inl e \<Rightarrow> (Inl e, fs)
         | Inr (File _ _) \<Rightarrow> (Inl ENOTDIR, fs)
         | Inr Dir \<Rightarrow>
             if node_at fs q \<noteq> None \<or> fails (ft E) OpCreate q then (Inl EFAULT, fs)
             else let bad = (src_fails \<or> fails (ft E) OpWrite q);
                      fs1 = AList.update q (File (if bad then take (short_write (ft E) q) src else src) (now E)) fs
                  in if bad \<or> (durable E \<and> fails (ft E) OpSync q) \<or> fails (ft E) OpChmod q \<or> fails (ft E) OpClose q
                     then (Inl EFAULT, snd (Remove (ft E) tmpName fs1))
                     else case Rename (ft E) tmpName dstPath fs1 of
                         (Some e, fs2) \<Rightarrow> (Inl e, snd (Remove (ft E) tmpName fs2))
                       | (None, fs2) \<Rightarrow>
                           if durable E \<and> fails (ft E) OpSync (psegs dir) then (Inl EFAULT, fs2)
                           else (Inr (formatETag (md5 (lb E) src), b64_encode StdEncoding (crc32 (lb E) src),
                                      length src), fs2))"

definition stamp_meta :: "string \<Rightarrow> string \<Rightarrow> nat \<Rightarrow> meta_map \<Rightarrow> meta_map" where
  "stamp_meta etag crc written meta =
     AList.update ''Content-Length'' (Itoa (int written))
       (AList.update etagMetaKey etag (AList.update ''x-amz-checksum-crc32'' crc meta))"

definition finalizeObjectWrite ::
  "env \<Rightarrow> string \<Rightarrow> string \<Rightarrow> bytes \<Rightarrow> bool \<Rightarrow> meta_map \<Rightarrow> world \<Rightarrow> (store_error + string \<times> nat) \<times> world" where
  "finalizeObjectWrite E b dstPath src src_fails meta w =
     (let dir = path_dir dstPath
      in case MkdirAll (ft E) dir (disk w) of
           (Some e, fs1) \<Rightarrow> (Inl (OsErr e), w\<lparr>disk := fs1\<rparr>)
         | (None, fs1) \<Rightarrow>
             (case streamToObject E dir dstPath src src_fails fs1 of
                (Inl e, fs2) \<Rightarrow> (Inl (OsErr e), w\<lparr>disk := fs2\<rparr>)
              | (Inr (etag, crc, written), fs2) \<Rightarrow>
                  (case meta_enc (lb E) (stamp_meta etag crc written meta) of
                     None \<Rightarrow> (Inl CodecErr, w\<lparr>disk := fs2\<rparr>)
                   | Some raw \<Rightarrow>
                       (case WriteFile (ft E) (now E) (dstPath @ ''.meta'') raw fs2 of
                          (Some e, fs3) \<Rightarrow> (Inl (OsErr e), w\<lparr>disk := fs3\<rparr>)
                        | (None, fs3) \<Rightarrow> (Inr (etag, written), add_bytes b (int written) (w\<lparr>disk := fs3\<rparr>))))))"

text \<open>
  The upload up to the lock: the validated destination, ACL and metadata, or the refusal
  (the precondition may backfill the stored ETag).
\<close>

record upload_plan =
  plan_path :: string
  plan_key :: string
  plan_acl :: string
  plan_meta :: meta_map

definition upload_check :: "env \<Rightarrow> request \<Rightarrow> world \<Rightarrow> (response + upload_plan) \<times> world" where
  "upload_check E r w =
     (let objectKey = Clean (param_objectKey r)
      in case resolveCannedACL r of
           Inl resp \<Rightarrow> (Inl resp, w)
         | Inr cannedACL \<Rightarrow>
             (case collectUserMetadataChecked r of
                None \<Rightarrow> (Inl (respondError r 400 ''MetadataTooLarge'' ''x-amz-meta-* headers exceed 2 KiB total''), w)
              | Some meta0 \<Rightarrow>
                  (let meta1 = AList.update contentTypeMetaKey (contentTypeOrOctet r) meta0;
                       meta = (if cannedACL \<noteq> [] then AList.update ''acl'' cannedACL meta1 else meta1)
                   in case resolveObjectPath r (param_bucket r) objectKey of
                        Inl resp \<Rightarrow> (Inl resp, w)
                      | Inr dstPath \<Rightarrow>
                          (case evaluatePutConditional E r dstPath (disk w) of
                             (Some st, fs1) \<Rightarrow>
                               (Inl (if st = 500 then respondError r st ''InternalError'' ''Error resolving object ETag''
                                     else respondError r st ''PreconditionFailed'' ''At least one precondition failed''),
                                w\<lparr>disk := fs1\<rparr>)
                           | (None, fs1) \<Rightarrow>
                               (Inr \<lparr>plan_path = dstPath, plan_key = objectKey, plan_acl = cannedACL, plan_meta = meta\<rparr>,
                                w\<lparr>disk := fs1\<rparr>)))))"

definition upload_commit :: "env \<Rightarrow> request \<Rightarrow> upload_plan \<Rightarrow> world \<Rightarrow> response \<times> world" where
  "upload_commit E r plan w =
     (case finalizeObjectWrite E (param_bucket r) (plan_path plan) (req_body r) (req_body_fails r) (plan_meta plan) w of
        (Inl _, w1) \<Rightarrow> (respondError r 500 ''InternalError'' ''Error saving object'', w1)
      | (Inr (etag, written), w1) \<Rightarrow>
          (let w2 = RecordObjectUpload (param_bucket r) written w1;
               w3 = (if plan_acl plan \<noteq> []
                     then auditACLChange E r ''object'' (param_bucket r) (plan_key plan) ACLPrivate (plan_acl plan) w2
                     else w2)
           in (with_header ''ETag'' etag (Status 200), w3)))"

definition UploadObjectHandler :: handler where
  "UploadObjectHandler E r w =
     (case upload_check E r w of
        (Inl resp, w1) \<Rightarrow> (resp, w1)
      | (Inr plan, w1) \<Rightarrow> upload_commit E r plan w1)"

section \<open>Reading an object\<close>

definition del_header :: "string \<Rightarrow> request \<Rightarrow> request" where
  "del_header k r = r\<lparr>req_header := AList.delete (CanonicalHeaderKey k) (req_header r)\<rparr>"

definition sidecar_headers :: "env \<Rightarrow> string \<Rightarrow> fs \<Rightarrow> (string \<times> string) list \<Rightarrow> (string \<times> string) list" where
  "sidecar_headers E filePath fs hs =
     (case Stat (ft E) fs (filePath @ ''.meta'') of
        Inr (File _ _) \<Rightarrow>
          (case ReadFile (ft E) fs (filePath @ ''.meta'') of
             Inl _ \<Rightarrow> hs
           | Inr data \<Rightarrow>
               (case meta_dec (lb E) data of None \<Rightarrow> hs | Some m \<Rightarrow> applyMetadataHeaders (lb E) m hs))
      | _ \<Rightarrow> hs)"

definition payload_size :: "payload \<Rightarrow> nat" where
  "payload_size p = (case p of RawBody b \<Rightarrow> length b | _ \<Rightarrow> 0)"

text \<open>
  The part after the preconditions: range, open, stream.  A directory that owns a
  metadata file cannot be streamed; it answers 500 like a failing open.
\<close>

definition serve_object ::
  "env \<Rightarrow> request \<Rightarrow> string \<Rightarrow> (string \<times> string) list \<Rightarrow> node \<Rightarrow> world \<Rightarrow> response \<times> world" where
  "serve_object E r filePath hs n w =
     (case n of
        Dir \<Rightarrow> (add_headers hs (respondError r 500 ''InternalError'' ''Error opening object''), w)
      | File b t \<Rightarrow>
          (let sz = int (length b); cls = classifyRange (GetHeader r ''Range'') sz
           in if cls = rangeUnsatisfiable
              then (\<lparr>status = 416,
                     headers = set_header ''Content-Range'' (''bytes */'' @ Itoa sz) (set_header ''Accept-Ranges'' ''bytes'' hs),
                     payload = NoBody, error_code = []\<rparr>, w)
              else let r2 = (if cls = rangeIgnore then del_header ''Range'' r else r)
                   in if fails (ft E) OpRead (psegs filePath)
                      then (add_headers hs (respondError r2 500 ''InternalError'' ''Error opening object''), w)
                      else let resp = ServeContent (lb E) r2 hs t b; k = payload_size (payload resp)
                           in (resp, if k > 0 then RecordObjectDownload (param_bucket r) k w else w)))"

definition node_mtime :: "node \<Rightarrow> time" where
  "node_mtime n = (case n of Dir \<Rightarrow> 0 | File _ t \<Rightarrow> t)"

definition DownloadObjectHandler :: handler where
  "DownloadObjectHandler E r w =
     (case resolveObjectPath r (param_bucket r) (Clean (param_objectKey r)) of
        Inl resp \<Rightarrow> (resp, w)
      | Inr filePath \<Rightarrow>
          (case Stat (ft E) (disk w) filePath of
             Inl _ \<Rightarrow> (respondError r 404 ''NoSuchKey'' ''Object not found'', w)
           | Inr n \<Rightarrow>
               (let hs0 = set_header ''X-Content-Type-Options'' ''nosniff'' []
                in case loadOrBackfillETag E filePath (disk w) of
                     (Inl _, fs1) \<Rightarrow>
                       (add_headers hs0 (respondError r 500 ''InternalError'' ''Error resolving ETag''), w\<lparr>disk := fs1\<rparr>)
                   | (Inr etag, fs1) \<Rightarrow>
                       (let w1 = w\<lparr>disk := fs1\<rparr>;
                            hs1 = set_header ''ETag'' etag (sidecar_headers E filePath fs1 hs0);
                            hs2 = AList.delete ''Content-Length'' hs1
                        in case applyGetConditional (lb E) r hs2 etag (node_mtime n) of
                             (Some resp, _) \<Rightarrow> (resp, w1)
                           | (None, r1) \<Rightarrow> serve_object E r1 filePath hs2 n w1))))"

text \<open>The stat error of the missing sidecar is told apart from every other error.\<close>

definition GetObjectMetadataHandler :: handler where
  "GetObjectMetadataHandler E r w =
     (case resolveObjectPath r (param_bucket r) (Clean (param_objectKey r)) of
        Inl resp \<Rightarrow> (resp, w)
      | Inr objectPath \<Rightarrow>
          (let metadataPath = objectPath @ ''.meta'';
               hs0 = set_header ''X-Content-Type-Options'' ''nosniff'' [];
               err = (\<lambda>st code msg. add_headers hs0 (respondError r st code msg))
           in if Stat (ft E) (disk w) metadataPath = Inl ENOENT
              then (err 404 ''NoSuchKey'' ''Metadata not found'', w)
              else case ReadFile (ft E) (disk w) metadataPath of
                  Inl _ \<Rightarrow> (err 500 ''InternalError'' ''Error opening metadata file'', w)
                | Inr data \<Rightarrow>
                    (case meta_dec (lb E) data of
                       None \<Rightarrow> (err 500 ''InternalError'' ''Error decoding metadata'', w)
                     | Some m0 \<Rightarrow>
                         (let m1 = (if hasMetaKey m0 ''last-modified'' then m0
                                    else case Stat (ft E) (disk w) objectPath of
                                        Inr n \<Rightarrow> AList.update ''last-modified'' (FormatHTTPTime (lb E) (node_mtime n)) m0
                                      | Inl _ \<Rightarrow> m0);
                              (tag, fs1) = (if meta_get m1 etagMetaKey \<noteq> [] then (Inr (meta_get m1 etagMetaKey), disk w)
                                            else loadOrBackfillETag E objectPath (disk w))
                          in case tag of
                               Inl _ \<Rightarrow> (err 500 ''InternalError'' ''Error resolving ETag'', w\<lparr>disk := fs1\<rparr>)
                             | Inr etag \<Rightarrow>
                                 (let m2 = AList.update etagMetaKey etag m1
                                  in if req_method r = ''HEAD''
                                     then (\<lparr>status = 200,
                                            headers = set_header ''Accept-Ranges'' ''bytes'' (applyMetadataHeaders (lb E) m2 hs0),
                                            payload = NoBody, error_code = []\<rparr>, w\<lparr>disk := fs1\<rparr>)
                                     else (add_headers hs0 (c_JSON 200 (TObj (map (\<lambda>(k, v). (k, TStr v)) m2))),
                                           w\<lparr>disk := fs1\<rparr>))))))"

section \<open>Deleting an object\<close>

text \<open>The loop over the parent directories, on the reversed segments of the directory.\<close>

fun collapse_dirs :: "fault \<Rightarrow> path \<Rightarrow> path \<Rightarrow> fs \<Rightarrow> fs" where
  "collapse_dirs f bucketDir [] fs = fs"
| "collapse_dirs f bucketDir (s # rs) fs =
     (let parent = rev (s # rs)
      in if parent = bucketDir then fs
         else case ReadDir f fs (abs_path parent) of
             Inl _ \<Rightarrow> fs
           | Inr entries \<Rightarrow>
               if entries \<noteq> [] then fs
               else (case Remove f (abs_path parent) fs of
                       (Some _, fs') \<Rightarrow> fs'
                     | (None, fs') \<Rightarrow> collapse_dirs f bucketDir rs fs'))"

definition remove_finish :: "env \<Rightarrow> string \<Rightarrow> path \<Rightarrow> string \<Rightarrow> nat \<Rightarrow> world \<Rightarrow> world" where
  "remove_finish E b bucketDir filePath removedBytes w =
     (let w1 = (if removedBytes > 0 then add_bytes b (- int removedBytes) w else w);
          fs1 = snd (Remove (ft E) (filePath @ ''.meta'') (disk w1));
          fs2 = collapse_dirs (ft E) bucketDir (rev (psegs (path_dir filePath))) fs1
      in RecordObjectDelete b (w1\<lparr>disk := fs2\<rparr>))"

definition removeObject :: "env \<Rightarrow> string \<Rightarrow> string \<Rightarrow> world \<Rightarrow> store_error option \<times> world" where
  "removeObject E b objectKey w =
     (case SafeJoin ObjectsRoot [b] of
        Inl _ \<Rightarrow> (Some PathErr, w)
      | Inr bucketDir \<Rightarrow>
          (case SafeJoin bucketDir [TrimPrefix objectKey ''/''] of
             Inl _ \<Rightarrow> (Some PathErr, w)
           | Inr filePath \<Rightarrow>
               (let removedBytes = (case Stat (ft E) (disk w) filePath of Inr (File c _) \<Rightarrow> length c | _ \<Rightarrow> 0)
                in case Remove (ft E) filePath (disk w) of
                     (Some e, fs1) \<Rightarrow>
                       if \<not> IsNotExist e then (Some (OsErr e), w\<lparr>disk := fs1\<rparr>)
                       else (None, remove_finish E b (psegs bucketDir) filePath removedBytes (w\<lparr>disk := fs1\<rparr>))
                   | (None, fs1) \<Rightarrow>
                       (None, remove_finish E b (psegs bucketDir) filePath removedBytes (w\<lparr>disk := fs1\<rparr>)))))"

definition DeleteObjectHandler :: handler where
  "DeleteObjectHandler E r w =
     (case removeObject E (param_bucket r) (Clean (param_objectKey r)) w of
        (Some _, w1) \<Rightarrow> (respondError r 500 ''InternalError'' ''Error deleting object'', w1)
      | (None, w1) \<Rightarrow> (Status 204, w1))"

section \<open>Paths of validated names\<close>

definition object_segs :: "string \<Rightarrow> string \<Rightarrow> path" where
  "object_segs b k = root_segs @ b # Split CHR ''/'' k"

definition object_path :: "string \<Rightarrow> string \<Rightarrow> string" where
  "object_path b k = abs_path (object_segs b k)"

text \<open>A bucket and a key as \<open>ValidateNames\<close> lets them through.\<close>

definition names_ok :: "string \<Rightarrow> string \<Rightarrow> bool" where
  "names_ok b k \<longleftrightarrow> ValidateBucketName b = None \<and> ValidateObjectKey k = Inr k"

definition for_object :: "string \<Rightarrow> string \<Rightarrow> request \<Rightarrow> bool" where
  "for_object b k r \<longleftrightarrow> param_bucket r = b \<and> param_objectKey r = CHR ''/'' # k"

lemma root_proper [simp]: "list_all proper_seg root_segs"
  by (simp add: root_segs_def proper_seg_def)

lemma proper_seg_ok: "proper_seg s \<Longrightarrow> seg_ok s"
  by (simp add: proper_seg_def seg_ok_def)

lemma names_ok_proper: "names_ok b k \<Longrightarrow> proper_seg b \<and> list_all proper_seg (Split CHR ''/'' k)"
  by (auto simp: names_ok_def ValidateBucketName_proper dest: ValidateObjectKey_ok(4))

lemma object_segs_proper: "names_ok b k \<Longrightarrow> list_all proper_seg (object_segs b k)"
  using names_ok_proper by (simp add: object_segs_def)

lemma object_segs_ok: "names_ok b k \<Longrightarrow> list_all seg_ok (object_segs b k)"
  using object_segs_proper by (auto simp: list_all_iff proper_seg_ok)

lemma object_segs_ne [simp]: "object_segs b k \<noteq> []"
  by (simp add: object_segs_def)

lemma psegs_object_path [simp]: "names_ok b k \<Longrightarrow> psegs (object_path b k) = object_segs b k"
  by (simp add: object_path_def psegs_abs_path object_segs_ok)

lemma psegs_object_suffix:
  "\<lbrakk>names_ok b k; CHR ''/'' \<notin> set x\<rbrakk> \<Longrightarrow>
     psegs (object_path b k @ x) = butlast (object_segs b k) @ [last (object_segs b k) @ x]"
  by (simp add: object_path_def psegs_suffix object_segs_ok)

lemma meta_not_object: "names_ok b k \<Longrightarrow> psegs (object_path b k @ ''.meta'') \<noteq> object_segs b k"
  using append_butlast_last_id[OF object_segs_ne[of b k]]
  by (simp add: psegs_object_suffix) (metis last_snoc list.distinct(1) self_append_conv)

lemma Clean_key: "names_ok b k \<Longrightarrow> Clean (CHR ''/'' # k) = CHR ''/'' # k"
proof -
  assume "names_ok b k"
  then have p: "list_all proper_seg (Split CHR ''/'' k)" using names_ok_proper by blast
  have "Split CHR ''/'' (CHR ''/'' # k) = [] # Split CHR ''/'' k" by simp
  then show ?thesis
    using foldl_clean_proper[OF p, of True "[]"]
    by (simp add: Clean_def clean_segs_def clean_step_def Join_Split)
qed

lemma Split_key_nonempty: "Split c k \<noteq> []" by simp

lemma resolvePath_names:
  "names_ok b k \<Longrightarrow> resolvePath r [b, k] = Inr (object_path b k)"
  using SafeJoin_validated[OF root_proper, of b k k]
  by (simp add: resolvePath_def ObjectsRoot_def names_ok_def object_path_def object_segs_def)

lemma resolveObjectPath_names:
  assumes "names_ok b k" "for_object b k r"
  shows "resolveObjectPath r (param_bucket r) (Clean (param_objectKey r)) = Inr (object_path b k)"
  using assms resolvePath_names[OF assms(1), of r] Clean_key[OF assms(1)]
  by (simp add: resolveObjectPath_def for_object_def TrimPrefix_def HasPrefix_def)

text \<open>Different names, different files.\<close>

lemma object_segs_inj: "\<lbrakk>object_segs b k = object_segs b' k'\<rbrakk> \<Longrightarrow> b = b' \<and> k = k'"
  by (auto simp: object_segs_def) (metis Join_Split)

lemma append_same_suffix: "xs @ [x @ s] = ys @ [y @ s] \<longleftrightarrow> xs = ys \<and> x = y"
  by auto

lemma meta_inj:
  assumes "names_ok b k" "names_ok b' k'" "psegs (object_path b k @ ''.meta'') = psegs (object_path b' k' @ ''.meta'')"
  shows "b = b' \<and> k = k'"
proof -
  have "butlast (object_segs b k) @ [last (object_segs b k)] = butlast (object_segs b' k') @ [last (object_segs b' k')]"
    using assms by (simp add: psegs_object_suffix)
  then show ?thesis using object_segs_inj by (simp add: append_butlast_last_id)
qed

lemma last_object_segs: "last (object_segs b k) = last (Split CHR ''/'' k)"
  by (simp add: object_segs_def)

lemma object_not_sidecar:
  assumes "names_ok b k" "names_ok b' k'" "CHR ''/'' \<notin> set x"
    "x = ''.meta'' \<or> x = ''.tags.json''"
  shows "psegs (object_path b k @ x) \<noteq> object_segs b' k'"
proof
  assume "psegs (object_path b k @ x) = object_segs b' k'"
  then have "last (object_segs b' k') = last (object_segs b k) @ x"
    using assms(1,3) by (metis psegs_object_suffix snoc_eq_iff_butlast)
  then have "HasSuffix (last (Split CHR ''/'' k')) x" by (simp add: last_object_segs)
  moreover have "last (Split CHR ''/'' k') \<in> set (Split CHR ''/'' k')" by simp
  ultimately show False
    using ValidateObjectKey_not_sidecar[of k' k'] assms(2,4) by (auto simp: names_ok_def)
qed

section \<open>Streaming and committing\<close>

definition upload_tmp :: "env \<Rightarrow> string \<Rightarrow> path" where
  "upload_tmp E dir = psegs dir @ [''.upload-'' @ tmp_suffix E]"

text \<open>Whatever happens, only the temporary file and the destination change, and the
  destination holds either what it held or the whole source.\<close>

lemma Remove_at_frame:
  "list_all seg_ok q \<Longrightarrow> r \<noteq> q \<Longrightarrow> node_at (snd (Remove f (abs_path q) fs)) r = node_at fs r"
  using Remove_frame[of r "abs_path q" f fs] by (simp add: psegs_abs_path)

lemma streamToObject_facts:
  assumes "streamToObject E dir dst src sf fs = (x, fs')" "fs_wf fs" "seg_ok (''.upload-'' @ tmp_suffix E)"
  shows "fs_wf fs'"
    "\<lbrakk>r \<noteq> upload_tmp E dir; r \<noteq> psegs dst\<rbrakk> \<Longrightarrow> node_at fs' r = node_at fs r"
    "psegs dst \<noteq> upload_tmp E dir \<Longrightarrow> node_at fs' (psegs dst) = node_at fs (psegs dst)
        \<or> node_at fs' (psegs dst) = Some (File src (now E)) \<and> \<not> sf"
    "x = Inr (etag, crc, n) \<Longrightarrow> node_at fs' (psegs dst) = Some (File src (now E)) \<and> \<not> sf
        \<and> etag = formatETag (md5 (lb E) src) \<and> n = length src \<and> psegs dst \<noteq> []"
proof -
  let ?q = "upload_tmp E dir"
  have okq: "list_all seg_ok ?q" "?q \<noteq> []" using psegs_ok[of dir] assms(3) by (auto simp: upload_tmp_def)
  have pq: "psegs (abs_path ?q) = ?q" using okq(1) by (rule psegs_abs_path)
  define bad where "bad = (sf \<or> fails (ft E) OpWrite ?q)"
  define fs1 where "fs1 = AList.update ?q (File (if bad then take (short_write (ft E) ?q) src else src) (now E)) fs"
  define early where "early = (bad \<or> (durable E \<and> fails (ft E) OpSync ?q) \<or> fails (ft E) OpChmod ?q \<or> fails (ft E) OpClose ?q)"
  define outcome where "outcome = (if early then (Inl EFAULT, snd (Remove (ft E) (abs_path ?q) fs1))
      else case Rename (ft E) (abs_path ?q) dst fs1 of
          (Some e, fs2) \<Rightarrow> (Inl e, snd (Remove (ft E) (abs_path ?q) fs2))
        | (None, fs2) \<Rightarrow> if durable E \<and> fails (ft E) OpSync (psegs dir) then (Inl EFAULT, fs2)
            else (Inr (formatETag (md5 (lb E) src), b64_encode StdEncoding (crc32 (lb E) src), length src), fs2))"
  have cases: "(\<exists>e. x = Inl e \<and> fs' = fs) \<or> (lookup_path fs (psegs dir) = Inr Dir \<and> node_at fs ?q = None \<and> (x, fs') = outcome)"
    using assms(1) unfolding streamToObject_def Let_def upload_tmp_def[symmetric] bad_def[symmetric]
      fs1_def[symmetric] early_def[symmetric] outcome_def[symmetric]
    by (auto split: sum.splits node.splits if_splits)
  have *: "fs_wf fs' \<and> (\<forall>r. r \<noteq> ?q \<longrightarrow> r \<noteq> psegs dst \<longrightarrow> node_at fs' r = node_at fs r)
      \<and> (psegs dst \<noteq> ?q \<longrightarrow> node_at fs' (psegs dst) = node_at fs (psegs dst)
          \<or> node_at fs' (psegs dst) = Some (File src (now E)) \<and> \<not> sf)
      \<and> (\<forall>etag crc n. x = Inr (etag, crc, n) \<longrightarrow> node_at fs' (psegs dst) = Some (File src (now E)) \<and> \<not> sf
          \<and> etag = formatETag (md5 (lb E) src) \<and> n = length src \<and> psegs dst \<noteq> [])"
    using cases
  proof (elim disjE exE conjE)
    fix e assume "x = Inl e" "fs' = fs"
    then show ?thesis using assms(2) by simp
  next
    assume dir: "lookup_path fs (psegs dir) = Inr Dir" and fresh: "node_at fs ?q = None" and out: "(x, fs') = outcome"
    have par: "node_at fs (butlast ?q) = Some Dir" using dir lookup_iff[OF assms(2)] by (simp add: upload_tmp_def)
    have wf1: "fs_wf fs1" unfolding fs1_def using assms(2) okq par fresh by (intro fs_wf_update) auto
    have fr1: "node_at fs1 r = node_at fs r" if "r \<noteq> ?q" for r using that okq(2) by (simp add: fs1_def)
    show ?thesis
    proof (cases early)
      case True
      then have eq: "x = Inl EFAULT" "fs' = snd (Remove (ft E) (abs_path ?q) fs1)"
        using out by (simp_all add: outcome_def)
      have "node_at fs' r = node_at fs r" if "r \<noteq> ?q" for r
        using that fr1 Remove_at_frame[OF okq(1) that] eq(2) by simp
      then show ?thesis using eq Remove_wf[OF wf1] by simp
    next
      case False
      then have good: "\<not> sf" "\<not> bad" by (auto simp: early_def bad_def)
      obtain y fs2 where rn: "Rename (ft E) (abs_path ?q) dst fs1 = (y, fs2)" by (metis surj_pair)
      have wf2: "fs_wf fs2" using Rename_wf[OF wf1, of "ft E" "abs_path ?q" dst] rn by simp
      show ?thesis
      proof (cases y)
        case (Some e)
        then have eq: "x = Inl e" "fs' = snd (Remove (ft E) (abs_path ?q) fs2)" "fs2 = fs1"
          using out False rn Rename_error[of "ft E" "abs_path ?q" dst fs1 e fs2] by (simp_all add: outcome_def)
        have "node_at fs' r = node_at fs r" if "r \<noteq> ?q" for r
          using that fr1 Remove_at_frame[OF okq(1) that] eq by simp
        then show ?thesis using eq Remove_wf[OF wf2] by simp
      next
        case None
        then have fs': "fs' = fs2" using out False rn by (simp add: outcome_def split: if_splits)
        from Rename_ok[OF rn[unfolded None]] obtain b t where
          l: "lookup_path fs1 ?q = Inr (File b t)" and f2: "fs2 = AList.update (psegs dst) (File b t) (AList.delete ?q fs1)"
          and ne: "psegs dst \<noteq> []" by (auto simp: pq)
        have "node_at fs1 ?q = Some (File src (now E))" using good okq(2) by (simp add: fs1_def)
        then have "b = src" "t = now E" using l lookup_iff[OF wf1] by auto
        then have at: "node_at fs' (psegs dst) = Some (File src (now E))" using fs' f2 ne by simp
        have "node_at fs' r = node_at fs r" if "r \<noteq> ?q" "r \<noteq> psegs dst" for r
          using that fr1[OF that(1)] fs' f2 ne okq(2) by (simp add: node_at_delete)
        then show ?thesis using at fs' wf2 good out False rn None ne
          by (auto simp: outcome_def split: if_splits)
      qed
    qed
  qed
  from * show "fs_wf fs'" by blast
  from * show "node_at fs' r = node_at fs r" if "r \<noteq> upload_tmp E dir" "r \<noteq> psegs dst" using that by blast
  from * show "psegs dst \<noteq> upload_tmp E dir \<Longrightarrow> node_at fs' (psegs dst) = node_at fs (psegs dst)
        \<or> node_at fs' (psegs dst) = Some (File src (now E)) \<and> \<not> sf" by blast
  from * show "x = Inr (etag, crc, n) \<Longrightarrow> node_at fs' (psegs dst) = Some (File src (now E)) \<and> \<not> sf
        \<and> etag = formatETag (md5 (lb E) src) \<and> n = length src \<and> psegs dst \<noteq> []" by blast
qed

end
