(* ===== verification/Object_Laws.thy ===== *)
theory Object_Laws
  imports Objects
begin

text \<open>
  What the object handlers guarantee, for names that passed the validator: a reported
  upload is read back, a failed one never leaves a torn object, and neither upload nor
  delete touches another object.
\<close>

section \<open>Strings the codecs accept\<close>

definition ascii :: "string \<Rightarrow> bool" where
  "ascii s \<longleftrightarrow> (\<forall>c\<in>set s. (of_char c :: nat) < 128)"

lemma ascii_valid: "ascii s \<Longrightarrow> ValidString s"
  by (simp add: ascii_def ValidString_ascii)

lemma ascii_append [simp]: "ascii (a @ b) \<longleftrightarrow> ascii a \<and> ascii b" "ascii (c # s) \<longleftrightarrow> (of_char c :: nat) < 128 \<and> ascii s" "ascii []"
  by (auto simp: ascii_def)

lemma hex_digit_ascii: "n < 16 \<Longrightarrow> (of_char (hex_digit n) :: nat) < 128"
  by (auto simp: hex_digit_def of_char_char_of_small)

lemma ascii_hex: "ascii (hex_encode bs)"
proof (induction bs)
  case (Cons c bs)
  have "(of_char c :: nat) div 16 < 16" using of_char_lt[of c] by linarith
  then show ?case using Cons hex_digit_ascii by (simp del: of_char_of)
qed simp

lemma ascii_formatETag: "ascii (formatETag d)"
  by (simp add: formatETag_def ascii_hex)

lemma ascii_nat_digits: "ascii (nat_digits n)"
  using nat_digits_all_digits[of _ n] by (fastforce simp: ascii_def is_digit_def Let_def)

lemma ascii_Itoa: "ascii (Itoa i)"
  by (simp add: Itoa_def ascii_nat_digits)

lemma b64_digit_ascii: "n < 64 \<Longrightarrow> (of_char (b64_digit StdEncoding n) :: nat) < 128"
  by (auto simp: b64_digit_def StdEncoding_def of_char_char_of_small)

lemma ascii_b64_nats: "\<forall>x\<in>set ns. x < 256 \<Longrightarrow> ascii (b64_encode_nats StdEncoding ns)"
proof (induction StdEncoding ns rule: b64_encode_nats.induct)
  case (2 a)
  then have "a div 4 < 64" "a mod 4 * 16 < 64" by auto
  then show ?case by (simp add: b64_digit_ascii)
next
  case (3 a b)
  then have "a div 4 < 64" "a mod 4 * 16 + b div 16 < 64" "b mod 16 * 4 < 64" by auto
  then show ?case by (simp add: b64_digit_ascii)
next
  case (4 a b c r)
  then have "a div 4 < 64" "a mod 4 * 16 + b div 16 < 64" "b mod 16 * 4 + c div 64 < 64" "c mod 64 < 64" by auto
  then show ?case using 4 by (simp add: b64_digit_ascii)
qed simp

lemma ascii_b64: "ascii (b64_encode StdEncoding s)"
  unfolding b64_encode_def by (rule ascii_b64_nats) (auto simp: of_char_lt)

lemma valid_meta_update: "\<lbrakk>valid_meta m; ValidString k; ValidString v\<rbrakk> \<Longrightarrow> valid_meta (AList.update k v m)"
proof -
  have "set (AList.update k v m) \<subseteq> insert (k, v) (set m)" by (induction m) auto
  then show "\<lbrakk>valid_meta m; ValidString k; ValidString v\<rbrakk> \<Longrightarrow> valid_meta (AList.update k v m)"
    by (auto simp: valid_meta_def)
qed

lemma valid_stamp_meta:
  assumes "valid_meta m"
  shows "valid_meta (stamp_meta (formatETag d) (b64_encode StdEncoding c) n m)"
  unfolding stamp_meta_def etagMetaKey_def
  using assms ascii_valid[OF ascii_formatETag] ascii_valid[OF ascii_b64] ascii_valid[OF ascii_Itoa]
  by (intro valid_meta_update) (auto intro!: ascii_valid)

lemma meta_codec_roundtrip:
  assumes "meta_codec_ok L" "valid_meta m" "meta_enc L m = Some raw"
  obtains m' where "meta_dec L raw = Some m'" "map_of m' = map_of m"
  using assms by (metis meta_codec_ok_def option.inject)

section \<open>Committing an upload\<close>

definition tmp_ok :: "env \<Rightarrow> bool" where
  "tmp_ok E \<longleftrightarrow> seg_ok (''.upload-'' @ tmp_suffix E)"

definition object_meta_segs :: "string \<Rightarrow> string \<Rightarrow> path" where
  "object_meta_segs b k = psegs (object_path b k @ ''.meta'')"

definition object_tmp :: "env \<Rightarrow> string \<Rightarrow> string \<Rightarrow> path" where
  "object_tmp E b k = butlast (object_segs b k) @ [''.upload-'' @ tmp_suffix E]"

lemma upload_tmp_object: "names_ok b k \<Longrightarrow> upload_tmp E (path_dir (object_path b k)) = object_tmp E b k"
  by (simp add: upload_tmp_def object_tmp_def)

text \<open>The files an upload of this object may touch.\<close>

definition touched :: "env \<Rightarrow> string \<Rightarrow> string \<Rightarrow> path set" where
  "touched E b k = {object_segs b k, object_meta_segs b k, object_tmp E b k}"

text \<open>Same files outside the set; directories may be added.\<close>

definition same_files :: "path set \<Rightarrow> fs \<Rightarrow> fs \<Rightarrow> bool" where
  "same_files A fs fs' \<longleftrightarrow>
     (\<forall>r. r \<notin> A \<longrightarrow> (\<forall>c t. node_at fs' r = Some (File c t) \<longleftrightarrow> node_at fs r = Some (File c t)))"

lemma same_files_refl [simp]: "same_files A fs fs"
  by (simp add: same_files_def)

lemma same_files_trans: "\<lbrakk>same_files A fs fs'; same_files A fs' fs''\<rbrakk> \<Longrightarrow> same_files A fs fs''"
  by (simp add: same_files_def)

lemma same_files_mono: "\<lbrakk>same_files A fs fs'; A \<subseteq> B\<rbrakk> \<Longrightarrow> same_files B fs fs'"
  by (auto simp: same_files_def)

lemma same_files_mkdir: "same_files A fs (snd (MkdirAll f p fs))"
  unfolding same_files_def using MkdirAll_files MkdirAll_frame by (metis option.distinct(1))

lemma same_files_frame: "(\<And>r. r \<notin> A \<Longrightarrow> node_at fs' r = node_at fs r) \<Longrightarrow> same_files A fs fs'"
  by (simp add: same_files_def)

text \<open>The object is whole: what it was, or all of the new bytes.\<close>

definition whole :: "string \<Rightarrow> string \<Rightarrow> bytes \<Rightarrow> fs \<Rightarrow> fs \<Rightarrow> bool" where
  "whole b k src fs fs' \<longleftrightarrow>
     (\<forall>c t. node_at fs' (object_segs b k) = Some (File c t) \<longrightarrow>
        c = src \<or> node_at fs (object_segs b k) = Some (File c t))
   \<and> (\<forall>c t. node_at fs (object_segs b k) = Some (File c t) \<longrightarrow>
        (\<exists>c' t'. node_at fs' (object_segs b k) = Some (File c' t')))"

lemma finalizeObjectWrite_facts:
  assumes "names_ok b k" "fs_wf (disk w)" "tmp_ok E" "object_tmp E b k \<noteq> object_segs b k"
    and fin: "finalizeObjectWrite E b (object_path b k) src sf m w = (x, w')"
  shows "fs_wf (disk w')" "same_files (touched E b k) (disk w) (disk w')" "whole b k src (disk w) (disk w')"
    "x = Inr (etag, n) \<Longrightarrow> node_at (disk w') (object_segs b k) = Some (File src (now E)) \<and> \<not> sf
       \<and> etag = formatETag (md5 (lb E) src) \<and> n = length src
       \<and> (\<exists>crc raw. crc = b64_encode StdEncoding (crc32 (lb E) src) \<and> meta_enc (lb E) (stamp_meta etag crc n m) = Some raw
             \<and> node_at (disk w') (object_meta_segs b k) = Some (File raw (now E)))"
proof -
  let ?dst = "object_path b k" and ?S = "object_segs b k" and ?M = "object_meta_segs b k" and ?T = "object_tmp E b k"
  have dst: "psegs ?dst = ?S" using assms(1) by simp
  have MS: "?M \<noteq> ?S" using meta_not_object[OF assms(1)] by (simp add: object_meta_segs_def)
  obtain y1 fs1 where mk: "MkdirAll (ft E) (path_dir ?dst) (disk w) = (y1, fs1)" by (metis surj_pair)
  have wf1: "fs_wf fs1" using MkdirAll_wf[OF assms(2), of "ft E" "path_dir ?dst"] mk by simp
  have sf1: "same_files A (disk w) fs1" for A using same_files_mkdir[of A "disk w" "ft E" "path_dir ?dst"] mk by simp
  obtain y2 fs2 where st: "streamToObject E (path_dir ?dst) ?dst src sf fs1 = (y2, fs2)" by (metis surj_pair)
  note facts = streamToObject_facts[OF st wf1 assms(3)[unfolded tmp_ok_def], unfolded upload_tmp_object[OF assms(1)] dst]
  have sf2: "same_files (touched E b k) fs1 fs2" by (rule same_files_frame) (auto simp: touched_def facts(2))
  have at2: "node_at fs2 ?S = node_at fs1 ?S \<or> node_at fs2 ?S = Some (File src (now E)) \<and> \<not> sf"
    using facts(3) assms(4) by metis
  have wh: "whole b k src (disk w) g" if "node_at g ?S = node_at (disk w) ?S \<or> (\<exists>t. node_at g ?S = Some (File src t)) \<or>
      (node_at (disk w) ?S = None \<and> (\<forall>c t. node_at g ?S \<noteq> Some (File c t)))" for g
    using that by (auto simp: whole_def)
  have at1: "node_at fs1 ?S = node_at (disk w) ?S \<or> node_at (disk w) ?S = None \<and> (\<forall>c t. node_at fs1 ?S \<noteq> Some (File c t))"
  proof (cases "node_at (disk w) ?S")
    case None
    then have "node_at fs1 ?S \<noteq> Some (File c t)" for c t
      using MkdirAll_files[of "ft E" "path_dir ?dst" "disk w" ?S c t] mk by auto
    then show ?thesis using None by simp
  next
    case (Some a)
    then show ?thesis using MkdirAll_frame[of "disk w" ?S "ft E" "path_dir ?dst"] mk by simp
  qed
  have w3: "fs_wf (snd (WriteFile (ft E) (now E) (?dst @ ''.meta'') raw fs2))"
    "same_files (touched E b k) fs2 (snd (WriteFile (ft E) (now E) (?dst @ ''.meta'') raw fs2))"
    "node_at (snd (WriteFile (ft E) (now E) (?dst @ ''.meta'') raw fs2)) ?S = node_at fs2 ?S" for raw
    using WriteFile_wf[OF facts(1)] WriteFile_frame[of _ "?dst @ ''.meta''"] MS
    by (auto intro!: same_files_frame simp: touched_def object_meta_segs_def)
  have cases: "(\<exists>e. x = Inl e \<and> disk w' = fs1) \<or> (\<exists>e. x = Inl e \<and> disk w' = fs2)
     \<or> (\<exists>tag crc l raw. y2 = Inr (tag, crc, l) \<and> meta_enc (lb E) (stamp_meta tag crc l m) = Some raw
          \<and> disk w' = snd (WriteFile (ft E) (now E) (?dst @ ''.meta'') raw fs2)
          \<and> ((\<exists>e. x = Inl e) \<or> x = Inr (tag, l) \<and> fst (WriteFile (ft E) (now E) (?dst @ ''.meta'') raw fs2) = None))"
    using fin by (auto simp: finalizeObjectWrite_def mk st add_bytes_def Let_def split: option.splits sum.splits prod.splits)
  show "fs_wf (disk w')" using cases wf1 facts(1) w3(1) by auto
  show "same_files (touched E b k) (disk w) (disk w')"
    using cases sf1 sf2 w3(2) same_files_trans by (metis (no_types, lifting))
  have "node_at (disk w') ?S = node_at fs1 ?S \<or> node_at (disk w') ?S = node_at fs2 ?S" using cases w3(3) by auto
  then show "whole b k src (disk w) (disk w')" using wh at1 at2 by metis
  show "x = Inr (etag, n) \<Longrightarrow> node_at (disk w') ?S = Some (File src (now E)) \<and> \<not> sf
       \<and> etag = formatETag (md5 (lb E) src) \<and> n = length src
       \<and> (\<exists>crc raw. crc = b64_encode StdEncoding (crc32 (lb E) src) \<and> meta_enc (lb E) (stamp_meta etag crc n m) = Some raw
             \<and> node_at (disk w') ?M = Some (File raw (now E)))"
  proof -
    assume xr: "x = Inr (etag, n)"
    then obtain crc raw where y2: "y2 = Inr (etag, crc, n)" and enc: "meta_enc (lb E) (stamp_meta etag crc n m) = Some raw"
      and dk: "disk w' = snd (WriteFile (ft E) (now E) (?dst @ ''.meta'') raw fs2)"
      and ok: "fst (WriteFile (ft E) (now E) (?dst @ ''.meta'') raw fs2) = None" using cases by auto
    have crc: "crc = b64_encode StdEncoding (crc32 (lb E) src)"
      using st y2 by (auto simp: streamToObject_def Let_def split: sum.splits node.splits if_splits prod.splits option.splits)
    have "WriteFile (ft E) (now E) (?dst @ ''.meta'') raw fs2 = (None, disk w')" using dk ok by (metis prod.collapse)
    from WriteFile_ok(1,2)[OF this] have "node_at (disk w') ?M = Some (File raw (now E))"
      by (simp add: object_meta_segs_def)
    then show ?thesis using facts(4)[OF y2] w3(3)[of raw] dk enc crc by auto
  qed
qed

section \<open>Uploads\<close>

lemma canon_ETag [simp]: "CanonicalHeaderKey ''ETag'' = ''Etag''"
  by code_simp

definition fresh_tmp :: "env \<Rightarrow> string \<Rightarrow> string \<Rightarrow> bool" where
  "fresh_tmp E b k \<longleftrightarrow> tmp_ok E \<and> object_tmp E b k \<noteq> object_segs b k"

definition utf8_headers :: "request \<Rightarrow> bool" where
  "utf8_headers r \<longleftrightarrow> (\<forall>(k, vs)\<in>set (req_header r). ValidString k \<and> list_all ValidString vs)"

lemma collect_meta_valid:
  "\<lbrakk>collect_meta n out hs = Some m; valid_meta out; \<forall>(k, vs)\<in>set hs. ValidString k \<and> list_all ValidString vs\<rbrakk>
     \<Longrightarrow> valid_meta m"
  by (induction n out hs rule: collect_meta.induct)
    (auto simp: Let_def split: list.splits if_splits intro: valid_meta_update)

text \<open>The size of the collected metadata, names and values.\<close>

definition meta_size :: "meta_map \<Rightarrow> nat" where
  "meta_size m = sum_list (map (\<lambda>(k, v). length k + length v) m)"

lemma meta_size_update: "meta_size (AList.update k v m) \<le> meta_size m + (length k + length v)"
  by (induction m) (auto simp: meta_size_def)

lemma collect_meta_size:
  "\<lbrakk>collect_meta n out hs = Some m; meta_size out \<le> n; n \<le> userMetadataMaxBytes\<rbrakk> \<Longrightarrow> meta_size m \<le> userMetadataMaxBytes"
proof (induction n out hs rule: collect_meta.induct)
  case (2 n out k vs hs)
  show ?case
  proof (cases vs)
    case Nil
    then show ?thesis using 2 by simp
  next
    case (Cons v vs')
    show ?thesis
    proof (cases "HasPrefix (ToLower k) ''x-amz-meta-''")
      case True
      have "meta_size (AList.update k v out) \<le> n + (length k + length v)"
        using meta_size_update[of k v out] 2(5) by simp
      then show ?thesis using 2(3)[OF Cons] 2(4) Cons True by (auto simp: Let_def split: if_splits)
    next
      case False
      then show ?thesis using 2 Cons by simp
    qed
  qed
qed simp

lemma ball_keys_update: "\<lbrakk>P k; \<forall>e\<in>set m. P (fst e)\<rbrakk> \<Longrightarrow> \<forall>e\<in>set (AList.update k v m). P (fst e)"
  by (induction m) auto

lemma collect_meta_only_user:
  "\<lbrakk>collect_meta n out hs = Some m; \<forall>e\<in>set out. HasPrefix (ToLower (fst e)) ''x-amz-meta-''\<rbrakk>
     \<Longrightarrow> \<forall>e\<in>set m. HasPrefix (ToLower (fst e)) ''x-amz-meta-''"
proof (induction n out hs rule: collect_meta.induct)
  case (2 n out k vs hs)
  then show ?case
    using ball_keys_update[of "\<lambda>k. HasPrefix (ToLower k) ''x-amz-meta-''" k out]
    by (cases vs) (simp_all add: Let_def split: if_splits)
qed simp

lemma ValidString_literals [simp]: "ValidString ''application/octet-stream''" "ValidString ''acl''"
    "ValidString ''Content-Type''"
  by (auto intro!: ascii_valid)

text \<open>The content type is trimmed, so its validity is a hypothesis of its own.\<close>

definition utf8_request :: "request \<Rightarrow> bool" where
  "utf8_request r \<longleftrightarrow> utf8_headers r \<and> ValidString (contentTypeOrOctet r)"

lemma resolveCannedACL_cases: "resolveCannedACL r = Inr a \<Longrightarrow> a = [] \<or> a = ACLPrivate \<or> a = ACLPublicRead"
  by (auto simp: resolveCannedACL_def Let_def dest: NormalizeCannedACL_cases split: if_splits sum.splits)

lemma upload_check_Inr:
  assumes "names_ok b k" "for_object b k r" "upload_check E r w = (Inr plan, w1)"
  shows "plan_path plan = object_path b k" "w1 = w\<lparr>disk := snd (evaluatePutConditional E r (object_path b k) (disk w))\<rparr>"
    "fst (evaluatePutConditional E r (object_path b k) (disk w)) = None"
    "utf8_request r \<Longrightarrow> valid_meta (plan_meta plan)"
    "map_of (plan_meta plan) ''acl'' = (if plan_acl plan = [] then None else Some (plan_acl plan))"
proof -
  obtain acl m0 fs1 where acl: "resolveCannedACL r = Inr acl" and m0: "collectUserMetadataChecked r = Some m0"
    and ev: "evaluatePutConditional E r (object_path b k) (disk w) = (None, fs1)"
    and plan: "plan = \<lparr>plan_path = object_path b k, plan_key = Clean (param_objectKey r), plan_acl = acl,
        plan_meta = (let m1 = AList.update contentTypeMetaKey (contentTypeOrOctet r) m0
                     in if acl \<noteq> [] then AList.update ''acl'' acl m1 else m1)\<rparr>" and w1: "w1 = w\<lparr>disk := fs1\<rparr>"
    using assms resolveObjectPath_names[OF assms(1,2)]
    by (auto simp: upload_check_def Let_def split: sum.splits option.splits prod.splits)
  show "plan_path plan = object_path b k" using plan by simp
  show "w1 = w\<lparr>disk := snd (evaluatePutConditional E r (object_path b k) (disk w))\<rparr>"
    "fst (evaluatePutConditional E r (object_path b k) (disk w)) = None" using w1 ev by simp_all
  have "valid_meta m0" if "utf8_request r"
    using collect_meta_valid[of 0 "[]" "req_header r" m0] m0 that
    by (simp add: collectUserMetadataChecked_def utf8_request_def utf8_headers_def valid_meta_def)
  then show "valid_meta (plan_meta plan)" if "utf8_request r"
    using that resolveCannedACL_cases[OF acl] plan
    by (auto simp: contentTypeMetaKey_def utf8_request_def Let_def intro!: valid_meta_update)
  have "\<forall>e\<in>set m0. HasPrefix (ToLower (fst e)) ''x-amz-meta-''"
    using collect_meta_only_user[of 0 "[]" "req_header r" m0] m0 by (simp add: collectUserMetadataChecked_def)
  moreover have "\<not> HasPrefix (ToLower ''acl'') ''x-amz-meta-''" by (simp add: ToLower_def lower_char_def HasPrefix_def)
  ultimately have "map_of m0 ''acl'' = None" by (metis fst_conv map_of_SomeD option.exhaust)
  then show "map_of (plan_meta plan) ''acl'' = (if plan_acl plan = [] then None else Some (plan_acl plan))"
    using plan by (auto simp: map_of_upd contentTypeMetaKey_def Let_def)
qed

lemma evaluatePutConditional_status: "evaluatePutConditional E r p fs = (Some st, fs1) \<Longrightarrow> st = 412 \<or> st = 500"
  by (auto simp: evaluatePutConditional_def put_if_match_def StatusPreconditionFailed_def Let_def
      split: if_splits sum.splits prod.splits)

lemma resolveCannedACL_status: "resolveCannedACL r = Inl resp \<Longrightarrow> status resp = 400"
  by (auto simp: resolveCannedACL_def Let_def split: if_splits sum.splits)

lemma resolveObjectPath_status: "resolveObjectPath r b key = Inl resp \<Longrightarrow> status resp = 400"
  by (auto simp: resolveObjectPath_def resolvePath_def split: sum.splits)

lemma upload_check_Inl: "upload_check E r w = (Inl resp, w1) \<Longrightarrow> status resp \<in> {400, 412, 500}"
  using evaluatePutConditional_status resolveCannedACL_status[of r resp] resolveObjectPath_status[of r _ _ resp]
  by (auto simp: upload_check_def Let_def dest!: evaluatePutConditional_status
      split: sum.splits option.splits prod.splits if_splits)

text \<open>What a successful upload has put on disk.\<close>

lemma Upload_200:
  assumes "names_ok b k" "for_object b k r" "fs_wf (disk w)" "fresh_tmp E b k"
    "UploadObjectHandler E r w = (resp, w')" "status resp = 200"
  shows "fs_wf (disk w')" "node_at (disk w') (object_segs b k) = Some (File (req_body r) (now E))"
    "\<not> req_body_fails r"
    "map_of (headers resp) ''Etag'' = Some (formatETag (md5 (lb E) (req_body r)))"
    "\<exists>m raw. node_at (disk w') (object_meta_segs b k) = Some (File raw (now E)) \<and> meta_enc (lb E) m = Some raw
       \<and> (utf8_request r \<longrightarrow> valid_meta m) \<and> map_of m ''ETag'' = Some (formatETag (md5 (lb E) (req_body r)))
       \<and> map_of m ''acl'' = (case resolveCannedACL r of Inr a \<Rightarrow> if a = [] then None else Some a | Inl _ \<Rightarrow> None)"
proof -
  have "\<exists>plan w1. upload_check E r w = (Inr plan, w1) \<and> upload_commit E r plan w1 = (resp, w')"
  proof (cases "upload_check E r w")
    case (Pair x w1)
    show ?thesis
    proof (cases x)
      case (Inl e)
      then show ?thesis using upload_check_Inl[of E r w e w1] Pair assms(5,6) by (auto simp: UploadObjectHandler_def)
    next
      case (Inr plan)
      then show ?thesis using Pair assms(5) by (auto simp: UploadObjectHandler_def)
    qed
  qed
  then obtain plan w1 where ck: "upload_check E r w = (Inr plan, w1)" and cm: "upload_commit E r plan w1 = (resp, w')" by blast
  note c = upload_check_Inr[OF assms(1,2) ck]
  have wf1: "fs_wf (disk w1)" using evaluatePutConditional_wf[OF assms(3)] c(2) by simp
  have pb: "param_bucket r = b" using assms(2) by (simp add: for_object_def)
  obtain x w2 where fin: "finalizeObjectWrite E b (object_path b k) (req_body r) (req_body_fails r) (plan_meta plan) w1 = (x, w2)"
    by (metis surj_pair)
  from cm fin c(1) pb assms(6) obtain tag n where x: "x = Inr (tag, n)"
    and resp: "resp = with_header ''ETag'' tag (Status 200)" and dk: "disk w' = disk w2"
    by (cases x)
      (auto simp: upload_commit_def RecordObjectUpload_def auditACLChange_def Let_def split: prod.splits if_splits)
  note f = finalizeObjectWrite_facts[OF assms(1) wf1 _ _ fin]
  have tmp: "tmp_ok E" "object_tmp E b k \<noteq> object_segs b k" using assms(4) by (auto simp: fresh_tmp_def)
  note f4 = f(4)[OF tmp x]
  show "fs_wf (disk w')" using f(1)[OF tmp] dk by simp
  show "node_at (disk w') (object_segs b k) = Some (File (req_body r) (now E))" "\<not> req_body_fails r" using f4 dk by auto
  show "map_of (headers resp) ''Etag'' = Some (formatETag (md5 (lb E) (req_body r)))"
    using f4 resp by (simp add: with_header_def set_header_def Status_def canon_ETag map_of_upd)
  show "\<exists>m raw. node_at (disk w') (object_meta_segs b k) = Some (File raw (now E)) \<and> meta_enc (lb E) m = Some raw
       \<and> (utf8_request r \<longrightarrow> valid_meta m) \<and> map_of m ''ETag'' = Some (formatETag (md5 (lb E) (req_body r)))
       \<and> map_of m ''acl'' = (case resolveCannedACL r of Inr a \<Rightarrow> if a = [] then None else Some a | Inl _ \<Rightarrow> None)"
  proof -
    obtain crc raw where crc: "crc = b64_encode StdEncoding (crc32 (lb E) (req_body r))"
      and enc: "meta_enc (lb E) (stamp_meta tag crc n (plan_meta plan)) = Some raw"
      and at: "node_at (disk w2) (object_meta_segs b k) = Some (File raw (now E))" and tag: "tag = formatETag (md5 (lb E) (req_body r))"
      using f4 by blast
    let ?m = "stamp_meta tag crc n (plan_meta plan)"
    have "valid_meta ?m" if "utf8_request r" using valid_stamp_meta c(4)[OF that] crc tag by simp
    moreover have "map_of ?m ''ETag'' = Some tag" by (simp add: stamp_meta_def etagMetaKey_def map_of_upd)
    moreover have "map_of ?m ''acl'' = map_of (plan_meta plan) ''acl''" by (simp add: stamp_meta_def etagMetaKey_def map_of_upd)
    moreover have "resolveCannedACL r = Inr (plan_acl plan)"
      using ck by (auto simp: upload_check_def Let_def split: sum.splits option.splits prod.splits)
    ultimately show ?thesis using enc at tag dk c(5) by (intro exI[of _ ?m] exI[of _ raw]) auto
  qed
qed

section \<open>Reads\<close>

lemma disk_id [simp]: "w\<lparr>disk := disk w\<rparr> = w"
  by simp

text \<open>The object file and its metadata, as an upload leaves them.\<close>

definition stored :: "lib \<Rightarrow> string \<Rightarrow> string \<Rightarrow> bytes \<Rightarrow> time \<Rightarrow> string \<Rightarrow> fs \<Rightarrow> bool" where
  "stored L b k body t etag fs \<longleftrightarrow>
     fs_wf fs \<and> etag \<noteq> [] \<and> node_at fs (object_segs b k) = Some (File body t)
   \<and> (\<exists>raw t' m. node_at fs (object_meta_segs b k) = Some (File raw t') \<and> meta_dec L raw = Some m \<and> meta_get m ''ETag'' = etag)"

text \<open>No fault strikes the two files of the object.\<close>

definition readable :: "env \<Rightarrow> string \<Rightarrow> string \<Rightarrow> bool" where
  "readable E b k \<longleftrightarrow> (\<forall>q\<in>{object_segs b k, object_meta_segs b k}. \<not> fails (ft E) OpStat q \<and> \<not> fails (ft E) OpRead q)"

definition unconditional :: "request \<Rightarrow> bool" where
  "unconditional r \<longleftrightarrow> (\<forall>h\<in>{''If-Match'', ''If-None-Match'', ''If-Modified-Since'', ''If-Unmodified-Since''}. GetHeader r h = [])"

lemma Upload_stored:
  assumes "names_ok b k" "for_object b k r" "fs_wf (disk w)" "fresh_tmp E b k" "utf8_request r" "meta_codec_ok (lb E)"
    "UploadObjectHandler E r w = (resp, w')" "status resp = 200"
  shows "stored (lb E) b k (req_body r) (now E) (formatETag (md5 (lb E) (req_body r))) (disk w')"
proof -
  note u = Upload_200[OF assms(1-4,7,8)]
  obtain m raw where m: "node_at (disk w') (object_meta_segs b k) = Some (File raw (now E))" "meta_enc (lb E) m = Some raw"
    "valid_meta m" "map_of m ''ETag'' = Some (formatETag (md5 (lb E) (req_body r)))" using u(5) assms(5) by blast
  obtain m' where "meta_dec (lb E) raw = Some m'" "map_of m' = map_of m"
    using meta_codec_roundtrip[OF assms(6) m(3,2)] .
  then show ?thesis using u(1,2) m unfolding stored_def by (auto simp: meta_get_def)
qed

lemma GetHeader_del: "GetHeader (r\<lparr>req_header := AList.delete k (req_header r)\<rparr>) h =
    (if CanonicalHeaderKey h = k then [] else GetHeader r h)"
  by (simp add: GetHeader_def header_values_def map_of_del)

lemma GetHeader_strip:
  "CanonicalHeaderKey h \<notin> {''If-Match'', ''If-None-Match'', ''If-Modified-Since'', ''If-Unmodified-Since''}
     \<Longrightarrow> GetHeader (stripConditionalHeaders r) h = GetHeader r h"
  by (auto simp: stripConditionalHeaders_def GetHeader_def header_values_def map_of_del)

lemma canon_Range [simp]: "CanonicalHeaderKey ''Range'' = ''Range''" "CanonicalHeaderKey ''If-Range'' = ''If-Range''"
  "CanonicalHeaderKey ''Content-Type'' = ''Content-Type''" "CanonicalHeaderKey ''Last-Modified'' = ''Last-Modified''"
  "CanonicalHeaderKey ''Accept-Ranges'' = ''Accept-Ranges''" "CanonicalHeaderKey ''Content-Length'' = ''Content-Length''"
  "CanonicalHeaderKey ''Content-Range'' = ''Content-Range''"
  by code_simp+

lemma param_strip [simp]: "param_bucket (stripConditionalHeaders r) = param_bucket r"
  by (simp add: stripConditionalHeaders_def)

lemma map_of_set_header: "map_of (set_header k v hs) h =
    (if h = CanonicalHeaderKey k then (if v = [] then None else Some v) else map_of hs h)"
  by (simp add: set_header_def map_of_upd map_of_del)

lemma ServeContent_etag: "map_of (headers (ServeContent L r hs t b)) ''Etag'' = map_of hs ''Etag''"
  by (auto simp: ServeContent_def Let_def map_of_set_header split: option.splits)

text \<open>A download is \<open>serve_object\<close> on what is stored.\<close>

lemma Download_stored:
  assumes "names_ok b k" "for_object b k r" "stored (lb E) b k body t etag (disk w)" "readable E b k"
  shows "\<exists>hs. map_of hs ''Etag'' = Some etag \<and> DownloadObjectHandler E r w =
     (case applyGetConditional (lb E) r hs etag t of
        (Some resp, _) \<Rightarrow> (resp, w)
      | (None, r1) \<Rightarrow> serve_object E r1 (object_path b k) hs (File body t) w)"
proof -
  obtain raw t' m where at: "node_at (disk w) (object_meta_segs b k) = Some (File raw t')"
    and m: "meta_dec (lb E) raw = Some m" "meta_get m ''ETag'' = etag"
    and wf: "fs_wf (disk w)" and ne: "etag \<noteq> []" and ob: "node_at (disk w) (object_segs b k) = Some (File body t)"
    using assms(3) by (auto simp: stored_def)
  have st: "Stat (ft E) (disk w) (object_path b k) = Inr (File body t)"
    using wf ob assms(1,4) by (simp add: Stat_at readable_def)
  have "ReadFile (ft E) (disk w) (object_path b k @ ''.meta'') = Inr raw"
    using wf at assms(4) by (simp add: ReadFile_at readable_def object_meta_segs_def)
  then have ld: "loadOrBackfillETag E (object_path b k) (disk w) = (Inr etag, disk w)"
    using loadOrBackfillETag_stored m ne by metis
  let ?hs = "AList.delete ''Content-Length'' (set_header ''ETag'' etag
      (sidecar_headers E (object_path b k) (disk w) (set_header ''X-Content-Type-Options'' ''nosniff'' [])))"
  have "map_of ?hs ''Etag'' = Some etag" using ne by (simp add: map_of_del map_of_set_header)
  moreover have "DownloadObjectHandler E r w = (case applyGetConditional (lb E) r ?hs etag t of
        (Some resp, _) \<Rightarrow> (resp, w) | (None, r1) \<Rightarrow> serve_object E r1 (object_path b k) ?hs (File body t) w)"
    by (simp add: DownloadObjectHandler_def resolveObjectPath_names[OF assms(1,2)] st ld node_mtime_def Let_def
        split: prod.split option.split)
  ultimately show ?thesis by blast
qed

lemma unconditional_none: "unconditional r \<Longrightarrow> applyGetConditional L r hs etag t = (None, stripConditionalHeaders r)"
  by (simp add: unconditional_def applyGetConditional_def evaluateGetConditional_def)

lemma GetHeader_strip_Range [simp]: "GetHeader (stripConditionalHeaders r) ''Range'' = GetHeader r ''Range''"
  "GetHeader (stripConditionalHeaders r) ''If-Range'' = GetHeader r ''If-Range''"
  by (intro GetHeader_strip; simp)+

lemma readable_object: "\<lbrakk>readable E b k; names_ok b k\<rbrakk> \<Longrightarrow> \<not> fails (ft E) OpRead (psegs (object_path b k))"
  by (simp add: readable_def)

text \<open>Without conditions or a range the whole object comes back, with the stored ETag.\<close>

lemma Download_whole:
  assumes "names_ok b k" "for_object b k r" "stored (lb E) b k body t etag (disk w)" "readable E b k"
    "unconditional r" "GetHeader r ''Range'' = []"
  shows "status (fst (DownloadObjectHandler E r w)) = 200" "payload (fst (DownloadObjectHandler E r w)) = RawBody body"
    "map_of (headers (fst (DownloadObjectHandler E r w))) ''Etag'' = Some etag" "disk (snd (DownloadObjectHandler E r w)) = disk w"
proof -
  obtain hs where hs: "map_of hs ''Etag'' = Some etag" and
    dl: "DownloadObjectHandler E r w = serve_object E (stripConditionalHeaders r) (object_path b k) hs (File body t) w"
    using Download_stored[OF assms(1-4)] unconditional_none[OF assms(5)] by auto
  have cls: "classifyRange [] n = rangeIgnore" for n by (simp add: classifyRange_def)
  let ?r = "del_header ''Range'' (stripConditionalHeaders r)"
  have eq: "fst (DownloadObjectHandler E r w) = ServeContent (lb E) ?r hs t body"
    using assms(6) readable_object[OF assms(4,1)] by (simp add: dl serve_object_def Let_def cls)
  have "GetHeader ?r ''Range'' = []" by (simp add: del_header_def GetHeader_del)
  from ServeContent_no_range[OF this] show "status (fst (DownloadObjectHandler E r w)) = 200"
    "payload (fst (DownloadObjectHandler E r w)) = RawBody body" by (simp_all add: eq)
  show "map_of (headers (fst (DownloadObjectHandler E r w))) ''Etag'' = Some etag" using hs by (simp add: eq ServeContent_etag)
  show "disk (snd (DownloadObjectHandler E r w)) = disk w"
    using assms(6) readable_object[OF assms(4,1)]
    by (simp add: dl serve_object_def Let_def cls RecordObjectDownload_def)
qed

text \<open>A satisfiable range: 206 and exactly the requested slice, inside the object.\<close>

lemma Download_range:
  assumes "names_ok b k" "for_object b k r" "stored (lb E) b k body t etag (disk w)" "readable E b k"
    "unconditional r" "GetHeader r ''If-Range'' = []" "classifyRange (GetHeader r ''Range'') (int (length body)) = rangeSatisfiable"
  shows "\<exists>s n. parse_one_range (GetHeader r ''Range'') (int (length body)) = Some (s, n)
     \<and> 0 \<le> s \<and> 0 < n \<and> s + n \<le> int (length body)
     \<and> status (fst (DownloadObjectHandler E r w)) = 206
     \<and> payload (fst (DownloadObjectHandler E r w)) = RawBody (slice s n body)"
proof -
  obtain hs where dl: "DownloadObjectHandler E r w = serve_object E (stripConditionalHeaders r) (object_path b k) hs (File body t) w"
    using Download_stored[OF assms(1-4)] unconditional_none[OF assms(5)] by auto
  obtain s n where sn: "parse_one_range (GetHeader r ''Range'') (int (length body)) = Some (s, n)"
    "0 \<le> s" "0 < n" "s + n \<le> int (length body)" using classifyRange_sound[OF assms(7)] by auto
  have ne: "GetHeader r ''Range'' \<noteq> []" using assms(7) by (auto simp: classifyRange_def)
  have "fst (DownloadObjectHandler E r w) = ServeContent (lb E) (stripConditionalHeaders r) hs t body"
    using assms(7) readable_object[OF assms(4,1)] by (simp add: dl serve_object_def Let_def)
  moreover note ServeContent_range[of "stripConditionalHeaders r" "GetHeader r ''Range''" body s n "lb E" hs t]
  ultimately show ?thesis using sn ne assms(6) by simp
qed

lemma Download_bad_range:
  assumes "names_ok b k" "for_object b k r" "stored (lb E) b k body t etag (disk w)" "readable E b k"
    "unconditional r" "classifyRange (GetHeader r ''Range'') (int (length body)) = rangeUnsatisfiable"
  shows "status (fst (DownloadObjectHandler E r w)) = 416"
proof -
  obtain hs where "DownloadObjectHandler E r w = serve_object E (stripConditionalHeaders r) (object_path b k) hs (File body t) w"
    using Download_stored[OF assms(1-4)] unconditional_none[OF assms(5)] by auto
  then show ?thesis using assms(6) by (simp add: serve_object_def Let_def)
qed

section \<open>What an upload leaves alone\<close>

lemma upload_check_disk:
  assumes "names_ok b k" "for_object b k r"
  shows "disk (snd (upload_check E r w)) \<in> {disk w, snd (evaluatePutConditional E r (object_path b k) (disk w))}"
  using resolveObjectPath_names[OF assms] by (auto simp: upload_check_def Let_def split: sum.splits option.splits prod.splits)

lemma upload_check_same:
  assumes "names_ok b k" "for_object b k r" "fs_wf (disk w)"
  shows "fs_wf (disk (snd (upload_check E r w)))"
    "q \<noteq> object_meta_segs b k \<Longrightarrow> node_at (disk (snd (upload_check E r w))) q = node_at (disk w) q"
  using assms(3) upload_check_disk[OF assms(1,2), of E w] evaluatePutConditional_wf[OF assms(3)]
    evaluatePutConditional_frame[of q "object_path b k" E r "disk w"]
  by (auto simp: object_meta_segs_def)

lemma upload_commit_disk:
  "disk (snd (upload_commit E r plan w)) =
     disk (snd (finalizeObjectWrite E (param_bucket r) (plan_path plan) (req_body r) (req_body_fails r) (plan_meta plan) w))"
  by (auto simp: upload_commit_def RecordObjectUpload_def auditACLChange_def Let_def split: prod.splits sum.splits)

text \<open>Whatever the answer: well-formed, only this object's files touched, and the object whole.\<close>

lemma Upload_any:
  assumes "names_ok b k" "for_object b k r" "fs_wf (disk w)" "fresh_tmp E b k"
  shows "fs_wf (disk (snd (UploadObjectHandler E r w)))"
    "same_files (touched E b k) (disk w) (disk (snd (UploadObjectHandler E r w)))"
    "whole b k (req_body r) (disk w) (disk (snd (UploadObjectHandler E r w)))"
proof -
  obtain x w1 where ck: "upload_check E r w = (x, w1)" by (metis surj_pair)
  have c: "fs_wf (disk w1)" "q \<noteq> object_meta_segs b k \<Longrightarrow> node_at (disk w1) q = node_at (disk w) q" for q
    using upload_check_same(1)[OF assms(1-3), of E] upload_check_same(2)[OF assms(1-3), of q E] ck by simp_all
  have MS: "object_segs b k \<noteq> object_meta_segs b k" using meta_not_object[OF assms(1)] by (simp add: object_meta_segs_def)
  have s1: "same_files (touched E b k) (disk w) (disk w1)" by (rule same_files_frame) (auto simp: touched_def c(2))
  have "fs_wf (disk (snd (UploadObjectHandler E r w))) \<and> same_files (touched E b k) (disk w) (disk (snd (UploadObjectHandler E r w)))
     \<and> whole b k (req_body r) (disk w) (disk (snd (UploadObjectHandler E r w)))"
  proof (cases x)
    case (Inl resp)
    then show ?thesis using c(1) s1 c(2)[OF MS] by (simp add: UploadObjectHandler_def ck whole_def)
  next
    case (Inr plan)
    note d = upload_check_Inr[OF assms(1,2) ck[unfolded Inr]]
    have pb: "param_bucket r = b" using assms(2) by (simp add: for_object_def)
    obtain y w2 where fin: "finalizeObjectWrite E b (object_path b k) (req_body r) (req_body_fails r) (plan_meta plan) w1 = (y, w2)"
      by (metis surj_pair)
    have dk: "disk (snd (UploadObjectHandler E r w)) = disk w2"
      by (simp add: UploadObjectHandler_def ck Inr upload_commit_disk d(1) pb fin)
    have tmp: "tmp_ok E" "object_tmp E b k \<noteq> object_segs b k" using assms(4) by (auto simp: fresh_tmp_def)
    note f = finalizeObjectWrite_facts(1-3)[OF assms(1) c(1) tmp fin]
    show ?thesis using f s1 c(2)[OF MS] same_files_trans[OF s1 f(2)] by (simp add: dk whole_def)
  qed
  then show "fs_wf (disk (snd (UploadObjectHandler E r w)))"
    "same_files (touched E b k) (disk w) (disk (snd (UploadObjectHandler E r w)))"
    "whole b k (req_body r) (disk w) (disk (snd (UploadObjectHandler E r w)))" by blast+
qed

lemma stored_same_files:
  assumes "stored L b k body t etag fs" "same_files A fs fs'" "fs_wf fs'" "object_segs b k \<notin> A" "object_meta_segs b k \<notin> A"
  shows "stored L b k body t etag fs'"
  using assms unfolding stored_def same_files_def by blast

lemma other_object:
  assumes "names_ok b k" "names_ok b' k'" "(b', k') \<noteq> (b, k)"
  shows "object_segs b' k' \<noteq> object_segs b k" "object_segs b' k' \<noteq> object_meta_segs b k"
    "object_meta_segs b' k' \<noteq> object_segs b k" "object_meta_segs b' k' \<noteq> object_meta_segs b k"
  using object_segs_inj[of b' k' b k] object_not_sidecar[OF assms(1,2), of "''.meta''"]
    object_not_sidecar[OF assms(2,1), of "''.meta''"] meta_inj[OF assms(2,1)] assms(3)
  by (auto simp: object_meta_segs_def)

definition tmp_apart :: "env \<Rightarrow> string \<Rightarrow> string \<Rightarrow> string \<Rightarrow> string \<Rightarrow> bool" where
  "tmp_apart E b k b' k' \<longleftrightarrow> object_tmp E b k \<noteq> object_segs b' k' \<and> object_tmp E b k \<noteq> object_meta_segs b' k'"

lemma Upload_keeps_others:
  assumes "names_ok b k" "for_object b k r" "fresh_tmp E b k" "names_ok b' k'" "(b', k') \<noteq> (b, k)" "tmp_apart E b k b' k'"
    "stored L b' k' body t etag (disk w)"
  shows "stored L b' k' body t etag (disk (snd (UploadObjectHandler E r w)))"
proof -
  have wf: "fs_wf (disk w)" using assms(7) by (simp add: stored_def)
  note u = Upload_any[OF assms(1,2) wf assms(3)]
  show ?thesis
    by (rule stored_same_files[OF assms(7) u(2,1)])
      (use other_object[OF assms(1,4,5)] assms(6) in \<open>auto simp: touched_def tmp_apart_def\<close>)
qed

section \<open>Deletion\<close>

lemma collapse_dirs_wf: "fs_wf fs \<Longrightarrow> fs_wf (collapse_dirs f bd ss fs)"
proof (induction f bd ss fs rule: collapse_dirs.induct)
  case (2 f bd s rs fs)
  have "fs_wf (snd (Remove f (abs_path (rev (s # rs))) fs))" using Remove_wf[OF 2(2)] .
  then show ?case using 2 by (auto simp: Let_def split: sum.splits prod.splits option.splits)
qed simp

lemma Remove_files_only:
  assumes "fs_wf fs" "Remove f p fs = (None, fs')" "node_at fs (psegs p) = Some Dir"
  shows "same_files {} fs fs'"
  using assms by (auto simp: Remove_def Let_def same_files_def node_at_delete lookup_iff split: sum.splits if_splits)

lemma ReadDir_ok: "fs_wf fs \<Longrightarrow> ReadDir f fs p = Inr es \<Longrightarrow> node_at fs (psegs p) = Some Dir"
  by (auto simp: ReadDir_def lookup_iff split: if_splits sum.splits node.splits)

text \<open>Collapsing removes directories, never a file.\<close>

lemma collapse_dirs_files: "fs_wf fs \<Longrightarrow> same_files {} fs (collapse_dirs f bd ss fs)"
proof (induction f bd ss fs rule: collapse_dirs.induct)
  case (2 f bd s rs fs)
  let ?p = "abs_path (rev (s # rs))"
  show ?case
  proof (cases "rev (s # rs) \<noteq> bd \<and> ReadDir f fs ?p = Inr []")
    case True
    obtain e fs' where rm: "Remove f ?p fs = (e, fs')" by (metis surj_pair)
    show ?thesis
    proof (cases e)
      case None
      have "same_files {} fs fs'"
        using Remove_files_only[OF 2(2) rm[unfolded None]] ReadDir_ok[OF 2(2)] True by blast
      moreover have "fs_wf fs'" using Remove_wf[OF 2(2), of f ?p] rm by simp
      ultimately show ?thesis using 2(1)[of "rev (s # rs)" "[]" None fs'] True rm None same_files_trans by (auto simp: Let_def)
    next
      case (Some x)
      then show ?thesis using True rm Remove_error[of f ?p fs x fs'] by (simp add: Let_def)
    qed
  next
    case False
    then show ?thesis by (auto simp: Let_def split: sum.splits)
  qed
qed simp

end
