(* ===== verification/Object_Delete.thy ===== *)
theory Object_Delete
  imports Object_Laws
begin

text \<open>
  What \<open>removeObject\<close> and \<open>DeleteObjectHandler\<close> guarantee: a 204 means the object is
  gone, an error leaves every file as it was, no other object is touched, and the tags
  sidecar is not removed.
\<close>

section \<open>Paths\<close>

lemma bucket_dir:
  "names_ok b k \<Longrightarrow> SafeJoin ObjectsRoot [b] = Inr (abs_path (root_segs @ [b]))"
  using SafeJoin_proper[OF root_proper, of "[b]"] Split_bucket[of b] ValidateBucketName_proper[of b]
  by (simp add: ObjectsRoot_def names_ok_def)

lemma key_in_bucket_dir:
  assumes "names_ok b k"
  shows "SafeJoin (abs_path (root_segs @ [b])) [k] = Inr (object_path b k)"
proof -
  have "list_all proper_seg (root_segs @ [b])" using names_ok_proper[OF assms] by simp
  from SafeJoin_proper[OF this, of "[k]"] show ?thesis
    using names_ok_proper[OF assms] by (simp add: object_path_def object_segs_def)
qed

lemma TrimPrefix_slash [simp]: "TrimPrefix (CHR ''/'' # k) ''/'' = k"
  by (simp add: TrimPrefix_def HasPrefix_def)

section \<open>One removal\<close>

definition removed_bytes :: "env \<Rightarrow> string \<Rightarrow> fs \<Rightarrow> nat" where
  "removed_bytes E p fs = (case Stat (ft E) fs p of Inr (File c _) \<Rightarrow> length c | _ \<Rightarrow> 0)"

lemma removeObject_eq:
  assumes "names_ok b k"
  shows "removeObject E b (CHR ''/'' # k) w =
     (case Remove (ft E) (object_path b k) (disk w) of
        (Some e, fs1) \<Rightarrow>
          if \<not> IsNotExist e then (Some (OsErr e), w\<lparr>disk := fs1\<rparr>)
          else (None, remove_finish E b (root_segs @ [b]) (object_path b k) (removed_bytes E (object_path b k) (disk w)) (w\<lparr>disk := fs1\<rparr>))
      | (None, fs1) \<Rightarrow>
          (None, remove_finish E b (root_segs @ [b]) (object_path b k) (removed_bytes E (object_path b k) (disk w)) (w\<lparr>disk := fs1\<rparr>)))"
proof -
  have "list_all seg_ok (root_segs @ [b])"
    using names_ok_proper[OF assms] proper_seg_ok root_proper by (auto simp: list_all_iff)
  then have "psegs (abs_path (root_segs @ [b])) = root_segs @ [b]" by (rule psegs_abs_path)
  then show ?thesis
    by (simp add: removeObject_def bucket_dir[OF assms] key_in_bucket_dir[OF assms] removed_bytes_def Let_def
        del: SafeJoin.simps split: option.split prod.split)
qed

lemma remove_finish_disk:
  "disk (remove_finish E b bd p n w) =
     collapse_dirs (ft E) bd (rev (psegs (path_dir p))) (snd (Remove (ft E) (p @ ''.meta'') (disk w)))"
  by (simp add: remove_finish_def RecordObjectDelete_def add_bytes_def Let_def)

lemma remove_finish_files:
  assumes "fs_wf (disk w)"
  shows "fs_wf (disk (remove_finish E b bd p n w))"
    "same_files {psegs (p @ ''.meta'')} (disk w) (disk (remove_finish E b bd p n w))"
proof -
  let ?fs = "snd (Remove (ft E) (p @ ''.meta'') (disk w))"
  have wf: "fs_wf ?fs" using Remove_wf[OF assms] .
  then show "fs_wf (disk (remove_finish E b bd p n w))" by (simp add: remove_finish_disk collapse_dirs_wf)
  have "same_files {psegs (p @ ''.meta'')} (disk w) ?fs" by (rule same_files_frame) (simp add: Remove_frame)
  moreover have "same_files {psegs (p @ ''.meta'')} ?fs (disk (remove_finish E b bd p n w))"
    using same_files_mono[OF collapse_dirs_files[OF wf]] by (simp add: remove_finish_disk)
  ultimately show "same_files {psegs (p @ ''.meta'')} (disk w) (disk (remove_finish E b bd p n w))"
    by (rule same_files_trans)
qed

lemma removeObject_any:
  assumes "names_ok b k" "fs_wf (disk w)" "removeObject E b (CHR ''/'' # k) w = (e, w')"
  shows "fs_wf (disk w')" "same_files {object_segs b k, object_meta_segs b k} (disk w) (disk w')"
    "e = None \<Longrightarrow> node_at (disk w') (object_segs b k) \<noteq> Some (File c t)"
    "e \<noteq> None \<Longrightarrow> w' = w"
proof -
  obtain x fs1 where rm: "Remove (ft E) (object_path b k) (disk w) = (x, fs1)" by (metis surj_pair)
  let ?w1 = "w\<lparr>disk := fs1\<rparr>"
  let ?fin = "remove_finish E b (root_segs @ [b]) (object_path b k) (removed_bytes E (object_path b k) (disk w)) ?w1"
  have wf1: "fs_wf (disk ?w1)" using Remove_wf[OF assms(2), of "ft E" "object_path b k"] rm by simp
  have s1: "same_files {object_segs b k, object_meta_segs b k} (disk w) fs1"
    using Remove_frame[of _ "object_path b k" "ft E" "disk w"] rm assms(1) by (auto intro!: same_files_frame)
  note fin = remove_finish_files[OF wf1]
  have s2: "same_files {object_segs b k, object_meta_segs b k} fs1 (disk ?fin)"
    using same_files_mono[OF fin(2)] by (auto simp: object_meta_segs_def)
  have cases: "(\<exists>y. x = Some y \<and> y \<noteq> ENOENT \<and> e = Some (OsErr y) \<and> w' = ?w1) \<or> (x = None \<or> x = Some ENOENT) \<and> e = None \<and> w' = ?fin"
    using assms(3) by (auto simp: removeObject_eq[OF assms(1)] rm IsNotExist_def split: option.splits if_splits)
  have same: "w' = ?w1 \<Longrightarrow> e \<noteq> None \<Longrightarrow> w' = w" using cases Remove_error rm by (metis disk_id option.collapse)
  show "fs_wf (disk w')" using cases fin(1) wf1 by auto
  show "same_files {object_segs b k, object_meta_segs b k} (disk w) (disk w')"
    using cases s1 same_files_trans[OF s1 s2] by auto
  show "e \<noteq> None \<Longrightarrow> w' = w" using cases same by auto
  show "node_at (disk w') (object_segs b k) \<noteq> Some (File c t)" if "e = None"
  proof -
    have w': "w' = ?fin" and x: "x = None \<or> x = Some ENOENT" using cases that by auto
    have "node_at fs1 (object_segs b k) = None"
      using x Remove_ok[of "ft E" "object_path b k" "disk w" fs1] Remove_missing[OF assms(2), of "ft E" "object_path b k" fs1]
        Remove_error[of "ft E" "object_path b k" "disk w" ENOENT fs1] rm assms(1) by auto
    then show ?thesis using fin(2) meta_not_object[OF assms(1)] w' by (simp add: same_files_def)
  qed
qed

section \<open>The handler\<close>

lemma Delete_eq:
  assumes "names_ok b k" "for_object b k r"
  shows "DeleteObjectHandler E r w =
     (case removeObject E b (CHR ''/'' # k) w of
        (Some _, w1) \<Rightarrow> (respondError r 500 ''InternalError'' ''Error deleting object'', w1)
      | (None, w1) \<Rightarrow> (Status 204, w1))"
  using assms by (simp add: DeleteObjectHandler_def for_object_def Clean_key)

lemma Delete_any:
  assumes "names_ok b k" "for_object b k r" "fs_wf (disk w)" "DeleteObjectHandler E r w = (resp, w')"
  shows "fs_wf (disk w')" "same_files {object_segs b k, object_meta_segs b k} (disk w) (disk w')"
    "status resp = 204 \<or> status resp = 500"
    "status resp = 204 \<Longrightarrow> node_at (disk w') (object_segs b k) \<noteq> Some (File c t)"
    "status resp = 500 \<Longrightarrow> w' = w"
proof -
  obtain e w1 where rm: "removeObject E b (CHR ''/'' # k) w = (e, w1)" by (metis surj_pair)
  have resp: "w1 = w'" "status resp = (if e = None then 204 else 500)"
    using assms(4) by (auto simp: Delete_eq[OF assms(1,2)] rm split: option.splits)
  note r = removeObject_any[OF assms(1,3) rm, unfolded resp(1)]
  show "fs_wf (disk w')" "same_files {object_segs b k, object_meta_segs b k} (disk w) (disk w')" by (fact r)+
  show "status resp = 204 \<or> status resp = 500" using resp(2) by auto
  show "status resp = 204 \<Longrightarrow> node_at (disk w') (object_segs b k) \<noteq> Some (File c t)"
    "status resp = 500 \<Longrightarrow> w' = w" using resp(2) r(3,4) by (auto split: if_splits)
qed

lemma Delete_keeps_others:
  assumes "names_ok b k" "for_object b k r" "names_ok b' k'" "(b', k') \<noteq> (b, k)"
    "stored L b' k' body t etag (disk w)"
  shows "stored L b' k' body t etag (disk (snd (DeleteObjectHandler E r w)))"
proof -
  have wf: "fs_wf (disk w)" using assms(5) by (simp add: stored_def)
  note d = Delete_any[OF assms(1,2) wf surjective_pairing]
  show ?thesis
    by (rule stored_same_files[OF assms(5) d(2,1)]) (use other_object[OF assms(1,3,4)] in auto)
qed

text \<open>A missing file is answered 404.\<close>

lemma Download_missing:
  assumes "names_ok b k" "for_object b k r" "fs_wf (disk w)" "node_at (disk w) (object_segs b k) = None"
  shows "status (fst (DownloadObjectHandler E r w)) = 404" "error_code (fst (DownloadObjectHandler E r w)) = ''NoSuchKey''"
    "snd (DownloadObjectHandler E r w) = w"
proof -
  have "Stat (ft E) (disk w) (object_path b k) \<noteq> Inr n" for n
    using assms(4) Stat_at[OF assms(3)] assms(1) by simp
  then obtain e where "Stat (ft E) (disk w) (object_path b k) = Inl e" by (metis sum.exhaust)
  then have "DownloadObjectHandler E r w = (respondError r 404 ''NoSuchKey'' ''Object not found'', w)"
    by (simp add: DownloadObjectHandler_def resolveObjectPath_names[OF assms(1,2)])
  then show "status (fst (DownloadObjectHandler E r w)) = 404" "error_code (fst (DownloadObjectHandler E r w)) = ''NoSuchKey''"
    "snd (DownloadObjectHandler E r w) = w" by simp_all
qed

section \<open>Files that cannot be removed, and tags that stay\<close>

text \<open>A key below an object: the kernel reports a non-directory, the handler a failure.\<close>

lemma Delete_under_file:
  assumes "names_ok b k" "for_object b k r" "fs_wf (disk w)"
    "node_at (disk w) (object_segs b k0) = Some (File c t)" "object_segs b k = object_segs b k0 @ s # ss"
  shows "status (fst (DeleteObjectHandler E r w)) = 500"
proof -
  have "lookup_path (disk w) (object_segs b k) = Inl ENOTDIR"
    using lookup_under_file[OF assms(3,4)] assms(5) by simp
  then have "Remove (ft E) (object_path b k) (disk w) = (Some ENOTDIR, disk w)"
    using assms(1) by (simp add: Remove_def)
  then show ?thesis by (simp add: Delete_eq[OF assms(1,2)] removeObject_eq[OF assms(1)] IsNotExist_def)
qed

definition object_tags_segs :: "string \<Rightarrow> string \<Rightarrow> path" where
  "object_tags_segs b k = psegs (objectTagsPath (object_path b k))"

lemma tags_not_touched:
  assumes "names_ok b k" "object_tmp E b k \<noteq> object_tags_segs b k"
  shows "object_tags_segs b k \<notin> touched E b k"
proof -
  have "object_tags_segs b k \<noteq> object_segs b k"
    using object_not_sidecar[OF assms(1,1), of "''.tags.json''"] by (simp add: object_tags_segs_def objectTagsPath_def)
  moreover have "object_tags_segs b k \<noteq> object_meta_segs b k"
    using assms(1) by (simp add: object_tags_segs_def object_meta_segs_def objectTagsPath_def psegs_object_suffix)
  ultimately show ?thesis using assms(2) by (auto simp: touched_def)
qed

lemma GetObjectTags_same_files:
  assumes "fs_wf fs" "fs_wf fs'" "same_files A fs fs'" "psegs (objectTagsPath p) \<notin> A" "GetObjectTags E p fs = Inr ts" "ts \<noteq> []"
  shows "GetObjectTags E p fs' = Inr ts"
proof -
  obtain d where d: "ReadFile (ft E) fs (objectTagsPath p) = Inr d" "tags_dec (lb E) d = Some ts"
    using assms(5,6) by (auto simp: GetObjectTags_def split: sum.splits option.splits if_splits)
  then have "ReadFile (ft E) fs' (objectTagsPath p) = Inr d"
    using assms(1-4) unfolding ReadFile_at[OF assms(1)] ReadFile_at[OF assms(2)] same_files_def by metis
  then show ?thesis using d by (simp add: GetObjectTags_def)
qed

text \<open>Deleting an object and uploading it again brings its old tags back.\<close>

lemma tags_survive:
  assumes "names_ok b k" "for_object b k r" "for_object b k r'" "fs_wf (disk w)" "fresh_tmp E b k"
    "object_tmp E b k \<noteq> object_tags_segs b k"
    "GetObjectTags E0 (object_path b k) (disk w) = Inr ts" "ts \<noteq> []"
  shows "GetObjectTags E0 (object_path b k)
      (disk (snd (UploadObjectHandler E r' (snd (DeleteObjectHandler E r w))))) = Inr ts"
proof -
  let ?w1 = "snd (DeleteObjectHandler E r w)"
  note d = Delete_any[OF assms(1,2,4) surjective_pairing, of E]
  note u = Upload_any[OF assms(1,3) d(1) assms(5)]
  have nt: "psegs (objectTagsPath (object_path b k)) \<notin> touched E b k"
    using tags_not_touched[OF assms(1,6)] by (simp add: object_tags_segs_def)
  have "GetObjectTags E0 (object_path b k) (disk ?w1) = Inr ts"
    by (rule GetObjectTags_same_files[OF assms(4) d(1,2) _ assms(7,8)]) (use nt in \<open>auto simp: touched_def\<close>)
  from GetObjectTags_same_files[OF d(1) u(1,2) nt this assms(8)] show ?thesis .
qed

end
