(* ===== verification/Reference_Env.thy ===== *)
theory Reference_Env
  imports Reference_Lib Object_Delete
begin

text \<open>
  A concrete environment, request and world over \<open>Reference_Lib\<close>, in which the
  operations can be run.
\<close>

definition ref_env :: env where
  "ref_env = \<lparr>lb = ref_lib, ft = no_fault, now = 5, uuid = ''u1'', tmp_suffix = ''1'', durable = False,
     tproxy = \<lparr>tpHeaders = [], tpUseLeftmostIP = False\<rparr>, enc_key = replicate 32 CHR ''k''\<rparr>"

definition ref_request :: "string \<Rightarrow> string \<Rightarrow> string \<Rightarrow> bytes \<Rightarrow> request" where
  "ref_request m b k body = \<lparr>req_method = m, req_path = CHR ''/'' # b @ CHR ''/'' # k,
     req_escaped_path = CHR ''/'' # b @ CHR ''/'' # k, req_query = [], req_header = [], req_cookie = [],
     req_host = ''s3.local'', req_remote = ''1.2.3.4:5'', req_tls = False, req_body = body, req_body_fails = False,
     param_bucket = b, param_objectKey = CHR ''/'' # k, ctx_user = None, ctx_authMethod = [],
     ctx_requestID = ''r1'', ctx_cleanedKey = []\<rparr>"

definition ref_world :: world where
  "ref_world = \<lparr>disk = [([''data''], Dir), ([''data'', ''objects''], Dir)], ObjectsBytesTotal = [],
     s3OperationsTotal = [], s3BytesTransferredTotal = [], MultipartUploadsInProgress = 0, acl_log = []\<rparr>"

lemma ref_env_simps [simp]: "lb ref_env = ref_lib" "ft ref_env = no_fault" "now ref_env = 5"
  by (simp_all add: ref_env_def)

lemma ref_request_simps [simp]: "param_bucket (ref_request m b k body) = b" "param_objectKey (ref_request m b k body) = CHR ''/'' # k"
  "req_body (ref_request m b k body) = body" "req_method (ref_request m b k body) = m"
  by (simp_all add: ref_request_def)

lemma ref_world_wf: "fs_wf (disk ref_world)"
  by (auto simp: fs_wf_def ref_world_def wf_map_def seg_ok_def node_at_def split: if_splits)

lemma ref_readable: "readable ref_env b k"
  by (simp add: readable_def no_fault_def)

section \<open>A user store\<close>

definition ref_user :: User where
  "ref_user = \<lparr>AccessKeyID = ''AK'', EncryptedSecret = the (Encrypt ref_lib (enc_key ref_env) (replicate 12 CHR ''n'') ''s3cret''),
     ACL = [admin_rule], CreatedAt = Some 1, SecretAccessKey = []\<rparr>"

definition ref_store :: ref_db where
  "ref_store = snd (CreateUser ref_lib ref_bolt 1 ref_user [])"

lemma ref_store_get: "GetUser (lb ref_env) ref_bolt ''AK'' ref_store = Inr ref_user"
  by code_simp

lemma ref_user_secret: "Decrypt (lb ref_env) (enc_key ref_env) (EncryptedSecret ref_user) = Some ''s3cret''"
  by code_simp

end
