(* ===== verification/Object_Theorems.thy ===== *)
theory Object_Theorems
  imports Reference_Env
begin

text \<open>
  What the object handlers guarantee besides the two theorems of the root theory: isolation
  between objects, ranges, conditional creation, deletion and its limits.
\<close>

text \<open>The world after \<open>bkt/a/b\<close> has been uploaded.\<close>

definition ref_uploaded :: world where
  "ref_uploaded = snd (UploadObjectHandler ref_env (ref_request ''PUT'' ''bkt'' ''a/b'' ''hello'') ref_world)"

lemma ref_uploaded_stored: "stored (lb ref_env) ''bkt'' ''a/b'' ''hello'' 5 (formatETag (md5 (lb ref_env) ''hello'')) (disk ref_uploaded)"
proof -
  let ?r = "ref_request ''PUT'' ''bkt'' ''a/b'' ''hello''"
  have h: "names_ok ''bkt'' ''a/b''" "for_object ''bkt'' ''a/b'' ?r" "fresh_tmp ref_env ''bkt'' ''a/b''" "utf8_request ?r"
    "status (fst (UploadObjectHandler ref_env ?r ref_world)) = 200" by code_simp+
  show ?thesis
    using Upload_stored[OF h(1,2) ref_world_wf h(3,4) _ surjective_pairing h(5)] ref_lib_ok(3)
    by (simp add: ref_uploaded_def)
qed

section \<open>Two more laws\<close>

lemma Download_ignored_range:
  assumes "names_ok b k" "for_object b k r" "stored (lb E) b k body t etag (disk w)" "readable E b k"
    "unconditional r" "classifyRange (GetHeader r ''Range'') (int (length body)) = rangeIgnore"
  shows "status (fst (DownloadObjectHandler E r w)) = 200"
    "payload (fst (DownloadObjectHandler E r w)) = RawBody body"
proof -
  obtain hs where dl: "DownloadObjectHandler E r w = serve_object E (stripConditionalHeaders r) (object_path b k) hs (File body t) w"
    using Download_stored[OF assms(1-4)] unconditional_none[OF assms(5)] by auto
  have "GetHeader (del_header ''Range'' (stripConditionalHeaders r)) ''Range'' = []"
    by (simp add: del_header_def GetHeader_del)
  then have "status (ServeContent (lb E) (del_header ''Range'' (stripConditionalHeaders r)) hs t body) = 200
      \<and> payload (ServeContent (lb E) (del_header ''Range'' (stripConditionalHeaders r)) hs t body) = RawBody body"
    by (simp add: ServeContent_def Let_def)
  then show "status (fst (DownloadObjectHandler E r w)) = 200" "payload (fst (DownloadObjectHandler E r w)) = RawBody body"
    using assms(6) readable_object[OF assms(4,1)] by (simp_all add: dl serve_object_def Let_def)
qed

text \<open>A delete only takes things away.\<close>

lemma Remove_shrinks: "node_at (snd (Remove f p fs)) q = Some n \<Longrightarrow> node_at fs q = Some n"
  by (auto simp: Remove_def Let_def node_at_delete split: sum.splits if_splits)

lemma collapse_dirs_shrinks: "node_at (collapse_dirs f bd ss fs) q = Some n \<Longrightarrow> node_at fs q = Some n"
proof (induction ss arbitrary: fs)
  case (Cons s ss)
  obtain x fs' where r: "Remove f (abs_path (rev (s # ss))) fs = (x, fs')" by (metis surj_pair)
  have "node_at fs' q = Some n \<Longrightarrow> node_at fs q = Some n" using Remove_shrinks[of f "abs_path (rev (s # ss))" fs q n] r by simp
  then show ?case using Cons.prems Cons.IH[of fs'] r by (auto simp: Let_def split: if_splits sum.splits option.splits)
qed simp

lemma Delete_shrinks:
  assumes "names_ok b k" "for_object b k r" "DeleteObjectHandler E r w = (resp, w1)" "node_at (disk w1) q = Some n"
  shows "node_at (disk w) q = Some n"
proof -
  obtain e w2 where rm: "removeObject E b (CHR ''/'' # k) w = (e, w2)" by (metis surj_pair)
  have "w1 = w2" using assms(3) rm Delete_eq[OF assms(1,2)] by (auto split: option.splits)
  moreover have "node_at (disk w2) q = Some n \<Longrightarrow> node_at (disk w) q = Some n"
    using rm Remove_shrinks[of "ft E" "object_path b k" "disk w" q n] Remove_shrinks[of "ft E" "object_path b k @ ''.meta''" _ q n]
    by (auto simp: removeObject_eq[OF assms(1)] remove_finish_disk dest!: collapse_dirs_shrinks split: prod.splits option.splits if_splits)
  ultimately show ?thesis using assms(4) by simp
qed

section \<open>Isolation\<close>

text \<open>C13: Neither an upload nor a delete of one object disturbs another stored one: its bytes, its
  time and its ETag stay, whatever the operation answers.\<close>

theorem objects_are_isolated:
  assumes "names_ok b k" "for_object b k r" "for_object b k r'" "fresh_tmp E b k" "names_ok b' k'" "(b', k') \<noteq> (b, k)"
    "tmp_apart E b k b' k'" "stored L b' k' body t etag (disk w)"
  shows "stored L b' k' body t etag (disk (snd (UploadObjectHandler E r w)))
    \<and> stored L b' k' body t etag (disk (snd (DeleteObjectHandler E r' w)))"
  using Upload_keeps_others[OF assms(1,2,4-8)] Delete_keeps_others[OF assms(1,3,5,6,8)] by blast

lemma objects_are_isolated_witness:
  "stored (lb ref_env) ''bkt'' ''a/b'' ''hello'' 5 (formatETag (md5 (lb ref_env) ''hello''))
     (disk (snd (UploadObjectHandler ref_env (ref_request ''PUT'' ''bkt'' ''a/c'' ''xyz'') ref_uploaded)))"
proof -
  have h: "names_ok ''bkt'' ''a/c''" "for_object ''bkt'' ''a/c'' (ref_request ''PUT'' ''bkt'' ''a/c'' ''xyz'')"
    "fresh_tmp ref_env ''bkt'' ''a/c''" "names_ok ''bkt'' ''a/b''" "(''bkt'', ''a/b'') \<noteq> (''bkt'', ''a/c'')"
    "tmp_apart ref_env ''bkt'' ''a/c'' ''bkt'' ''a/b''" by code_simp+
  show ?thesis using objects_are_isolated[OF h(1,2,2,3-6) ref_uploaded_stored] by blast
qed

section \<open>Ranges\<close>

text \<open>C27: A range request is answered by exactly the bytes of a non-empty slice inside the object,
  by 416 when it cannot be satisfied, and by the whole object when the header is not one the
  server honours.\<close>

theorem range_reads:
  assumes "names_ok b k" "for_object b k r" "stored (lb E) b k body t etag (disk w)" "readable E b k"
    "unconditional r" "GetHeader r ''If-Range'' = []"
  shows "case classifyRange (GetHeader r ''Range'') (int (length body)) of
      rangeSatisfiable \<Rightarrow>
        \<exists>s n. parse_one_range (GetHeader r ''Range'') (int (length body)) = Some (s, n)
          \<and> 0 \<le> s \<and> 0 < n \<and> s + n \<le> int (length body)
          \<and> status (fst (DownloadObjectHandler E r w)) = 206
          \<and> payload (fst (DownloadObjectHandler E r w)) = RawBody (slice s n body)
    | rangeUnsatisfiable \<Rightarrow> status (fst (DownloadObjectHandler E r w)) = 416
    | rangeIgnore \<Rightarrow> status (fst (DownloadObjectHandler E r w)) = 200
          \<and> payload (fst (DownloadObjectHandler E r w)) = RawBody body"
proof (cases "classifyRange (GetHeader r ''Range'') (int (length body))")
  case rangeIgnore
  then show ?thesis using Download_ignored_range[OF assms(1-5) rangeIgnore] by simp
next
  case rangeSatisfiable
  then show ?thesis using Download_range[OF assms rangeSatisfiable] by simp
next
  case rangeUnsatisfiable
  then show ?thesis using Download_bad_range[OF assms(1-5) rangeUnsatisfiable] by simp
qed

lemma range_reads_witness:
  "payload (fst (DownloadObjectHandler ref_env ((ref_request ''GET'' ''bkt'' ''a/b'' [])\<lparr>req_header := [(''Range'', [''bytes=1-3''])]\<rparr>) ref_uploaded))
     = RawBody ''ell''"
proof -
  let ?r = "(ref_request ''GET'' ''bkt'' ''a/b'' [])\<lparr>req_header := [(''Range'', [''bytes=1-3''])]\<rparr>"
  have h: "names_ok ''bkt'' ''a/b''" "for_object ''bkt'' ''a/b'' ?r" "unconditional ?r" "GetHeader ?r ''If-Range'' = []"
    "classifyRange (GetHeader ?r ''Range'') (int (length ''hello'')) = rangeSatisfiable"
    "parse_one_range (GetHeader ?r ''Range'') (int (length ''hello'')) = Some (1, 3)" "slice 1 3 ''hello'' = ''ell''" by code_simp+
  show ?thesis using range_reads[OF h(1,2) ref_uploaded_stored ref_readable h(3,4)] h(5-7) by simp
qed

section \<open>Conditional creation\<close>

text \<open>An upload with \<open>If-None-Match: *\<close> never replaces an object: it answers 412 and changes
  nothing.\<close>

theorem create_only_upload_refused:
  assumes "names_ok b k" "for_object b k r" "fs_wf (disk w)" "node_at (disk w) (object_segs b k) = Some (File c t)"
    "\<not> fails (ft E) OpStat (object_segs b k)" "GetHeader r ''If-None-Match'' = ''*''" "GetHeader r ''If-Match'' = []"
    "\<not> isl (resolveCannedACL r)" "collectUserMetadataChecked r \<noteq> None"
  shows "status (fst (UploadObjectHandler E r w)) = 412 \<and> snd (UploadObjectHandler E r w) = w"
proof -
  have st: "Stat (ft E) (disk w) (object_path b k) = Inr (File c t)"
    using assms(1,4,5) Stat_at[OF assms(3)] by simp
  from assms(8) obtain a where a: "resolveCannedACL r = Inr a" by (metis sum.collapse(2))
  from assms(9) obtain m where m: "collectUserMetadataChecked r = Some m" by blast
  have "evaluatePutConditional E r (object_path b k) (disk w) = (Some 412, disk w)"
    using evaluatePutConditional_create_only[OF assms(6,7)] st by auto
  then have "\<exists>resp. upload_check E r w = (Inl resp, w) \<and> status resp = 412"
    using a m resolveObjectPath_names[OF assms(1,2)] by (simp add: upload_check_def Let_def)
  then show ?thesis by (auto simp: UploadObjectHandler_def)
qed

lemma create_only_upload_refused_witness:
  "status (fst (UploadObjectHandler ref_env ((ref_request ''PUT'' ''bkt'' ''a/b'' ''new'')\<lparr>req_header := [(''If-None-Match'', [''*''])]\<rparr>) ref_uploaded)) = 412"
proof -
  let ?r = "(ref_request ''PUT'' ''bkt'' ''a/b'' ''new'')\<lparr>req_header := [(''If-None-Match'', [''*''])]\<rparr>"
  have h: "names_ok ''bkt'' ''a/b''" "for_object ''bkt'' ''a/b'' ?r" "\<not> fails (ft ref_env) OpStat (object_segs ''bkt'' ''a/b'')"
    "GetHeader ?r ''If-None-Match'' = ''*''" "GetHeader ?r ''If-Match'' = []" "\<not> isl (resolveCannedACL ?r)"
    "collectUserMetadataChecked ?r \<noteq> None" by code_simp+
  have s: "fs_wf (disk ref_uploaded)" "node_at (disk ref_uploaded) (object_segs ''bkt'' ''a/b'') = Some (File ''hello'' 5)"
    using ref_uploaded_stored by (simp_all add: stored_def)
  show ?thesis using create_only_upload_refused[OF h(1,2) s h(3-7)] by blast
qed

section \<open>Deletion\<close>

text \<open>C19: A delete answers 204 or 500; after a 204 the object is not found, after a 500 nothing has
  changed.\<close>

theorem delete_then_missing:
  assumes "names_ok b k" "for_object b k r" "for_object b k r'" "fs_wf (disk w)"
    "node_at (disk w) (object_segs b k) \<noteq> Some Dir"
    "DeleteObjectHandler E r w = (resp, w1)"
  shows "status resp = 204 \<and> status (fst (DownloadObjectHandler E' r' w1)) = 404 \<and> fs_wf (disk w1)
       \<or> status resp = 500 \<and> w1 = w"
proof -
  note d = Delete_any[OF assms(1,2,4,6)]
  show ?thesis
  proof (cases "status resp = 204")
    case True
    have "node_at (disk w1) (object_segs b k) = None"
      using d(4)[OF True] Delete_shrinks[OF assms(1,2,6)] assms(5) by (metis node.exhaust option.exhaust)
    then show ?thesis using Download_missing(1)[OF assms(1,3) d(1)] d(1) True by simp
  qed (use d in blast)
qed

lemma delete_then_missing_witness:
  "status (fst (DownloadObjectHandler ref_env (ref_request ''GET'' ''bkt'' ''a/b'' [])
      (snd (DeleteObjectHandler ref_env (ref_request ''DELETE'' ''bkt'' ''a/b'' []) ref_uploaded)))) = 404"
proof -
  let ?d = "ref_request ''DELETE'' ''bkt'' ''a/b'' []" and ?g = "ref_request ''GET'' ''bkt'' ''a/b'' []"
  have h: "names_ok ''bkt'' ''a/b''" "for_object ''bkt'' ''a/b'' ?d" "for_object ''bkt'' ''a/b'' ?g"
    "status (fst (DeleteObjectHandler ref_env ?d ref_uploaded)) = 204" by code_simp+
  have s: "fs_wf (disk ref_uploaded)" "node_at (disk ref_uploaded) (object_segs ''bkt'' ''a/b'') \<noteq> Some Dir"
    using ref_uploaded_stored by (simp_all add: stored_def)
  show ?thesis using delete_then_missing[OF h(1-3) s surjective_pairing, of ref_env ref_env] h(4) by simp
qed

text \<open>A delete of a key that lies below an object answers 500, although deleting a missing
  object is documented to succeed.\<close>

theorem delete_below_an_object_fails:
  assumes "names_ok b k" "for_object b k r" "fs_wf (disk w)"
    "node_at (disk w) (object_segs b k0) = Some (File c t)" "object_segs b k = object_segs b k0 @ s # ss"
  shows "status (fst (DeleteObjectHandler E r w)) = 500"
  by (rule Delete_under_file[OF assms])

lemma delete_below_an_object_fails_witness:
  "status (fst (DeleteObjectHandler ref_env (ref_request ''DELETE'' ''bkt'' ''a/b/c'' []) ref_uploaded)) = 500"
proof -
  have h: "names_ok ''bkt'' ''a/b/c''" "for_object ''bkt'' ''a/b/c'' (ref_request ''DELETE'' ''bkt'' ''a/b/c'' [])"
    "object_segs ''bkt'' ''a/b/c'' = object_segs ''bkt'' ''a/b'' @ ''c'' # []" by code_simp+
  have s: "fs_wf (disk ref_uploaded)" "node_at (disk ref_uploaded) (object_segs ''bkt'' ''a/b'') = Some (File ''hello'' 5)"
    using ref_uploaded_stored by (simp_all add: stored_def)
  show ?thesis by (rule delete_below_an_object_fails[OF h(1,2) s h(3)])
qed

text \<open>The tags of a deleted object stay behind and belong to the next object of that name.\<close>

theorem tags_outlive_the_object:
  assumes "names_ok b k" "for_object b k r" "for_object b k r'" "fs_wf (disk w)" "fresh_tmp E b k"
    "object_tmp E b k \<noteq> object_tags_segs b k"
    "GetObjectTags E0 (object_path b k) (disk w) = Inr ts" "ts \<noteq> []"
  shows "GetObjectTags E0 (object_path b k)
      (disk (snd (UploadObjectHandler E r' (snd (DeleteObjectHandler E r w))))) = Inr ts"
  by (rule tags_survive[OF assms])

lemma tags_outlive_the_object_witness:
  "GetObjectTags ref_env (object_path ''bkt'' ''a/b'')
     (disk (snd (UploadObjectHandler ref_env (ref_request ''PUT'' ''bkt'' ''a/b'' ''new'')
        (snd (DeleteObjectHandler ref_env (ref_request ''DELETE'' ''bkt'' ''a/b'' [])
          (ref_uploaded\<lparr>disk := snd (SetObjectTags ref_env (object_path ''bkt'' ''a/b'') [\<lparr>TagKey = ''k'', TagValue = ''v''\<rparr>] (disk ref_uploaded))\<rparr>))))))
   = Inr [\<lparr>TagKey = ''k'', TagValue = ''v''\<rparr>]"
proof -
  let ?ts = "[\<lparr>TagKey = ''k'', TagValue = ''v''\<rparr>]"
  let ?w = "ref_uploaded\<lparr>disk := snd (SetObjectTags ref_env (object_path ''bkt'' ''a/b'') ?ts (disk ref_uploaded))\<rparr>"
  have h: "names_ok ''bkt'' ''a/b''" "for_object ''bkt'' ''a/b'' (ref_request ''DELETE'' ''bkt'' ''a/b'' [])"
    "for_object ''bkt'' ''a/b'' (ref_request ''PUT'' ''bkt'' ''a/b'' ''new'')" "fresh_tmp ref_env ''bkt'' ''a/b''"
    "object_tmp ref_env ''bkt'' ''a/b'' \<noteq> object_tags_segs ''bkt'' ''a/b''"
    "GetObjectTags ref_env (object_path ''bkt'' ''a/b'') (disk ?w) = Inr ?ts" by code_simp+
  have wf: "fs_wf (disk ?w)" using object_tags.put_wf ref_uploaded_stored by (simp add: stored_def)
  show ?thesis by (rule tags_outlive_the_object[OF h(1-3) wf h(4-6)]) simp
qed

end
