(* ===== verification/Buckets.thy ===== *)
theory Buckets
  imports Objects
begin

text \<open>
  \<open>internal/handlers/bucket.go\<close>: buckets are the directories below the root, and
  listing walks one of them.  The listing is computed in the order of the code: collect,
  filter by prefix, roll up by delimiter, sort, seek, cut, resolve.
\<close>

section \<open>Buckets\<close>

definition HealthHandler :: response where
  "HealthHandler = c_JSON 200 (TObj [(''status'', TStr ''ok'')])"

definition msgAlreadyOwned :: string where
  "msgAlreadyOwned = ''Your previous request to create the named bucket succeeded and you already own it.''"

definition already_owned :: "request \<Rightarrow> string \<Rightarrow> response" where
  "already_owned r b =
     (if wantsJSON r
      then c_JSON 409 (TObj [(''code'', TStr ''BucketAlreadyOwnedByYou''), (''message'', TStr msgAlreadyOwned), (''bucketName'', TStr b)])
      else c_XML 409 ''Error'' (TObj [(''Code'', TStr ''BucketAlreadyOwnedByYou''), (''Message'', TStr msgAlreadyOwned),
        (''BucketName'', TStr b), (''RequestId'', TStr (ctx_requestID r)), (''HostId'', TStr [])]))"

definition bucket_location :: "request \<Rightarrow> string \<Rightarrow> response" where
  "bucket_location r b =
     (let loc = ''http://'' @ req_host r @ ''/'' @ b
      in if wantsJSON r then c_JSON 200 (TObj [(''location'', TStr loc)])
         else c_XML 200 ''CreateBucketResult'' (TObj [(''Location'', TStr loc)]))"

definition create_bucket_acl :: "env \<Rightarrow> request \<Rightarrow> string \<Rightarrow> world \<Rightarrow> response \<times> world" where
  "create_bucket_acl E r b w =
     (let hdr = GetHeader r ''x-amz-acl''
      in if hdr = [] then (bucket_location r b, w)
         else case NormalizeCannedACL hdr of
             Inl _ \<Rightarrow> (respondError r 400 ''InvalidArgument'' ''Unsupported x-amz-acl value'', w)
           | Inr canned \<Rightarrow>
               (case PutBucketACL E b canned (disk w) of
                  (Some _, fs1) \<Rightarrow> (respondError r 500 ''InternalError'' ''Error persisting bucket ACL'', w\<lparr>disk := fs1\<rparr>)
                | (None, fs1) \<Rightarrow> (bucket_location r b, auditACLChange E r ''bucket'' b [] ACLPrivate canned (w\<lparr>disk := fs1\<rparr>))))"

definition CreateBucketHandler :: handler where
  "CreateBucketHandler E r w =
     (let b = param_bucket r
      in if ValidateBucketName b \<noteq> None then (respondError r 400 ''InvalidBucketName'' msg_bucket_name, w)
         else case resolvePath r [b] of
             Inl resp \<Rightarrow> (resp, w)
           | Inr bucketPath \<Rightarrow>
               if Stat (ft E) (disk w) bucketPath = Inr Dir then (already_owned r b, w)
               else case MkdirAll (ft E) bucketPath (disk w) of
                   (Some _, fs1) \<Rightarrow> (respondError r 500 ''InternalError'' ''Error creating bucket'', w\<lparr>disk := fs1\<rparr>)
                 | (None, fs1) \<Rightarrow> create_bucket_acl E r b (w\<lparr>disk := fs1\<rparr>))"

text \<open>The times of directories are not part of the file system model: \<open>dirTime\<close> gives them.\<close>

record bucket_row =
  brName :: string
  brCreationDate :: string
  brACL :: string

fun bucket_rows :: "env \<Rightarrow> (path \<Rightarrow> time) \<Rightarrow> fs \<Rightarrow> (string \<times> node) list \<Rightarrow> string + bucket_row list" where
  "bucket_rows E dirTime fs [] = Inr []"
| "bucket_rows E dirTime fs ((name, n) # es) =
     (case n of
        File _ _ \<Rightarrow> bucket_rows E dirTime fs es
      | Dir \<Rightarrow>
          if fails (ft E) OpStat (root_segs @ [name]) then Inl (''Error getting info for bucket '' @ name)
          else
          (case EffectiveBucketACL E name fs of
             Inl _ \<Rightarrow> Inl (''Error reading ACL for bucket '' @ name)
           | Inr acl \<Rightarrow>
               (case bucket_rows E dirTime fs es of
                  Inl msg \<Rightarrow> Inl msg
                | Inr rows \<Rightarrow>
                    Inr (\<lparr>brName = name, brCreationDate = FormatRFC3339 (lb E) (dirTime (root_segs @ [name])), brACL = acl\<rparr> # rows))))"

definition bucket_json :: "bucket_row \<Rightarrow> tree" where
  "bucket_json b = TObj ([(''name'', TStr (brName b)), (''creationDate'', TStr (brCreationDate b))] @ omit_empty ''acl'' (brACL b))"

definition bucket_xml :: "bucket_row \<Rightarrow> tree" where
  "bucket_xml b = TObj [(''Name'', TStr (brName b)), (''CreationDate'', TStr (brCreationDate b))]"

definition ListBucketsHandler :: "(path \<Rightarrow> time) \<Rightarrow> env \<Rightarrow> request \<Rightarrow> world \<Rightarrow> response" where
  "ListBucketsHandler dirTime E r w =
     (let entries = (case ReadDir (ft E) (disk w) ObjectsRoot of
                       Inl e \<Rightarrow> if IsNotExist e then Some [] else None
                     | Inr es \<Rightarrow> Some es)
      in case entries of
           None \<Rightarrow> respondError r 500 ''InternalError'' ''Error listing buckets''
         | Some es \<Rightarrow>
             (case bucket_rows E dirTime (disk w) es of
                Inl msg \<Rightarrow> respondError r 500 ''InternalError'' msg
              | Inr rows \<Rightarrow>
                  if wantsJSON r then c_JSON 200 (TObj [(''buckets'', json_slice (map bucket_json rows))])
                  else c_XML 200 ''ListAllMyBucketsResult''
                    (TObj [(''xmlns'', TStr ''http://s3.amazonaws.com/doc/2006-03-01/''),
                       (''Owner'', TObj [(''ID'', TStr (actor_of r)), (''DisplayName'', TStr (actor_of r))]),
                       (''Buckets'', TObj [(''Bucket'', TList (map bucket_xml rows))])])))"

definition isSidecar :: "string \<Rightarrow> bool" where
  "isSidecar name \<longleftrightarrow>
     HasSuffix name ''.meta'' \<or> HasSuffix name ''.tags.json'' \<or> name = ''.cors.json'' \<or> name = ''.acl.json''"

definition bucketIsEmpty :: "env \<Rightarrow> string \<Rightarrow> fs \<Rightarrow> os_error + bool" where
  "bucketIsEmpty E bucketPath fs =
     (case WalkDir (ft E) fs bucketPath of
        Inl e \<Rightarrow> Inl e
      | Inr files \<Rightarrow> Inr (list_all (\<lambda>(rel, _, _). isSidecar (last (psegs bucketPath @ rel))) files))"

definition DeleteBucketHandler :: handler where
  "DeleteBucketHandler E r w =
     (let b = param_bucket r
      in if b = [] then (respondError r 400 ''InvalidBucketName'' ''Bucket name required'', w)
         else case resolvePath r [b] of
             Inl resp \<Rightarrow> (resp, w)
           | Inr bucketPath \<Rightarrow>
               if bucketPath = ObjectsRoot then (respondError r 400 ''InvalidBucketName'' ''Cannot delete base directory'', w)
               else if Stat (ft E) (disk w) bucketPath = Inl ENOENT
               then (respondError r 404 ''NoSuchBucket'' ''Bucket not found'', w)
               else case bucketIsEmpty E bucketPath (disk w) of
                   Inl _ \<Rightarrow> (respondError r 500 ''InternalError'' ''Error reading bucket'', w)
                 | Inr False \<Rightarrow>
                     (respondError r 409 ''BucketNotEmpty'' ''The bucket you tried to delete is not empty. Remove all objects first.'', w)
                 | Inr True \<Rightarrow>
                     (case RemoveAll (ft E) bucketPath (disk w) of
                        (Some _, fs1) \<Rightarrow> (respondError r 500 ''InternalError'' ''Error deleting bucket'', w\<lparr>disk := fs1\<rparr>)
                      | (None, fs1) \<Rightarrow> (Status 204, w\<lparr>disk := fs1\<rparr>)))"

definition HeadBucketHandler :: "env \<Rightarrow> request \<Rightarrow> world \<Rightarrow> response" where
  "HeadBucketHandler E r w =
     (if param_bucket r = [] then Status 400
      else case SafeJoin ObjectsRoot [param_bucket r] of
          Inl _ \<Rightarrow> Status 400
        | Inr bucketPath \<Rightarrow>
            (case Stat (ft E) (disk w) bucketPath of
               Inl e \<Rightarrow> if IsNotExist e then Status 404 else Status 500
             | Inr (File _ _) \<Rightarrow> Status 404
             | Inr Dir \<Rightarrow> Status 200))"

section \<open>Listing: the pure part\<close>

definition listMaxKeys :: nat where "listMaxKeys = 1000"

definition parseMaxKeys :: "string \<Rightarrow> nat" where
  "parseMaxKeys raw =
     (if raw = [] then listMaxKeys
      else case Atoi raw of
          Inl _ \<Rightarrow> listMaxKeys
        | Inr n \<Rightarrow> if n \<le> 0 then listMaxKeys else if n > int listMaxKeys then listMaxKeys else nat n)"

definition encodeContinuation :: "string \<Rightarrow> string" where
  "encodeContinuation key = b64_encode URLEncoding key"

definition decodeContinuation :: "string \<Rightarrow> string" where
  "decodeContinuation token =
     (if token = [] then [] else case b64_decode URLEncoding token of None \<Rightarrow> [] | Some b \<Rightarrow> b)"

record rawEntry =
  reKey :: string
  reRel :: path
  reMod :: time
  reSize :: nat

datatype emitItem = ObjectItem rawEntry | PrefixItem string

fun item_key :: "emitItem \<Rightarrow> string" where
  "item_key (ObjectItem e) = reKey e"
| "item_key (PrefixItem p) = p"

text \<open>A file whose \<open>Info\<close> fails is left out.\<close>

definition raw_entries :: "env \<Rightarrow> path \<Rightarrow> (path \<times> bytes \<times> time) list \<Rightarrow> rawEntry list" where
  "raw_entries E base files =
     map (\<lambda>(rel, b, t). \<lparr>reKey = Join ''/'' rel, reRel = rel, reMod = t, reSize = length b\<rparr>)
       (filter (\<lambda>(rel, _, _). \<not> isSidecar (last rel) \<and> \<not> fails (ft E) OpStat (base @ rel)) files)"

text \<open>The common prefix a key is rolled up into, if any.\<close>

definition common_prefix :: "string \<Rightarrow> string \<Rightarrow> string \<Rightarrow> string option" where
  "common_prefix prefix delimiter key =
     (if delimiter = [] then None
      else let rest = drop (length prefix) key
           in case Index rest delimiter of
               None \<Rightarrow> None
             | Some idx \<Rightarrow> Some (prefix @ take (idx + length delimiter) rest))"

definition list_merged :: "string \<Rightarrow> string \<Rightarrow> rawEntry list \<Rightarrow> emitItem list" where
  "list_merged prefix delimiter all =
     (let matching = filter (\<lambda>e. HasPrefix (reKey e) prefix) all;
          objects = sort_key reKey (filter (\<lambda>e. common_prefix prefix delimiter (reKey e) = None) matching);
          prefixes = sort (remdups (List.map_filter (\<lambda>e. common_prefix prefix delimiter (reKey e)) matching))
      in sort_key item_key (map ObjectItem objects @ map PrefixItem prefixes))"

definition seek :: "string \<Rightarrow> emitItem list \<Rightarrow> emitItem list" where
  "seek startAfter merged = (if startAfter = [] then merged else dropWhile (\<lambda>it. item_key it \<le> startAfter) merged)"

text \<open>The page: its items, and the last key when there is more.\<close>

definition cut_page :: "nat \<Rightarrow> emitItem list \<Rightarrow> emitItem list \<times> string option" where
  "cut_page maxKeys merged =
     (if length merged > maxKeys then (take maxKeys merged, Some (item_key (merged ! (maxKeys - 1)))) else (merged, None))"

section \<open>Listing: the handler\<close>

record listObjectInfo =
  loKey :: string
  loLastModified :: string
  loETag :: string
  loSize :: nat
  loACL :: string
  loACLSource :: string

record listPage =
  pgBucket :: string
  pgPrefix :: string
  pgDelimiter :: string
  pgMaxKeys :: nat
  pgLastKey :: "string option"
  pgObjects :: "listObjectInfo list"
  pgPrefixes :: "string list"

definition keyCount :: "listPage \<Rightarrow> nat" where
  "keyCount p = length (pgObjects p) + length (pgPrefixes p)"

text \<open>ETags may be backfilled on the way, so the file system is threaded.\<close>

fun resolve_items ::
  "env \<Rightarrow> string \<Rightarrow> path \<Rightarrow> emitItem list \<Rightarrow> fs \<Rightarrow> (string + listObjectInfo list \<times> string list) \<times> fs" where
  "resolve_items E b base [] fs = (Inr ([], []), fs)"
| "resolve_items E b base (PrefixItem p # its) fs =
     (case resolve_items E b base its fs of
        (Inl msg, fs1) \<Rightarrow> (Inl msg, fs1)
      | (Inr (os, ps), fs1) \<Rightarrow> (Inr (os, p # ps), fs1))"
| "resolve_items E b base (ObjectItem e # its) fs =
     (let path = abs_path (base @ reRel e)
      in case loadOrBackfillETag E path fs of
           (Inl _, fs1) \<Rightarrow> (Inl (''Error resolving ETag for '' @ reKey e), fs1)
         | (Inr etag, fs1) \<Rightarrow>
             (case ResolveObjectACL E b path fs1 of
                Inl _ \<Rightarrow> (Inl (''Error resolving ACL for '' @ reKey e), fs1)
              | Inr (acl, src) \<Rightarrow>
                  (case resolve_items E b base its fs1 of
                     (Inl msg, fs2) \<Rightarrow> (Inl msg, fs2)
                   | (Inr (os, ps), fs2) \<Rightarrow>
                       (Inr (\<lparr>loKey = reKey e, loLastModified = FormatRFC3339 (lb E) (reMod e), loETag = etag,
                              loSize = reSize e, loACL = acl, loACLSource = src\<rparr> # os, ps), fs2))))"

definition object_json :: "listObjectInfo \<Rightarrow> tree" where
  "object_json o' = TObj ([(''key'', TStr (loKey o')), (''lastModified'', TStr (loLastModified o')), (''etag'', TStr (loETag o')),
     (''size'', TInt (int (loSize o'))), (''storageClass'', TStr ''STANDARD'')]
     @ omit_empty ''acl'' (loACL o') @ omit_empty ''aclSource'' (loACLSource o'))"

definition object_xml :: "listObjectInfo \<Rightarrow> tree" where
  "object_xml o' = TObj [(''Key'', TStr (loKey o')), (''LastModified'', TStr (loLastModified o')), (''ETag'', TStr (loETag o')),
     (''Size'', TInt (int (loSize o'))), (''StorageClass'', TStr ''STANDARD'')]"

definition contents_xml :: "listPage \<Rightarrow> (string \<times> tree) list" where
  "contents_xml p = [(''Contents'', TList (map object_xml (pgObjects p))),
     (''CommonPrefixes'', TList (map (\<lambda>x. TObj [(''Prefix'', TStr x)]) (pgPrefixes p)))]"

definition respondListJSON :: "listPage \<Rightarrow> response" where
  "respondListJSON p = c_JSON 200 (TObj (
     [(''name'', TStr (pgBucket p)), (''prefix'', TStr (pgPrefix p)), (''delimiter'', TStr (pgDelimiter p)),
      (''maxKeys'', TInt (int (pgMaxKeys p))), (''keyCount'', TInt (int (keyCount p))),
      (''isTruncated'', TBool (pgLastKey p \<noteq> None)), (''contents'', TList (map object_json (pgObjects p))),
      (''commonPrefixes'', TList (map (\<lambda>x. TObj [(''prefix'', TStr x)]) (pgPrefixes p)))]
     @ (case pgLastKey p of None \<Rightarrow> [] | Some k \<Rightarrow> [(''nextContinuationToken'', TStr (encodeContinuation k))])))"

definition list_xmlns :: string where "list_xmlns = ''https://s3.amazonaws.com/doc/2006-03-01/''"

definition respondListV2 :: "listPage \<Rightarrow> string \<Rightarrow> string \<Rightarrow> response" where
  "respondListV2 p contToken startAfter = c_XML 200 ''ListBucketResult'' (TObj (
     [(''xmlns'', TStr list_xmlns), (''Name'', TStr (pgBucket p)), (''Prefix'', TStr (pgPrefix p))]
     @ omit_empty ''Delimiter'' (pgDelimiter p)
     @ [(''MaxKeys'', TInt (int (pgMaxKeys p))), (''KeyCount'', TInt (int (keyCount p))),
        (''IsTruncated'', TBool (pgLastKey p \<noteq> None))]
     @ omit_empty ''ContinuationToken'' contToken
     @ omit_empty ''NextContinuationToken'' (case pgLastKey p of None \<Rightarrow> [] | Some k \<Rightarrow> encodeContinuation k)
     @ omit_empty ''StartAfter'' startAfter @ contents_xml p))"

definition respondListV1 :: "listPage \<Rightarrow> string \<Rightarrow> response" where
  "respondListV1 p marker = c_XML 200 ''ListBucketResult'' (TObj (
     [(''xmlns'', TStr list_xmlns), (''Name'', TStr (pgBucket p)), (''Prefix'', TStr (pgPrefix p)), (''Marker'', TStr marker)]
     @ omit_empty ''NextMarker''
         (case pgLastKey p of None \<Rightarrow> [] | Some k \<Rightarrow> if pgDelimiter p \<noteq> [] then k else [])
     @ omit_empty ''Delimiter'' (pgDelimiter p)
     @ [(''MaxKeys'', TInt (int (pgMaxKeys p))), (''IsTruncated'', TBool (pgLastKey p \<noteq> None))] @ contents_xml p))"

text \<open>The cursor of a request: an opaque token wins, then the parameter of the list version.\<close>

definition list_cursor :: "request \<Rightarrow> string" where
  "list_cursor r =
     (if Query r ''continuation-token'' \<noteq> [] then decodeContinuation (Query r ''continuation-token'')
      else if Query r ''list-type'' = ''2'' then Query r ''start-after''
      else Query r ''marker'')"

definition list_page :: "env \<Rightarrow> request \<Rightarrow> string \<Rightarrow> (path \<times> bytes \<times> time) list \<Rightarrow> world \<Rightarrow> (response + listPage) \<times> world" where
  "list_page E r bucketPath files w =
     (let b = param_bucket r; prefix = Query r ''prefix''; delimiter = Query r ''delimiter'';
          maxKeys = parseMaxKeys (Query r ''max-keys'');
          (items, lastKey) = cut_page maxKeys (seek (list_cursor r) (list_merged prefix delimiter (raw_entries E (psegs bucketPath) files)))
      in case resolve_items E b (psegs bucketPath) items (disk w) of
           (Inl msg, fs1) \<Rightarrow> (Inl (respondError r 500 ''InternalError'' msg), w\<lparr>disk := fs1\<rparr>)
         | (Inr (os, ps), fs1) \<Rightarrow>
             (Inr \<lparr>pgBucket = b, pgPrefix = prefix, pgDelimiter = delimiter, pgMaxKeys = maxKeys, pgLastKey = lastKey,
                   pgObjects = os, pgPrefixes = ps\<rparr>, w\<lparr>disk := fs1\<rparr>))"

definition render_list :: "request \<Rightarrow> listPage \<Rightarrow> response" where
  "render_list r p =
     (if wantsJSON r then respondListJSON p
      else if Query r ''list-type'' = ''2'' then respondListV2 p (Query r ''continuation-token'') (Query r ''start-after'')
      else respondListV1 p (list_cursor r))"

definition ListObjectsHandler :: handler where
  "ListObjectsHandler E r w =
     (case resolvePath r [param_bucket r] of
        Inl resp \<Rightarrow> (resp, w)
      | Inr bucketPath \<Rightarrow>
          if Stat (ft E) (disk w) bucketPath \<noteq> Inr Dir
          then (respondError r 404 ''NoSuchBucket'' ''Bucket not found'', w)
          else case WalkDir (ft E) (disk w) bucketPath of
              Inl _ \<Rightarrow> (respondError r 500 ''InternalError'' ''Error reading bucket'', w)
            | Inr files \<Rightarrow>
                (case list_page E r bucketPath files w of
                   (Inl resp, w1) \<Rightarrow> (resp, w1)
                 | (Inr p, w1) \<Rightarrow> (render_list r p, w1)))"

end
