(* ===== verification/Listing_Laws.thy ===== *)
theory Listing_Laws
  imports Buckets "HOL-Library.Multiset"
begin

text \<open>
  Laws of the listing: what the merged stream contains, that it is strictly ordered, and
  that a client that follows the cursor of every page collects the stream exactly once.
\<close>

section \<open>Cursor and page size\<close>

lemma decode_encode_continuation: "decodeContinuation (encodeContinuation k) = k"
  by (simp add: decodeContinuation_def encodeContinuation_def b64_decode_encode b64_encode_empty_iff)

lemma parseMaxKeys_range: "1 \<le> parseMaxKeys raw \<and> parseMaxKeys raw \<le> 1000"
  by (auto simp: parseMaxKeys_def listMaxKeys_def split: sum.splits)

section \<open>The merged stream\<close>

lemma common_prefix_extends: "common_prefix p d k = Some c \<Longrightarrow> HasPrefix c p"
  by (auto simp: common_prefix_def Let_def split: if_splits option.splits)

lemma Index_Some: "Index s t = Some i \<Longrightarrow> \<exists>r. s = take i s @ t @ r"
proof (induction s t arbitrary: i rule: Index.induct)
  case (2 c s t)
  show ?case
  proof (cases "HasPrefix (c # s) t")
    case True
    then show ?thesis using 2(2) by (auto simp: HasPrefix_iff)
  next
    case False
    with 2(2) obtain j where j: "Index s t = Some j" "i = Suc j" by (auto split: option.splits)
    from 2(1)[OF False j(1)] obtain r where "s = take j s @ t @ r" by blast
    then show ?thesis using j(2) by auto
  qed
qed (auto split: if_splits simp: HasPrefix_iff)

lemma Index_append: "Index s t = Some i \<Longrightarrow> Index (take (i + length t) s) t = Some i"
proof (induction s t arbitrary: i rule: Index.induct)
  case (2 c s t)
  show ?case
  proof (cases "HasPrefix (c # s) t")
    case True
    then have "i = 0" using 2(2) by simp
    moreover have "take (length t) (c # s) = t" using True by (auto simp: HasPrefix_iff)
    moreover have "Index t t = Some 0" by (cases t) (simp_all add: HasPrefix_def)
    ultimately show ?thesis by simp
  next
    case False
    with 2(2) obtain j where j: "Index s t = Some j" "i = Suc j" by (auto split: option.splits)
    have "\<not> HasPrefix (c # take (j + length t) s) t"
    proof
      assume "HasPrefix (c # take (j + length t) s) t"
      then obtain r where "c # take (j + length t) s = t @ r" by (auto simp: HasPrefix_iff)
      then have "c # s = t @ (r @ drop (j + length t) s)"
        by (metis append.assoc append_Cons append_take_drop_id)
      then show False using False by (auto simp: HasPrefix_iff)
    qed
    then show ?thesis using j 2(1)[OF False j(1)] by simp
  qed
qed (auto split: if_splits simp: HasPrefix_iff)

text \<open>A rolled-up prefix is itself rolled up, so no listed object has its name.\<close>

lemma common_prefix_closed:
  assumes "common_prefix p d k = Some c"
  shows "common_prefix p d c = Some c"
proof -
  from assms obtain i where i: "Index (drop (length p) k) d = Some i" "d \<noteq> []"
    "c = p @ take (i + length d) (drop (length p) k)"
    by (auto simp: common_prefix_def Let_def split: if_splits option.splits)
  from Index_append[OF i(1)] i(2,3) show ?thesis
    by (simp add: common_prefix_def Let_def)
qed

definition distinct_keys :: "rawEntry list \<Rightarrow> bool" where
  "distinct_keys es \<longleftrightarrow> distinct (map reKey es)"

lemma set_map_filter: "set (List.map_filter f xs) = {y. \<exists>x\<in>set xs. f x = Some y}"
  by (force simp: List.map_filter_def)

lemma set_list_merged:
  "set (list_merged p d es) =
     {ObjectItem e | e. e \<in> set es \<and> HasPrefix (reKey e) p \<and> common_prefix p d (reKey e) = None}
   \<union> {PrefixItem c | c. \<exists>e\<in>set es. HasPrefix (reKey e) p \<and> common_prefix p d (reKey e) = Some c}"
  by (auto simp: list_merged_def Let_def set_map_filter image_iff)

lemma sorted_list_merged: "sorted (map item_key (list_merged p d es))"
  by (simp add: list_merged_def Let_def)

lemma distinct_list_merged:
  assumes "distinct_keys es"
  shows "distinct (map item_key (list_merged p d es))"
proof -
  let ?m = "filter (\<lambda>e. HasPrefix (reKey e) p) es"
  let ?os = "filter (\<lambda>e. common_prefix p d (reKey e) = None) ?m"
  let ?ps = "List.map_filter (\<lambda>e. common_prefix p d (reKey e)) ?m"
  have perm: "mset (map item_key (list_merged p d es)) = mset (map reKey ?os @ remdups ?ps)"
  proof -
    have k: "item_key \<circ> ObjectItem = reKey" "item_key \<circ> PrefixItem = (\<lambda>x. x)" by auto
    show ?thesis
      unfolding list_merged_def Let_def mset_map mset_sort mset_append image_mset_union multiset.map_comp k by simp
  qed
  have "distinct (map reKey ?os)"
    using assms by (simp add: distinct_keys_def distinct_map_filter)
  moreover have "k \<notin> set ?ps" if "k \<in> set (map reKey ?os)" for k
  proof
    assume "k \<in> set ?ps"
    then have "common_prefix p d k = Some k" by (auto simp: set_map_filter intro: common_prefix_closed)
    then show False using that by auto
  qed
  ultimately have "distinct (map reKey ?os @ remdups ?ps)" by auto
  then show ?thesis using perm mset_eq_imp_distinct_iff by blast
qed

section \<open>Pages\<close>

lemma seek_last:
  assumes "sorted (map item_key m)" "distinct (map item_key m)" "0 < n" "n \<le> length m"
    "item_key (m ! (n - 1)) \<noteq> []"
  shows "seek (item_key (m ! (n - 1))) m = drop n m"
proof -
  let ?k = "item_key (m ! (n - 1))" and ?P = "\<lambda>it. item_key it \<le> item_key (m ! (n - 1))"
  have before: "?P it" if "it \<in> set (take n m)" for it
  proof -
    from that obtain i where "i < n" "it = m ! i" using assms(4) by (auto simp: in_set_conv_nth)
    then show ?thesis using sorted_nth_mono[OF assms(1), of i "n - 1"] assms(3,4) by simp
  qed
  have after: "\<not> ?P it" if "it \<in> set (drop n m)" for it
  proof -
    from that obtain i where "i < length m - n" "it = drop n m ! i" by (metis in_set_conv_nth length_drop)
    then have i: "n + i < length m" "it = m ! (n + i)" by simp_all
    have "?k \<le> item_key it" using sorted_nth_mono[OF assms(1), of "n - 1" "n + i"] i assms(3) by simp
    moreover have "?k \<noteq> item_key it"
      using nth_eq_iff_index_eq[OF assms(2), of "n - 1" "n + i"] i assms(3) by simp
    ultimately show ?thesis by simp
  qed
  have "dropWhile ?P (take n m @ drop n m) = dropWhile ?P (drop n m)"
    using before by (intro dropWhile_append2) blast
  also have "\<dots> = drop n m" using after by (cases "drop n m") auto
  finally show ?thesis using assms(5) by (simp add: seek_def)
qed

lemma seek_drop_sorted:
  "\<lbrakk>sorted (map item_key m); distinct (map item_key m)\<rbrakk> \<Longrightarrow>
     sorted (map item_key (drop n m)) \<and> distinct (map item_key (drop n m))"
  by (simp add: drop_map[symmetric] sorted_wrt_drop)

text \<open>A client that asks for page after page, each from the cursor of the one before.\<close>

fun drain :: "nat \<Rightarrow> nat \<Rightarrow> string \<Rightarrow> emitItem list \<Rightarrow> emitItem list option" where
  "drain 0 maxKeys cursor merged = None"
| "drain (Suc n) maxKeys cursor merged =
     (case cut_page maxKeys (seek cursor merged) of
        (items, None) \<Rightarrow> Some items
      | (items, Some k) \<Rightarrow> map_option ((@) items) (drain n maxKeys k merged))"

lemma drain_from:
  assumes "sorted (map item_key m)" "distinct (map item_key m)" "[] \<notin> item_key ` set m" "0 < mx"
    "seek c m = drop j m" "length m \<le> j + n * mx" "j \<le> length m" "0 < n"
  shows "drain n mx c m = Some (drop j m)"
  using assms(5-8)
proof (induction n arbitrary: c j)
  case (Suc n)
  show ?case
  proof (cases "length (drop j m) > mx")
    case False
    then show ?thesis using Suc.prems by (simp add: cut_page_def)
  next
    case True
    then have j: "j + mx < length m" by simp
    have key: "item_key (drop j m ! (mx - 1)) = item_key (m ! (j + mx - 1))" using j assms(4) by simp
    have "seek (item_key (m ! (j + mx - 1))) m = drop (j + mx) m"
    proof (rule seek_last[OF assms(1,2)])
      have "m ! (j + mx - 1) \<in> set m" using j by simp
      then show "item_key (m ! (j + mx - 1)) \<noteq> []" using assms(3) by (metis imageI)
    qed (use j assms(4) in auto)
    moreover have "0 < n" using Suc.prems(2) j by (cases n) auto
    moreover have "length m \<le> (j + mx) + n * mx" using Suc.prems(2) by simp
    ultimately have "drain n mx (item_key (m ! (j + mx - 1))) m = Some (drop (j + mx) m)"
      using Suc.IH[of _ "j + mx"] j by simp
    then show ?thesis using True Suc.prems(1) key
      by (simp add: cut_page_def) (metis add.commute append_take_drop_id drop_drop)
  qed
qed simp

lemma drain_complete:
  assumes "sorted (map item_key m)" "distinct (map item_key m)" "[] \<notin> item_key ` set m" "0 < mx"
  shows "drain (Suc (length m)) mx [] m = Some m"
proof -
  have "length m \<le> 0 + Suc (length m) * mx" using assms(4) by (cases mx) auto
  then show ?thesis using drain_from[OF assms, of "[]" 0 "Suc (length m)"] by (simp add: seek_def del: drain.simps)
qed

section \<open>The walk\<close>

lemma Join_slash_inj:
  assumes "list_all seg_ok a" "list_all seg_ok b" "a \<noteq> []" "b \<noteq> []" "Join ''/'' a = Join ''/'' b"
  shows "a = b"
proof -
  have "Split CHR ''/'' (Join ''/'' x) = x" if "list_all seg_ok x" "x \<noteq> []" for x
  proof (rule Split_Join)
    show "x \<noteq> []" by (rule that(2))
    show "\<forall>y\<in>set x. CHR ''/'' \<notin> set y" using that(1) unfolding list_all_iff seg_ok_def by blast
  qed
  from this[OF assms(1,3)] this[OF assms(2,4)] assms(5) show ?thesis by metis
qed

lemma Join_slash_nonempty: "list_all seg_ok a \<Longrightarrow> a \<noteq> [] \<Longrightarrow> Join ''/'' a \<noteq> []"
  by (cases a; cases "tl a") (auto simp: seg_ok_def neq_Nil_conv)

lemma set_walk_files:
  assumes "fs_wf fs"
  shows "(rel, b, t) \<in> set (walk_files fs q) \<longleftrightarrow> rel \<noteq> [] \<and> node_at fs (q @ rel) = Some (File b t)"
proof -
  have wf: "wf_map fs" using assms by (simp add: fs_wf_def)
  define P where "P = (\<lambda>(k :: path, n :: node). below q k \<and> k \<noteq> q)"
  define g where "g = (\<lambda>(k :: path, n). case n of Dir \<Rightarrow> [] | File b t \<Rightarrow> [(drop (length q) k, b, t)])"
  have g: "(rel, b, t) \<in> set (g kn) \<longleftrightarrow> snd kn = File b t \<and> rel = drop (length q) (fst kn)" for kn
    by (cases kn) (auto simp: g_def split: node.splits)
  have "(rel, b, t) \<in> set (walk_files fs q) \<longleftrightarrow> (\<exists>kn\<in>set fs. P kn \<and> (rel, b, t) \<in> set (g kn))"
    unfolding walk_files_def P_def[symmetric] g_def[symmetric] by auto
  also have "\<dots> \<longleftrightarrow> (\<exists>(k, n)\<in>set fs. n = File b t \<and> (below q k \<and> k \<noteq> q) \<and> rel = drop (length q) k)"
    unfolding g by (simp add: P_def case_prod_beta conj_commute conj_left_commute)
  also have "\<dots> \<longleftrightarrow> (q @ rel, File b t) \<in> set fs \<and> rel \<noteq> []"
    by (rule iffI) (clarsimp simp: below_iff, rule bexI[of _ "(q @ rel, File b t)"], simp_all add: below_iff)
  also have "\<dots> \<longleftrightarrow> rel \<noteq> [] \<and> node_at fs (q @ rel) = Some (File b t)"
    using wf by (auto simp: wf_map_def node_at_def)
  finally show ?thesis .
qed

lemma walk_files_rel_ok: "\<lbrakk>fs_wf fs; (rel, b, t) \<in> set (walk_files fs q)\<rbrakk> \<Longrightarrow> list_all seg_ok rel"
proof -
  assume wf: "fs_wf fs" and m: "(rel, b, t) \<in> set (walk_files fs q)"
  then have n: "rel \<noteq> []" "node_at fs (q @ rel) = Some (File b t)" using set_walk_files by blast+
  then have "list_all seg_ok (q @ rel)" using wf by (auto simp add: fs_wf_def node_at_cons simp del: list_all_append)
  then show "list_all seg_ok rel" by simp
qed

lemma distinct_walk_files:
  assumes "fs_wf fs"
  shows "distinct (map fst (walk_files fs q))"
proof -
  have d: "distinct (map fst fs)" using assms by (simp add: fs_wf_def wf_map_def)
  define g where "g = (\<lambda>(k :: path, n). case n of Dir \<Rightarrow> [] | File b t \<Rightarrow> [(drop (length q) k, b, t)])"
  have sub: "fst ` set (concat (map g (filter (\<lambda>(k, _). below q k \<and> k \<noteq> q) xs)))
      \<subseteq> drop (length q) ` fst ` set (filter (\<lambda>(k, _). below q k \<and> k \<noteq> q) xs)" for xs
    by (force simp: g_def split: node.splits)
  have "distinct (map fst (concat (map g (filter (\<lambda>(k, _). below q k \<and> k \<noteq> q) xs))))" if "distinct (map fst xs)" for xs
    using that
  proof (induction xs)
    case (Cons x xs)
    obtain k n where x: "x = (k, n)" by (cases x)
    have "drop (length q) k \<notin> drop (length q) ` fst ` set (filter (\<lambda>(k, _). below q k \<and> k \<noteq> q) xs)" if "below q k"
      using that Cons.prems x by (auto simp: below_iff image_iff)
    then have "drop (length q) k \<notin> fst ` set (concat (map g (filter (\<lambda>(k, _). below q k \<and> k \<noteq> q) xs)))" if "below q k"
      using that sub[of xs] by blast
    then show ?case using Cons x by (auto simp: g_def split: node.splits)
  qed simp
  from this[OF d] show ?thesis by (simp add: walk_files_def g_def)
qed

definition walked :: "env \<Rightarrow> fs \<Rightarrow> string \<Rightarrow> rawEntry list" where
  "walked E fs bucketPath = raw_entries E (psegs bucketPath) (walk_files fs (psegs bucketPath))"

lemma walked_entry:
  assumes "fs_wf fs"
  shows "e \<in> set (walked E fs p) \<longleftrightarrow>
     (\<exists>b. node_at fs (psegs p @ reRel e) = Some (File b (reMod e)) \<and> reRel e \<noteq> [] \<and> \<not> isSidecar (last (reRel e))
        \<and> \<not> fails (ft E) OpStat (psegs p @ reRel e) \<and> reKey e = Join ''/'' (reRel e) \<and> reSize e = length b)"
  using set_walk_files[OF assms, of _ _ _ "psegs p"]
  by (cases e) (fastforce simp: walked_def raw_entries_def image_iff)

lemma walked_keys:
  assumes "fs_wf fs"
  shows "distinct_keys (walked E fs p)" "[] \<notin> reKey ` set (walked E fs p)"
proof -
  have ok: "list_all seg_ok (reRel e) \<and> reRel e \<noteq> [] \<and> reKey e = Join ''/'' (reRel e)" if "e \<in> set (walked E fs p)" for e
    using that walked_entry[OF assms] walk_files_rel_ok[OF assms] set_walk_files[OF assms] by blast
  have "distinct (map reRel (walked E fs p))"
    using distinct_map_filter[OF distinct_walk_files[OF assms, of "psegs p"]]
    by (simp add: walked_def raw_entries_def comp_def case_prod_beta)
  moreover have "inj_on (Join ''/'') (set (map reRel (walked E fs p)))"
    using ok Join_slash_inj by (auto simp: inj_on_def)
  moreover have "map reKey (walked E fs p) = map (Join ''/'') (map reRel (walked E fs p))"
    using ok by simp
  ultimately show "distinct_keys (walked E fs p)"
    unfolding distinct_keys_def by (metis distinct_map)
  show "[] \<notin> reKey ` set (walked E fs p)" using ok Join_slash_nonempty by force
qed

lemma merged_walk:
  assumes "fs_wf fs"
  shows "sorted (map item_key (list_merged p d (walked E fs bp)))"
    "distinct (map item_key (list_merged p d (walked E fs bp)))"
    "[] \<notin> item_key ` set (list_merged p d (walked E fs bp))"
  using walked_keys[OF assms, of E bp]
  by (auto simp: sorted_list_merged distinct_list_merged set_list_merged common_prefix_def Let_def
      split: if_splits option.splits)

section \<open>A page\<close>

fun item_object :: "emitItem \<Rightarrow> string option" where
  "item_object (ObjectItem e) = Some (reKey e)"
| "item_object (PrefixItem p) = None"

fun item_prefix :: "emitItem \<Rightarrow> string option" where
  "item_prefix (ObjectItem e) = None"
| "item_prefix (PrefixItem p) = Some p"

lemma item_counts: "length (List.map_filter item_object its) + length (List.map_filter item_prefix its) = length its"
proof (induction its)
  case (Cons it its)
  then show ?case by (cases it) (simp_all add: List.map_filter_simps)
qed (simp add: List.map_filter_simps)

lemma resolve_items_Inr:
  "resolve_items E b base its fs = (Inr (os, ps), fs') \<Longrightarrow>
     map loKey os = List.map_filter item_object its \<and> ps = List.map_filter item_prefix its"
proof (induction its arbitrary: fs os ps)
  case (Cons it its)
  show ?case
  proof (cases it)
    case (PrefixItem p)
    obtain x fs1 where r: "resolve_items E b base its fs = (x, fs1)" by (metis surj_pair)
    then obtain ps1 where ps: "x = Inr (os, ps1)" "fs1 = fs'" "ps = p # ps1"
      using Cons.prems PrefixItem by (cases x) auto
    from Cons.IH[OF r[unfolded ps(1,2)]] ps PrefixItem show ?thesis by (simp add: List.map_filter_simps)
  next
    case (ObjectItem e)
    obtain tag fs1 where t: "loadOrBackfillETag E (abs_path (base @ reRel e)) fs = (tag, fs1)" by (metis surj_pair)
    obtain x fs2 where r: "resolve_items E b base its fs1 = (x, fs2)" by (metis surj_pair)
    from Cons.prems obtain o1 os1 where os: "x = Inr (os1, ps)" "fs2 = fs'" "os = o1 # os1" "loKey o1 = reKey e"
      using ObjectItem t r by (cases x) (auto simp: Let_def split: sum.splits)
    from Cons.IH[OF r[unfolded os(1,2)]] os ObjectItem show ?thesis by (simp add: List.map_filter_simps)
  qed
qed (simp add: List.map_filter_simps)

lemma list_page_Inr:
  assumes "list_page E r bp files w = (Inr p, w1)"
  shows "map loKey (pgObjects p) = List.map_filter item_object
       (fst (cut_page (pgMaxKeys p) (seek (list_cursor r) (list_merged (pgPrefix p) (pgDelimiter p) (raw_entries E (psegs bp) files)))))"
    "pgLastKey p = snd (cut_page (pgMaxKeys p) (seek (list_cursor r) (list_merged (pgPrefix p) (pgDelimiter p) (raw_entries E (psegs bp) files))))"
    "pgMaxKeys p = parseMaxKeys (Query r ''max-keys'')" "keyCount p \<le> pgMaxKeys p"
proof -
  let ?m = "seek (list_cursor r) (list_merged (Query r ''prefix'') (Query r ''delimiter'') (raw_entries E (psegs bp) files))"
  obtain items last where c: "cut_page (parseMaxKeys (Query r ''max-keys'')) ?m = (items, last)" by (metis surj_pair)
  obtain x fs1 where ri: "resolve_items E (param_bucket r) (psegs bp) items (disk w) = (x, fs1)" by (metis surj_pair)
  then obtain os ps where x: "x = Inr (os, ps)"
    using assms c by (auto simp: list_page_def Let_def split: sum.splits)
  have p: "p = \<lparr>pgBucket = param_bucket r, pgPrefix = Query r ''prefix'', pgDelimiter = Query r ''delimiter'',
      pgMaxKeys = parseMaxKeys (Query r ''max-keys''), pgLastKey = last, pgObjects = os, pgPrefixes = ps\<rparr>"
    using assms c ri x by (simp add: list_page_def Let_def)
  have len: "length items \<le> parseMaxKeys (Query r ''max-keys'')"
    using c by (auto simp: cut_page_def split: if_splits)
  note its = resolve_items_Inr[OF ri[unfolded x]]
  have "length os + length ps \<le> parseMaxKeys (Query r ''max-keys'')" 
    using its len item_counts[of items] by (metis length_map)
  then show "map loKey (pgObjects p) = List.map_filter item_object
       (fst (cut_page (pgMaxKeys p) (seek (list_cursor r) (list_merged (pgPrefix p) (pgDelimiter p) (raw_entries E (psegs bp) files)))))"
    "pgLastKey p = snd (cut_page (pgMaxKeys p) (seek (list_cursor r) (list_merged (pgPrefix p) (pgDelimiter p) (raw_entries E (psegs bp) files))))"
    "pgMaxKeys p = parseMaxKeys (Query r ''max-keys'')" "keyCount p \<le> pgMaxKeys p"
    using its c by (simp_all add: keyCount_def p)
qed

end
