(* ===== verification/Bucket_Laws.thy ===== *)
theory Bucket_Laws
  imports Listing_Laws Object_Delete
begin

text \<open>
  Laws of the bucket operations: a created bucket is there, a deleted bucket held nothing
  but sidecars and is gone, and neither touches another bucket.
\<close>

definition bucket_segs :: "string \<Rightarrow> path" where
  "bucket_segs b = root_segs @ [b]"

definition bucket_path :: "string \<Rightarrow> string" where
  "bucket_path b = abs_path (bucket_segs b)"

lemma bucket_segs_proper: "ValidateBucketName b = None \<Longrightarrow> list_all proper_seg (bucket_segs b)"
  by (simp add: bucket_segs_def ValidateBucketName_proper)

lemma bucket_segs_ok: "ValidateBucketName b = None \<Longrightarrow> list_all seg_ok (bucket_segs b)"
  using bucket_segs_proper[of b] proper_seg_ok by (metis list_all_iff)

lemma psegs_bucket_path: "ValidateBucketName b = None \<Longrightarrow> psegs (bucket_path b) = bucket_segs b"
  by (simp add: bucket_path_def psegs_abs_path bucket_segs_ok)

lemma SafeJoin_bucket: "ValidateBucketName b = None \<Longrightarrow> SafeJoin ObjectsRoot [b] = Inr (bucket_path b)"
  using SafeJoin_proper[OF root_proper, of "[b]"] Split_bucket[of b] ValidateBucketName_proper[of b]
  by (simp add: ObjectsRoot_def bucket_path_def bucket_segs_def del: SafeJoin.simps)

lemma resolvePath_bucket: "ValidateBucketName b = None \<Longrightarrow> resolvePath r [b] = Inr (bucket_path b)"
  by (simp add: resolvePath_def SafeJoin_bucket del: SafeJoin.simps)

section \<open>Creating\<close>

lemma create_bucket_acl_disk:
  assumes "create_bucket_acl E r b w = (resp, w1)"
  shows "disk w1 = disk w \<or> (\<exists>v. disk w1 = snd (PutBucketACL E b v (disk w)))"
  using assms
  by (auto simp: create_bucket_acl_def Let_def auditACLChange_def split: if_splits sum.splits prod.splits option.splits
      intro!: exI[of _ "projr (NormalizeCannedACL (GetHeader r ''x-amz-acl''))"])

lemma Dir_survives_ACL:
  assumes "node_at fs q = Some Dir" "fs_wf fs" "ValidateBucketName b = None" "q = bucket_segs b"
  shows "node_at (snd (PutBucketACL E b v fs)) q = Some Dir"
proof -
  have "bucketACLPath b = Inr (abs_path (bucket_segs b @ [''.acl.json'']))"
    using SafeJoin_proper[OF root_proper, of "[b, ''.acl.json'']"] Split_bucket[OF assms(3)] ValidateBucketName_proper[OF assms(3)]
    by (simp add: bucketACLPath_def ObjectsRoot_def bucket_segs_def proper_seg_def del: SafeJoin.simps)
  then have s: "acl_slot b = abs_path (bucket_segs b @ [''.acl.json''])" by (simp add: acl_slot_def)
  have ok: "list_all seg_ok (bucket_segs b @ [''.acl.json''])"
    using bucket_segs_ok[OF assms(3)] by (simp add: seg_ok_def)
  have "psegs (acl_slot b) = bucket_segs b @ [''.acl.json'']" using ok by (simp add: s psegs_abs_path)
  moreover have "tmp_segs (acl_slot b) = bucket_segs b @ [''.acl.json.tmp'']"
    using psegs_suffix[OF ok, of "''.tmp''"] by (simp add: s)
  ultimately show ?thesis using bucket_acl.put_frame[of q b E v fs] assms(1,4) by simp
qed

text \<open>Unless the answer is that the directory could not be made, the bucket is there.\<close>

lemma CreateBucket_makes:
  assumes "fs_wf (disk w)" "ValidateBucketName (param_bucket r) = None" "CreateBucketHandler E r w = (resp, w1)"
    "\<not> (\<exists>fs1 e. MkdirAll (ft E) (bucket_path (param_bucket r)) (disk w) = (Some e, fs1))"
  shows "node_at (disk w1) (bucket_segs (param_bucket r)) = Some Dir"
proof -
  let ?b = "param_bucket r"
  note rp = resolvePath_bucket[OF assms(2), of r]
  show ?thesis
  proof (cases "Stat (ft E) (disk w) (bucket_path ?b) = Inr Dir")
    case True
    then have "w1 = w" using assms(2,3) rp by (simp add: CreateBucketHandler_def Let_def)
    then show ?thesis using True Stat_at[OF assms(1)] psegs_bucket_path[OF assms(2)] by simp
  next
    case False
    from assms(4) obtain fs1 where mk: "MkdirAll (ft E) (bucket_path ?b) (disk w) = (None, fs1)"
      by (metis option.exhaust surj_pair)
    have wf1: "fs_wf fs1" using MkdirAll_wf[OF assms(1), of "ft E" "bucket_path ?b"] mk by simp
    have d1: "node_at fs1 (bucket_segs ?b) = Some Dir" using MkdirAll_ok[OF mk] psegs_bucket_path[OF assms(2)] by simp
    have "create_bucket_acl E r ?b (w\<lparr>disk := fs1\<rparr>) = (resp, w1)"
      using assms(2,3) rp False mk by (simp add: CreateBucketHandler_def Let_def)
    from create_bucket_acl_disk[OF this] show ?thesis
      using d1 Dir_survives_ACL[OF d1 wf1 assms(2) refl] by auto
  qed
qed

lemma CreateBucket_wf:
  assumes "fs_wf (disk w)"
  shows "fs_wf (disk (snd (CreateBucketHandler E r w)))"
proof -
  have acl: "fs_wf (disk (snd (create_bucket_acl E r b w0)))" if "fs_wf (disk w0)" for b w0
    using create_bucket_acl_disk[of E r b w0] bucket_acl.put_wf[OF that] that
    by (cases "create_bucket_acl E r b w0") auto
  have mk: "fs_wf fs1" if "MkdirAll (ft E) p (disk w) = (x, fs1)" for p x fs1
    using MkdirAll_wf[OF assms, of "ft E" p] that by simp
  show ?thesis
    using assms mk acl
    by (auto simp: CreateBucketHandler_def Let_def simp del: SafeJoin.simps split: sum.splits prod.splits option.splits)
qed

lemma HeadBucket_there:
  assumes "fs_wf (disk w)" "ValidateBucketName (param_bucket r) = None"
    "\<not> fails (ft E) OpStat (bucket_segs (param_bucket r))" "node_at (disk w) (bucket_segs (param_bucket r)) = Some Dir"
  shows "HeadBucketHandler E r w = Status 200"
proof -
  have "Stat (ft E) (disk w) (bucket_path (param_bucket r)) = Inr Dir"
    using assms Stat_at[OF assms(1)] psegs_bucket_path[OF assms(2)] by simp
  moreover have "param_bucket r \<noteq> []" using assms(2) by (auto simp: ValidateBucketName_def bucketNameRe_def)
  ultimately show ?thesis using SafeJoin_bucket[OF assms(2)] by (simp add: HeadBucketHandler_def del: SafeJoin.simps)
qed

text \<open>A refused canned ACL leaves the bucket behind.\<close>

lemma CreateBucket_bad_acl:
  assumes "fs_wf (disk w)" "ValidateBucketName (param_bucket r) = None"
    "\<not> (\<exists>fs1 e. MkdirAll (ft E) (bucket_path (param_bucket r)) (disk w) = (Some e, fs1))"
    "Stat (ft E) (disk w) (bucket_path (param_bucket r)) \<noteq> Inr Dir"
    "GetHeader r ''x-amz-acl'' \<noteq> []" "NormalizeCannedACL (GetHeader r ''x-amz-acl'') = Inl e"
    "CreateBucketHandler E r w = (resp, w1)"
  shows "status resp = 400 \<and> node_at (disk w1) (bucket_segs (param_bucket r)) = Some Dir"
proof -
  from assms(3) obtain fs1 where mk: "MkdirAll (ft E) (bucket_path (param_bucket r)) (disk w) = (None, fs1)"
    by (metis option.exhaust surj_pair)
  have "status resp = 400"
    using assms(2,4-7) resolvePath_bucket[OF assms(2), of r] mk
    by (auto simp: CreateBucketHandler_def create_bucket_acl_def Let_def)
  then show ?thesis using CreateBucket_makes[OF assms(1,2,7,3)] by simp
qed

section \<open>Deleting\<close>

lemma bucketIsEmpty_iff:
  assumes "fs_wf fs" "bucketIsEmpty E p fs = Inr True" "node_at fs (psegs p) = Some Dir" "psegs p @ rel \<noteq> psegs p"
    "node_at fs (psegs p @ rel) = Some (File b t)"
  shows "isSidecar (last rel)"
proof -
  have "lookup_path fs (psegs p) = Inr Dir" using lookup_iff[OF assms(1)] assms(3) by simp
  then have "list_all (\<lambda>(rel, _, _). isSidecar (last (psegs p @ rel))) (walk_files fs (psegs p))"
    using assms(2) by (auto simp: bucketIsEmpty_def WalkDir_def split: if_splits)
  moreover have "(rel, b, t) \<in> set (walk_files fs (psegs p))" using set_walk_files[OF assms(1)] assms(4,5) by auto
  ultimately have "isSidecar (last (psegs p @ rel))" unfolding list_all_iff by blast
  then show ?thesis using assms(4) by simp
qed

lemma DeleteBucket_204:
  assumes "fs_wf (disk w)" "ValidateBucketName (param_bucket r) = None" "DeleteBucketHandler E r w = (resp, w1)" "status resp = 204"
  shows "bucketIsEmpty E (bucket_path (param_bucket r)) (disk w) = Inr True"
    "disk w1 = filter (\<lambda>(k, _). \<not> below (bucket_segs (param_bucket r)) k) (disk w)"
proof -
  let ?b = "param_bucket r"
  have ne: "?b \<noteq> []" using assms(2) by (auto simp: ValidateBucketName_def bucketNameRe_def)
  note h = assms(3)[unfolded DeleteBucketHandler_def Let_def resolvePath_bucket[OF assms(2)]]
  have root: "bucket_path ?b \<noteq> ObjectsRoot"
    using h assms(4) ne by (auto split: if_splits)
  have there: "Stat (ft E) (disk w) (bucket_path ?b) \<noteq> Inl ENOENT" using h assms(4) ne root by (auto split: if_splits)
  from h ne root there have h1: "(case bucketIsEmpty E (bucket_path ?b) (disk w) of
        Inl _ \<Rightarrow> (respondError r 500 ''InternalError'' ''Error reading bucket'', w)
      | Inr False \<Rightarrow> (respondError r 409 ''BucketNotEmpty'' ''The bucket you tried to delete is not empty. Remove all objects first.'', w)
      | Inr True \<Rightarrow> (case RemoveAll (ft E) (bucket_path ?b) (disk w) of
          (Some _, fs1) \<Rightarrow> (respondError r 500 ''InternalError'' ''Error deleting bucket'', w\<lparr>disk := fs1\<rparr>)
        | (None, fs1) \<Rightarrow> (Status 204, w\<lparr>disk := fs1\<rparr>))) = (resp, w1)" by simp
  show e: "bucketIsEmpty E (bucket_path ?b) (disk w) = Inr True"
    using h1 assms(4) by (cases "bucketIsEmpty E (bucket_path ?b) (disk w)") (auto split: bool.splits)
  show "disk w1 = filter (\<lambda>(k, _). \<not> below (bucket_segs ?b) k) (disk w)"
    using h1 assms(4) psegs_bucket_path[OF assms(2)] unfolding e
    by (auto simp: RemoveAll_def split: if_splits)
qed

lemma DeleteBucket_effect:
  assumes "fs_wf (disk w)" "ValidateBucketName (param_bucket r) = None" "DeleteBucketHandler E r w = (resp, w1)" "status resp = 204"
  shows "fs_wf (disk w1)" "node_at (disk w1) (bucket_segs (param_bucket r) @ q) = None"
    "\<not> below (bucket_segs (param_bucket r)) k \<Longrightarrow> node_at (disk w1) k = node_at (disk w) k"
    "\<lbrakk>node_at (disk w) (bucket_segs (param_bucket r) @ rel) = Some (File c t); rel \<noteq> []\<rbrakk> \<Longrightarrow> isSidecar (last rel)"
proof -
  let ?B = "bucket_segs (param_bucket r)"
  note d = DeleteBucket_204[OF assms]
  have ne: "?B \<noteq> []" by (simp add: bucket_segs_def)
  show "fs_wf (disk w1)"
    using d(2) RemoveAll_wf[OF assms(1), of no_fault "bucket_path (param_bucket r)"] psegs_bucket_path[OF assms(2)]
    by (simp add: RemoveAll_def no_fault_def)
  show "node_at (disk w1) (?B @ q) = None"
    using d(2) ne by (simp add: node_at_def map_of_filter_keys below_iff)
  show "\<not> below ?B k \<Longrightarrow> node_at (disk w1) k = node_at (disk w) k"
    using d(2) by (simp add: node_at_def map_of_filter_keys)
  assume f: "node_at (disk w) (?B @ rel) = Some (File c t)" "rel \<noteq> []"
  then have "node_at (disk w) ?B = Some Dir" using fs_wf_ancestors[OF assms(1)] by blast
  then show "isSidecar (last rel)"
    using bucketIsEmpty_iff[OF assms(1) d(1)] f psegs_bucket_path[OF assms(2)] by simp
qed

end
