(* ===== verification/Bucket_Theorems.thy ===== *)
theory Bucket_Theorems
  imports Bucket_Laws Reference_Env
begin

text \<open>
  What buckets and their listing guarantee, each theorem with a run of the model in which
  its hypotheses hold.
\<close>

text \<open>A world with one bucket that holds \<open>a\<close>, \<open>d/x\<close> and \<open>d/y\<close>.\<close>

definition ref_listed :: world where
  "ref_listed = ref_world\<lparr>disk := [([''data''], Dir), ([''data'', ''objects''], Dir), (bucket_segs ''bkt'', Dir),
     (bucket_segs ''bkt'' @ [''d''], Dir), (bucket_segs ''bkt'' @ [''d'', ''y''], File ''yy'' 2),
     (bucket_segs ''bkt'' @ [''a''], File ''hello'' 1), (bucket_segs ''bkt'' @ [''d'', ''x''], File ''x'' 3)]\<rparr>"

lemma ref_listed_wf: "fs_wf (disk ref_listed)"
  by (auto simp: fs_wf_def ref_listed_def wf_map_def seg_ok_def node_at_def bucket_segs_def root_segs_def split: if_splits)

section \<open>Listing\<close>

text \<open>C15: A page shows its part of the merged stream; the stream is strictly ordered, and a client
  that follows the cursor of each page collects it once, in at most one page more than its
  length.\<close>

theorem listing_pages:
  assumes "fs_wf (disk w)" "list_page E r bp (walk_files (disk w) (psegs bp)) w = (Inr p, w1)"
    and "m = list_merged (pgPrefix p) (pgDelimiter p) (walked E (disk w) bp)"
  shows "map loKey (pgObjects p) = List.map_filter item_object (fst (cut_page (pgMaxKeys p) (seek (list_cursor r) m)))
    \<and> pgLastKey p = snd (cut_page (pgMaxKeys p) (seek (list_cursor r) m))
    \<and> drain (Suc (length m)) (pgMaxKeys p) [] m = Some m
    \<and> sorted (map item_key m) \<and> distinct (map item_key m)"
proof -
  have "drain (Suc (length m)) (pgMaxKeys p) [] m = Some m"
    using merged_walk[OF assms(1)] assms(3) list_page_Inr(3)[OF assms(2)] parseMaxKeys_range[of "Query r ''max-keys''"]
    by (intro drain_complete) auto
  then show ?thesis
    using list_page_Inr(1,2)[OF assms(2)] merged_walk(1,2)[OF assms(1)] assms(3) by (simp add: walked_def)
qed

lemma listing_pages_witness:
  "\<exists>p w1. list_page ref_env ((ref_request ''GET'' ''bkt'' [] [])\<lparr>req_query := [(''delimiter'', [''/'']), (''max-keys'', [''1''])]\<rparr>)
       (bucket_path ''bkt'') (walk_files (disk ref_listed) (psegs (bucket_path ''bkt''))) ref_listed = (Inr p, w1)
     \<and> map loKey (pgObjects p) = [''a''] \<and> pgLastKey p = Some ''a''
     \<and> drain (Suc (length (list_merged (pgPrefix p) (pgDelimiter p) (walked ref_env (disk ref_listed) (bucket_path ''bkt'')))))
         (pgMaxKeys p) [] (list_merged (pgPrefix p) (pgDelimiter p) (walked ref_env (disk ref_listed) (bucket_path ''bkt'')))
       = Some (list_merged (pgPrefix p) (pgDelimiter p) (walked ref_env (disk ref_listed) (bucket_path ''bkt'')))"
proof -
  let ?r = "(ref_request ''GET'' ''bkt'' [] [])\<lparr>req_query := [(''delimiter'', [''/'']), (''max-keys'', [''1''])]\<rparr>"
  let ?x = "list_page ref_env ?r (bucket_path ''bkt'') (walk_files (disk ref_listed) (psegs (bucket_path ''bkt''))) ref_listed"
  have "map_sum (\<lambda>_. ()) (\<lambda>p. (map loKey (pgObjects p), pgLastKey p)) (fst ?x) = Inr ([''a''], Some ''a'')" by code_simp
  then obtain p where p: "fst ?x = Inr p" "map loKey (pgObjects p) = [''a'']" "pgLastKey p = Some ''a''"
    by (cases "fst ?x") auto
  then have x: "?x = (Inr p, snd ?x)" by (metis surjective_pairing)
  note c = listing_pages[OF ref_listed_wf x refl]
  show ?thesis by (intro exI[of _ p] exI[of _ "snd ?x"] conjI) (use x p(2,3) c in blast)+
qed

text \<open>A file is an object unless its name is a sidecar's; the specification knows nothing of the algorithm.\<close>

definition is_object :: "env \<Rightarrow> fs \<Rightarrow> path \<Rightarrow> string \<Rightarrow> bool" where
  "is_object E fs base k \<longleftrightarrow>
     (\<exists>rel b t. rel \<noteq> [] \<and> k = Join ''/'' rel \<and> node_at fs (base @ rel) = Some (File b t)
        \<and> \<not> isSidecar (last rel) \<and> \<not> fails (ft E) OpStat (base @ rel))"

lemma walked_objects: "fs_wf fs \<Longrightarrow> reKey ` set (walked E fs bp) = {k. is_object E fs (psegs bp) k}"
proof (intro set_eqI iffI)
  fix k assume wf: "fs_wf fs"
  show "k \<in> {k. is_object E fs (psegs bp) k}" if "k \<in> reKey ` set (walked E fs bp)"
    using that walked_entry[OF wf, of _ E bp] unfolding is_object_def by blast
  assume "k \<in> {k. is_object E fs (psegs bp) k}"
  then obtain rel b t where o: "rel \<noteq> []" "k = Join ''/'' rel" "node_at fs (psegs bp @ rel) = Some (File b t)"
    "\<not> isSidecar (last rel)" "\<not> fails (ft E) OpStat (psegs bp @ rel)" unfolding is_object_def by blast
  then have "\<lparr>reKey = k, reRel = rel, reMod = t, reSize = length b\<rparr> \<in> set (walked E fs bp)"
    by (simp add: walked_entry[OF wf])
  then show "k \<in> reKey ` set (walked E fs bp)" by force
qed

text \<open>C14: What the stream holds: an object is listed by its key when the
  key has the prefix and no delimiter after it; and a common prefix is listed when some
  object is rolled up into it.\<close>

theorem listing_contents:
  assumes "fs_wf fs"
  shows "{k. \<exists>e. ObjectItem e \<in> set (list_merged p d (walked E fs bp)) \<and> k = reKey e}
         = {k. is_object E fs (psegs bp) k \<and> HasPrefix k p \<and> (d = [] \<or> \<not> Contains (drop (length p) k) d)}
    \<and> {c. PrefixItem c \<in> set (list_merged p d (walked E fs bp))}
         = {c. \<exists>k. is_object E fs (psegs bp) k \<and> HasPrefix k p \<and> common_prefix p d k = Some c}"
proof -
  have n: "common_prefix p d k = None \<longleftrightarrow> d = [] \<or> \<not> Contains (drop (length p) k) d" for k
    by (auto simp: common_prefix_def Let_def Contains_def split: option.splits)
  have o: "is_object E fs (psegs bp) k \<longleftrightarrow> (\<exists>e\<in>set (walked E fs bp). k = reKey e)" for k
    using walked_objects[OF assms, of E bp] by (metis (mono_tags, lifting) image_iff mem_Collect_eq)
  show ?thesis unfolding set_list_merged n[symmetric] o by auto
qed

lemma listing_contents_witness:
  "{c. PrefixItem c \<in> set (list_merged [] ''/'' (walked ref_env (disk ref_listed) (bucket_path ''bkt'')))}
     = {c. \<exists>k. is_object ref_env (disk ref_listed) (psegs (bucket_path ''bkt'')) k \<and> HasPrefix k [] \<and> common_prefix [] ''/'' k = Some c}
   \<and> map item_key (list_merged [] ''/'' (walked ref_env (disk ref_listed) (bucket_path ''bkt''))) = [''a'', ''d/'']"
proof -
  have "map item_key (list_merged [] ''/'' (walked ref_env (disk ref_listed) (bucket_path ''bkt''))) = [''a'', ''d/'']" by code_simp
  then show ?thesis using listing_contents[OF ref_listed_wf] by blast
qed

text \<open>No response carries more than 1000 keys, whatever \<open>max-keys\<close> says, and the cursor it
  hands out survives the trip through the query string.\<close>

theorem listing_page_bounds:
  assumes "list_page E r bp files w = (Inr p, w1)"
  shows "keyCount p \<le> pgMaxKeys p \<and> 1 \<le> pgMaxKeys p \<and> pgMaxKeys p \<le> 1000
    \<and> (\<forall>k r'. pgLastKey p = Some k \<and> k \<noteq> [] \<longrightarrow> Query r' ''continuation-token'' = encodeContinuation k \<longrightarrow> list_cursor r' = k)"
proof -
  have "list_cursor r' = k" if "k \<noteq> []" "Query r' ''continuation-token'' = encodeContinuation k" for k r'
    using that by (simp add: list_cursor_def decode_encode_continuation) (simp add: encodeContinuation_def b64_encode_empty_iff)
  then show ?thesis using list_page_Inr(3,4)[OF assms] parseMaxKeys_range[of "Query r ''max-keys''"] by simp
qed

lemma listing_page_bounds_witness:
  "keyCount (projr (fst (list_page ref_env (ref_request ''GET'' ''bkt'' [] []) (bucket_path ''bkt'')
      (walk_files (disk ref_listed) (psegs (bucket_path ''bkt''))) ref_listed))) \<le> 1000"
proof -
  let ?x = "list_page ref_env (ref_request ''GET'' ''bkt'' [] []) (bucket_path ''bkt'')
      (walk_files (disk ref_listed) (psegs (bucket_path ''bkt''))) ref_listed"
  have "isl (fst ?x) = False" by code_simp
  then have "?x = (Inr (projr (fst ?x)), snd ?x)" by (metis sum.collapse(2) surjective_pairing)
  from listing_page_bounds[OF this] show ?thesis by linarith
qed

section \<open>Buckets\<close>

text \<open>C33: A bucket is deleted only when every file in it is a sidecar; then it is gone, and
  nothing outside it has changed.\<close>

theorem bucket_delete_loses_no_object:
  assumes "fs_wf (disk w)" "ValidateBucketName (param_bucket r) = None"
    "DeleteBucketHandler E r w = (resp, w1)" "status resp = 204"
  shows "(\<forall>rel c t. rel \<noteq> [] \<longrightarrow> node_at (disk w) (bucket_segs (param_bucket r) @ rel) = Some (File c t) \<longrightarrow> isSidecar (last rel))
    \<and> (\<forall>q. node_at (disk w1) (bucket_segs (param_bucket r) @ q) = None)
    \<and> (\<forall>k. \<not> below (bucket_segs (param_bucket r)) k \<longrightarrow> node_at (disk w1) k = node_at (disk w) k)
    \<and> fs_wf (disk w1)"
  using DeleteBucket_effect[OF assms] by blast

lemma bucket_delete_loses_no_object_witness:
  "node_at (disk (snd (DeleteBucketHandler ref_env (ref_request ''DELETE'' ''bkt'' [] [])
      (snd (CreateBucketHandler ref_env (ref_request ''PUT'' ''bkt'' [] []) ref_world))))) (bucket_segs ''bkt'' @ []) = None"
proof -
  let ?w = "snd (CreateBucketHandler ref_env (ref_request ''PUT'' ''bkt'' [] []) ref_world)"
  have d: "disk ?w = [([''data''], Dir), ([''data'', ''objects''], Dir), ([''data'', ''objects'', ''bkt''], Dir)]" by code_simp
  have wf: "fs_wf (disk ?w)" unfolding d by (auto simp: fs_wf_def wf_map_def seg_ok_def node_at_def split: if_splits)
  have h: "ValidateBucketName (param_bucket (ref_request ''DELETE'' ''bkt'' [] [])) = None"
    "status (fst (DeleteBucketHandler ref_env (ref_request ''DELETE'' ''bkt'' [] []) ?w)) = 204" by code_simp+
  from bucket_delete_loses_no_object[OF wf h(1) surjective_pairing h(2)] show ?thesis
    unfolding ref_request_simps by blast
qed

text \<open>A create that could make the directory leaves a bucket that HEAD finds, even when the
  create itself answered 400 for the value of \<open>x-amz-acl\<close>.\<close>

theorem bucket_create_then_head:
  assumes "fs_wf (disk w)" "ValidateBucketName (param_bucket r) = None" "CreateBucketHandler E r w = (resp, w1)"
    "fst (MkdirAll (ft E) (bucket_path (param_bucket r)) (disk w)) = None"
    "param_bucket r' = param_bucket r" "\<not> fails (ft E') OpStat (bucket_segs (param_bucket r))"
  shows "HeadBucketHandler E' r' w1 = Status 200"
proof -
  have wf1: "fs_wf (disk w1)" using CreateBucket_wf[OF assms(1), of E r] assms(3) by simp
  have "node_at (disk w1) (bucket_segs (param_bucket r)) = Some Dir"
    by (rule CreateBucket_makes[OF assms(1-3)]) (metis assms(4) fst_conv option.distinct(1))
  then show ?thesis using HeadBucket_there[OF wf1, of r' E'] assms(2,5,6) by simp
qed

lemma bucket_create_then_head_witness:
  "status (fst (CreateBucketHandler ref_env ((ref_request ''PUT'' ''bkt'' [] [])\<lparr>req_header := [(''X-Amz-Acl'', [''nonsense''])]\<rparr>) ref_world)) = 400
   \<and> HeadBucketHandler ref_env (ref_request ''HEAD'' ''bkt'' [] [])
       (snd (CreateBucketHandler ref_env ((ref_request ''PUT'' ''bkt'' [] [])\<lparr>req_header := [(''X-Amz-Acl'', [''nonsense''])]\<rparr>) ref_world)) = Status 200"
proof -
  let ?r = "(ref_request ''PUT'' ''bkt'' [] [])\<lparr>req_header := [(''X-Amz-Acl'', [''nonsense''])]\<rparr>"
  have h: "status (fst (CreateBucketHandler ref_env ?r ref_world)) = 400" "ValidateBucketName (param_bucket ?r) = None"
    "fst (MkdirAll (ft ref_env) (bucket_path (param_bucket ?r)) (disk ref_world)) = None"
    "param_bucket (ref_request ''HEAD'' ''bkt'' [] []) = param_bucket ?r"
    "\<not> fails (ft ref_env) OpStat (bucket_segs (param_bucket ?r))" by code_simp+
  show ?thesis using h(1) bucket_create_then_head[OF ref_world_wf h(2) surjective_pairing h(3-5)] by blast
qed

end
