(* ===== verification/Sigv4.thy ===== *)
theory Sigv4
  imports Objects
begin

text \<open>
  \<open>internal/auth/auth.go\<close> and \<open>presign.go\<close>: AWS signature version 4 on the storage
  surface, in the \<open>Authorization\<close> header and in presigned URLs, the permission check and
  the anonymous read.  A middleware answers or hands the request on with the identity it
  found; it reads the user store and the file system and changes neither.
\<close>

section \<open>Canonical forms\<close>

definition buildCanonicalQuery :: "(string \<times> string list) list \<Rightarrow> string" where
  "buildCanonicalQuery query =
     Join ''&'' (sort (concat (map (\<lambda>(k, vs). map (\<lambda>v. QueryEscape k @ ''='' @ QueryEscape v) vs) query)))"

definition canonical_value :: "request \<Rightarrow> string \<Rightarrow> string" where
  "canonical_value r name =
     (if name = ''host'' then req_host r
      else let values = header_values r name
           in if values = [] then [] else Join '' '' (Fields (Join '','' values)))"

definition buildCanonicalHeaders :: "request \<Rightarrow> string \<Rightarrow> string" where
  "buildCanonicalHeaders r signedHeaders =
     concat (map (\<lambda>h. let name = TrimSpace (ToLower h) in name @ '':'' @ canonical_value r name @ ''\<newline>'')
       (Split CHR '';'' signedHeaders))"

definition signedHeadersContains :: "string \<Rightarrow> string \<Rightarrow> bool" where
  "signedHeadersContains signedHeaders name = list_ex (\<lambda>h. TrimSpace (ToLower h) = name) (Split CHR '';'' signedHeaders)"

definition canonical_request :: "request \<Rightarrow> string \<Rightarrow> string \<Rightarrow> string \<Rightarrow> string" where
  "canonical_request r canonicalQuery signedHeaders payloadHash =
     Join ''\<newline>'' [req_method r, req_escaped_path r, canonicalQuery, buildCanonicalHeaders r signedHeaders,
       signedHeaders, payloadHash]"

definition buildCanonicalRequest ::
  "request \<Rightarrow> string \<Rightarrow> string \<Rightarrow> (string \<times> string list) list option \<Rightarrow> string" where
  "buildCanonicalRequest r signedHeaders payloadHash extraQuery =
     canonical_request r
       (buildCanonicalQuery (case extraQuery of Some q \<Rightarrow> q | None \<Rightarrow> req_query r)) signedHeaders payloadHash"

definition hashSHA256 :: "lib \<Rightarrow> string \<Rightarrow> string" where
  "hashSHA256 L s = hex_encode (sha256 L s)"

definition hmacSHA256 :: "lib \<Rightarrow> bytes \<Rightarrow> bytes \<Rightarrow> bytes" where
  "hmacSHA256 L message key = hmac L key message"

definition getSigningKey :: "lib \<Rightarrow> string \<Rightarrow> string \<Rightarrow> string \<Rightarrow> string \<Rightarrow> bytes" where
  "getSigningKey L secret date region service =
     (let kDate = hmacSHA256 L date secret;
          kRegion = hmacSHA256 L region kDate;
          kService = hmacSHA256 L service kRegion
      in hmacSHA256 L ''aws4_request'' kService)"

definition string_to_sign :: "lib \<Rightarrow> string \<Rightarrow> string \<Rightarrow> string \<Rightarrow> string \<Rightarrow> string \<Rightarrow> string" where
  "string_to_sign L amzDate date region service canonicalRequest =
     Join ''\<newline>'' [''AWS4-HMAC-SHA256'', amzDate,
       Join ''/'' [date, region, service, ''aws4_request''], hashSHA256 L canonicalRequest]"

definition signature :: "lib \<Rightarrow> string \<Rightarrow> string \<Rightarrow> string \<Rightarrow> string \<Rightarrow> string \<Rightarrow> string \<Rightarrow> bytes" where
  "signature L secret amzDate date region service canonicalRequest =
     hmacSHA256 L (string_to_sign L amzDate date region service canonicalRequest)
       (getSigningKey L (''AWS4'' @ secret) date region service)"

section \<open>Permissions\<close>

definition getActionFromMethod :: "string \<Rightarrow> string \<Rightarrow> string" where
  "getActionFromMethod method bucket =
     (if method = ''GET'' then (if bucket = [] then ''s3:ListBuckets'' else ''s3:GetObject'')
      else if method = ''HEAD'' then (if bucket = [] then ''s3:ListBuckets'' else ''s3:ListBucket'')
      else if method = ''PUT'' then
        (if bucket \<noteq> [] \<and> \<not> Contains bucket ''/'' then ''s3:CreateBucket'' else ''s3:PutObject'')
      else if method = ''DELETE'' then
        (if bucket \<noteq> [] \<and> \<not> Contains bucket ''/'' then ''s3:DeleteBucket'' else ''s3:DeleteObject'')
      else if method = ''POST'' then ''s3:PutObject''
      else [])"

definition isBucketAllowed :: "string list \<Rightarrow> string \<Rightarrow> bool" where
  "isBucketAllowed buckets bucket = list_ex (\<lambda>b. b = ''*'' \<or> b = bucket) buckets"

definition isActionAllowed :: "string list \<Rightarrow> string \<Rightarrow> bool" where
  "isActionAllowed actions action =
     (list_ex (\<lambda>a. a = ''*'' \<or> a = action) actions
      \<or> action = ''s3:ListBucket''
        \<and> list_ex (\<lambda>a. a = ''s3:GetObject'' \<or> a = ''s3:PutObject'' \<or> a = ''s3:DeleteObject'') actions)"

definition isUserAllowed :: "User \<Rightarrow> string \<Rightarrow> string \<Rightarrow> bool" where
  "isUserAllowed user method bucket =
     (let action = getActionFromMethod method bucket
      in action \<noteq> []
       \<and> list_ex (\<lambda>rule. EqualFold (Effect rule) ''Allow''
            \<and> isBucketAllowed (Buckets rule) bucket \<and> isActionAllowed (Actions rule) action) (ACL user))"

section \<open>Answers\<close>

text \<open>The status line has been flushed by \<open>AbortWithStatus\<close> before the body is rendered.\<close>

definition abortWithError :: "request \<Rightarrow> nat \<Rightarrow> string \<Rightarrow> string \<Rightarrow> response" where
  "abortWithError r s code message =
     \<lparr>status = s, headers = [(''Content-Type'', ''application/xml'')],
      payload = XML ''Error'' (S3ErrorBody code message (ctx_requestID r)), error_code = []\<rparr>"

abbreviation denied :: "request \<Rightarrow> string \<Rightarrow> response" where
  "denied r message \<equiv> abortWithError r 401 ''AccessDenied'' message"

definition validateTimestamp :: "env \<Rightarrow> request \<Rightarrow> string \<Rightarrow> response option" where
  "validateTimestamp E r amzDate =
     (case ParseAmzDate (lb E) amzDate of
        None \<Rightarrow> Some (denied r ''Invalid X-Amz-Date format'')
      | Some t \<Rightarrow>
          if Sub (now E) t > 15 * Minute \<or> Sub t (now E) > 15 * Minute
          then Some (denied r ''Request timestamp expired'') else None)"

definition as_user :: "User \<Rightarrow> request \<Rightarrow> request" where
  "as_user u r = r\<lparr>ctx_user := Some u, ctx_authMethod := ''sigv4''\<rparr>"

section \<open>Header signatures\<close>

definition auth_params :: "string \<Rightarrow> (string \<times> string) list" where
  "auth_params s =
     fold (\<lambda>param m. let (k, v, ok) = Cut CHR ''='' (TrimSpace param) in if ok then AList.update k v m else m)
       (Split CHR '','' s) []"

definition skips_body_check :: "string \<Rightarrow> bool" where
  "skips_body_check payloadHash \<longleftrightarrow> payloadHash = ''UNSIGNED-PAYLOAD'' \<or> HasPrefix payloadHash ''STREAMING-''"

definition check_body :: "lib \<Rightarrow> request \<Rightarrow> string \<Rightarrow> response option" where
  "check_body L r payloadHash =
     (if skips_body_check payloadHash then None
      else case ReadAll r of
          None \<Rightarrow> Some (abortWithError r 400 ''IncompleteBody'' ''Failed to read request body'')
        | Some buf \<Rightarrow>
            if hex_encode (sha256 L buf) \<noteq> payloadHash
            then Some (abortWithError r 400 ''XAmzContentSHA256Mismatch''
              ''The provided 'x-amz-content-sha256' header does not match what was computed'')
            else None)"

text \<open>The part both entry points share: the user's secret, and the comparison of the signatures.\<close>

definition verify_signature ::
  "env \<Rightarrow> 'db bolt \<Rightarrow> 'db \<Rightarrow> request \<Rightarrow> string \<Rightarrow> (string \<Rightarrow> bytes) \<Rightarrow> string \<Rightarrow> string \<Rightarrow> response + User" where
  "verify_signature E B d r accessKey expected signatureProvided mismatch =
     (case GetUser (lb E) B accessKey d of
        Inl _ \<Rightarrow> Inl (denied r ''User not found'')
      | Inr user \<Rightarrow>
          (case Decrypt (lb E) (enc_key E) (EncryptedSecret user) of
             None \<Rightarrow> Inl (abortWithError r 500 ''InternalError'' ''Error decrypting secret'')
           | Some secret \<Rightarrow>
               if hex_decode signatureProvided \<noteq> Some (expected secret)
               then Inl (abortWithError r 401 ''SignatureDoesNotMatch'' mismatch)
               else Inr user))"

definition check_signed_header ::
  "env \<Rightarrow> 'db bolt \<Rightarrow> 'db \<Rightarrow> request \<Rightarrow> string list \<Rightarrow> string \<Rightarrow> string \<Rightarrow> response + request" where
  "check_signed_header E B d r credParts signedHeaders signatureProvided =
     (let accessKey = credParts ! 0; date = credParts ! 1; region = credParts ! 2; service = credParts ! 3;
          amzDate = GetHeader r ''X-Amz-Date''; payloadHash = GetHeader r ''X-Amz-Content-Sha256''
      in if credParts ! 4 \<noteq> ''aws4_request'' then Inl (denied r ''Invalid Credential terminal'')
         else if amzDate = [] then Inl (denied r ''Missing X-Amz-Date header'')
         else if length amzDate < 8 \<or> take 8 amzDate \<noteq> date then Inl (denied r ''Date mismatch in X-Amz-Date header'')
         else if payloadHash = [] then Inl (denied r ''Missing X-Amz-Content-Sha256 header'')
         else case check_body (lb E) r payloadHash of
             Some resp \<Rightarrow> Inl resp
           | None \<Rightarrow>
               (case verify_signature E B d r accessKey
                   (\<lambda>secret. signature (lb E) secret amzDate date region service
                      (buildCanonicalRequest r signedHeaders payloadHash None)) signatureProvided
                   ''The request signature we calculated does not match the signature you provided'' of
                  Inl resp \<Rightarrow> Inl resp
                | Inr user \<Rightarrow>
                    (case validateTimestamp E r amzDate of
                       Some resp \<Rightarrow> Inl resp
                     | None \<Rightarrow>
                         if \<not> isUserAllowed user (req_method r) (param_bucket r)
                         then Inl (abortWithError r 403 ''AccessDenied'' ''User does not have permission to perform this action'')
                         else Inr (as_user user r))))"

definition processHeaderAuth :: "env \<Rightarrow> 'db bolt \<Rightarrow> 'db \<Rightarrow> request \<Rightarrow> string \<Rightarrow> response + request" where
  "processHeaderAuth E B d r authHeader =
     (let authParams = auth_params (TrimPrefix authHeader ''AWS4-HMAC-SHA256 '')
      in case map_of authParams ''Credential'' of
           None \<Rightarrow> Inl (denied r ''Missing Credential in Authorization header'')
         | Some credential \<Rightarrow>
             (case map_of authParams ''SignedHeaders'' of
                None \<Rightarrow> Inl (denied r ''Missing SignedHeaders in Authorization header'')
              | Some signedHeaders \<Rightarrow>
                  (case map_of authParams ''Signature'' of
                     None \<Rightarrow> Inl (denied r ''Missing Signature in Authorization header'')
                   | Some signatureProvided \<Rightarrow>
                       (let credParts = Split CHR ''/'' credential
                        in if length credParts \<noteq> 5 then Inl (denied r ''Invalid Credential format'')
                           else check_signed_header E B d r credParts signedHeaders signatureProvided))))"

section \<open>Presigned URLs\<close>

definition presigned_payload_hash :: "request \<Rightarrow> string \<Rightarrow> string" where
  "presigned_payload_hash r signedHeaders =
     (let h = Query r ''X-Amz-Content-Sha256''
      in if h = [] \<and> \<not> signedHeadersContains signedHeaders ''x-amz-content-sha256'' then ''UNSIGNED-PAYLOAD'' else h)"

definition check_presigned ::
  "env \<Rightarrow> 'db bolt \<Rightarrow> 'db \<Rightarrow> request \<Rightarrow> string list \<Rightarrow> string \<Rightarrow> string \<Rightarrow> string \<Rightarrow> string \<Rightarrow> string \<Rightarrow> response + request" where
  "check_presigned E B d r credParts amzDate expires signatureProvided signedHeaders payloadHash =
     (let accessKey = credParts ! 0; date = credParts ! 1; region = credParts ! 2; service = credParts ! 3
      in if credParts ! 4 \<noteq> ''aws4_request'' then Inl (denied r ''Invalid Credential terminal in query parameters'')
         else case ParseSeconds (lb E) expires of
             None \<Rightarrow> Inl (denied r ''Invalid X-Amz-Expires format'')
           | Some expiration \<Rightarrow>
               (case ParseAmzDate (lb E) amzDate of
                  None \<Rightarrow> Inl (denied r ''Invalid X-Amz-Date format'')
                | Some t \<Rightarrow>
                    if now E > t + expiration then Inl (denied r ''Presigned URL has expired'')
                    else case verify_signature E B d r accessKey
                        (\<lambda>secret. signature (lb E) secret amzDate date region service
                           (canonical_request r (buildCanonicalQuery (AList.delete ''X-Amz-Signature'' (req_query r)))
                              signedHeaders payloadHash)) signatureProvided
                        ''The presigned URL signature does not match'' of
                       Inl resp \<Rightarrow> Inl resp
                     | Inr user \<Rightarrow>
                         (case validateTimestamp E r amzDate of
                            Some resp \<Rightarrow> Inl resp
                          | None \<Rightarrow> Inr (as_user user r))))"

definition processPresignedAuth :: "env \<Rightarrow> 'db bolt \<Rightarrow> 'db \<Rightarrow> request \<Rightarrow> response + request" where
  "processPresignedAuth E B d r =
     (let amzAlgorithm = Query r ''X-Amz-Algorithm''; credential = Query r ''X-Amz-Credential'';
          amzDate = Query r ''X-Amz-Date''; expires = Query r ''X-Amz-Expires'';
          signatureProvided = Query r ''X-Amz-Signature''; signedHeaders = Query r ''X-Amz-SignedHeaders'';
          payloadHash = presigned_payload_hash r signedHeaders
      in if amzAlgorithm = [] \<or> credential = [] \<or> amzDate = [] \<or> expires = [] \<or> signatureProvided = [] \<or> signedHeaders = []
         then Inl (denied r ''Missing required presigned URL query parameters'')
         else let credParts = Split CHR ''/'' credential
              in if length credParts \<noteq> 5 then Inl (denied r ''Invalid Credential format in query parameters'')
                 else check_presigned E B d r credParts amzDate expires signatureProvided signedHeaders payloadHash)"

section \<open>Anonymous reads\<close>

definition objectACL :: "env \<Rightarrow> string \<Rightarrow> string \<Rightarrow> fs \<Rightarrow> store_error + string" where
  "objectACL E bucket key fs =
     (case SafeJoin ObjectsRoot [bucket, key] of
        Inl _ \<Rightarrow> Inl PathErr
      | Inr objectPath \<Rightarrow> EffectiveObjectACL E bucket objectPath fs)"

definition listing_params :: "string list" where
  "listing_params = [''prefix'', ''marker'', ''max-keys'', ''delimiter'', ''encoding-type'', ''list-type'',
     ''continuation-token'', ''start-after'', ''fetch-owner'']"

definition allowAnonymousRead :: "env \<Rightarrow> fs \<Rightarrow> request \<Rightarrow> request option" where
  "allowAnonymousRead E fs r =
     (if req_method r \<noteq> ''GET'' \<and> req_method r \<noteq> ''HEAD'' then None
      else if list_ex (\<lambda>(k, _). ToLower k \<notin> set listing_params) (req_query r) then None
      else if param_bucket r = [] then None
      else let key = TrimPrefix (param_objectKey r) ''/'';
               effective = (if key = [] then EffectiveBucketACL E (param_bucket r) fs
                            else objectACL E (param_bucket r) key fs)
           in case effective of
                Inl _ \<Rightarrow> None
              | Inr acl \<Rightarrow> if IsPublicRead acl then Some (r\<lparr>ctx_authMethod := ''anonymous''\<rparr>) else None)"

definition AuthMiddleware :: "env \<Rightarrow> 'db bolt \<Rightarrow> 'db \<Rightarrow> fs \<Rightarrow> request \<Rightarrow> response + request" where
  "AuthMiddleware E B d fs r =
     (let authHeader = GetHeader r ''Authorization''
      in if authHeader \<noteq> [] then
           (if \<not> HasPrefix authHeader ''AWS4-HMAC-SHA256 ''
            then Inl (denied r ''Invalid Authorization header format'')
            else processHeaderAuth E B d r authHeader)
         else if Query r ''X-Amz-Algorithm'' \<noteq> [] then processPresignedAuth E B d r
         else case allowAnonymousRead E fs r of
             Some r' \<Rightarrow> Inr r'
           | None \<Rightarrow> Inl (denied r ''Missing authentication information''))"

section \<open>Making a presigned URL\<close>

text \<open>
  The URL by its parts: \<open>u.Path\<close> and the query; \<open>PresignGetURL\<close> prints them.
\<close>

record presigned =
  ps_path :: string
  ps_query :: "(string \<times> string) list"

definition url_encode :: "(string \<times> string) list \<Rightarrow> string" where
  "url_encode q = Join ''&'' (map (\<lambda>(k, v). QueryEscape k @ ''='' @ QueryEscape v) (sort_key fst q))"

definition presign_path :: "string \<Rightarrow> string \<Rightarrow> string" where
  "presign_path bucket objectKey =
     ''/'' @ PathEscape bucket @ ''/'' @ Join ''/'' (map PathEscape (Split CHR ''/'' objectKey))"

definition presign_query :: "lib \<Rightarrow> time \<Rightarrow> string \<Rightarrow> duration \<Rightarrow> (string \<times> string) list" where
  "presign_query L t accessKey expires =
     (let amzDate = FormatAmzDate L t; date = take 8 amzDate
      in [(''X-Amz-Algorithm'', ''AWS4-HMAC-SHA256''),
          (''X-Amz-Credential'', Join ''/'' [accessKey, date, ''us-east-1'', ''s3'', ''aws4_request'']),
          (''X-Amz-Date'', amzDate),
          (''X-Amz-Expires'', Itoa (expires div Second)),
          (''X-Amz-SignedHeaders'', ''host'')])"

definition PresignGet :: "lib \<Rightarrow> time \<Rightarrow> string \<Rightarrow> string \<Rightarrow> string \<Rightarrow> string \<Rightarrow> string \<Rightarrow> duration \<Rightarrow> presigned option" where
  "PresignGet L t accessKey secret host bucket objectKey expires =
     (if accessKey = [] \<or> secret = [] \<or> bucket = [] \<or> objectKey = [] \<or> expires \<le> 0 then None
      else let path = presign_path bucket objectKey; amzDate = FormatAmzDate L t; date = take 8 amzDate;
               q = presign_query L t accessKey expires;
               canonicalRequest = Join ''\<newline>''
                 [''GET'', EscapePath path, buildCanonicalQuery (map (\<lambda>(k, v). (k, [v])) q), ''host:'' @ host @ ''\<newline>'',
                  ''host'', ''UNSIGNED-PAYLOAD'']
           in Some \<lparr>ps_path = path,
                ps_query = q @ [(''X-Amz-Signature'',
                   hex_encode (signature L secret amzDate date ''us-east-1'' ''s3'' canonicalRequest))]\<rparr>)"

definition PresignGetURL :: "lib \<Rightarrow> time \<Rightarrow> string \<Rightarrow> string \<Rightarrow> string \<Rightarrow> string \<Rightarrow> string \<Rightarrow> duration \<Rightarrow> string option" where
  "PresignGetURL L t accessKey secret baseURL bucket objectKey expires =
     (case url_Host L baseURL of
        None \<Rightarrow> None
      | Some host \<Rightarrow>
          map_option (\<lambda>u. url_Scheme L baseURL @ ''://'' @ host @ EscapePath (ps_path u) @ ''?'' @ url_encode (ps_query u))
            (PresignGet L t accessKey secret host bucket objectKey expires))"

end
