(* ===== verification/Sigv4_Laws.thy ===== *)
theory Sigv4_Laws
  imports Sigv4 "HOL-Library.Multiset"
begin

text \<open>
  What a request that passes \<open>AuthMiddleware\<close> has proved, what a client has to send to
  pass, and what the permission check decides.
\<close>

section \<open>Canonical query\<close>

text \<open>The Go map is visited in any order; the canonical query is the same.\<close>

lemma buildCanonicalQuery_order:
  assumes "mset q = mset q'"
  shows "buildCanonicalQuery q = buildCanonicalQuery q'"
proof -
  let ?f = "\<lambda>(k, vs). map (\<lambda>v. QueryEscape k @ ''='' @ QueryEscape v) (vs :: string list)"
  have "mset (concat (map ?f q)) = mset (concat (map ?f q'))"
    using assms by (simp add: mset_concat flip: sum_mset_sum_list)
  then have "sort (concat (map ?f q)) = sort (concat (map ?f q'))"
    by (intro properties_for_sort) simp_all
  then show ?thesis by (simp add: buildCanonicalQuery_def)
qed

section \<open>The permission check\<close>

lemma isUserAllowed_iff:
  "isUserAllowed u m b \<longleftrightarrow> getActionFromMethod m b \<noteq> [] \<and>
     (\<exists>rule\<in>set (ACL u). EqualFold (Effect rule) ''Allow'' \<and> (''*'' \<in> set (Buckets rule) \<or> b \<in> set (Buckets rule))
        \<and> isActionAllowed (Actions rule) (getActionFromMethod m b))"
  by (auto simp: isUserAllowed_def Let_def list_ex_iff isBucketAllowed_def)

text \<open>Rules that are not \<open>Allow\<close> never change the decision.\<close>

lemma isUserAllowed_deny:
  "isUserAllowed (u\<lparr>ACL := filter (\<lambda>rule. EqualFold (Effect rule) ''Allow'') (ACL u)\<rparr>) m b = isUserAllowed u m b"
  by (auto simp: isUserAllowed_iff)

lemma isUserAllowed_mono:
  "\<lbrakk>isUserAllowed u m b; set (ACL u) \<subseteq> set (ACL u')\<rbrakk> \<Longrightarrow> isUserAllowed u' m b"
  by (auto simp: isUserAllowed_iff)

lemma Contains_char: "Contains s [c] \<longleftrightarrow> c \<in> set s"
proof -
  have "Index s [c] = None \<longleftrightarrow> c \<notin> set s" by (induction s) (auto simp: HasPrefix_def)
  then show ?thesis by (simp add: Contains_def)
qed

lemma action_in_bucket:
  assumes "ValidateBucketName b = None"
  shows "getActionFromMethod ''PUT'' b = ''s3:CreateBucket''" "getActionFromMethod ''DELETE'' b = ''s3:DeleteBucket''"
    "getActionFromMethod ''GET'' b = ''s3:GetObject''" "getActionFromMethod ''POST'' b = ''s3:PutObject''"
    "getActionFromMethod ''HEAD'' b = ''s3:ListBucket''"
proof -
  have "proper_seg b" using ValidateBucketName_proper[OF assms] .
  then have "b \<noteq> []" "CHR ''/'' \<notin> set b" by (auto simp: proper_seg_def)
  then show "getActionFromMethod ''PUT'' b = ''s3:CreateBucket''" "getActionFromMethod ''DELETE'' b = ''s3:DeleteBucket''"
    "getActionFromMethod ''GET'' b = ''s3:GetObject''" "getActionFromMethod ''POST'' b = ''s3:PutObject''"
    "getActionFromMethod ''HEAD'' b = ''s3:ListBucket''"
    by (simp_all add: getActionFromMethod_def Contains_char)
qed

text \<open>Writing an object takes the bucket permissions; the object ones are never asked for.\<close>

lemma object_write_needs_bucket_action:
  assumes "ValidateBucketName b = None"
  shows "isUserAllowed u ''PUT'' b \<longleftrightarrow>
     (\<exists>rule\<in>set (ACL u). EqualFold (Effect rule) ''Allow'' \<and> (''*'' \<in> set (Buckets rule) \<or> b \<in> set (Buckets rule))
        \<and> (''*'' \<in> set (Actions rule) \<or> ''s3:CreateBucket'' \<in> set (Actions rule)))"
    "isUserAllowed u ''DELETE'' b \<longleftrightarrow>
     (\<exists>rule\<in>set (ACL u). EqualFold (Effect rule) ''Allow'' \<and> (''*'' \<in> set (Buckets rule) \<or> b \<in> set (Buckets rule))
        \<and> (''*'' \<in> set (Actions rule) \<or> ''s3:DeleteBucket'' \<in> set (Actions rule)))"
  by (auto simp: isUserAllowed_iff action_in_bucket[OF assms] isActionAllowed_def list_ex_iff)

section \<open>Time\<close>

lemma validateTimestamp_None:
  "validateTimestamp E r a = None \<longleftrightarrow>
     (\<exists>t. ParseAmzDate (lb E) a = Some t \<and> now E - t \<le> 15 * Minute \<and> t - now E \<le> 15 * Minute)"
proof -
  have "15 * Minute < Sub x y \<longleftrightarrow> 15 * Minute < x - y" for x y
    using Sub_le_iff[of "15 * Minute" x y] by (auto simp: not_le[symmetric] min_duration_def max_duration_def Minute_def Second_def)
  then show ?thesis by (auto simp: validateTimestamp_def not_less split: option.splits if_splits)
qed

section \<open>Signatures\<close>

lemma verify_signature_Inr:
  "verify_signature E B d r ak f sig msg = Inr u \<Longrightarrow>
     GetUser (lb E) B ak d = Inr u \<and>
     (\<exists>secret. Decrypt (lb E) (enc_key E) (EncryptedSecret u) = Some secret \<and> hex_decode sig = Some (f secret))"
  by (auto simp: verify_signature_def split: sum.splits option.splits if_splits)

lemma verify_signature_ok:
  "\<lbrakk>GetUser (lb E) B ak d = Inr u; Decrypt (lb E) (enc_key E) (EncryptedSecret u) = Some secret; hex_decode sig = Some (f secret)\<rbrakk>
     \<Longrightarrow> verify_signature E B d r ak f sig msg = Inr u"
  by (simp add: verify_signature_def)

text \<open>The body is what was signed for.\<close>

definition body_matches :: "lib \<Rightarrow> request \<Rightarrow> string \<Rightarrow> bool" where
  "body_matches L r h \<longleftrightarrow> skips_body_check h \<or> \<not> req_body_fails r \<and> h = hex_encode (sha256 L (req_body r))"

lemma check_body_None: "check_body L r h = None \<longleftrightarrow> body_matches L r h"
  by (auto simp: check_body_def body_matches_def ReadAll_def split: if_splits)

text \<open>The signature a request must carry, by the fields of its credential.\<close>

definition signed_by ::
  "lib \<Rightarrow> string \<Rightarrow> request \<Rightarrow> string list \<Rightarrow> string \<Rightarrow> string \<Rightarrow> string \<Rightarrow> string \<Rightarrow> string \<Rightarrow> bool" where
  "signed_by L secret r cred amzDate canonicalQuery signedHeaders payloadHash sig \<longleftrightarrow>
     hex_decode sig = Some (signature L secret amzDate (cred ! 1) (cred ! 2) (cred ! 3)
       (canonical_request r canonicalQuery signedHeaders payloadHash))"

definition header_evidence :: "env \<Rightarrow> 'db bolt \<Rightarrow> 'db \<Rightarrow> request \<Rightarrow> (string \<times> string) list \<Rightarrow> User \<Rightarrow> bool" where
  "header_evidence E B d r params u \<longleftrightarrow>
     (\<exists>cred sh sig secret t. map_of params ''Credential'' = Some cred \<and> map_of params ''SignedHeaders'' = Some sh
        \<and> map_of params ''Signature'' = Some sig
        \<and> length (Split CHR ''/'' cred) = 5 \<and> Split CHR ''/'' cred ! 4 = ''aws4_request''
        \<and> take 8 (GetHeader r ''X-Amz-Date'') = Split CHR ''/'' cred ! 1
        \<and> GetUser (lb E) B (Split CHR ''/'' cred ! 0) d = Inr u
        \<and> Decrypt (lb E) (enc_key E) (EncryptedSecret u) = Some secret
        \<and> signed_by (lb E) secret r (Split CHR ''/'' cred) (GetHeader r ''X-Amz-Date'') (buildCanonicalQuery (req_query r)) sh
            (GetHeader r ''X-Amz-Content-Sha256'') sig
        \<and> body_matches (lb E) r (GetHeader r ''X-Amz-Content-Sha256'')
        \<and> ParseAmzDate (lb E) (GetHeader r ''X-Amz-Date'') = Some t
        \<and> now E - t \<le> 15 * Minute \<and> t - now E \<le> 15 * Minute)"

lemma check_signed_header_Inr:
  assumes "check_signed_header E B d r cp sh sig = Inr r'"
  shows "\<exists>u. r' = as_user u r \<and> isUserAllowed u (req_method r) (param_bucket r) \<and> cp ! 4 = ''aws4_request''
    \<and> take 8 (GetHeader r ''X-Amz-Date'') = cp ! 1 \<and> body_matches (lb E) r (GetHeader r ''X-Amz-Content-Sha256'')
    \<and> validateTimestamp E r (GetHeader r ''X-Amz-Date'') = None
    \<and> verify_signature E B d r (cp ! 0) (\<lambda>secret. signature (lb E) secret (GetHeader r ''X-Amz-Date'') (cp ! 1) (cp ! 2) (cp ! 3)
          (buildCanonicalRequest r sh (GetHeader r ''X-Amz-Content-Sha256'') None)) sig
        ''The request signature we calculated does not match the signature you provided'' = Inr u"
  using assms unfolding check_signed_header_def Let_def
  by (auto simp: check_body_None split: if_splits option.splits sum.splits)

lemma processHeaderAuth_Inr:
  assumes "processHeaderAuth E B d r h = Inr r'"
  shows "\<exists>u. r' = as_user u r \<and> isUserAllowed u (req_method r) (param_bucket r)
     \<and> header_evidence E B d r (auth_params (TrimPrefix h ''AWS4-HMAC-SHA256 '')) u"
proof -
  let ?p = "auth_params (TrimPrefix h ''AWS4-HMAC-SHA256 '')"
  obtain cred sh sig where p: "map_of ?p ''Credential'' = Some cred" "map_of ?p ''SignedHeaders'' = Some sh"
    "map_of ?p ''Signature'' = Some sig" "length (Split CHR ''/'' cred) = 5"
    and ck: "check_signed_header E B d r (Split CHR ''/'' cred) sh sig = Inr r'"
    using assms by (auto simp: processHeaderAuth_def Let_def split: option.splits if_splits)
  obtain u where u: "r' = as_user u r" "isUserAllowed u (req_method r) (param_bucket r)"
    "Split CHR ''/'' cred ! 4 = ''aws4_request''" "take 8 (GetHeader r ''X-Amz-Date'') = Split CHR ''/'' cred ! 1"
    "body_matches (lb E) r (GetHeader r ''X-Amz-Content-Sha256'')"
    "validateTimestamp E r (GetHeader r ''X-Amz-Date'') = None"
    and v: "verify_signature E B d r (Split CHR ''/'' cred ! 0) (\<lambda>secret. signature (lb E) secret (GetHeader r ''X-Amz-Date'')
         (Split CHR ''/'' cred ! 1) (Split CHR ''/'' cred ! 2) (Split CHR ''/'' cred ! 3)
          (buildCanonicalRequest r sh (GetHeader r ''X-Amz-Content-Sha256'') None)) sig
        ''The request signature we calculated does not match the signature you provided'' = Inr u"
    using check_signed_header_Inr[OF ck] by blast
  have "header_evidence E B d r ?p u"
    using p u verify_signature_Inr[OF v] unfolding header_evidence_def validateTimestamp_None signed_by_def buildCanonicalRequest_def
    by auto
  then show ?thesis using u by blast
qed

definition presigned_evidence :: "env \<Rightarrow> 'db bolt \<Rightarrow> 'db \<Rightarrow> request \<Rightarrow> User \<Rightarrow> bool" where
  "presigned_evidence E B d r u \<longleftrightarrow>
     (let cred = Split CHR ''/'' (Query r ''X-Amz-Credential''); amzDate = Query r ''X-Amz-Date''; sh = Query r ''X-Amz-SignedHeaders''
      in \<exists>secret t life. length cred = 5 \<and> cred ! 4 = ''aws4_request''
        \<and> GetUser (lb E) B (cred ! 0) d = Inr u
        \<and> Decrypt (lb E) (enc_key E) (EncryptedSecret u) = Some secret
        \<and> signed_by (lb E) secret r cred amzDate (buildCanonicalQuery (AList.delete ''X-Amz-Signature'' (req_query r))) sh
            (presigned_payload_hash r sh) (Query r ''X-Amz-Signature'')
        \<and> ParseAmzDate (lb E) amzDate = Some t \<and> ParseSeconds (lb E) (Query r ''X-Amz-Expires'') = Some life
        \<and> now E \<le> t + life \<and> now E - t \<le> 15 * Minute \<and> t - now E \<le> 15 * Minute)"

lemma check_presigned_Inr:
  assumes "check_presigned E B d r cp amzDate expires sig sh ph = Inr r'"
  shows "\<exists>u t life. r' = as_user u r \<and> cp ! 4 = ''aws4_request'' \<and> ParseSeconds (lb E) expires = Some life
    \<and> ParseAmzDate (lb E) amzDate = Some t \<and> now E \<le> t + life \<and> validateTimestamp E r amzDate = None
    \<and> verify_signature E B d r (cp ! 0) (\<lambda>secret. signature (lb E) secret amzDate (cp ! 1) (cp ! 2) (cp ! 3)
        (canonical_request r (buildCanonicalQuery (AList.delete ''X-Amz-Signature'' (req_query r))) sh ph)) sig
        ''The presigned URL signature does not match'' = Inr u"
  using assms unfolding check_presigned_def Let_def
  by (auto split: if_splits option.splits sum.splits)

lemma processPresignedAuth_check:
  "processPresignedAuth E B d r = Inr r' \<Longrightarrow> length (Split CHR ''/'' (Query r ''X-Amz-Credential'')) = 5 \<and>
     check_presigned E B d r (Split CHR ''/'' (Query r ''X-Amz-Credential'')) (Query r ''X-Amz-Date'') (Query r ''X-Amz-Expires'')
       (Query r ''X-Amz-Signature'') (Query r ''X-Amz-SignedHeaders'') (presigned_payload_hash r (Query r ''X-Amz-SignedHeaders'')) = Inr r'"
  by (auto simp: processPresignedAuth_def Let_def split: if_splits)

lemma processPresignedAuth_Inr:
  assumes "processPresignedAuth E B d r = Inr r'"
  shows "\<exists>u. r' = as_user u r \<and> presigned_evidence E B d r u"
proof -
  note p = processPresignedAuth_check[OF assms]
  from check_presigned_Inr[OF conjunct2[OF p]] obtain u t life where
    c: "r' = as_user u r" "Split CHR ''/'' (Query r ''X-Amz-Credential'') ! 4 = ''aws4_request''"
      "ParseSeconds (lb E) (Query r ''X-Amz-Expires'') = Some life" "ParseAmzDate (lb E) (Query r ''X-Amz-Date'') = Some t"
      "now E \<le> t + life" "validateTimestamp E r (Query r ''X-Amz-Date'') = None"
    and v: "verify_signature E B d r (Split CHR ''/'' (Query r ''X-Amz-Credential'') ! 0)
        (\<lambda>secret. signature (lb E) secret (Query r ''X-Amz-Date'') (Split CHR ''/'' (Query r ''X-Amz-Credential'') ! 1)
          (Split CHR ''/'' (Query r ''X-Amz-Credential'') ! 2) (Split CHR ''/'' (Query r ''X-Amz-Credential'') ! 3)
        (canonical_request r (buildCanonicalQuery (AList.delete ''X-Amz-Signature'' (req_query r))) (Query r ''X-Amz-SignedHeaders'')
          (presigned_payload_hash r (Query r ''X-Amz-SignedHeaders'')))) (Query r ''X-Amz-Signature'')
        ''The presigned URL signature does not match'' = Inr u" by blast
  have "presigned_evidence E B d r u"
    using p c verify_signature_Inr[OF v]
    unfolding presigned_evidence_def signed_by_def validateTimestamp_None Let_def by auto
  then show ?thesis using c(1) by blast
qed

section \<open>Anonymous reads\<close>

definition anonymous_evidence :: "env \<Rightarrow> fs \<Rightarrow> request \<Rightarrow> bool" where
  "anonymous_evidence E fs r \<longleftrightarrow>
     req_method r \<in> {''GET'', ''HEAD''} \<and> param_bucket r \<noteq> []
   \<and> (\<forall>k\<in>set (keys (req_query r)). ToLower k \<in> set listing_params)
   \<and> (\<exists>acl. IsPublicRead acl \<and>
        (if TrimPrefix (param_objectKey r) ''/'' = [] then EffectiveBucketACL E (param_bucket r) fs
         else objectACL E (param_bucket r) (TrimPrefix (param_objectKey r) ''/'') fs) = Inr acl)"

lemma allowAnonymousRead_iff:
  "allowAnonymousRead E fs r = Some r' \<longleftrightarrow> anonymous_evidence E fs r \<and> r' = r\<lparr>ctx_authMethod := ''anonymous''\<rparr>"
proof -
  let ?eff = "if TrimPrefix (param_objectKey r) ''/'' = [] then EffectiveBucketACL E (param_bucket r) fs
     else objectACL E (param_bucket r) (TrimPrefix (param_objectKey r) ''/'') fs"
  have ks: "list_ex (\<lambda>(k, _). ToLower k \<notin> set listing_params) (req_query r)
      \<longleftrightarrow> \<not> (\<forall>k\<in>set (keys (req_query r)). ToLower k \<in> set listing_params)"
    by (force simp: list_ex_iff)
  show ?thesis
    unfolding allowAnonymousRead_def anonymous_evidence_def Let_def ks
    by (cases ?eff) (simp_all del: if_split, auto)
qed

text \<open>Everything that gets through: a signed request of an allowed user, a presigned one, or a public read.\<close>

lemma AuthMiddleware_Inr:
  assumes "AuthMiddleware E B d fs r = Inr r'"
  shows "(\<exists>u. r' = as_user u r \<and> isUserAllowed u (req_method r) (param_bucket r)
         \<and> header_evidence E B d r (auth_params (TrimPrefix (GetHeader r ''Authorization'') ''AWS4-HMAC-SHA256 '')) u)
     \<or> (\<exists>u. r' = as_user u r \<and> GetHeader r ''Authorization'' = [] \<and> presigned_evidence E B d r u)
     \<or> r' = r\<lparr>ctx_authMethod := ''anonymous''\<rparr> \<and> anonymous_evidence E fs r"
proof (cases "GetHeader r ''Authorization'' = []")
  case False
  then have h: "processHeaderAuth E B d r (GetHeader r ''Authorization'') = Inr r'"
    using assms by (simp add: AuthMiddleware_def Let_def split: if_splits)
  from processHeaderAuth_Inr[OF h] show ?thesis by simp
next
  case True
  then have "processPresignedAuth E B d r = Inr r' \<or> allowAnonymousRead E fs r = Some r'"
    using assms by (simp add: AuthMiddleware_def Let_def split: if_splits option.splits)
  then show ?thesis
  proof
    assume h: "processPresignedAuth E B d r = Inr r'"
    from processPresignedAuth_Inr[OF h] True show ?thesis by simp
  next
    assume "allowAnonymousRead E fs r = Some r'"
    then show ?thesis unfolding allowAnonymousRead_iff by simp
  qed
qed

end
