(* ===== verification/Sigv4_Accept.thy ===== *)
theory Sigv4_Accept
  imports Sigv4_Laws Object_Laws
begin

text \<open>
  The other direction: a client that signs as the protocol says is let through, and so is
  a URL made by \<open>PresignGetURL\<close>.  At the end, what such a URL names.
\<close>

section \<open>Strings without separators\<close>

definition plain :: "string \<Rightarrow> bool" where
  "plain s \<longleftrightarrow> (\<forall>c\<in>set s. \<not> is_space c \<and> c \<noteq> CHR '','')"

definition plain_part :: "string \<Rightarrow> bool" where
  "plain_part s \<longleftrightarrow> plain s \<and> CHR ''/'' \<notin> set s"

lemma TrimSpace_plain: "plain s \<Longrightarrow> TrimSpace s = s" "plain s \<Longrightarrow> TrimSpace (CHR '' '' # s) = s"
proof -
  assume "plain s"
  then have p: "\<forall>c\<in>set s. \<not> is_space c" by (auto simp: plain_def)
  have d: "dropWhile is_space s = s" if "\<forall>c\<in>set s. \<not> is_space c" for s using that by (cases s) auto
  have "is_space CHR '' ''" by (simp add: is_space_def)
  then show "TrimSpace s = s" "TrimSpace (CHR '' '' # s) = s"
    using d[of s] d[of "rev s"] p by (simp_all add: TrimSpace_def)
qed

lemma Cut_key: "c \<notin> set k \<Longrightarrow> Cut c (k @ c # v) = (k, v, True)"
  by (induction k) (auto simp: Cut_def)

lemma amz_date_chars:
  assumes "amz_time_ok L" "0 \<le> t" "t < year_10000"
  shows "plain_part (FormatAmzDate L t)" "length (FormatAmzDate L t) = 16" "ParseAmzDate L (FormatAmzDate L t) = Some (t - t mod Second)"
proof -
  have *: "length (FormatAmzDate L t) = 16" "\<forall>c\<in>set (FormatAmzDate L t). is_digit c \<or> c = CHR ''T'' \<or> c = CHR ''Z''"
    "ParseAmzDate L (FormatAmzDate L t) = Some (t - t mod Second)"
    using assms by (auto simp: amz_time_ok_def)
  have "is_digit c \<Longrightarrow> \<not> is_space c \<and> c \<noteq> CHR '','' \<and> c \<noteq> CHR ''/''" for c
    by (auto simp: is_digit_def is_space_def Let_def)
  moreover have "\<not> is_space CHR ''T''" "\<not> is_space CHR ''Z''" by (simp_all add: is_space_def)
  ultimately have "\<not> is_space c \<and> c \<noteq> CHR '','' \<and> c \<noteq> CHR ''/''" if "c \<in> set (FormatAmzDate L t)" for c
    using *(2) that by fastforce
  then show "plain_part (FormatAmzDate L t)" unfolding plain_part_def plain_def by blast
  show "length (FormatAmzDate L t) = 16" "ParseAmzDate L (FormatAmzDate L t) = Some (t - t mod Second)" by (fact *)+
qed

lemma plain_take: "plain_part s \<Longrightarrow> plain_part (take n s)"
  using set_take_subset[of n s] by (auto simp: plain_part_def plain_def)

lemma plain_hex: "plain (hex_encode s)"
proof (induction s)
  case (Cons c s)
  have "hex_val x = Some n \<Longrightarrow> \<not> is_space x \<and> x \<noteq> CHR '',''" for x n
    by (auto simp: hex_val_def is_space_def Let_def split: if_splits)
  then have "n < 16 \<Longrightarrow> \<not> is_space (hex_digit n) \<and> hex_digit n \<noteq> CHR '',''" for n
    using hex_val_digit by blast
  moreover have "(of_char c :: nat) div 16 < 16" using of_char_lt[of c] by linarith
  ultimately show ?case using Cons by (simp add: plain_def del: of_char_of)
qed (simp add: plain_def)

section \<open>The header a client sends\<close>

definition credential :: "string \<Rightarrow> string \<Rightarrow> string \<Rightarrow> string \<Rightarrow> string" where
  "credential ak date region service = Join ''/'' [ak, date, region, service, ''aws4_request'']"

definition authorization_header :: "string \<Rightarrow> string \<Rightarrow> bytes \<Rightarrow> string" where
  "authorization_header cred signedHeaders sig =
     ''AWS4-HMAC-SHA256 Credential='' @ cred @ '', SignedHeaders='' @ signedHeaders @ '', Signature='' @ hex_encode sig"

lemma auth_params_header:
  assumes "plain cred" "plain sh"
  shows "auth_params (TrimPrefix (authorization_header cred sh sig) ''AWS4-HMAC-SHA256 '') =
     [(''Credential'', cred), (''SignedHeaders'', sh), (''Signature'', hex_encode sig)]"
proof -
  let ?a = "''Credential='' @ cred" and ?b = "''SignedHeaders='' @ sh" and ?c = "''Signature='' @ hex_encode sig"
  have p: "plain ?a" "plain ?b" "plain ?c" using assms plain_hex[of sig] by (auto simp: plain_def is_space_def)
  have nc: "CHR '','' \<notin> set ?a" "CHR '','' \<notin> set (CHR '' '' # ?b)" "CHR '','' \<notin> set (CHR '' '' # ?c)"
    using p by (auto simp: plain_def)
  have "TrimPrefix (authorization_header cred sh sig) ''AWS4-HMAC-SHA256 '' = ?a @ CHR '','' # (CHR '' '' # ?b) @ CHR '','' # (CHR '' '' # ?c)"
    by (simp add: authorization_header_def TrimPrefix_def HasPrefix_def)
  then have "Split CHR '','' (TrimPrefix (authorization_header cred sh sig) ''AWS4-HMAC-SHA256 '') = [?a, CHR '' '' # ?b, CHR '' '' # ?c]"
    using nc by (simp only: Split_append_sep[OF nc(1)] Split_append_sep[OF nc(2)] Split_single[OF nc(3)])
  moreover have "TrimSpace ?a = ?a" "TrimSpace (CHR '' '' # ?b) = ?b" "TrimSpace (CHR '' '' # ?c) = ?c"
    by (fact TrimSpace_plain(1)[OF p(1)] TrimSpace_plain(2)[OF p(2)] TrimSpace_plain(2)[OF p(3)])+
  moreover have "Cut CHR ''='' ?a = (''Credential'', cred, True)" "Cut CHR ''='' ?b = (''SignedHeaders'', sh, True)"
    "Cut CHR ''='' ?c = (''Signature'', hex_encode sig, True)"
    using Cut_key[of "CHR ''=''" "''Credential''" cred] Cut_key[of "CHR ''=''" "''SignedHeaders''" sh]
      Cut_key[of "CHR ''=''" "''Signature''" "hex_encode sig"] by simp_all
  ultimately show ?thesis by (simp add: auth_params_def)
qed

lemma credential_split:
  "\<lbrakk>plain_part ak; plain_part date; plain_part region; plain_part service\<rbrakk> \<Longrightarrow>
     Split CHR ''/'' (credential ak date region service) = [ak, date, region, service, ''aws4_request'']"
  unfolding credential_def by (rule Split_Join) (auto simp: plain_part_def)

lemma credential_plain:
  "\<lbrakk>plain_part ak; plain_part date; plain_part region; plain_part service\<rbrakk> \<Longrightarrow> plain (credential ak date region service)"
  by (auto simp: credential_def plain_part_def plain_def is_space_def)

lemma header_accepted:
  assumes "amz_time_ok (lb E)" "0 \<le> t" "t < year_10000"
    and "plain_part ak" "plain_part region" "plain_part service" "plain sh"
    and "GetHeader r ''X-Amz-Date'' = FormatAmzDate (lb E) t"
    and "GetHeader r ''X-Amz-Content-Sha256'' = ph" "ph \<noteq> []" "body_matches (lb E) r ph"
    and "GetUser (lb E) B ak d = Inr u" "Decrypt (lb E) (enc_key E) (EncryptedSecret u) = Some secret"
    and "GetHeader r ''Authorization'' =
      authorization_header (credential ak (take 8 (FormatAmzDate (lb E) t)) region service) sh
        (signature (lb E) secret (FormatAmzDate (lb E) t) (take 8 (FormatAmzDate (lb E) t)) region service
          (canonical_request r (buildCanonicalQuery (req_query r)) sh ph))"
    and "now E - (t - t mod Second) \<le> 15 * Minute" "(t - t mod Second) - now E \<le> 15 * Minute"
    and "isUserAllowed u (req_method r) (param_bucket r)"
  shows "AuthMiddleware E B d fs r = Inr (as_user u r)"
proof -
  let ?a = "FormatAmzDate (lb E) t"
  note a = amz_date_chars[OF assms(1-3)]
  let ?cred = "credential ak (take 8 ?a) region service"
  let ?sig = "signature (lb E) secret ?a (take 8 ?a) region service (canonical_request r (buildCanonicalQuery (req_query r)) sh ph)"
  let ?h = "authorization_header ?cred sh ?sig"
  note parts = assms(4) plain_take[OF a(1), of 8] assms(5,6)
  have ts: "validateTimestamp E r ?a = None" unfolding validateTimestamp_None using a(3) assms(15,16) by auto
  have "?a \<noteq> []" using a(2) by auto
  then have "check_signed_header E B d r [ak, take 8 ?a, region, service, ''aws4_request''] sh (hex_encode ?sig) = Inr (as_user u r)"
    using assms(8-11,17) a(2) ts
    by (simp add: check_signed_header_def check_body_None[THEN iffD2] buildCanonicalRequest_def
        verify_signature_ok[OF assms(12,13)])
  then have "processHeaderAuth E B d r ?h = Inr (as_user u r)"
    using credential_split[OF parts]
    by (simp add: processHeaderAuth_def auth_params_header[OF credential_plain[OF parts] assms(7)])
  moreover have "?h \<noteq> []" "HasPrefix ?h ''AWS4-HMAC-SHA256 ''" by (simp_all add: authorization_header_def HasPrefix_def)
  ultimately show ?thesis using assms(14) by (simp add: AuthMiddleware_def)
qed

section \<open>The URL the server makes\<close>

lemma map_of_order: "\<lbrakk>mset q = mset q'; distinct (keys q')\<rbrakk> \<Longrightarrow> map_of q = map_of q'"
  by (metis map_of_inject_set mset_eq_imp_distinct_iff mset_map set_mset_mset)

lemma delete_order: "mset q = mset q' \<Longrightarrow> mset (AList.delete k q) = mset (AList.delete k q')"
  by (simp add: AList.delete_eq mset_filter)

text \<open>A client following the URL: its parameters arrive in any order.\<close>

definition follows :: "request \<Rightarrow> string \<Rightarrow> presigned \<Rightarrow> bool" where
  "follows r host p \<longleftrightarrow> req_method r = ''GET'' \<and> req_host r = host \<and> req_escaped_path r = EscapePath (ps_path p)
     \<and> mset (req_query r) = mset (map (\<lambda>(k, v). (k, [v])) (ps_query p)) \<and> GetHeader r ''Authorization'' = []"

lemma host_header: "buildCanonicalHeaders r ''host'' = ''host:'' @ req_host r @ ''\<newline>''"
proof -
  have "Split CHR '';'' ''host'' = [''host'']" "TrimSpace (ToLower ''host'') = ''host''" by code_simp+
  then show ?thesis by (simp add: buildCanonicalHeaders_def canonical_value_def)
qed

lemma host_only: "\<not> signedHeadersContains ''host'' ''x-amz-content-sha256''"
  by code_simp

lemma presigned_accepted:
  assumes "amz_time_ok (lb E)" "seconds_ok (lb E)" "hmac_ok (lb E)" "0 \<le> t" "t < year_10000" "plain_part ak" "expires \<le> max_duration"
    and pg: "PresignGet (lb E) t ak secret host b k expires = Some p" and fl: "follows r host p"
    and "GetUser (lb E) B ak d = Inr u" "Decrypt (lb E) (enc_key E) (EncryptedSecret u) = Some secret"
    and "now E \<le> (t - t mod Second) + expires div Second * Second"
    and "now E - (t - t mod Second) \<le> 15 * Minute" "(t - t mod Second) - now E \<le> 15 * Minute"
  shows "AuthMiddleware E B d fs r = Inr (as_user u r)"
proof -
  let ?a = "FormatAmzDate (lb E) t" let ?date = "take 8 ?a"
  note a = amz_date_chars[OF assms(1,4,5)]
  let ?q = "map (\<lambda>(k, v). (k, [v])) (presign_query (lb E) t ak expires)"
  let ?canon = "Join ''\<newline>'' [''GET'', EscapePath (presign_path b k), buildCanonicalQuery ?q, ''host:'' @ host @ ''\<newline>'',
      ''host'', ''UNSIGNED-PAYLOAD'']"
  let ?sig = "signature (lb E) secret ?a ?date ''us-east-1'' ''s3'' ?canon"
  have p: "ps_path p = presign_path b k" "ps_query p = presign_query (lb E) t ak expires @ [(''X-Amz-Signature'', hex_encode ?sig)]"
    and pos: "0 < expires" using pg by (auto simp: PresignGet_def Let_def split: if_splits)
  let ?full = "?q @ [(''X-Amz-Signature'', [hex_encode ?sig])]"
  have ms: "mset (req_query r) = mset ?full" using fl p(2) by (simp add: follows_def)
  have mo: "map_of (req_query r) = map_of ?full"
    by (rule map_of_order[OF ms]) (simp add: presign_query_def Let_def)
  have qs: "Query r ''X-Amz-Algorithm'' = ''AWS4-HMAC-SHA256''" "Query r ''X-Amz-Credential'' = credential ak ?date ''us-east-1'' ''s3''"
    "Query r ''X-Amz-Date'' = ?a" "Query r ''X-Amz-Expires'' = Itoa (expires div Second)" "Query r ''X-Amz-SignedHeaders'' = ''host''"
    "Query r ''X-Amz-Signature'' = hex_encode ?sig" "Query r ''X-Amz-Content-Sha256'' = []"
    by (simp_all add: Query_def mo presign_query_def Let_def credential_def)
  have del: "AList.delete ''X-Amz-Signature'' ?full = ?q" by (simp add: presign_query_def Let_def AList.delete_eq)
  have cq: "buildCanonicalQuery (AList.delete ''X-Amz-Signature'' (req_query r)) = buildCanonicalQuery ?q"
    using buildCanonicalQuery_order[OF delete_order[OF ms, of "''X-Amz-Signature''"]] by (simp only: del)
  have cr: "canonical_request r (buildCanonicalQuery (AList.delete ''X-Amz-Signature'' (req_query r))) ''host'' ''UNSIGNED-PAYLOAD'' = ?canon"
    using fl p(1) by (simp add: canonical_request_def cq host_header follows_def)
  have sp: "Split CHR ''/'' (credential ak ?date ''us-east-1'' ''s3'') = [ak, ?date, ''us-east-1'', ''s3'', ''aws4_request'']"
    by (rule credential_split[OF assms(6) plain_take[OF a(1)]]) (auto simp: plain_part_def plain_def is_space_def)
  have ex: "ParseSeconds (lb E) (Itoa (expires div Second)) = Some (expires div Second * Second)"
  proof -
    have "expires div Second * Second \<le> expires" using pos by (simp add: minus_mod_eq_div_mult[symmetric] Second_def)
    then show ?thesis using assms(2,7) pos by (simp add: seconds_ok_def pos_imp_zdiv_nonneg_iff)
  qed
  have ts: "validateTimestamp E r ?a = None" unfolding validateTimestamp_None using a(3) assms(13,14) by auto
  have ne: "?a \<noteq> []" "credential ak ?date ''us-east-1'' ''s3'' \<noteq> []" "Itoa (expires div Second) \<noteq> []" "hex_encode ?sig \<noteq> []"
    using a(2) assms(3) by (auto simp: credential_def Itoa_def hmac_ok_def signature_def hmacSHA256_def
        dest: arg_cong[of _ _ length])
  have ph: "presigned_payload_hash r ''host'' = ''UNSIGNED-PAYLOAD''" by (simp add: presigned_payload_hash_def qs host_only)
  have "check_presigned E B d r [ak, ?date, ''us-east-1'', ''s3'', ''aws4_request''] ?a (Itoa (expires div Second)) (hex_encode ?sig)
      ''host'' ''UNSIGNED-PAYLOAD'' = Inr (as_user u r)"
    using ex a(3) assms(12) ts by (simp add: check_presigned_def cr verify_signature_ok[OF assms(10,11)])
  then have "processPresignedAuth E B d r = Inr (as_user u r)"
    using ne by (simp add: processPresignedAuth_def qs ph sp)
  then show ?thesis using fl qs(1) by (simp add: AuthMiddleware_def follows_def)
qed

section \<open>What the URL names\<close>

definition path_safe :: "char \<Rightarrow> bool" where
  "path_safe c \<longleftrightarrow> is_unreserved c \<or> c \<in> set ''$&+:=@''"

lemma PathEscape_Cons: "PathEscape (c # s) = (if path_safe c then [c] else percent c) @ PathEscape s"
  by (simp add: PathEscape_def path_safe_def)

lemma PathEscape_safe: "list_all path_safe s \<Longrightarrow> PathEscape s = s"
proof (induction s)
  case Nil
  then show ?case by (simp add: PathEscape_def)
next
  case (Cons c s)
  then show ?case using PathEscape_Cons[of c s] by simp
qed

lemma PathEscape_longer: "length (PathEscape s) = length s + 2 * length (filter (\<lambda>c. \<not> path_safe c) s)"
proof (induction s)
  case Nil
  then show ?case by (simp add: PathEscape_def)
next
  case (Cons c s)
  then show ?case using PathEscape_Cons[of c s] by (simp add: percent_def)
qed

lemma length_Join_map:
  "\<forall>x\<in>set xs. length x \<le> length (f x) \<Longrightarrow> length (Join sep xs) \<le> length (Join sep (map f xs))"
proof (induction sep xs rule: Join.induct)
  case (3 sep x y ys)
  then show ?case by (simp add: add_mono)
qed simp_all

lemma length_Join_map_less:
  "\<lbrakk>\<forall>x\<in>set xs. length x \<le> length (f x); \<exists>x\<in>set xs. length x < length (f x)\<rbrakk>
     \<Longrightarrow> length (Join sep xs) < length (Join sep (map f xs))"
proof (induction sep xs rule: Join.induct)
  case (3 sep x y ys)
  have le: "length (Join sep (y # ys)) \<le> length (Join sep (map f (y # ys)))" using 3(2) by (intro length_Join_map) simp
  have lt: "\<exists>z\<in>set (y # ys). length z < length (f z) \<Longrightarrow> length (Join sep (y # ys)) < length (Join sep (map f (y # ys)))"
    using 3(1,2) by simp
  have x: "length x \<le> length (f x)" using 3(2) by simp
  show ?case using 3(3) le lt x by (cases "length x < length (f x)") fastforce+
qed simp_all

text \<open>
  A key with a character that needs escaping is escaped twice: the path the server decodes
  from the URL is the escaped key, so the URL names another object.
\<close>

lemma presign_path_plain:
  assumes "list_all path_safe b" "\<forall>c\<in>set k. path_safe c \<or> c = CHR ''/''"
  shows "presign_path b k = ''/'' @ b @ ''/'' @ k"
proof -
  have "PathEscape x = x" if "x \<in> set (Split CHR ''/'' k)" for x
    using that assms(2) Split_subset[OF that] Split_no_sep[OF that] by (intro PathEscape_safe) (auto simp: list_all_iff)
  then have "map PathEscape (Split CHR ''/'' k) = Split CHR ''/'' k" by (simp add: map_idI)
  then show ?thesis using PathEscape_safe[OF assms(1)] by (simp add: presign_path_def Join_Split)
qed

lemma in_some_segment: "\<lbrakk>c \<in> set k; c \<noteq> s\<rbrakk> \<Longrightarrow> \<exists>x\<in>set (Split s k). c \<in> set x"
  by (induction s k rule: Split.induct) (auto split: list.splits if_splits)

lemma presign_path_other:
  assumes "list_all path_safe b" "c \<in> set k" "\<not> path_safe c" "c \<noteq> CHR ''/''"
  shows "PathUnescape (EscapePath (presign_path b k)) \<noteq> Some (''/'' @ b @ ''/'' @ k)"
proof -
  obtain x where x: "x \<in> set (Split CHR ''/'' k)" "c \<in> set x" using in_some_segment[OF assms(2,4)] by blast
  have "filter (\<lambda>c. \<not> path_safe c) x \<noteq> []" using x(2) assms(3) by (auto simp: filter_empty_conv)
  then have "length x < length (PathEscape x)" by (simp add: PathEscape_longer)
  then have "length (Join ''/'' (Split CHR ''/'' k)) < length (Join ''/'' (map PathEscape (Split CHR ''/'' k)))"
    using x(1) by (intro length_Join_map_less) (auto simp: PathEscape_longer)
  then have "length (presign_path b k) > length (''/'' @ b @ ''/'' @ k)"
    using PathEscape_safe[OF assms(1)] by (simp add: presign_path_def Join_Split)
  then show ?thesis by (auto simp: PathUnescape_EscapePath)
qed

end
