(* ===== verification/Auth_Theorems.thy ===== *)
theory Auth_Theorems
  imports Sigv4_Accept Reference_Env
begin

text \<open>
  What the storage surface's authentication guarantees: who it lets in, that it lets in what
  a client has signed, and where it differs from what the code or its documentation says.
\<close>

section \<open>Soundness\<close>

text \<open>C3: Whatever passes the middleware carries one of three proofs: a header signature over this
  request by a stored user's secret, fresh within 15 minutes, of a user the ACL rules allow; a
  presigned query with a valid signature, unexpired; or it is a plain read of something the
  canned ACL makes public.\<close>

theorem storage_auth_sound:
  assumes "AuthMiddleware E B d fs r = Inr r'"
  shows "(\<exists>u. r' = as_user u r \<and> isUserAllowed u (req_method r) (param_bucket r)
         \<and> header_evidence E B d r (auth_params (TrimPrefix (GetHeader r ''Authorization'') ''AWS4-HMAC-SHA256 '')) u)
     \<or> (\<exists>u. r' = as_user u r \<and> GetHeader r ''Authorization'' = [] \<and> presigned_evidence E B d r u)
     \<or> r' = r\<lparr>ctx_authMethod := ''anonymous''\<rparr> \<and> anonymous_evidence E fs r"
  by (rule AuthMiddleware_Inr[OF assms])

text \<open>A request for \<open>bkt/k\<close> signed by the reference user.\<close>

definition ref_unsigned :: request where
  "ref_unsigned = (ref_request ''PUT'' ''bkt'' ''k'' [])\<lparr>req_header :=
     [(''X-Amz-Date'', [FormatAmzDate ref_lib 5]), (''X-Amz-Content-Sha256'', [''UNSIGNED-PAYLOAD''])]\<rparr>"

definition ref_signed :: request where
  "ref_signed = (let r = ref_unsigned; a = FormatAmzDate ref_lib 5; date = take 8 a
     in r\<lparr>req_header := (''Authorization'', [authorization_header (credential ''AK'' date ''us-east-1'' ''s3'') ''host''
          (signature ref_lib ''s3cret'' a date ''us-east-1'' ''s3''
            (canonical_request r (buildCanonicalQuery []) ''host'' ''UNSIGNED-PAYLOAD''))]) # req_header r\<rparr>)"

abbreviation ref_date :: string where "ref_date \<equiv> FormatAmzDate (lb ref_env) 5"

lemma ref_signed_parts:
  "amz_time_ok (lb ref_env)" "(0 :: time) \<le> 5" "(5 :: time) < year_10000"
  "plain_part ''AK''" "plain_part ''us-east-1''" "plain_part ''s3''" "plain ''host''"
  "GetHeader ref_signed ''X-Amz-Date'' = ref_date"
  "GetHeader ref_signed ''X-Amz-Content-Sha256'' = ''UNSIGNED-PAYLOAD''" "''UNSIGNED-PAYLOAD'' \<noteq> []"
  "body_matches (lb ref_env) ref_signed ''UNSIGNED-PAYLOAD''"
  "GetUser (lb ref_env) ref_bolt ''AK'' ref_store = Inr ref_user"
  "Decrypt (lb ref_env) (enc_key ref_env) (EncryptedSecret ref_user) = Some ''s3cret''"
  "GetHeader ref_signed ''Authorization'' =
      authorization_header (credential ''AK'' (take 8 ref_date) ''us-east-1'' ''s3'') ''host''
        (signature (lb ref_env) ''s3cret'' ref_date (take 8 ref_date) ''us-east-1'' ''s3''
          (canonical_request ref_signed (buildCanonicalQuery (req_query ref_signed)) ''host'' ''UNSIGNED-PAYLOAD''))"
  "now ref_env - (5 - 5 mod Second) \<le> 15 * Minute" "5 - 5 mod Second - now ref_env \<le> 15 * Minute"
  "isUserAllowed ref_user (req_method ref_signed) (param_bucket ref_signed)"
proof -
  show "amz_time_ok (lb ref_env)" using ref_time_ok by simp
  show "GetUser (lb ref_env) ref_bolt ''AK'' ref_store = Inr ref_user" by (rule ref_store_get)
  show "Decrypt (lb ref_env) (enc_key ref_env) (EncryptedSecret ref_user) = Some ''s3cret''" by (rule ref_user_secret)
  show "body_matches (lb ref_env) ref_signed ''UNSIGNED-PAYLOAD''" by (simp add: body_matches_def skips_body_check_def)
  show "(5 :: time) < year_10000" "now ref_env - (5 - 5 mod Second) \<le> 15 * Minute" "5 - 5 mod Second - now ref_env \<le> 15 * Minute"
    by (simp_all add: year_10000_def Second_def Minute_def)
qed code_simp+

lemma storage_auth_sound_witness:
  "\<exists>u. as_user ref_user ref_signed = as_user u ref_signed \<and> isUserAllowed u ''PUT'' ''bkt''"
proof -
  have m: "req_method ref_signed = ''PUT''" "param_bucket ref_signed = ''bkt''" "GetHeader ref_signed ''Authorization'' \<noteq> []" by code_simp+
  have "ctx_authMethod (as_user ref_user ref_signed) \<noteq> ''anonymous''" by (simp add: as_user_def)
  then have "as_user ref_user ref_signed \<noteq> ref_signed\<lparr>ctx_authMethod := ''anonymous''\<rparr>" by auto
  then show ?thesis using storage_auth_sound[OF header_accepted[OF ref_signed_parts]] m by metis
qed

section \<open>Completeness\<close>

text \<open>C17: A client that signs with the stored secret, within the window, is let in: the header it
  builds is taken apart into exactly the parts it signed.\<close>

theorem header_signature_accepted:
  assumes "amz_time_ok (lb E)" "0 \<le> t" "t < year_10000"
    and "plain_part ak" "plain_part region" "plain_part service" "plain sh"
    and "GetHeader r ''X-Amz-Date'' = FormatAmzDate (lb E) t"
    and "GetHeader r ''X-Amz-Content-Sha256'' = ph" "ph \<noteq> []" "body_matches (lb E) r ph"
    and "GetUser (lb E) B ak d = Inr u" "Decrypt (lb E) (enc_key E) (EncryptedSecret u) = Some secret"
    and "GetHeader r ''Authorization'' =
      authorization_header (credential ak (take 8 (FormatAmzDate (lb E) t)) region service) sh
        (signature (lb E) secret (FormatAmzDate (lb E) t) (take 8 (FormatAmzDate (lb E) t)) region service
          (canonical_request r (buildCanonicalQuery (req_query r)) sh ph))"
    and "now E - (t - t mod Second) \<le> 15 * Minute" "(t - t mod Second) - now E \<le> 15 * Minute"
    and "isUserAllowed u (req_method r) (param_bucket r)"
  shows "AuthMiddleware E B d fs r = Inr (as_user u r)"
  by (rule header_accepted[OF assms])

lemma header_signature_accepted_witness:
  "AuthMiddleware ref_env ref_bolt ref_store (disk ref_world) ref_signed = Inr (as_user ref_user ref_signed)"
  by (rule header_signature_accepted[OF ref_signed_parts])

text \<open>C18: A URL the server presigns is accepted when it is followed as printed, by whoever holds it,
  as long as the signing time is within 15 minutes and the expiry has not passed.\<close>

theorem presigned_url_accepted:
  assumes "amz_time_ok (lb E)" "seconds_ok (lb E)" "hmac_ok (lb E)" "0 \<le> t" "t < year_10000" "plain_part ak" "expires \<le> max_duration"
    and "PresignGet (lb E) t ak secret host b k expires = Some p" "follows r host p"
    and "GetUser (lb E) B ak d = Inr u" "Decrypt (lb E) (enc_key E) (EncryptedSecret u) = Some secret"
    and "now E \<le> (t - t mod Second) + expires div Second * Second"
    and "now E - (t - t mod Second) \<le> 15 * Minute" "(t - t mod Second) - now E \<le> 15 * Minute"
  shows "AuthMiddleware E B d fs r = Inr (as_user u r)"
  by (rule presigned_accepted[OF assms])

definition ref_presigned :: presigned where
  "ref_presigned = the (PresignGet (lb ref_env) 5 ''AK'' ''s3cret'' ''s3.local'' ''bkt'' ''k'' (600 * Second))"

definition ref_follow :: request where
  "ref_follow = (ref_request ''GET'' ''bkt'' ''k'' [])\<lparr>req_escaped_path := EscapePath (ps_path ref_presigned),
     req_query := map (\<lambda>(k, v). (k, [v])) (ps_query ref_presigned)\<rparr>"

lemma ref_presigned_made:
  "PresignGet (lb ref_env) 5 ''AK'' ''s3cret'' ''s3.local'' ''bkt'' ''k'' (600 * Second) = Some ref_presigned"
  unfolding ref_presigned_def by (simp add: PresignGet_def Let_def Second_def)

lemma presigned_url_accepted_witness:
  "AuthMiddleware ref_env ref_bolt ref_store (disk ref_world) ref_follow = Inr (as_user ref_user ref_follow)"
proof (rule presigned_url_accepted[where t = 5 and expires = "600 * Second", OF _ _ _ _ _ _ _ ref_presigned_made _ ref_store_get ref_user_secret])
  show "amz_time_ok (lb ref_env)" "seconds_ok (lb ref_env)" "hmac_ok (lb ref_env)" using ref_time_ok ref_seconds_ok ref_hmac_ok by simp_all
  show "follows ref_follow ''s3.local'' ref_presigned"
    by (simp add: follows_def ref_follow_def ref_request_def GetHeader_def header_values_def)
  show "plain_part ''AK''" by code_simp
qed (simp_all add: year_10000_def Second_def Minute_def max_duration_def)

section \<open>Canonical form\<close>

text \<open>The order in which the query parameters are visited does not reach the signature.\<close>

theorem canonical_query_order:
  assumes "mset q = mset q'"
  shows "buildCanonicalRequest r sh ph (Some q) = buildCanonicalRequest r sh ph (Some q')"
  using buildCanonicalQuery_order[OF assms] by (simp add: buildCanonicalRequest_def)

lemma canonical_query_order_witness:
  "buildCanonicalRequest ref_signed ''host'' ''x'' (Some [(''a'', [''1'']), (''b'', [''2''])])
     = buildCanonicalRequest ref_signed ''host'' ''x'' (Some [(''b'', [''2'']), (''a'', [''1''])])"
  by (rule canonical_query_order) simp

section \<open>Where the permissions fall short\<close>

text \<open>A rule with effect \<open>Deny\<close> has no effect: dropping every such rule changes no decision.\<close>

theorem deny_rules_ignored:
  "isUserAllowed (u\<lparr>ACL := filter (\<lambda>rule. EqualFold (Effect rule) ''Allow'') (ACL u)\<rparr>) m b = isUserAllowed u m b"
  by (rule isUserAllowed_deny)

text \<open>In a bucket with a valid name, writing and deleting objects is decided by the bucket
  actions: \<open>s3:PutObject\<close> or \<open>s3:DeleteObject\<close> alone allows neither.\<close>

theorem object_writes_need_bucket_actions:
  assumes "ValidateBucketName b = None"
    and "\<forall>rule\<in>set (ACL u). set (Actions rule) \<subseteq> {''s3:PutObject'', ''s3:GetObject'', ''s3:DeleteObject'', ''s3:ListBucket''}"
  shows "\<not> isUserAllowed u ''PUT'' b \<and> \<not> isUserAllowed u ''DELETE'' b"
  using assms(2) object_write_needs_bucket_action[OF assms(1), of u] by auto

lemma object_writes_need_bucket_actions_witness:
  "\<not> isUserAllowed (ref_user\<lparr>ACL := [\<lparr>Effect = ''Allow'', Buckets = [''bkt''], Actions = [''s3:PutObject'', ''s3:DeleteObject'']\<rparr>]\<rparr>) ''PUT'' ''bkt''"
  by (rule conjunct1[OF object_writes_need_bucket_actions]) (code_simp, simp)

text \<open>A presigned URL for a key with a character outside the path alphabet leads elsewhere: the
  path is escaped twice, so the server decodes it to another key.\<close>

theorem presigned_path_escaped_twice:
  assumes "list_all path_safe b" "c \<in> set k" "\<not> path_safe c" "c \<noteq> CHR ''/''"
  shows "PathUnescape (EscapePath (presign_path b k)) \<noteq> Some (''/'' @ b @ ''/'' @ k)"
  by (rule presign_path_other[OF assms])

lemma presigned_path_escaped_twice_witness:
  "PathUnescape (EscapePath (presign_path ''bkt'' ''a b'')) \<noteq> Some ''/bkt/a b''"
  using presigned_path_escaped_twice[of "''bkt''" "CHR '' ''" "''a b''"] by (simp add: path_safe_def is_unreserved_def)

end
