(* ===== verification/Bounded_Table.thy ===== *)
theory Bounded_Table
  imports Prelude
begin

text \<open>
  What the in-memory tables of the program share: a scan for the entry with the earliest
  timestamp (a \<open>for range\<close> loop over a Go map), its eviction, and the locales that
  state the contract of a table driven by a sequence of operations.
\<close>

section \<open>Evicting the oldest entry\<close>

fun scan_oldest :: "('v \<Rightarrow> time) \<Rightarrow> ('k \<times> 'v) option \<Rightarrow> ('k \<times> 'v) list \<Rightarrow> ('k \<times> 'v) option" where
  "scan_oldest at acc [] = acc"
| "scan_oldest at acc ((k, v) # m) =
     scan_oldest at
       (case acc of None \<Rightarrow> Some (k, v)
        | Some (k0, v0) \<Rightarrow> if at v < at v0 then Some (k, v) else Some (k0, v0)) m"

definition evict_oldest :: "('v \<Rightarrow> time) \<Rightarrow> ('k \<times> 'v) list \<Rightarrow> ('k \<times> 'v) list" where
  "evict_oldest at m =
     (case scan_oldest at None m of None \<Rightarrow> m | Some (k, _) \<Rightarrow> AList.delete k m)"

lemma scan_oldest_Some:
  "scan_oldest at (Some (k0, v0)) m = Some (k, v) \<Longrightarrow>
     ((k, v) = (k0, v0) \<or> (k, v) \<in> set m) \<and> at v \<le> at v0 \<and> (\<forall>(k', v')\<in>set m. at v \<le> at v')"
proof (induction m arbitrary: k0 v0)
  case (Cons kv m)
  obtain k1 v1 where kv: "kv = (k1, v1)" by (cases kv)
  show ?case
  proof (cases "at v1 < at v0")
    case True
    with Cons.prems kv have "scan_oldest at (Some (k1, v1)) m = Some (k, v)" by simp
    from Cons.IH[OF this] True kv show ?thesis by auto
  next
    case False
    with Cons.prems kv have "scan_oldest at (Some (k0, v0)) m = Some (k, v)" by simp
    from Cons.IH[OF this] False kv show ?thesis by auto
  qed
qed simp

lemma scan_oldest_is_Some: "scan_oldest at (Some e) m \<noteq> None"
proof (induction m arbitrary: e)
  case (Cons kv m)
  then show ?case by (cases kv; cases e) auto
qed simp

lemma scan_oldest_None_iff [simp]: "scan_oldest at None m = None \<longleftrightarrow> m = []"
  using scan_oldest_is_Some by (cases m) auto

lemma scan_oldest_min:
  assumes "scan_oldest at None m = Some (k, v)"
  shows "(k, v) \<in> set m \<and> (\<forall>(k', v')\<in>set m. at v \<le> at v')"
proof (cases m)
  case (Cons kv m')
  with assms show ?thesis
    by (cases kv) (auto dest!: scan_oldest_Some)
qed (use assms in simp)

lemma evict_oldest_less [table_simps]: "m \<noteq> [] \<Longrightarrow> length (evict_oldest at m) < length m"
proof -
  assume "m \<noteq> []"
  then obtain k v where s: "scan_oldest at None m = Some (k, v)"
    by (metis option.exhaust scan_oldest_None_iff surj_pair)
  from scan_oldest_min[OF s] have "k \<in> set (keys m)" by force
  then obtain w where "map_of m k = Some w" by (metis map_of_None_keys option.exhaust)
  then show ?thesis using s by (simp add: evict_oldest_def length_delete_less)
qed

lemma evict_oldest_le: "length (evict_oldest at m) \<le> length m"
  using evict_oldest_less[of m at] by (cases m) (auto simp: evict_oldest_def)

lemma wf_map_evict [table_simps]: "wf_map m \<Longrightarrow> wf_map (evict_oldest at m)"
  by (auto simp: evict_oldest_def wf_map_delete split: option.splits)

lemma map_of_evict: "map_of (evict_oldest at m) k = Some v \<Longrightarrow> map_of m k = Some v"
  by (auto simp: evict_oldest_def table_simps split: option.splits if_splits)

text \<open>An entry that is not among the oldest survives.\<close>

lemma map_of_evict_keep:
  assumes "wf_map m" "map_of m k = Some v" "map_of m k' = Some v'" "at v' < at v"
  shows "map_of (evict_oldest at m) k = Some v"
proof (cases "scan_oldest at None m")
  case None
  then show ?thesis using assms by simp
next
  case (Some kv)
  obtain k0 v0 where kv: "kv = (k0, v0)" by (cases kv)
  from scan_oldest_min[OF Some[unfolded kv]]
  have mem: "(k0, v0) \<in> set m" and min: "\<forall>(x, y)\<in>set m. at v0 \<le> at y" by auto
  have "k0 \<noteq> k"
  proof
    assume "k0 = k"
    then have "v0 = v" using mem assms(1,2) by (simp add: wf_map_def)
    moreover have "at v0 \<le> at v'" using min assms(3) by (auto dest: map_of_SomeD)
    ultimately show False using assms(4) by simp
  qed
  then show ?thesis using Some kv assms(2) by (simp add: evict_oldest_def table_simps)
qed

text \<open>Making room under a cap, then inserting.\<close>

lemma capped_insert:
  "\<lbrakk>length m \<le> c; 0 < c; length m' \<le> (if c \<le> length m then length (evict_oldest at m) else length m)\<rbrakk>
     \<Longrightarrow> length (AList.update k v m') \<le> c"
  using evict_oldest_less[of m at] length_update_le[of k v m'] by (cases m) (auto split: if_splits)

section \<open>Contracts\<close>

text \<open>
  A component driven by operations, with an invariant that each operation keeps; and one
  whose invariant bounds the number of entries it retains.
\<close>

locale driven =
  fixes step :: "'op \<Rightarrow> 's \<Rightarrow> 's" and inv :: "'s \<Rightarrow> bool"
  assumes step_inv: "inv s \<Longrightarrow> inv (step op s)"
begin

lemma run_inv: "inv s \<Longrightarrow> inv (fold step ops s)"
  by (induction ops arbitrary: s) (auto intro: step_inv)

end

locale bounded_table = driven step inv
  for step :: "'op \<Rightarrow> 's \<Rightarrow> 's" and inv :: "'s \<Rightarrow> bool" +
  fixes count :: "'s \<Rightarrow> nat" and cap :: "'s \<Rightarrow> nat"
  assumes count_cap: "inv s \<Longrightarrow> count s \<le> cap s"
    and cap_step: "cap (step op s) = cap s"
begin

lemma cap_run: "cap (fold step ops s) = cap s"
  by (induction ops arbitrary: s) (auto simp: cap_step)

lemma never_over: "inv s \<Longrightarrow> count (fold step ops s) \<le> cap s"
  using count_cap[OF run_inv[of s ops]] cap_run[of ops s] by simp

end

end
