(* ===== verification/Sessions.thy ===== *)
theory Sessions
  imports Bounded_Table Encoding
begin

text \<open>
  \<open>internal/auth/session.go\<close>: the in-memory store of admin browser sessions, keyed by
  the SHA-256 digest of the token.  The digest function is the parameter \<open>sha256\<close>, the
  32 random bytes that \<open>crypto/rand\<close> returns and the clock are arguments.
\<close>

section \<open>The store\<close>

record session =
  accessKey :: string
  created :: time
  lastSeen :: time

record sessionStore =
  byDigest :: "(bytes \<times> session) list"
  capacity :: nat
  idle :: duration
  absolute :: duration

definition SessionIdleTimeout :: duration where "SessionIdleTimeout = 30 * Minute"
definition SessionAbsoluteTTL :: duration where "SessionAbsoluteTTL = 8 * Hour"
definition sessionCap :: nat where "sessionCap = 1024"
definition sessionTokenBytes :: nat where "sessionTokenBytes = 32"

text \<open>\<open>RawURLEncoding.EncodedLen\<close>.\<close>

definition sessionTokenLen :: nat where
  "sessionTokenLen = sessionTokenBytes div 3 * 4 + (sessionTokenBytes mod 3 * 8 + 5) div 6"

definition newSessionStore :: "nat \<Rightarrow> duration \<Rightarrow> duration \<Rightarrow> sessionStore" where
  "newSessionStore cap i a = \<lparr>byDigest = [], capacity = cap, idle = i, absolute = a\<rparr>"

definition sessions :: sessionStore where
  "sessions = newSessionStore sessionCap SessionIdleTimeout SessionAbsoluteTTL"

definition expired :: "sessionStore \<Rightarrow> session \<Rightarrow> time \<Rightarrow> bool" where
  "expired s sess now =
     (Sub now (lastSeen sess) \<ge> idle s \<or> Sub now (created sess) \<ge> absolute s)"

definition pruneLocked :: "time \<Rightarrow> sessionStore \<Rightarrow> sessionStore" where
  "pruneLocked now s = s\<lparr>byDigest := filter (\<lambda>(k, sess). \<not> expired s sess now) (byDigest s)\<rparr>"

definition evictLRULocked :: "sessionStore \<Rightarrow> sessionStore" where
  "evictLRULocked s = s\<lparr>byDigest := evict_oldest lastSeen (byDigest s)\<rparr>"

definition session_token :: "bytes \<Rightarrow> string" where
  "session_token raw = RawURLEncode raw"

definition create :: "(string \<Rightarrow> bytes) \<Rightarrow> bytes \<Rightarrow> time \<Rightarrow> string \<Rightarrow> sessionStore \<Rightarrow> string \<times> sessionStore" where
  "create sha256 raw now ak s =
     (let token = session_token raw;
          s1 = (if length (byDigest s) \<ge> capacity s then pruneLocked now s else s);
          s2 = (if length (byDigest s1) \<ge> capacity s1 then evictLRULocked s1 else s1)
      in (token, s2\<lparr>byDigest := AList.update (sha256 token)
                      \<lparr>accessKey = ak, created = now, lastSeen = now\<rparr> (byDigest s2)\<rparr>))"

definition lookup :: "(string \<Rightarrow> bytes) \<Rightarrow> time \<Rightarrow> string \<Rightarrow> sessionStore \<Rightarrow> string option \<times> sessionStore" where
  "lookup sha256 now token s =
     (if length token \<noteq> sessionTokenLen then (None, s)
      else let key = sha256 token
           in case map_of (byDigest s) key of
               None \<Rightarrow> (None, s)
             | Some sess \<Rightarrow>
                 if expired s sess now then (None, s\<lparr>byDigest := AList.delete key (byDigest s)\<rparr>)
                 else (Some (accessKey sess),
                       s\<lparr>byDigest := AList.update key (sess\<lparr>lastSeen := now\<rparr>) (byDigest s)\<rparr>))"

definition revoke :: "(string \<Rightarrow> bytes) \<Rightarrow> string \<Rightarrow> sessionStore \<Rightarrow> sessionStore" where
  "revoke sha256 token s = s\<lparr>byDigest := AList.delete (sha256 token) (byDigest s)\<rparr>"

text \<open>The operations as a type, so that runs of the store are lists of them.\<close>

datatype session_op =
    Create (op_raw: bytes) (op_now: time) (op_key: string)
  | Lookup (op_now: time) (op_token: string)
  | Revoke (op_token: string)

fun session_step :: "(string \<Rightarrow> bytes) \<Rightarrow> session_op \<Rightarrow> sessionStore \<Rightarrow> sessionStore" where
  "session_step sha (Create raw now ak) s = snd (create sha raw now ak s)"
| "session_step sha (Lookup now token) s = snd (lookup sha now token s)"
| "session_step sha (Revoke token) s = revoke sha token s"

definition session_inv :: "sessionStore \<Rightarrow> bool" where
  "session_inv s \<longleftrightarrow> wf_map (byDigest s) \<and> length (byDigest s) \<le> capacity s \<and> 0 < capacity s"

section \<open>Bounds\<close>

lemmas session_defs = create_def lookup_def revoke_def pruneLocked_def evictLRULocked_def Let_def

lemma session_config [simp]:
  "capacity (session_step sha op s) = capacity s"
  "idle (session_step sha op s) = idle s"
  "absolute (session_step sha op s) = absolute s"
  by (cases op; simp add: session_defs split: option.splits)+

lemma create_length:
  assumes "length (byDigest s) \<le> capacity s" "0 < capacity s"
  shows "length (byDigest (snd (create sha raw now ak s))) \<le> capacity s"
proof -
  define m where "m = (if length (byDigest s) \<ge> capacity s
      then filter (\<lambda>(k, sess). \<not> expired s sess now) (byDigest s) else byDigest s)"
  have m: "length m \<le> capacity s" using assms(1) by (auto simp: m_def intro: order.trans[OF length_filter_le])
  have "byDigest (snd (create sha raw now ak s)) = AList.update (sha (session_token raw))
      \<lparr>accessKey = ak, created = now, lastSeen = now\<rparr>
      (if length m \<ge> capacity s then evict_oldest lastSeen m else m)"
    by (auto simp: session_defs m_def)
  then show ?thesis
    using capped_insert[OF m assms(2), of "if length m \<ge> capacity s then evict_oldest lastSeen m else m" lastSeen]
    by auto
qed

lemma session_step_inv: "session_inv s \<Longrightarrow> session_inv (session_step sha op s)"
proof (cases op)
  case (Create raw now ak)
  assume inv: "session_inv s"
  have "wf_map (byDigest (snd (create sha raw now ak s)))"
    using inv by (auto simp: session_defs session_inv_def intro!: wf_map_update wf_map_evict wf_map_filter)
  with create_length[of s] inv Create session_config(1)[of sha op s] show ?thesis
    by (simp add: session_inv_def)
next
  case (Lookup now token)
  assume "session_inv s"
  moreover have "map_of (byDigest s) k = Some v \<Longrightarrow> length (AList.update k w (byDigest s)) = length (byDigest s)" for k v w
    by (metis length_update map_of_None_keys option.distinct(1))
  ultimately show ?thesis using Lookup length_delete_le[of "sha token" "byDigest s"]
    by (auto simp: session_defs session_inv_def wf_map_update wf_map_delete split: option.splits)
next
  case (Revoke token)
  assume "session_inv s"
  then show ?thesis using Revoke length_delete_le[of "sha token" "byDigest s"]
    by (auto simp: session_defs session_inv_def wf_map_delete)
qed

interpretation sess: bounded_table "session_step sha" session_inv "\<lambda>s. length (byDigest s)" capacity
proof
  show "session_inv s \<Longrightarrow> session_inv (session_step sha op s)" for op s by (rule session_step_inv)
  show "session_inv s \<Longrightarrow> length (byDigest s) \<le> capacity s" for s by (simp add: session_inv_def)
  show "capacity (session_step sha op s) = capacity s" for op s by simp
qed

lemma session_inv_sessions: "session_inv sessions"
  by (simp add: session_inv_def sessions_def newSessionStore_def sessionCap_def)

section \<open>Histories\<close>

text \<open>
  What a retained entry says about the run that led to it: some \<open>Create\<close> of the run
  produced a token with this digest for this user at this time, and no later operation
  of the run revoked that digest.
\<close>

definition made_by :: "(string \<Rightarrow> bytes) \<Rightarrow> session_op list \<Rightarrow> bytes \<Rightarrow> session \<Rightarrow> bool" where
  "made_by sha ops d sess \<longleftrightarrow>
     (\<exists>before raw later. ops = before @ Create raw (created sess) (accessKey sess) # later
        \<and> sha (session_token raw) = d \<and> (\<forall>t. Revoke t \<in> set later \<longrightarrow> sha t \<noteq> d))"

lemma made_by_snoc:
  assumes "made_by sha ops d sess" "\<forall>t. op = Revoke t \<longrightarrow> sha t \<noteq> d"
  shows "made_by sha (ops @ [op]) d sess"
proof -
  obtain before raw later where
    "ops = before @ Create raw (created sess) (accessKey sess) # later"
    "sha (session_token raw) = d" "\<forall>t. Revoke t \<in> set later \<longrightarrow> sha t \<noteq> d"
    using assms(1) by (auto simp: made_by_def)
  with assms(2) show ?thesis
    unfolding made_by_def by (intro exI[of _ before] exI[of _ raw] exI[of _ "later @ [op]"]) auto
qed

lemma same_lastSeen [simp]: "\<exists>t. s = s\<lparr>lastSeen := t\<rparr>" for s :: session
  by (rule exI[of _ "lastSeen s"]) simp

lemma made_by_lastSeen [simp]: "made_by sha ops d (sess\<lparr>lastSeen := t\<rparr>) = made_by sha ops d sess"
  by (simp add: made_by_def)

text \<open>An entry of the new state is the created one, or was there before (up to its idle mark).\<close>

lemma session_step_origin:
  assumes "wf_map (byDigest s)" "map_of (byDigest (session_step sha op s)) d = Some sess"
  shows "(\<exists>raw now ak. op = Create raw now ak \<and> d = sha (session_token raw)
            \<and> sess = \<lparr>accessKey = ak, created = now, lastSeen = now\<rparr>)
       \<or> (\<exists>sess'. map_of (byDigest s) d = Some sess' \<and> (\<exists>t. sess = sess'\<lparr>lastSeen := t\<rparr>)
            \<and> (\<forall>t. op = Revoke t \<longrightarrow> sha t \<noteq> d))"
proof (cases op)
  case (Create raw now ak)
  define m where "m = (if length (byDigest s) \<ge> capacity s
      then filter (\<lambda>(k, sess). \<not> expired s sess now) (byDigest s) else byDigest s)"
  have m: "map_of m k = Some v \<Longrightarrow> map_of (byDigest s) k = Some v" for k v
    using assms(1) by (auto simp: m_def map_of_filter split: option.splits if_splits)
  have "byDigest (session_step sha op s) = AList.update (sha (session_token raw))
      \<lparr>accessKey = ak, created = now, lastSeen = now\<rparr>
      (if length m \<ge> capacity s then evict_oldest lastSeen m else m)"
    using Create by (auto simp: session_defs m_def)
  with assms(2) m Create show ?thesis
    by (cases "d = sha (session_token raw)")
      (auto simp: table_simps dest!: map_of_evict m split: if_splits)
next
  case (Lookup now token)
  with assms(2) show ?thesis
    by (auto simp: lookup_def Let_def table_simps split: if_splits option.splits)
next
  case (Revoke token)
  with assms(2) show ?thesis
    by (auto simp: revoke_def table_simps split: if_splits)
qed

lemma run_made_by:
  assumes "byDigest s0 = []" "0 < capacity s0"
  shows "map_of (byDigest (fold (session_step sha) ops s0)) d = Some sess \<Longrightarrow> made_by sha ops d sess"
proof (induction ops arbitrary: sess rule: rev_induct)
  case Nil
  then show ?case using assms by simp
next
  case (snoc op ops)
  let ?s = "fold (session_step sha) ops s0"
  have "session_inv s0" using assms by (simp add: session_inv_def)
  then have wf: "wf_map (byDigest ?s)" using sess.run_inv[of s0 sha ops] by (simp add: session_inv_def)
  have "map_of (byDigest (session_step sha op ?s)) d = Some sess" using snoc.prems by simp
  from session_step_origin[OF wf this] show ?case
  proof (elim disjE exE conjE)
    fix raw now ak
    assume "op = Create raw now ak" "d = sha (session_token raw)"
      "sess = \<lparr>accessKey = ak, created = now, lastSeen = now\<rparr>"
    then show ?thesis unfolding made_by_def by (intro exI[of _ ops] exI[of _ raw] exI[of _ "[]"]) simp
  next
    fix sess' t
    assume "map_of (byDigest ?s) d = Some sess'" "sess = sess'\<lparr>lastSeen := t\<rparr>"
      "\<forall>t. op = Revoke t \<longrightarrow> sha t \<noteq> d"
    then show ?thesis using snoc.IH[of sess'] by (simp add: made_by_snoc)
  qed
qed

lemma lookup_Some:
  assumes "fst (lookup sha now token s) = Some ak"
  obtains sess where "length token = sessionTokenLen" "map_of (byDigest s) (sha token) = Some sess"
    "\<not> expired s sess now" "accessKey sess = ak"
  using assms by (auto simp: lookup_def Let_def split: if_splits option.splits)

text \<open>A run of lookups of one token keeps the session alive while each comes in time.\<close>

fun polled :: "duration \<Rightarrow> time \<Rightarrow> time list \<Rightarrow> bool" where
  "polled i prev [] = True"
| "polled i prev (t # ts) = (Sub t prev < i \<and> polled i t ts)"

lemma lookup_alive:
  assumes "map_of (byDigest s) (sha token) = Some sess" "length token = sessionTokenLen"
    "polled (idle s) (lastSeen sess) ts" "\<forall>t\<in>set ts. Sub t (created sess) < absolute s"
  shows "\<exists>sess'. map_of (byDigest (fold (session_step sha) (map (\<lambda>t. Lookup t token) ts) s)) (sha token) = Some sess'
     \<and> accessKey sess' = accessKey sess \<and> created sess' = created sess
     \<and> lastSeen sess' = last (lastSeen sess # ts)"
  using assms
proof (induction ts arbitrary: s sess)
  case (Cons t ts)
  let ?s = "session_step sha (Lookup t token) s"
  have "\<not> expired s sess t" using Cons.prems by (simp add: expired_def)
  then have "map_of (byDigest ?s) (sha token) = Some (sess\<lparr>lastSeen := t\<rparr>)"
    using Cons.prems by (simp add: lookup_def Let_def table_simps)
  moreover have "idle ?s = idle s" "absolute ?s = absolute s" by (rule session_config)+
  ultimately show ?case using Cons.IH[of ?s "sess\<lparr>lastSeen := t\<rparr>"] Cons.prems by simp
qed simp

lemma lookup_after_create:
  "map_of (byDigest (snd (create sha raw now ak s))) (sha (session_token raw))
     = Some \<lparr>accessKey = ak, created = now, lastSeen = now\<rparr>"
  by (simp add: create_def Let_def table_simps)

lemma length_session_token: "length raw = sessionTokenBytes \<Longrightarrow> length (session_token raw) = sessionTokenLen"
  by (simp add: session_token_def length_RawURLEncode sessionTokenLen_def)

end
