(* ===== verification/Login_Limiter.thy ===== *)
theory Login_Limiter
  imports Bounded_Table
begin

text \<open>
  \<open>internal/auth/limiter.go\<close>: the lockout of admin credential checks.  Failures are
  counted per client in fixed windows that start at the first failure; the table holds at
  most \<open>capacity\<close> windows.  The lemmas bound the table and fix when a client is locked out.
\<close>

record failureWindow =
  count :: nat
  start :: time

record failureLimiter =
  byKey :: "(string \<times> failureWindow) list"
  max_failures :: nat
  window :: duration
  limiter_capacity :: nat

definition loginMaxFailures :: nat where "loginMaxFailures = 10"
definition LoginFailureWindow :: duration where "LoginFailureWindow = 15 * Minute"
definition loginLimiterCap :: nat where "loginLimiterCap = 4096"

definition newFailureLimiter :: "nat \<Rightarrow> duration \<Rightarrow> nat \<Rightarrow> failureLimiter" where
  "newFailureLimiter mx wnd cap =
     \<lparr>byKey = [], max_failures = mx, window = wnd, limiter_capacity = cap\<rparr>"

definition failures :: failureLimiter where
  "failures = newFailureLimiter loginMaxFailures LoginFailureWindow loginLimiterCap"

text \<open>The time left when locked out; the Go function's \<open>false\<close> is \<open>None\<close>.\<close>

definition blocked :: "time \<Rightarrow> string \<Rightarrow> failureLimiter \<Rightarrow> duration option" where
  "blocked now key l =
     (case map_of (byKey l) key of
        None \<Rightarrow> None
      | Some w \<Rightarrow>
          (let left = window l - Sub now (start w)
           in if left \<le> 0 \<or> count w < max_failures l then None else Some left))"

definition pruneWindows :: "time \<Rightarrow> failureLimiter \<Rightarrow> failureLimiter" where
  "pruneWindows now l = l\<lparr>byKey := filter (\<lambda>(k, w). \<not> Sub now (start w) \<ge> window l) (byKey l)\<rparr>"

definition evictOldestWindow :: "failureLimiter \<Rightarrow> failureLimiter" where
  "evictOldestWindow l = l\<lparr>byKey := evict_oldest start (byKey l)\<rparr>"

text \<open>The part of \<open>fail\<close> after the counted case: drop the old window, make room, open one.\<close>

definition open_window :: "time \<Rightarrow> string \<Rightarrow> failureLimiter \<Rightarrow> failureLimiter" where
  "open_window now key l =
     (let l0 = l\<lparr>byKey := AList.delete key (byKey l)\<rparr>;
          l1 = (if length (byKey l0) \<ge> limiter_capacity l0 then pruneWindows now l0 else l0);
          l2 = (if length (byKey l1) \<ge> limiter_capacity l1 then evictOldestWindow l1 else l1)
      in l2\<lparr>byKey := AList.update key \<lparr>count = 1, start = now\<rparr> (byKey l2)\<rparr>)"

definition fail :: "time \<Rightarrow> string \<Rightarrow> failureLimiter \<Rightarrow> failureLimiter" where
  "fail now key l =
     (case map_of (byKey l) key of
        Some w \<Rightarrow>
          if Sub now (start w) < window l
          then l\<lparr>byKey := AList.update key (w\<lparr>count := count w + 1\<rparr>) (byKey l)\<rparr>
          else open_window now key l
      | None \<Rightarrow> open_window now key l)"

definition reset :: "string \<Rightarrow> failureLimiter \<Rightarrow> failureLimiter" where
  "reset key l = l\<lparr>byKey := AList.delete key (byKey l)\<rparr>"

datatype limiter_op = Fail time string | Reset string

fun limiter_step :: "limiter_op \<Rightarrow> failureLimiter \<Rightarrow> failureLimiter" where
  "limiter_step (Fail now key) l = fail now key l"
| "limiter_step (Reset key) l = reset key l"

definition limiter_inv :: "failureLimiter \<Rightarrow> bool" where
  "limiter_inv l \<longleftrightarrow> wf_map (byKey l) \<and> length (byKey l) \<le> limiter_capacity l \<and> 0 < limiter_capacity l"

section \<open>Bounds\<close>

lemmas limiter_defs = fail_def reset_def open_window_def pruneWindows_def evictOldestWindow_def Let_def

lemma limiter_config [simp]:
  "limiter_capacity (limiter_step op l) = limiter_capacity l"
  "window (limiter_step op l) = window l"
  "max_failures (limiter_step op l) = max_failures l"
  by (cases op; simp add: limiter_defs split: option.splits)+

lemma open_window_inv:
  assumes "limiter_inv l"
  shows "wf_map (byKey (open_window now key l))" "length (byKey (open_window now key l)) \<le> limiter_capacity l"
proof -
  define m0 where "m0 = AList.delete key (byKey l)"
  define m where "m = (if length m0 \<ge> limiter_capacity l
      then filter (\<lambda>(k, w). \<not> Sub now (start w) \<ge> window l) m0 else m0)"
  have l0: "length m0 \<le> limiter_capacity l" and w0: "wf_map m0"
    using assms length_delete_le[of key "byKey l"] by (auto simp: m0_def limiter_inv_def wf_map_delete)
  then have m: "length m \<le> limiter_capacity l" "wf_map m"
    by (auto simp: m_def wf_map_filter intro: order.trans[OF length_filter_le])
  have eq: "byKey (open_window now key l) = AList.update key \<lparr>count = 1, start = now\<rparr>
      (if length m \<ge> limiter_capacity l then evict_oldest start m else m)"
    by (auto simp: limiter_defs m_def m0_def)
  show "length (byKey (open_window now key l)) \<le> limiter_capacity l"
    using capped_insert[OF m(1), of "if length m \<ge> limiter_capacity l then evict_oldest start m else m" start]
      assms eq by (auto simp: limiter_inv_def)
  show "wf_map (byKey (open_window now key l))"
    using m(2) eq by (simp add: wf_map_update wf_map_evict)
qed

lemma limiter_step_inv: "limiter_inv l \<Longrightarrow> limiter_inv (limiter_step op l)"
proof (cases op)
  case (Fail now key)
  assume inv: "limiter_inv l"
  have "map_of (byKey l) key = Some w \<Longrightarrow> length (AList.update key w' (byKey l)) = length (byKey l)" for w w'
    by (metis length_update map_of_None_keys option.distinct(1))
  then have "wf_map (byKey (fail now key l))" "length (byKey (fail now key l)) \<le> limiter_capacity l"
    using inv open_window_inv[OF inv] by (auto simp: fail_def limiter_inv_def wf_map_update split: option.splits)
  then show ?thesis using Fail inv limiter_config(1)[of op l] by (simp add: limiter_inv_def)
next
  case (Reset key)
  assume "limiter_inv l"
  then show ?thesis using Reset length_delete_le[of key "byKey l"]
    by (auto simp: reset_def limiter_inv_def wf_map_delete)
qed

interpretation lim: bounded_table limiter_step limiter_inv "\<lambda>l. length (byKey l)" limiter_capacity
proof
  show "limiter_inv l \<Longrightarrow> limiter_inv (limiter_step op l)" for op l by (rule limiter_step_inv)
  show "limiter_inv l \<Longrightarrow> length (byKey l) \<le> limiter_capacity l" for l by (simp add: limiter_inv_def)
  show "limiter_capacity (limiter_step op l) = limiter_capacity l" for op l by simp
qed

lemma limiter_inv_failures: "limiter_inv failures"
  by (simp add: limiter_inv_def failures_def newFailureLimiter_def loginLimiterCap_def)

section \<open>Lockout\<close>

lemma blocked_iff:
  "blocked now key l \<noteq> None \<longleftrightarrow>
     (\<exists>w. map_of (byKey l) key = Some w \<and> Sub now (start w) < window l \<and> max_failures l \<le> count w)"
  by (auto simp: blocked_def Let_def split: option.splits)

lemma blocked_left:
  "blocked now key l = Some left \<Longrightarrow> 0 < left \<and> (\<exists>w. map_of (byKey l) key = Some w \<and> left = window l - Sub now (start w))"
  by (auto simp: blocked_def Let_def split: option.splits if_splits)

lemma fail_counts:
  "\<lbrakk>map_of (byKey l) key = Some w; Sub now (start w) < window l\<rbrakk>
     \<Longrightarrow> map_of (byKey (fail now key l)) key = Some (w\<lparr>count := count w + 1\<rparr>)"
  by (simp add: fail_def table_simps)

lemma fail_opens:
  "(\<And>w. map_of (byKey l) key = Some w \<Longrightarrow> window l \<le> Sub now (start w))
     \<Longrightarrow> map_of (byKey (fail now key l)) key = Some \<lparr>count = 1, start = now\<rparr>"
  by (auto simp: fail_def open_window_def Let_def table_simps split: option.splits)

text \<open>Failures inside one window add up, whatever their times.\<close>

lemma fails_in_window:
  assumes "map_of (byKey l) key = Some w" "\<forall>t\<in>set ts. Sub t (start w) < window l"
  shows "map_of (byKey (fold (\<lambda>t. fail t key) ts l)) key = Some (w\<lparr>count := count w + length ts\<rparr>)"
  using assms
proof (induction ts arbitrary: l w)
  case (Cons t ts)
  have "map_of (byKey (fail t key l)) key = Some (w\<lparr>count := count w + 1\<rparr>)"
    using Cons.prems by (simp add: fail_counts)
  moreover have "window (fail t key l) = window l" using limiter_config(2)[of "Fail t key" l] by simp
  ultimately show ?case
    using Cons.IH[of "fail t key l" "w\<lparr>count := count w + 1\<rparr>"] Cons.prems by simp
qed simp

lemma reset_unblocks: "blocked now key (reset key l) = None"
  by (simp add: blocked_def reset_def table_simps)

lemma reset_other: "key' \<noteq> key \<Longrightarrow> blocked now key' (reset key l) = blocked now key' l"
  by (simp add: blocked_def reset_def table_simps split: option.splits)

end
