(* ===== verification/Admin_Auth.thy ===== *)
theory Admin_Auth
  imports Sessions Login_Limiter Sidecars
begin

text \<open>
  \<open>internal/auth/admin_session.go\<close> and \<open>AdminAuthMiddleware\<close> of \<open>auth.go\<close>: who may use
  the admin API.  The state is the session store and the lockout table; the user store is
  read at every request.  An admin proves itself by the two credential headers or by the
  cookie that \<open>LoginHandler\<close> issues.
\<close>

section \<open>State and credentials\<close>

record admin_auth =
  aa_sessions :: sessionStore
  aa_failures :: failureLimiter

definition init_admin_auth :: admin_auth where
  "init_admin_auth = \<lparr>aa_sessions = sessions, aa_failures = failures\<rparr>"

definition SessionCookieName :: string where "SessionCookieName = ''bb_admin_session''"
definition sessionCookiePath :: string where "sessionCookiePath = ''/api''"
definition loginBodyLimit :: nat where "loginBodyLimit = 4 * 1024"
definition authMethodHdr :: string where "authMethodHdr = ''admin''"
definition authMethodSess :: string where "authMethodSess = ''admin-session''"
definition msgInvalidCred :: string where "msgInvalidCred = ''Invalid admin credentials''"

datatype admin_error = errInvalidCredentials | errNotAdmin | errDecrypt

text \<open>Digests are compared, in constant time.\<close>

definition secretsEqual :: "lib \<Rightarrow> string \<Rightarrow> string \<Rightarrow> bool" where
  "secretsEqual L a b \<longleftrightarrow> sha256 L a = sha256 L b"

definition containsWildcard :: "string list \<Rightarrow> bool" where
  "containsWildcard items = list_ex (\<lambda>i. i = ''*'') items"

definition isAdmin :: "User \<Rightarrow> bool" where
  "isAdmin u = list_ex (\<lambda>rule. EqualFold (Effect rule) ''Allow'' \<and> containsWildcard (Buckets rule) \<and> containsWildcard (Actions rule)) (ACL u)"

definition verifyAdmin :: "env \<Rightarrow> 'db bolt \<Rightarrow> 'db \<Rightarrow> string \<Rightarrow> string \<Rightarrow> admin_error + User" where
  "verifyAdmin E B d ak secret =
     (case GetUser (lb E) B ak d of
        Inl _ \<Rightarrow> Inl errInvalidCredentials
      | Inr user \<Rightarrow>
          (case Decrypt (lb E) (enc_key E) (EncryptedSecret user) of
             None \<Rightarrow> Inl errDecrypt
           | Some stored \<Rightarrow>
               if \<not> secretsEqual (lb E) secret stored then Inl errInvalidCredentials
               else if \<not> isAdmin user then Inl errNotAdmin
               else Inr user))"

section \<open>Origin\<close>

datatype originVerdict = originUnknown | originSame | originCross

definition checkOrigin :: "lib \<Rightarrow> request \<Rightarrow> originVerdict" where
  "checkOrigin L r =
     (let site = GetHeader r ''Sec-Fetch-Site''; origin = GetHeader r ''Origin''
      in if site \<noteq> [] then (if site = ''same-origin'' then originSame else originCross)
         else if origin = [] then originUnknown
         else case url_Host L origin of
             None \<Rightarrow> originCross
           | Some host \<Rightarrow> if host = [] \<or> \<not> EqualFold host (req_host r) then originCross else originSame)"

definition isSafeMethod :: "string \<Rightarrow> bool" where
  "isSafeMethod m \<longleftrightarrow> m = ''GET'' \<or> m = ''HEAD'' \<or> m = ''OPTIONS''"

definition requestIsHTTPS :: "request \<Rightarrow> bool" where
  "requestIsHTTPS r =
     (if req_tls r then True
      else let (proto, _, _) = Cut CHR '','' (GetHeader r ''X-Forwarded-Proto'')
           in EqualFold (TrimSpace proto) ''https'')"

text \<open>The \<open>Set-Cookie\<close> line \<open>net/http\<close> prints; a negative age deletes the cookie.\<close>

definition setSessionCookie :: "request \<Rightarrow> string \<Rightarrow> int \<Rightarrow> response \<Rightarrow> response" where
  "setSessionCookie r token maxAge =
     with_header ''Set-Cookie''
       (SessionCookieName @ ''='' @ token @ ''; Path='' @ sessionCookiePath
        @ (if maxAge > 0 then ''; Max-Age='' @ Itoa maxAge else if maxAge < 0 then ''; Max-Age=0'' else [])
        @ ''; HttpOnly'' @ (if requestIsHTTPS r then ''; Secure'' else []) @ ''; SameSite=Strict'')"

definition clearSessionCookie :: "request \<Rightarrow> response \<Rightarrow> response" where
  "clearSessionCookie r = setSessionCookie r [] (- 1)"

section \<open>Checking a request\<close>

definition abortJSON :: "nat \<Rightarrow> string \<Rightarrow> response" where
  "abortJSON s msg = c_JSON s (TObj [(''error'', TStr msg)])"

definition failCredentials :: "env \<Rightarrow> string \<Rightarrow> admin_error \<Rightarrow> admin_auth \<Rightarrow> response \<times> admin_auth" where
  "failCredentials E ip err st =
     (case err of
        errInvalidCredentials \<Rightarrow> (abortJSON 401 msgInvalidCred, st\<lparr>aa_failures := fail (now E) ip (aa_failures st)\<rparr>)
      | errNotAdmin \<Rightarrow> (abortJSON 401 ''User does not have admin privileges'', st)
      | errDecrypt \<Rightarrow> (abortJSON 500 ''Error decrypting secret'', st))"

definition client_ip :: "env \<Rightarrow> request \<Rightarrow> string" where
  "client_ip E r = ResolveClientIP (lb E) (tproxy E) r"

definition checkCredentials ::
  "env \<Rightarrow> 'db bolt \<Rightarrow> 'db \<Rightarrow> request \<Rightarrow> string \<Rightarrow> string \<Rightarrow> admin_auth \<Rightarrow> (response + User) \<times> admin_auth" where
  "checkCredentials E B d r ak secret st =
     (let ip = client_ip E r
      in case blocked (now E) ip (aa_failures st) of
           Some retry \<Rightarrow>
             (Inl (with_header ''Retry-After'' (Itoa (retry div Second)) (abortJSON 429 ''Too many failed admin login attempts'')), st)
         | None \<Rightarrow>
             (case verifyAdmin E B d ak secret of
                Inl err \<Rightarrow> (let (resp, st1) = failCredentials E ip err st in (Inl resp, st1))
              | Inr user \<Rightarrow> (Inr user, st\<lparr>aa_failures := reset ip (aa_failures st)\<rparr>)))"

definition publishAdmin :: "User \<Rightarrow> string \<Rightarrow> request \<Rightarrow> request" where
  "publishAdmin u m r = r\<lparr>ctx_user := Some u, ctx_authMethod := m\<rparr>"

definition cookieAuth :: "env \<Rightarrow> 'db bolt \<Rightarrow> 'db \<Rightarrow> request \<Rightarrow> string \<Rightarrow> admin_auth \<Rightarrow> (response + request) \<times> admin_auth" where
  "cookieAuth E B d r token st =
     (let verdict = checkOrigin (lb E) r; sha = sha256 (lb E)
      in if verdict = originCross \<or> verdict = originUnknown \<and> \<not> isSafeMethod (req_method r)
         then (Inl (abortJSON 403 ''Cross-origin request rejected''), st)
         else case lookup sha (now E) token (aa_sessions st) of
             (None, s1) \<Rightarrow> (Inl (clearSessionCookie r (abortJSON 401 ''Session expired'')), st\<lparr>aa_sessions := s1\<rparr>)
           | (Some ak, s1) \<Rightarrow>
               (case GetUser (lb E) B ak d of
                  Inl _ \<Rightarrow> (Inl (clearSessionCookie r (abortJSON 401 ''Session revoked'')), st\<lparr>aa_sessions := revoke sha token s1\<rparr>)
                | Inr user \<Rightarrow>
                    if \<not> isAdmin user
                    then (Inl (clearSessionCookie r (abortJSON 401 ''Session revoked'')), st\<lparr>aa_sessions := revoke sha token s1\<rparr>)
                    else (Inr (publishAdmin user authMethodSess r), st\<lparr>aa_sessions := s1\<rparr>)))"

definition AdminAuthMiddleware :: "env \<Rightarrow> 'db bolt \<Rightarrow> 'db \<Rightarrow> request \<Rightarrow> admin_auth \<Rightarrow> (response + request) \<times> admin_auth" where
  "AdminAuthMiddleware E B d r st =
     (let ak = GetHeader r ''X-Admin-AccessKey''; secret = GetHeader r ''X-Admin-Secret''
      in if ak \<noteq> [] \<or> secret \<noteq> [] then
           (if ak = [] \<or> secret = [] then (Inl (abortJSON 401 ''Missing admin credentials''), st)
            else case checkCredentials E B d r ak secret st of
                (Inl resp, st1) \<Rightarrow> (Inl resp, st1)
              | (Inr user, st1) \<Rightarrow> (Inr (publishAdmin user authMethodHdr r), st1))
         else case Cookie r SessionCookieName of
             Some token \<Rightarrow>
               if token \<noteq> [] then cookieAuth E B d r token st
               else (Inl (abortJSON 401 ''Missing admin credentials''), st)
           | None \<Rightarrow> (Inl (abortJSON 401 ''Missing admin credentials''), st))"

section \<open>Login and logout\<close>

definition readLoginBody :: "lib \<Rightarrow> request \<Rightarrow> (string \<times> string) option" where
  "readLoginBody L r =
     (case ReadLimited (loginBodyLimit + 1) r of
        None \<Rightarrow> None
      | Some raw \<Rightarrow>
          if length raw > loginBodyLimit then None
          else case login_dec L raw of
              None \<Rightarrow> None
            | Some (ak, secret) \<Rightarrow> if ak \<noteq> [] \<and> secret \<noteq> [] then Some (ak, secret) else None)"

definition no_store :: "response \<Rightarrow> response" where
  "no_store = with_header ''Cache-Control'' ''no-store''"

definition revoke_cookie :: "env \<Rightarrow> request \<Rightarrow> sessionStore \<Rightarrow> sessionStore" where
  "revoke_cookie E r s = (case Cookie r SessionCookieName of Some old \<Rightarrow> revoke (sha256 (lb E)) old s | None \<Rightarrow> s)"

definition LoginHandler :: "env \<Rightarrow> 'db bolt \<Rightarrow> 'db \<Rightarrow> request \<Rightarrow> bytes \<Rightarrow> admin_auth \<Rightarrow> response \<times> admin_auth" where
  "LoginHandler E B d r raw st =
     (if checkOrigin (lb E) r = originCross then (no_store (abortJSON 403 ''Cross-origin request rejected''), st)
      else case readLoginBody (lb E) r of
          None \<Rightarrow> (no_store (abortJSON 400 ''Malformed login request''), st)
        | Some (ak, secret) \<Rightarrow>
            (case checkCredentials E B d r ak secret st of
               (Inl resp, st1) \<Rightarrow> (no_store resp, st1)
             | (Inr user, st1) \<Rightarrow>
                 (let (token, s2) = create (sha256 (lb E)) raw (now E) (AccessKeyID user) (revoke_cookie E r (aa_sessions st1))
                  in (no_store (setSessionCookie r token 0 (c_JSON 200 (TObj [(''accessKey'', TStr (AccessKeyID user))]))),
                      st1\<lparr>aa_sessions := s2\<rparr>))))"

definition LogoutHandler :: "env \<Rightarrow> request \<Rightarrow> admin_auth \<Rightarrow> response \<times> admin_auth" where
  "LogoutHandler E r st =
     (if checkOrigin (lb E) r = originCross then (no_store (abortJSON 403 ''Cross-origin request rejected''), st)
      else (no_store (clearSessionCookie r (Status 204)), st\<lparr>aa_sessions := revoke_cookie E r (aa_sessions st)\<rparr>))"

text \<open>It runs behind the middleware, so a user is published; \<open>MustGet\<close> panics otherwise.\<close>

definition SessionHandler :: "request \<Rightarrow> response option" where
  "SessionHandler r = map_option (\<lambda>u. no_store (c_JSON 200 (TObj [(''accessKey'', TStr (AccessKeyID u))]))) (ctx_user r)"

section \<open>Runs\<close>

datatype 'db admin_event =
    Admin_Request env 'db request
  | Login env 'db request bytes
  | Logout env request

fun event_env :: "'db admin_event \<Rightarrow> env" where
  "event_env (Admin_Request E d r) = E"
| "event_env (Login E d r raw) = E"
| "event_env (Logout E r) = E"

fun admin_step :: "'db bolt \<Rightarrow> 'db admin_event \<Rightarrow> admin_auth \<Rightarrow> admin_auth" where
  "admin_step B (Admin_Request E d r) st = snd (AdminAuthMiddleware E B d r st)"
| "admin_step B (Login E d r raw) st = snd (LoginHandler E B d r raw st)"
| "admin_step B (Logout E r) st = snd (LogoutHandler E r st)"

definition admin_inv :: "admin_auth \<Rightarrow> bool" where
  "admin_inv st \<longleftrightarrow> session_inv (aa_sessions st) \<and> limiter_inv (aa_failures st)"

end
