(* ===== verification/Admin_Laws.thy ===== *)
theory Admin_Laws
  imports Admin_Auth
begin

text \<open>
  What the admin surface guarantees: bounded tables whatever requests arrive, lockout, the
  evidence behind an accepted request, and that a live session comes from a login.
\<close>

section \<open>Sessions and lockouts seen by one request\<close>

lemma checkCredentials_sessions [simp]: "aa_sessions (snd (checkCredentials E B d r ak secret st)) = aa_sessions st"
  by (auto simp: checkCredentials_def failCredentials_def Let_def split: option.splits sum.splits admin_error.splits)

lemma checkCredentials_Inr:
  "checkCredentials E B d r ak secret st = (Inr u, st') \<Longrightarrow>
     verifyAdmin E B d ak secret = Inr u \<and> blocked (now E) (client_ip E r) (aa_failures st) = None"
  by (auto simp: checkCredentials_def failCredentials_def Let_def split: option.splits sum.splits admin_error.splits)

lemma checkCredentials_locked:
  "blocked (now E) (client_ip E r) (aa_failures st) = Some retry \<Longrightarrow>
     checkCredentials E B d r ak secret st =
       (Inl (with_header ''Retry-After'' (Itoa (retry div Second)) (abortJSON 429 ''Too many failed admin login attempts'')), st)"
  by (simp add: checkCredentials_def)

lemma verifyAdmin_Inr:
  "verifyAdmin E B d ak secret = Inr u \<Longrightarrow>
     GetUser (lb E) B ak d = Inr u \<and> isAdmin u \<and>
     (\<exists>stored. Decrypt (lb E) (enc_key E) (EncryptedSecret u) = Some stored \<and> sha256 (lb E) secret = sha256 (lb E) stored)"
  by (auto simp: verifyAdmin_def secretsEqual_def split: sum.splits option.splits if_splits)

lemma isAdmin_iff:
  "isAdmin u \<longleftrightarrow> (\<exists>rule\<in>set (ACL u). EqualFold (Effect rule) ''Allow'' \<and> ''*'' \<in> set (Buckets rule) \<and> ''*'' \<in> set (Actions rule))"
  by (auto simp: isAdmin_def containsWildcard_def list_ex_iff)

section \<open>The operations of the store behind an event\<close>

fun session_ops :: "'db bolt \<Rightarrow> 'db admin_event \<Rightarrow> admin_auth \<Rightarrow> session_op list" where
  "session_ops B (Admin_Request E d r) st =
     (if GetHeader r ''X-Admin-AccessKey'' \<noteq> [] \<or> GetHeader r ''X-Admin-Secret'' \<noteq> [] then []
      else case Cookie r SessionCookieName of
          None \<Rightarrow> []
        | Some token \<Rightarrow>
            if token = [] \<or> checkOrigin (lb E) r = originCross
               \<or> checkOrigin (lb E) r = originUnknown \<and> \<not> isSafeMethod (req_method r) then []
            else Lookup (now E) token #
              (case fst (lookup (sha256 (lb E)) (now E) token (aa_sessions st)) of
                 None \<Rightarrow> []
               | Some ak \<Rightarrow>
                   (case GetUser (lb E) B ak d of
                      Inl _ \<Rightarrow> [Revoke token]
                    | Inr u \<Rightarrow> if isAdmin u then [] else [Revoke token])))"
| "session_ops B (Login E d r raw) st =
     (if checkOrigin (lb E) r = originCross then []
      else case readLoginBody (lb E) r of
          None \<Rightarrow> []
        | Some (ak, secret) \<Rightarrow>
            (case fst (checkCredentials E B d r ak secret st) of
               Inl _ \<Rightarrow> []
             | Inr u \<Rightarrow> (case Cookie r SessionCookieName of Some old \<Rightarrow> [Revoke old] | None \<Rightarrow> [])
                 @ [Create raw (now E) (AccessKeyID u)]))"
| "session_ops B (Logout E r) st =
     (if checkOrigin (lb E) r = originCross then []
      else case Cookie r SessionCookieName of Some old \<Rightarrow> [Revoke old] | None \<Rightarrow> [])"

lemma lookup_split: "snd (lookup sha t tok s) = s' \<Longrightarrow> \<exists>x. lookup sha t tok s = (x, s')"
  by (metis prod.collapse)

lemma cookieAuth_sessions:
  assumes "\<not> (checkOrigin (lb E) r = originCross \<or> checkOrigin (lb E) r = originUnknown \<and> \<not> isSafeMethod (req_method r))"
  shows "aa_sessions (snd (cookieAuth E B d r token st)) =
     fold (session_step (sha256 (lb E)))
       (Lookup (now E) token #
         (case fst (lookup (sha256 (lb E)) (now E) token (aa_sessions st)) of
            None \<Rightarrow> []
          | Some ak \<Rightarrow> (case GetUser (lb E) B ak d of Inl _ \<Rightarrow> [Revoke token] | Inr u \<Rightarrow> if isAdmin u then [] else [Revoke token])))
       (aa_sessions st)"
proof -
  obtain x s1 where l: "lookup (sha256 (lb E)) (now E) token (aa_sessions st) = (x, s1)" by (metis surj_pair)
  show ?thesis
    using assms by (cases x) (auto simp: cookieAuth_def Let_def l split: sum.splits)
qed

lemma cookieAuth_refused:
  assumes "checkOrigin (lb E) r = originCross \<or> checkOrigin (lb E) r = originUnknown \<and> \<not> isSafeMethod (req_method r)"
  shows "cookieAuth E B d r token st = (Inl (abortJSON 403 ''Cross-origin request rejected''), st)"
  using assms by (simp add: cookieAuth_def)

lemma LoginHandler_sessions:
  "aa_sessions (snd (LoginHandler E B d r raw st)) =
     fold (session_step (sha256 (lb E))) (session_ops B (Login E d r raw) st) (aa_sessions st)"
proof (cases "checkOrigin (lb E) r = originCross \<or> readLoginBody (lb E) r = None")
  case True
  then show ?thesis by (auto simp: LoginHandler_def)
next
  case False
  then obtain ak secret where body: "readLoginBody (lb E) r = Some (ak, secret)" by auto
  obtain x st1 where ck: "checkCredentials E B d r ak secret st = (x, st1)" by (metis surj_pair)
  have "aa_sessions st1 = aa_sessions st" using checkCredentials_sessions[of E B d r ak secret st] ck by simp
  then show ?thesis
    using False body ck
    by (cases x) (auto simp: LoginHandler_def Let_def revoke_cookie_def split: option.splits prod.splits)
qed

lemma admin_step_sessions:
  "aa_sessions (admin_step B ev st) = fold (session_step (sha256 (lb (event_env ev)))) (session_ops B ev st) (aa_sessions st)"
proof (cases ev)
  case (Admin_Request E d r)
  let ?h = "GetHeader r ''X-Admin-AccessKey'' \<noteq> [] \<or> GetHeader r ''X-Admin-Secret'' \<noteq> []"
  show ?thesis
  proof (cases ?h)
    case True
    obtain x st1 where ck: "checkCredentials E B d r (GetHeader r ''X-Admin-AccessKey'') (GetHeader r ''X-Admin-Secret'') st = (x, st1)"
      by (metis surj_pair)
    have "aa_sessions st1 = aa_sessions st" using checkCredentials_sessions ck by (metis snd_conv)
    then have "aa_sessions (snd (AdminAuthMiddleware E B d r st)) = aa_sessions st"
      using True ck by (cases x) (auto simp: AdminAuthMiddleware_def Let_def)
    then show ?thesis using True Admin_Request by auto
  next
    case False
    show ?thesis
    proof (cases "Cookie r SessionCookieName")
      case None
      then show ?thesis using False Admin_Request by (simp add: AdminAuthMiddleware_def)
    next
      case (Some token)
      then have eq: "token \<noteq> [] \<Longrightarrow> admin_step B ev st = snd (cookieAuth E B d r token st)"
        using False Admin_Request by (simp add: AdminAuthMiddleware_def)
      show ?thesis
        using False Some Admin_Request eq cookieAuth_sessions[of E r B d token st] cookieAuth_refused[of E r B d token st]
        by (cases "token = []") (auto simp: AdminAuthMiddleware_def)
    qed
  qed
next
  case (Login E d r raw)
  then show ?thesis using LoginHandler_sessions[of E B d r raw st] by (simp only: event_env.simps admin_step.simps)
next
  case (Logout E r)
  then show ?thesis by (auto simp: LogoutHandler_def revoke_cookie_def split: option.splits)
qed

section \<open>Bounds\<close>

lemma checkCredentials_failures:
  "aa_failures (snd (checkCredentials E B d r ak secret st)) \<in>
     {aa_failures st, limiter_step (Fail (now E) (client_ip E r)) (aa_failures st), limiter_step (Reset (client_ip E r)) (aa_failures st)}"
  by (auto simp: checkCredentials_def failCredentials_def Let_def split: option.splits sum.splits admin_error.splits)

lemma checkCredentials_limiter:
  "aa_failures (snd (checkCredentials E B d r ak secret st)) = aa_failures st
   \<or> (\<exists>op. aa_failures (snd (checkCredentials E B d r ak secret st)) = limiter_step op (aa_failures st))"
  using checkCredentials_failures[of E B d r ak secret st] by blast

lemma cookieAuth_failures [simp]: "aa_failures (snd (cookieAuth E B d r token st)) = aa_failures st"
  by (auto simp: cookieAuth_def Let_def split: option.splits sum.splits prod.splits)

lemma AdminAuthMiddleware_failures:
  "aa_failures (snd (AdminAuthMiddleware E B d r st)) = aa_failures st \<or>
   aa_failures (snd (AdminAuthMiddleware E B d r st)) =
     aa_failures (snd (checkCredentials E B d r (GetHeader r ''X-Admin-AccessKey'') (GetHeader r ''X-Admin-Secret'') st))"
  by (auto simp: AdminAuthMiddleware_def Let_def split: sum.splits prod.splits option.splits)

lemma LoginHandler_failures:
  "aa_failures (snd (LoginHandler E B d r raw st)) = aa_failures st \<or>
   (\<exists>ak secret. aa_failures (snd (LoginHandler E B d r raw st)) = aa_failures (snd (checkCredentials E B d r ak secret st)))"
proof (cases "checkOrigin (lb E) r = originCross \<or> readLoginBody (lb E) r = None")
  case True
  then show ?thesis by (auto simp: LoginHandler_def)
next
  case False
  then obtain ak secret where body: "readLoginBody (lb E) r = Some (ak, secret)" by auto
  obtain x st1 where ck: "checkCredentials E B d r ak secret st = (x, st1)" by (metis surj_pair)
  have "aa_failures (snd (LoginHandler E B d r raw st)) = aa_failures st1"
    using False body ck by (cases x) (auto simp: LoginHandler_def Let_def split: prod.splits)
  then show ?thesis using ck by (metis snd_conv)
qed

lemma admin_step_failures:
  "aa_failures (admin_step B ev st) = aa_failures st \<or> (\<exists>op. aa_failures (admin_step B ev st) = limiter_step op (aa_failures st))"
proof (cases ev)
  case (Admin_Request E d r)
  then show ?thesis using AdminAuthMiddleware_failures[of E B d r st] checkCredentials_limiter[of E B d r _ _ st] by (metis admin_step.simps(1))
next
  case (Login E d r raw)
  then show ?thesis using LoginHandler_failures[of E B d r raw st] checkCredentials_limiter[of E B d r _ _ st] by (metis admin_step.simps(2))
next
  case (Logout E r)
  then show ?thesis by (simp add: LogoutHandler_def)
qed

lemma admin_step_inv: "admin_inv st \<Longrightarrow> admin_inv (admin_step B ev st)"
  using admin_step_failures[of B ev st] limiter_step_inv admin_step_sessions[of B ev st]
    sess.run_inv[of "aa_sessions st" "sha256 (lb (event_env ev))" "session_ops B ev st"]
  by (auto simp: admin_inv_def)

lemma admin_inv_init: "admin_inv init_admin_auth"
  by (simp add: admin_inv_def init_admin_auth_def session_inv_sessions limiter_inv_failures)

text \<open>The two stores as one table whose capacity is fixed.\<close>

interpretation adm: bounded_table "admin_step B" admin_inv "\<lambda>st. length (byDigest (aa_sessions st))" "\<lambda>st. capacity (aa_sessions st)"
proof
  show "admin_inv st \<Longrightarrow> admin_inv (admin_step B ev st)" for ev st by (rule admin_step_inv)
  show "admin_inv st \<Longrightarrow> length (byDigest (aa_sessions st)) \<le> capacity (aa_sessions st)" for st
    by (simp add: admin_inv_def session_inv_def)
  show "capacity (aa_sessions (admin_step B ev st)) = capacity (aa_sessions st)" for ev st
  proof -
    have "capacity (fold (session_step sha) ops s) = capacity s" for sha ops s by (induction ops arbitrary: s) simp_all
    then show ?thesis by (simp add: admin_step_sessions)
  qed
qed

end
