(* ===== verification/Admin_History.thy ===== *)
theory Admin_History
  imports Admin_Laws
begin

text \<open>
  Runs of the admin surface: an accepted session cookie was issued by a login that proved
  an admin's secret less than eight hours before and that no logout has revoked; ten wrong
  secrets lock a client out, whatever it sends next.
\<close>

section \<open>The run as operations on the session store\<close>

fun run_ops :: "'db bolt \<Rightarrow> 'db admin_event list \<Rightarrow> admin_auth \<Rightarrow> session_op list" where
  "run_ops B [] st = []"
| "run_ops B (ev # evs) st = session_ops B ev st @ run_ops B evs (admin_step B ev st)"

definition one_lib :: "lib \<Rightarrow> 'db admin_event list \<Rightarrow> bool" where
  "one_lib L evs \<longleftrightarrow> (\<forall>ev\<in>set evs. lb (event_env ev) = L)"

lemma run_sessions:
  "one_lib L evs \<Longrightarrow> aa_sessions (fold (admin_step B) evs st) = fold (session_step (sha256 L)) (run_ops B evs st) (aa_sessions st)"
  by (induction evs arbitrary: st) (auto simp: one_lib_def admin_step_sessions)

lemma run_ops_split:
  "run_ops B evs st = xs @ op # ys \<Longrightarrow>
     \<exists>before ev later xs' ys'. evs = before @ ev # later
       \<and> session_ops B ev (fold (admin_step B) before st) = xs' @ op # ys'
       \<and> ys = ys' @ run_ops B later (admin_step B ev (fold (admin_step B) before st))"
proof (induction evs arbitrary: st xs)
  case (Cons ev evs)
  from Cons.prems have "session_ops B ev st @ run_ops B evs (admin_step B ev st) = xs @ op # ys" by simp
  then consider (here) us where "session_ops B ev st = xs @ us" "us @ run_ops B evs (admin_step B ev st) = op # ys" "us \<noteq> []"
    | (later) us where "xs = session_ops B ev st @ us" "run_ops B evs (admin_step B ev st) = us @ op # ys"
    unfolding append_eq_append_conv2 by (metis append_Nil append_Nil2)
  then show ?case
  proof cases
    case here
    then obtain ys' where "us = op # ys'" "ys = ys' @ run_ops B evs (admin_step B ev st)" by (cases us) auto
    then show ?thesis
      using here(1) by (intro exI[of _ "[]"] exI[of _ ev] exI[of _ evs] exI[of _ xs] exI[of _ ys']) simp
  next
    case later
    from Cons.IH[OF later(2)] obtain before ev' later' xs' ys' where
      "evs = before @ ev' # later'" "session_ops B ev' (fold (admin_step B) before (admin_step B ev st)) = xs' @ op # ys'"
      "ys = ys' @ run_ops B later' (admin_step B ev' (fold (admin_step B) before (admin_step B ev st)))" by blast
    then show ?thesis
      by (intro exI[of _ "ev # before"] exI[of _ ev'] exI[of _ later'] exI[of _ xs'] exI[of _ ys']) simp
  qed
qed simp

text \<open>A session is created by a login that answered 200, and by nothing else.\<close>

definition logged_in :: "'db bolt \<Rightarrow> admin_auth \<Rightarrow> env \<Rightarrow> 'db \<Rightarrow> request \<Rightarrow> bytes \<Rightarrow> string \<Rightarrow> bool" where
  "logged_in B st E d r raw ak \<longleftrightarrow>
     status (fst (LoginHandler E B d r raw st)) = 200 \<and>
     (\<exists>key secret u. readLoginBody (lb E) r = Some (key, secret) \<and> verifyAdmin E B d key secret = Inr u \<and> ak = AccessKeyID u)"

lemma no_store_status [simp]: "status (no_store resp) = status resp"
  by (simp add: no_store_def)

lemma setSessionCookie_status [simp]: "status (setSessionCookie r t a resp) = status resp"
  by (simp add: setSessionCookie_def)

lemma request_creates_nothing: "Create raw t ak \<notin> set (session_ops B (Admin_Request E d r) st)"
  by (simp split: option.split sum.split)

lemma Create_in_ops:
  assumes "Create raw t ak \<in> set (session_ops B ev st)"
  shows "\<exists>E d r. ev = Login E d r raw \<and> t = now E \<and> logged_in B st E d r raw ak"
proof (cases ev)
  case (Admin_Request E d r)
  then show ?thesis using assms request_creates_nothing by metis
next
  case (Login E d r raw')
  then obtain key secret u where body: "checkOrigin (lb E) r \<noteq> originCross" "readLoginBody (lb E) r = Some (key, secret)"
    and ck: "fst (checkCredentials E B d r key secret st) = Inr u" and c: "raw' = raw" "t = now E" "ak = AccessKeyID u"
    using assms by (auto split: if_splits option.splits sum.splits) (metis)
  obtain st1 where ck': "checkCredentials E B d r key secret st = (Inr u, st1)" using ck by (metis prod.collapse)
  have "status (fst (LoginHandler E B d r raw st)) = 200"
    using body ck' by (auto simp: LoginHandler_def Let_def split: prod.splits)
  then show ?thesis using Login c body(2) checkCredentials_Inr[OF ck'] by (auto simp: logged_in_def)
next
  case (Logout E r)
  then show ?thesis using assms by (auto split: if_splits option.splits)
qed

lemma Logout_in_run:
  "\<lbrakk>Logout E r \<in> set evs; checkOrigin (lb E) r \<noteq> originCross; Cookie r SessionCookieName = Some tok\<rbrakk>
     \<Longrightarrow> Revoke tok \<in> set (run_ops B evs st)"
  by (induction evs arbitrary: st) auto

section \<open>Where a session comes from\<close>

lemma aa_config:
  "one_lib L evs \<Longrightarrow> absolute (aa_sessions (fold (admin_step B) evs st)) = absolute (aa_sessions st)"
proof -
  have "absolute (fold (session_step sha) ops s) = absolute s" for sha ops s by (induction ops arbitrary: s) simp_all
  then show "one_lib L evs \<Longrightarrow> absolute (aa_sessions (fold (admin_step B) evs st)) = absolute (aa_sessions st)"
    by (simp add: run_sessions)
qed

definition issued :: "'db bolt \<Rightarrow> lib \<Rightarrow> 'db admin_event list \<Rightarrow> string \<Rightarrow> string \<Rightarrow> time \<Rightarrow> bool" where
  "issued B L evs token ak t \<longleftrightarrow>
     (\<exists>before E d r raw later. evs = before @ Login E d r raw # later \<and> t = now E
        \<and> logged_in B (fold (admin_step B) before init_admin_auth) E d r raw ak
        \<and> sha256 L (session_token raw) = sha256 L token
        \<and> (\<forall>E' r' tok. Logout E' r' \<in> set later \<and> checkOrigin (lb E') r' \<noteq> originCross \<and> Cookie r' SessionCookieName = Some tok
              \<longrightarrow> sha256 L tok \<noteq> sha256 L token))"

lemma session_issued:
  assumes "one_lib L evs" "map_of (byDigest (aa_sessions (fold (admin_step B) evs init_admin_auth))) (sha256 L token) = Some s"
  shows "issued B L evs token (accessKey s) (created s)"
proof -
  have run: "aa_sessions (fold (admin_step B) evs init_admin_auth) = fold (session_step (sha256 L)) (run_ops B evs init_admin_auth) sessions"
    using run_sessions[OF assms(1)] by (simp add: init_admin_auth_def)
  have e: "byDigest sessions = []" "0 < capacity sessions" by (simp_all add: sessions_def newSessionStore_def sessionCap_def)
  from run_made_by[OF e] assms(2) have "made_by (sha256 L) (run_ops B evs init_admin_auth) (sha256 L token) s" by (simp add: run)
  then obtain xs raw ys where sp: "run_ops B evs init_admin_auth = xs @ Create raw (created s) (accessKey s) # ys"
    and tok: "sha256 L (session_token raw) = sha256 L token" and rv: "\<forall>t. Revoke t \<in> set ys \<longrightarrow> sha256 L t \<noteq> sha256 L token"
    by (auto simp: made_by_def)
  from run_ops_split[OF sp] obtain before ev later xs' ys' where evs: "evs = before @ ev # later"
    and ops: "session_ops B ev (fold (admin_step B) before init_admin_auth) = xs' @ Create raw (created s) (accessKey s) # ys'"
    and ys: "ys = ys' @ run_ops B later (admin_step B ev (fold (admin_step B) before init_admin_auth))" by blast
  have "Create raw (created s) (accessKey s) \<in> set (session_ops B ev (fold (admin_step B) before init_admin_auth))" using ops by simp
  from Create_in_ops[OF this] obtain E d r where ev: "ev = Login E d r raw" "created s = now E"
    "logged_in B (fold (admin_step B) before init_admin_auth) E d r raw (accessKey s)" by blast
  have "\<forall>E' r' tok. Logout E' r' \<in> set later \<and> checkOrigin (lb E') r' \<noteq> originCross \<and> Cookie r' SessionCookieName = Some tok
              \<longrightarrow> sha256 L tok \<noteq> sha256 L token"
    using rv ys Logout_in_run by (metis Un_iff set_append)
  then show ?thesis using evs ev tok unfolding issued_def by blast
qed

section \<open>What an accepted request shows\<close>

definition by_headers :: "env \<Rightarrow> 'db bolt \<Rightarrow> 'db \<Rightarrow> request \<Rightarrow> admin_auth \<Rightarrow> User \<Rightarrow> bool" where
  "by_headers E B d r st u \<longleftrightarrow>
     verifyAdmin E B d (GetHeader r ''X-Admin-AccessKey'') (GetHeader r ''X-Admin-Secret'') = Inr u
     \<and> blocked (now E) (client_ip E r) (aa_failures st) = None"

definition same_origin_or_safe :: "env \<Rightarrow> request \<Rightarrow> bool" where
  "same_origin_or_safe E r \<longleftrightarrow>
     checkOrigin (lb E) r = originSame \<or> checkOrigin (lb E) r = originUnknown \<and> isSafeMethod (req_method r)"

lemma cookieAuth_Inr:
  assumes "cookieAuth E B d r token st = (Inr r', st')"
  shows "\<exists>u s. r' = publishAdmin u authMethodSess r \<and> isAdmin u \<and> same_origin_or_safe E r
     \<and> map_of (byDigest (aa_sessions st)) (sha256 (lb E) token) = Some s \<and> \<not> expired (aa_sessions st) s (now E)
     \<and> GetUser (lb E) B (accessKey s) d = Inr u"
proof -
  obtain x s1 where l: "lookup (sha256 (lb E)) (now E) token (aa_sessions st) = (x, s1)" by (metis surj_pair)
  have o: "same_origin_or_safe E r"
    using assms by (cases "checkOrigin (lb E) r") (auto simp: cookieAuth_def same_origin_or_safe_def Let_def split: if_splits)
  then have n: "\<not> (checkOrigin (lb E) r = originCross \<or> checkOrigin (lb E) r = originUnknown \<and> \<not> isSafeMethod (req_method r))"
    by (auto simp: same_origin_or_safe_def)
  obtain ak u where x: "x = Some ak" "GetUser (lb E) B ak d = Inr u" "isAdmin u" "r' = publishAdmin u authMethodSess r"
    using assms n by (auto simp: cookieAuth_def Let_def l split: option.splits sum.splits if_splits)
  have "fst (lookup (sha256 (lb E)) (now E) token (aa_sessions st)) = Some ak" using l x(1) by simp
  from lookup_Some[OF this] obtain s where "map_of (byDigest (aa_sessions st)) (sha256 (lb E) token) = Some s"
    "\<not> expired (aa_sessions st) s (now E)" "accessKey s = ak" by blast
  then show ?thesis using x o by blast
qed

lemma AdminAuthMiddleware_Inr:
  assumes "AdminAuthMiddleware E B d r st = (Inr r', st')"
  shows "(\<exists>u. r' = publishAdmin u authMethodHdr r \<and> by_headers E B d r st u)
     \<or> (\<exists>token. Cookie r SessionCookieName = Some token \<and> cookieAuth E B d r token st = (Inr r', st'))"
proof (cases "GetHeader r ''X-Admin-AccessKey'' \<noteq> [] \<or> GetHeader r ''X-Admin-Secret'' \<noteq> []")
  case True
  obtain x st1 where ck: "checkCredentials E B d r (GetHeader r ''X-Admin-AccessKey'') (GetHeader r ''X-Admin-Secret'') st = (x, st1)"
    by (metis surj_pair)
  obtain u where "x = Inr u" "r' = publishAdmin u authMethodHdr r"
    using assms True ck by (cases x) (auto simp: AdminAuthMiddleware_def Let_def split: if_splits)
  then show ?thesis using checkCredentials_Inr ck by (metis by_headers_def)
next
  case False
  then show ?thesis
    using assms by (auto simp: AdminAuthMiddleware_def Let_def split: option.splits if_splits)
qed

lemma admin_accepted:
  assumes "one_lib L evs" "lb E = L" "AdminAuthMiddleware E B d r (fold (admin_step B) evs init_admin_auth) = (Inr r', st')"
  shows "(\<exists>u. r' = publishAdmin u authMethodHdr r \<and> by_headers E B d r (fold (admin_step B) evs init_admin_auth) u)
     \<or> (\<exists>u token ak t. r' = publishAdmin u authMethodSess r \<and> Cookie r SessionCookieName = Some token
          \<and> same_origin_or_safe E r \<and> GetUser L B ak d = Inr u \<and> isAdmin u
          \<and> issued B L evs token ak t \<and> now E - t < 8 * Hour)"
proof -
  let ?st = "fold (admin_step B) evs init_admin_auth"
  from AdminAuthMiddleware_Inr[OF assms(3)] show ?thesis
  proof
    assume "\<exists>token. Cookie r SessionCookieName = Some token \<and> cookieAuth E B d r token ?st = (Inr r', st')"
    then obtain token where tok: "Cookie r SessionCookieName = Some token" and ca: "cookieAuth E B d r token ?st = (Inr r', st')" by blast
    from cookieAuth_Inr[OF ca] obtain u s where u: "r' = publishAdmin u authMethodSess r" "isAdmin u" "same_origin_or_safe E r"
      and s: "map_of (byDigest (aa_sessions ?st)) (sha256 L token) = Some s" "\<not> expired (aa_sessions ?st) s (now E)"
      "GetUser L B (accessKey s) d = Inr u" using assms(2) by blast
    have "absolute (aa_sessions ?st) = 8 * Hour"
      by (simp add: aa_config[OF assms(1)] init_admin_auth_def sessions_def newSessionStore_def SessionAbsoluteTTL_def)
    then have "Sub (now E) (created s) < 8 * Hour" using s(2) by (auto simp: expired_def)
    then have "now E - created s < 8 * Hour"
      using Sub_lt_iff[of "8 * Hour" "now E" "created s"]
      by (simp add: min_duration_def max_duration_def Hour_def Minute_def Second_def)
    then show ?thesis using u tok s(3) session_issued[OF assms(1) s(1)] by blast
  qed blast
qed

section \<open>Lockout\<close>

text \<open>A request with header credentials that the user store refuses.\<close>

definition wrong_secret :: "'db bolt \<Rightarrow> string \<Rightarrow> 'db admin_event \<Rightarrow> bool" where
  "wrong_secret B ip ev \<longleftrightarrow>
     (\<exists>E d r. ev = Admin_Request E d r \<and> GetHeader r ''X-Admin-AccessKey'' \<noteq> [] \<and> GetHeader r ''X-Admin-Secret'' \<noteq> []
        \<and> client_ip E r = ip
        \<and> verifyAdmin E B d (GetHeader r ''X-Admin-AccessKey'') (GetHeader r ''X-Admin-Secret'') = Inl errInvalidCredentials)"

definition event_time :: "'db admin_event \<Rightarrow> time" where
  "event_time ev = now (event_env ev)"

lemma wrong_secret_step:
  assumes "wrong_secret B ip ev" "blocked (event_time ev) ip (aa_failures st) = None"
  shows "aa_failures (admin_step B ev st) = fail (event_time ev) ip (aa_failures st)"
  using assms
  by (auto simp: wrong_secret_def event_time_def AdminAuthMiddleware_def checkCredentials_def failCredentials_def Let_def)

text \<open>The window in which failures of a client are counted, and how many there are.\<close>

definition counted :: "string \<Rightarrow> nat \<Rightarrow> time \<Rightarrow> admin_auth \<Rightarrow> bool" where
  "counted ip n t0 st \<longleftrightarrow>
     map_of (byKey (aa_failures st)) ip = (if n = 0 then None else Some \<lparr>count = n, start = t0\<rparr>)
     \<and> window (aa_failures st) = LoginFailureWindow \<and> max_failures (aa_failures st) = loginMaxFailures"

lemma counted_step:
  assumes "wrong_secret B ip ev" "counted ip n t0 st" "n < loginMaxFailures" "n = 0 \<Longrightarrow> event_time ev = t0"
    "Sub (event_time ev) t0 < LoginFailureWindow"
  shows "counted ip (Suc n) t0 (admin_step B ev st)"
proof -
  have "blocked (event_time ev) ip (aa_failures st) = None"
    using assms(2,3) by (auto simp: blocked_def counted_def Let_def)
  note st = wrong_secret_step[OF assms(1) this]
  have cfg: "window (fail t k l) = window l" "max_failures (fail t k l) = max_failures l" for t k l
    using limiter_config(2,3)[of "Fail t k" l] by simp_all
  show ?thesis
  proof (cases "n = 0")
    case True
    then show ?thesis using assms(2,4) fail_opens[of "aa_failures st" ip t0] by (simp add: counted_def st cfg)
  next
    case False
    then show ?thesis
      using assms(2,5) fail_counts[of "aa_failures st" ip "\<lparr>count = n, start = t0\<rparr>" "event_time ev"]
      by (simp add: counted_def st cfg)
  qed
qed

lemma counted_run:
  assumes "counted ip n t0 st" "\<forall>ev\<in>set evs. wrong_secret B ip ev \<and> Sub (event_time ev) t0 < LoginFailureWindow"
    "n + length evs \<le> loginMaxFailures" "n = 0 \<Longrightarrow> evs \<noteq> [] \<Longrightarrow> event_time (hd evs) = t0"
  shows "counted ip (n + length evs) t0 (fold (admin_step B) evs st)"
  using assms
proof (induction evs arbitrary: n st)
  case (Cons ev evs)
  have "counted ip (Suc n) t0 (admin_step B ev st)" using Cons.prems by (intro counted_step) auto
  from Cons.IH[OF this] Cons.prems show ?case by simp
qed simp

lemma locked_out:
  assumes "counted ip loginMaxFailures t0 st" "Sub (now E) t0 < LoginFailureWindow" "client_ip E r = ip"
  shows "\<exists>resp. checkCredentials E B d r ak secret st = (Inl resp, st) \<and> status resp = 429"
proof -
  obtain retry where "blocked (now E) ip (aa_failures st) = Some retry"
    using assms(1,2) by (auto simp: counted_def blocked_def Let_def loginMaxFailures_def)
  then show ?thesis using checkCredentials_locked assms(3) by (fastforce simp: abortJSON_def)
qed

lemma ten_failures_lock:
  assumes "map_of (byKey (aa_failures st)) ip = None"
    "window (aa_failures st) = LoginFailureWindow" "max_failures (aa_failures st) = loginMaxFailures"
    "length evs = 10" "\<forall>ev\<in>set evs. wrong_secret B ip ev \<and> event_time ev - event_time (hd evs) < 15 * Minute"
    "now E - event_time (hd evs) < 15 * Minute" "client_ip E r = ip"
  shows "\<exists>resp. checkCredentials E B d r ak secret (fold (admin_step B) evs st) = (Inl resp, fold (admin_step B) evs st)
     \<and> status resp = 429"
proof -
  let ?t0 = "event_time (hd evs)"
  have sub: "t - u < 15 * Minute \<Longrightarrow> Sub t u < LoginFailureWindow" for t u
    using Sub_lt_iff[of "15 * Minute" t u]
    by (simp add: LoginFailureWindow_def min_duration_def max_duration_def Minute_def Second_def)
  have "counted ip 0 ?t0 st" using assms(1-3) by (simp add: counted_def)
  from counted_run[OF this, of evs B] assms(4,5) sub
  have "counted ip loginMaxFailures ?t0 (fold (admin_step B) evs st)" by (simp add: loginMaxFailures_def)
  from locked_out[OF this sub[OF assms(6)] assms(7)] show ?thesis .
qed

end
