(* ===== verification/Ip_Ban.thy ===== *)
theory Ip_Ban
  imports Bounded_Table Client_Ip
begin

text \<open>
  \<open>internal/middleware/ipban.go\<close>: the ban of client addresses that collect 401/403
  responses on the storage surface.  The store is a pair of capped tables (failure windows
  and bans); the controller adds the live configuration and the middleware.
\<close>

section \<open>Configuration\<close>

record IPBanConfig =
  ibEnabled :: bool
  MaxFailures :: int
  WindowSeconds :: int
  BanSeconds :: int

definition defaultIPBanMaxFailures :: int where "defaultIPBanMaxFailures = 20"
definition defaultIPBanWindowSeconds :: int where "defaultIPBanWindowSeconds = 60"
definition defaultIPBanSeconds :: int where "defaultIPBanSeconds = 15 * 60"
definition MaxIPBanFailures :: int where "MaxIPBanFailures = 10000"
definition MaxIPBanWindowSeconds :: int where "MaxIPBanWindowSeconds = 3600"
definition MaxIPBanSeconds :: int where "MaxIPBanSeconds = 7 * 24 * 3600"
definition maxBanEntries :: nat where "maxBanEntries = 65536"

definition DefaultIPBanConfig :: IPBanConfig where
  "DefaultIPBanConfig =
     \<lparr>ibEnabled = False, MaxFailures = defaultIPBanMaxFailures,
      WindowSeconds = defaultIPBanWindowSeconds, BanSeconds = defaultIPBanSeconds\<rparr>"

definition inRange :: "int \<Rightarrow> int \<Rightarrow> int \<Rightarrow> bool" where
  "inRange v lo hi \<longleftrightarrow> v \<ge> lo \<and> v \<le> hi"

datatype ban_field = BadMaxFailures | BadWindowSeconds | BadBanSeconds

definition Validate :: "IPBanConfig \<Rightarrow> ban_field option" where
  "Validate c =
     (if \<not> inRange (MaxFailures c) 1 MaxIPBanFailures then Some BadMaxFailures
      else if \<not> inRange (WindowSeconds c) 1 MaxIPBanWindowSeconds then Some BadWindowSeconds
      else if \<not> inRange (BanSeconds c) 1 MaxIPBanSeconds then Some BadBanSeconds
      else None)"

definition Normalized :: "IPBanConfig \<Rightarrow> IPBanConfig" where
  "Normalized c =
     (let d = DefaultIPBanConfig;
          c1 = (if \<not> inRange (MaxFailures c) 1 MaxIPBanFailures then c\<lparr>MaxFailures := MaxFailures d\<rparr> else c);
          c2 = (if \<not> inRange (WindowSeconds c1) 1 MaxIPBanWindowSeconds then c1\<lparr>WindowSeconds := WindowSeconds d\<rparr> else c1)
      in if \<not> inRange (BanSeconds c2) 1 MaxIPBanSeconds then c2\<lparr>BanSeconds := BanSeconds d\<rparr> else c2)"

definition bannableIP :: "lib \<Rightarrow> string \<Rightarrow> string option" where
  "bannableIP L s =
     (case ParseIP L s of
        None \<Rightarrow> None
      | Some ip \<Rightarrow>
          if \<not> ip_global_unicast ip \<or> ip_private ip \<or> ip_cgnat ip then None
          else Some (ip_string ip))"

section \<open>The store\<close>

record failEntry =
  fe_count :: int
  fe_start :: time

record banStore =
  fails :: "(string \<times> failEntry) list"
  bans :: "(string \<times> time) list"
  ban_limit :: nat
  ban_max :: int
  ban_window :: duration
  ban_len :: duration

definition reconfigure :: "IPBanConfig \<Rightarrow> banStore \<Rightarrow> banStore" where
  "reconfigure cfg s =
     s\<lparr>ban_max := MaxFailures cfg, ban_window := WindowSeconds cfg * Second,
       ban_len := BanSeconds cfg * Second, fails := [], bans := []\<rparr>"

definition newBanStore :: "IPBanConfig \<Rightarrow> nat \<Rightarrow> banStore" where
  "newBanStore cfg lim =
     reconfigure cfg \<lparr>fails = [], bans = [], ban_limit = lim, ban_max = 0, ban_window = 0, ban_len = 0\<rparr>"

definition bannedLocked :: "string \<Rightarrow> time \<Rightarrow> banStore \<Rightarrow> bool \<times> banStore" where
  "bannedLocked ip now s =
     (case map_of (bans s) ip of
        None \<Rightarrow> (False, s)
      | Some until \<Rightarrow>
          if now < until then (True, s) else (False, s\<lparr>bans := AList.delete ip (bans s)\<rparr>))"

definition banned :: "string \<Rightarrow> time \<Rightarrow> banStore \<Rightarrow> bool \<times> banStore" where
  "banned ip now s = bannedLocked ip now s"

text \<open>
  \<open>delete(m, oldestKey(m, at))\<close>: \<open>oldestKey\<close> answers the empty string on an
  empty table, and the deletion then finds nothing.
\<close>

definition oldestKey :: "('v \<Rightarrow> time) \<Rightarrow> (string \<times> 'v) list \<Rightarrow> string" where
  "oldestKey at m = (case scan_oldest at None m of None \<Rightarrow> [] | Some (k, _) \<Rightarrow> k)"

text \<open>The entry is returned with the store that holds it: the Go pointer is into the table.\<close>

definition failEntryLocked :: "string \<Rightarrow> time \<Rightarrow> banStore \<Rightarrow> failEntry \<times> banStore" where
  "failEntryLocked ip now s =
     (case map_of (fails s) ip of
        Some e \<Rightarrow>
          if Sub now (fe_start e) < ban_window s then (e, s)
          else (let e' = \<lparr>fe_count = 0, fe_start = now\<rparr>
                in (e', s\<lparr>fails := AList.update ip e' (fails s)\<rparr>))
      | None \<Rightarrow>
          (let m = (if length (fails s) \<ge> ban_limit s
                    then AList.delete (oldestKey fe_start (fails s)) (fails s) else fails s);
               e' = \<lparr>fe_count = 0, fe_start = now\<rparr>
           in (e', s\<lparr>fails := AList.update ip e' m\<rparr>)))"

text \<open>The ban's expiry and the count when this failure imposed a ban.\<close>

definition ban_fail :: "string \<Rightarrow> time \<Rightarrow> banStore \<Rightarrow> (time \<times> int) option \<times> banStore" where
  "ban_fail ip now s0 =
     (let (b, s) = bannedLocked ip now s0
      in if b then (None, s)
         else let (e, s1) = failEntryLocked ip now s;
                  n = fe_count e + 1;
                  s2 = s1\<lparr>fails := AList.update ip (e\<lparr>fe_count := n\<rparr>) (fails s1)\<rparr>
              in if n < ban_max s2 then (None, s2)
                 else let s3 = s2\<lparr>fails := AList.delete ip (fails s2)\<rparr>;
                          m = (if length (bans s3) \<ge> ban_limit s3
                               then AList.delete (oldestKey (\<lambda>t. t) (bans s3)) (bans s3) else bans s3);
                          until = now + ban_len s3
                      in (Some (until, n), s3\<lparr>bans := AList.update ip until m\<rparr>))"

definition reap :: "time \<Rightarrow> banStore \<Rightarrow> banStore" where
  "reap now s =
     s\<lparr>fails := filter (\<lambda>(k, e). \<not> Sub now (fe_start e) \<ge> ban_window s) (fails s),
       bans := filter (\<lambda>(k, until). now < until) (bans s)\<rparr>"

datatype ban_op = BanFail string time | BanCheck string time | Reap time | Reconfigure IPBanConfig

fun ban_step :: "ban_op \<Rightarrow> banStore \<Rightarrow> banStore" where
  "ban_step (BanFail ip now) s = snd (ban_fail ip now s)"
| "ban_step (BanCheck ip now) s = snd (banned ip now s)"
| "ban_step (Reap now) s = reap now s"
| "ban_step (Reconfigure cfg) s = reconfigure cfg s"

section \<open>Bounds\<close>

definition ban_inv :: "banStore \<Rightarrow> bool" where
  "ban_inv s \<longleftrightarrow> wf_map (fails s) \<and> wf_map (bans s) \<and> 0 < ban_limit s
     \<and> length (fails s) \<le> ban_limit s \<and> length (bans s) \<le> ban_limit s"

lemma delete_oldestKey: "m \<noteq> [] \<Longrightarrow> length (AList.delete (oldestKey at m) m) < length m"
proof -
  assume "m \<noteq> []"
  then obtain k v where "scan_oldest at None m = Some (k, v)"
    by (metis option.exhaust scan_oldest_None_iff surj_pair)
  then show ?thesis using evict_oldest_less[OF \<open>m \<noteq> []\<close>, of at]
    by (simp add: oldestKey_def evict_oldest_def)
qed

lemma capped_oldestKey:
  assumes "length m \<le> c" "0 < c"
  shows "length (AList.update k v (if length m \<ge> c then AList.delete (oldestKey at m) m else m)) \<le> c"
proof -
  have "length (if length m \<ge> c then AList.delete (oldestKey at m) m else m) < c"
    using assms delete_oldestKey[of m at] by (cases m) auto
  then show ?thesis by (rule order.trans[OF length_update_le Suc_leI])
qed

lemma bannedLocked_limit: "ban_limit (snd (bannedLocked ip now s)) = ban_limit s"
  by (simp add: bannedLocked_def split: option.splits)

lemma failEntryLocked_limit: "ban_limit (snd (failEntryLocked ip now s)) = ban_limit s"
  by (simp add: failEntryLocked_def Let_def split: option.splits)

lemma ban_fail_limit: "ban_limit (snd (ban_fail ip now s)) = ban_limit s"
proof -
  obtain b s0 e s1 where b: "bannedLocked ip now s = (b, s0)" and e: "failEntryLocked ip now s0 = (e, s1)"
    by (metis surj_pair)
  moreover have "ban_limit s0 = ban_limit s" "ban_limit s1 = ban_limit s0"
    using bannedLocked_limit[of ip now s] failEntryLocked_limit[of ip now s0] b e by simp_all
  ultimately show ?thesis by (simp add: ban_fail_def Let_def)
qed

lemma ban_limit_step [simp]: "ban_limit (ban_step op s) = ban_limit s"
  by (cases op) (simp_all add: ban_fail_limit banned_def bannedLocked_limit reap_def reconfigure_def)

lemma bannedLocked_inv: "ban_inv s \<Longrightarrow> ban_inv (snd (bannedLocked ip now s))"
  using length_delete_le[of ip "bans s"]
  by (auto simp: bannedLocked_def ban_inv_def wf_map_delete split: option.splits)

lemma update_present: "map_of m k = Some v \<Longrightarrow> length (AList.update k w m) = length m"
  by (metis length_update map_of_None_keys option.distinct(1))

lemma failEntryLocked_inv:
  assumes "ban_inv s" "failEntryLocked ip now s = (e, s')"
  shows "ban_inv s'" "map_of (fails s') ip = Some e" "ban_limit s' = ban_limit s"
    "ban_max s' = ban_max s" "ban_window s' = ban_window s" "ban_len s' = ban_len s" "bans s' = bans s"
  using assms capped_oldestKey[of "fails s" "ban_limit s" ip "\<lparr>fe_count = 0, fe_start = now\<rparr>" fe_start]
  by (auto simp: failEntryLocked_def ban_inv_def Let_def map_of_upd update_present wf_map_update wf_map_delete
      simp del: if_split split: option.splits if_splits)

lemma ban_inv_fails_update:
  "\<lbrakk>ban_inv s; map_of (fails s) ip = Some e\<rbrakk> \<Longrightarrow> ban_inv (s\<lparr>fails := AList.update ip w (fails s)\<rparr>)"
  by (simp add: ban_inv_def wf_map_update update_present)

lemma ban_inv_fails_delete: "ban_inv s \<Longrightarrow> ban_inv (s\<lparr>fails := AList.delete ip (fails s)\<rparr>)"
  using length_delete_le[of ip "fails s"] by (simp add: ban_inv_def wf_map_delete)

lemma ban_inv_impose:
  "ban_inv s \<Longrightarrow> ban_inv (s\<lparr>bans := AList.update ip until
     (if length (bans s) \<ge> ban_limit s then AList.delete (oldestKey (\<lambda>t. t) (bans s)) (bans s) else bans s)\<rparr>)"
  using capped_oldestKey[of "bans s" "ban_limit s" ip until "\<lambda>t. t"]
  by (simp add: ban_inv_def wf_map_update wf_map_delete)

lemma ban_fail_inv:
  assumes "ban_inv s"
  shows "ban_inv (snd (ban_fail ip now s))"
proof -
  obtain b s0 where b: "bannedLocked ip now s = (b, s0)" by (cases "bannedLocked ip now s")
  then have s0: "ban_inv s0" using bannedLocked_inv[OF assms, of ip now] by simp
  obtain e s1 where e: "failEntryLocked ip now s0 = (e, s1)" by (cases "failEntryLocked ip now s0")
  note s1 = failEntryLocked_inv[OF s0 e]
  define s2 where "s2 = s1\<lparr>fails := AList.update ip (e\<lparr>fe_count := fe_count e + 1\<rparr>) (fails s1)\<rparr>"
  have s2: "ban_inv s2" unfolding s2_def using s1(1,2) by (rule ban_inv_fails_update)
  define s3 where "s3 = s2\<lparr>fails := AList.delete ip (fails s2)\<rparr>"
  have s3: "ban_inv s3" unfolding s3_def using s2 by (rule ban_inv_fails_delete)
  have "snd (ban_fail ip now s) = (if b then s0 else if fe_count e + 1 < ban_max s2 then s2
      else s3\<lparr>bans := AList.update ip (now + ban_len s3)
        (if length (bans s3) \<ge> ban_limit s3 then AList.delete (oldestKey (\<lambda>t. t) (bans s3)) (bans s3) else bans s3)\<rparr>)"
    by (simp add: ban_fail_def b e Let_def s2_def s3_def)
  then show ?thesis using s0 s2 ban_inv_impose[OF s3] by simp
qed

lemma ban_step_inv: "ban_inv s \<Longrightarrow> ban_inv (ban_step op s)"
proof (cases op)
  case (Reap now)
  assume "ban_inv s"
  with Reap show ?thesis
    by (auto simp: reap_def ban_inv_def wf_map_filter intro: order.trans[OF length_filter_le])
next
  case (Reconfigure cfg)
  assume "ban_inv s"
  with Reconfigure show ?thesis by (simp add: reconfigure_def ban_inv_def)
qed (auto simp: ban_fail_inv banned_def bannedLocked_inv)

interpretation ban: bounded_table ban_step ban_inv "\<lambda>s. max (length (fails s)) (length (bans s))" ban_limit
proof
  show "ban_inv s \<Longrightarrow> ban_inv (ban_step op s)" for op s by (rule ban_step_inv)
  show "ban_inv s \<Longrightarrow> max (length (fails s)) (length (bans s)) \<le> ban_limit s" for s by (simp add: ban_inv_def)
  show "ban_limit (ban_step op s) = ban_limit s" for op s by simp
qed

section \<open>When a ban starts and ends\<close>

lemma Normalized_valid: "Validate (Normalized c) = None"
  by (simp add: Validate_def Normalized_def Let_def inRange_def DefaultIPBanConfig_def
      MaxIPBanFailures_def MaxIPBanWindowSeconds_def MaxIPBanSeconds_def
      defaultIPBanMaxFailures_def defaultIPBanWindowSeconds_def defaultIPBanSeconds_def)

lemma Normalized_id: "Validate c = None \<Longrightarrow> Normalized c = c"
  by (auto simp: Validate_def Normalized_def Let_def split: if_splits)

lemma bannedLocked_fst: "fst (bannedLocked ip now s) \<longleftrightarrow> (\<exists>until. map_of (bans s) ip = Some until \<and> now < until)"
  by (auto simp: bannedLocked_def split: option.splits)

text \<open>A failure of a banned address changes nothing: no request can extend a ban.\<close>

lemma ban_fail_banned:
  assumes "map_of (bans s) ip = Some until" "now < until"
  shows "ban_fail ip now s = (None, s)"
  using assms by (simp add: ban_fail_def bannedLocked_def)

lemma ban_fail_counts:
  assumes "map_of (bans s) ip = None" "map_of (fails s) ip = Some e" "Sub now (fe_start e) < ban_window s"
    "fe_count e + 1 < ban_max s"
  shows "fst (ban_fail ip now s) = None"
    "map_of (fails (snd (ban_fail ip now s))) ip = Some (e\<lparr>fe_count := fe_count e + 1\<rparr>)"
    "bans (snd (ban_fail ip now s)) = bans s"
    "ban_max (snd (ban_fail ip now s)) = ban_max s" "ban_window (snd (ban_fail ip now s)) = ban_window s"
    "ban_len (snd (ban_fail ip now s)) = ban_len s"
  using assms by (simp_all add: ban_fail_def bannedLocked_def failEntryLocked_def Let_def map_of_upd)

lemma ban_fail_opens:
  assumes "map_of (bans s) ip = None" "map_of (fails s) ip = None" "1 < ban_max s"
  shows "fst (ban_fail ip now s) = None"
    "map_of (fails (snd (ban_fail ip now s))) ip = Some \<lparr>fe_count = 1, fe_start = now\<rparr>"
    "bans (snd (ban_fail ip now s)) = bans s"
    "ban_max (snd (ban_fail ip now s)) = ban_max s" "ban_window (snd (ban_fail ip now s)) = ban_window s"
    "ban_len (snd (ban_fail ip now s)) = ban_len s"
  using assms by (simp_all add: ban_fail_def bannedLocked_def failEntryLocked_def Let_def map_of_upd)

lemma ban_fail_imposes:
  assumes "map_of (bans s) ip = None" "map_of (fails s) ip = Some e" "Sub now (fe_start e) < ban_window s"
    "ban_max s \<le> fe_count e + 1"
  shows "fst (ban_fail ip now s) = Some (now + ban_len s, fe_count e + 1)"
    "map_of (bans (snd (ban_fail ip now s))) ip = Some (now + ban_len s)"
    "map_of (fails (snd (ban_fail ip now s))) ip = None"
  using assms by (simp_all add: ban_fail_def bannedLocked_def failEntryLocked_def Let_def map_of_upd map_of_del)

fun fail_all :: "string \<Rightarrow> time list \<Rightarrow> banStore \<Rightarrow> banStore" where
  "fail_all ip [] s = s"
| "fail_all ip (t # ts) s = fail_all ip ts (snd (ban_fail ip t s))"

lemma fail_all_append: "fail_all ip (xs @ ys) s = fail_all ip ys (fail_all ip xs s)"
  by (induction xs arbitrary: s) auto

lemma fail_all_below:
  assumes "map_of (bans s) ip = None" "map_of (fails s) ip = Some e"
    "\<forall>t\<in>set ts. Sub t (fe_start e) < ban_window s" "fe_count e + int (length ts) < ban_max s"
  shows "map_of (bans (fail_all ip ts s)) ip = None"
    "map_of (fails (fail_all ip ts s)) ip = Some (e\<lparr>fe_count := fe_count e + int (length ts)\<rparr>)"
    "ban_max (fail_all ip ts s) = ban_max s" "ban_window (fail_all ip ts s) = ban_window s"
    "ban_len (fail_all ip ts s) = ban_len s"
proof -
  have "map_of (bans (fail_all ip ts s)) ip = None
    \<and> map_of (fails (fail_all ip ts s)) ip = Some (e\<lparr>fe_count := fe_count e + int (length ts)\<rparr>)
    \<and> ban_max (fail_all ip ts s) = ban_max s \<and> ban_window (fail_all ip ts s) = ban_window s
    \<and> ban_len (fail_all ip ts s) = ban_len s"
    using assms
  proof (induction ts arbitrary: s e)
    case (Cons t ts)
    let ?s = "snd (ban_fail ip t s)" and ?e = "e\<lparr>fe_count := fe_count e + 1\<rparr>"
    have step: "Sub t (fe_start e) < ban_window s" "fe_count e + 1 < ban_max s" using Cons.prems by auto
    note c = ban_fail_counts[OF Cons.prems(1,2) step]
    have "map_of (bans ?s) ip = None" "map_of (fails ?s) ip = Some ?e" using c Cons.prems(1) by auto
    from Cons.IH[OF this] show ?case using c Cons.prems by (simp add: add.commute add.left_commute)
  qed simp
  then show "map_of (bans (fail_all ip ts s)) ip = None"
    "map_of (fails (fail_all ip ts s)) ip = Some (e\<lparr>fe_count := fe_count e + int (length ts)\<rparr>)"
    "ban_max (fail_all ip ts s) = ban_max s" "ban_window (fail_all ip ts s) = ban_window s"
    "ban_len (fail_all ip ts s) = ban_len s" by auto
qed

text \<open>The \<open>MaxFailures\<close>-th failure inside one window, and no earlier one, bans the address.\<close>

lemma ban_after_max:
  assumes "map_of (bans s) ip = None" "map_of (fails s) ip = None" "1 < ban_max s"
    "int (length ts) + 2 = ban_max s" "\<forall>t\<in>set (ts @ [tn]). Sub t t1 < ban_window s"
  shows "map_of (bans (fail_all ip (t1 # ts) s)) ip = None"
    "map_of (bans (fail_all ip (t1 # ts @ [tn]) s)) ip = Some (tn + ban_len s)"
proof -
  let ?s1 = "snd (ban_fail ip t1 s)"
  note o = ban_fail_opens[OF assms(1-3), of t1]
  have b1: "map_of (bans ?s1) ip = None" using o assms(1) by simp
  have pre: "\<forall>t\<in>set ts. Sub t (fe_start \<lparr>fe_count = 1, fe_start = t1\<rparr>) < ban_window ?s1"
    "fe_count \<lparr>fe_count = 1, fe_start = t1\<rparr> + int (length ts) < ban_max ?s1" using assms(4,5) o by auto
  note below = fail_all_below[OF b1 o(2) pre]
  show "map_of (bans (fail_all ip (t1 # ts) s)) ip = None" using below(1) by simp
  have app: "fail_all ip (t1 # ts @ [tn]) s = snd (ban_fail ip tn (fail_all ip ts ?s1))"
    by (simp add: fail_all_append)
  show "map_of (bans (fail_all ip (t1 # ts @ [tn]) s)) ip = Some (tn + ban_len s)"
    unfolding app using ban_fail_imposes(2)[OF below(1,2), of tn] below(3-5) o assms(4,5) by simp
qed

section \<open>The controller\<close>

text \<open>
  The atomic pointer to the configuration is never nil once the controller is built.
  \<open>IPBanMiddleware\<close> takes the instants at which it checks and records, and the rest of
  the chain as \<open>next\<close>.
\<close>

record IPBanController =
  ban_store :: banStore
  ban_cfg :: IPBanConfig

definition NewIPBanController :: "IPBanConfig \<Rightarrow> IPBanController" where
  "NewIPBanController cfg =
     (let n = Normalized cfg in \<lparr>ban_store = newBanStore n maxBanEntries, ban_cfg = n\<rparr>)"

definition ApplyIPBan :: "IPBanConfig \<Rightarrow> IPBanController \<Rightarrow> IPBanController" where
  "ApplyIPBan cfg bc =
     (let n = Normalized cfg in \<lparr>ban_store = reconfigure n (ban_store bc), ban_cfg = n\<rparr>)"

definition CurrentIPBan :: "IPBanController \<Rightarrow> IPBanConfig" where
  "CurrentIPBan bc = ban_cfg bc"

definition record_failure :: "string \<Rightarrow> time \<Rightarrow> IPBanController \<Rightarrow> IPBanController" where
  "record_failure ip now bc = bc\<lparr>ban_store := snd (ban_fail ip now (ban_store bc))\<rparr>"

definition accessDeniedMessage :: string where "accessDeniedMessage = ''Access Denied''"

definition IPBanMiddleware ::
  "lib \<Rightarrow> TrustedProxyConfig \<Rightarrow> time \<Rightarrow> time \<Rightarrow> (request \<Rightarrow> 'w \<Rightarrow> response \<times> 'w)
     \<Rightarrow> request \<Rightarrow> IPBanController \<times> 'w \<Rightarrow> response \<times> (IPBanController \<times> 'w)" where
  "IPBanMiddleware L tp now1 now2 next r st =
     (let (bc, w) = st
      in if \<not> ibEnabled (ban_cfg bc)
         then let (resp, w') = next r w in (resp, bc, w')
         else case bannableIP L (ResolveClientIP L tp r) of
             None \<Rightarrow> let (resp, w') = next r w in (resp, bc, w')
           | Some ip \<Rightarrow>
               (let (b, s1) = banned ip now1 (ban_store bc);
                    bc1 = bc\<lparr>ban_store := s1\<rparr>
                in if b then (writeS3Error r 403 ''AccessDenied'' accessDeniedMessage, bc1, w)
                   else let (resp, w') = next r w
                        in (resp, if status resp = 401 \<or> status resp = 403
                                  then record_failure ip now2 bc1 else bc1, w')))"

lemma newBanStore_inv: "0 < n \<Longrightarrow> ban_inv (newBanStore cfg n)"
  by (simp add: newBanStore_def reconfigure_def ban_inv_def)

lemma banned_true: "fst (banned ip now s) \<Longrightarrow> snd (banned ip now s) = s"
  by (simp add: banned_def bannedLocked_def split: option.splits if_splits)

text \<open>A refused request reaches neither the rest of the chain nor the tables.\<close>

lemma IPBanMiddleware_refuses:
  assumes "ibEnabled (ban_cfg bc)" "bannableIP L (ResolveClientIP L tp r) = Some ip"
    "map_of (bans (ban_store bc)) ip = Some until" "now1 < until"
  shows "IPBanMiddleware L tp now1 now2 next r (bc, w)
       = (writeS3Error r 403 ''AccessDenied'' accessDeniedMessage, bc, w)"
  using assms by (simp add: IPBanMiddleware_def banned_def bannedLocked_def)

lemma IPBanMiddleware_passes:
  assumes "\<not> ibEnabled (ban_cfg bc) \<or> bannableIP L (ResolveClientIP L tp r) = None"
  shows "IPBanMiddleware L tp now1 now2 next r (bc, w) = (fst (next r w), bc, snd (next r w))"
  using assms by (auto simp: IPBanMiddleware_def split: prod.splits option.splits)

lemma ban_enabled_inv:
  assumes "ban_inv (ban_store bc)"
  shows "ban_inv (ban_store (fst (snd (IPBanMiddleware L tp now1 now2 next r (bc, w)))))"
  using assms ban_step_inv[of "ban_store bc" "BanCheck _ now1"] bannedLocked_inv ban_fail_inv
  by (auto simp: IPBanMiddleware_def record_failure_def banned_def Let_def split: prod.splits option.splits)
    (metis snd_conv)+

end
