(* ===== verification/Rate_Limit.thy ===== *)
theory Rate_Limit
  imports Complex_Main Bounded_Table Client_Ip
begin

text \<open>
  \<open>internal/middleware/ratelimit.go\<close>: the capped table of token buckets, one per client
  address, and the controller shared by both HTTP surfaces.  A token bucket is the type
  \<open>'l\<close> of the \<open>golang.org/x/time/rate\<close> package; the record \<open>buckets\<close> holds its
  two operations.  Rates (\<open>float64\<close> in the code) are rationals.
\<close>

record RateLimitConfig =
  rlEnabled :: bool
  RPS :: rat
  Burst :: int

record 'l buckets =
  NewLimiter :: "rat \<Rightarrow> int \<Rightarrow> 'l"
  Allow :: "time \<Rightarrow> 'l \<Rightarrow> bool \<times> 'l"

definition maxLimiterEntries :: nat where "maxLimiterEntries = 65536"
definition limiterTTL :: duration where "limiterTTL = 10 * Minute"
definition slowDownRetryAfterSeconds :: int where "slowDownRetryAfterSeconds = 1"
definition slowDownMessage :: string where "slowDownMessage = ''Reduce your request rate''"

record 'l limiterEntry =
  le_limiter :: 'l
  le_lastSeen :: time

record 'l rateLimiter =
  rl_entries :: "(string \<times> 'l limiterEntry) list"
  rl_rps :: rat
  rl_burst :: int

definition clamp_rps :: "rat \<Rightarrow> rat" where "clamp_rps rps = (if rps \<le> 0 then 1 else rps)"
definition clamp_burst :: "int \<Rightarrow> int" where "clamp_burst burst = (if burst < 1 then 1 else burst)"

definition newRateLimiter :: "rat \<Rightarrow> int \<Rightarrow> 'l rateLimiter" where
  "newRateLimiter rps burst =
     \<lparr>rl_entries = [], rl_rps = clamp_rps rps, rl_burst = clamp_burst burst\<rparr>"

definition rl_reconfigure :: "rat \<Rightarrow> int \<Rightarrow> 'l rateLimiter \<Rightarrow> 'l rateLimiter" where
  "rl_reconfigure rps burst rl =
     rl\<lparr>rl_rps := clamp_rps rps, rl_burst := clamp_burst burst, rl_entries := []\<rparr>"

definition evictOldestLocked :: "'l rateLimiter \<Rightarrow> 'l rateLimiter" where
  "evictOldestLocked rl = rl\<lparr>rl_entries := evict_oldest le_lastSeen (rl_entries rl)\<rparr>"

definition allow :: "'l buckets \<Rightarrow> time \<Rightarrow> string \<Rightarrow> 'l rateLimiter \<Rightarrow> bool \<times> 'l rateLimiter" where
  "allow K now key rl =
     (case map_of (rl_entries rl) key of
        Some e \<Rightarrow>
          (let (ok, lim) = Allow K now (le_limiter e)
           in (ok, rl\<lparr>rl_entries := AList.update key \<lparr>le_limiter = lim, le_lastSeen = now\<rparr> (rl_entries rl)\<rparr>))
      | None \<Rightarrow>
          (let rl1 = (if length (rl_entries rl) \<ge> maxLimiterEntries then evictOldestLocked rl else rl);
               (ok, lim) = Allow K now (NewLimiter K (rl_rps rl1) (rl_burst rl1))
           in (ok, rl1\<lparr>rl_entries := AList.update key \<lparr>le_limiter = lim, le_lastSeen = now\<rparr> (rl_entries rl1)\<rparr>)))"

definition reapIdle :: "time \<Rightarrow> 'l rateLimiter \<Rightarrow> 'l rateLimiter" where
  "reapIdle now rl =
     (let cutoff = now - limiterTTL
      in rl\<lparr>rl_entries := filter (\<lambda>(k, e). \<not> le_lastSeen e < cutoff) (rl_entries rl)\<rparr>)"

record 'l RateLimitController =
  rc_rl :: "'l rateLimiter"
  rc_cfg :: RateLimitConfig

definition NewRateLimitController :: "RateLimitConfig \<Rightarrow> 'l RateLimitController" where
  "NewRateLimitController cfg = \<lparr>rc_rl = newRateLimiter (RPS cfg) (Burst cfg), rc_cfg = cfg\<rparr>"

definition ApplyRateLimit :: "RateLimitConfig \<Rightarrow> 'l RateLimitController \<Rightarrow> 'l RateLimitController" where
  "ApplyRateLimit cfg rc = rc\<lparr>rc_rl := rl_reconfigure (RPS cfg) (Burst cfg) (rc_rl rc), rc_cfg := cfg\<rparr>"

definition CurrentRateLimit :: "'l RateLimitController \<Rightarrow> RateLimitConfig" where
  "CurrentRateLimit rc = rc_cfg rc"

definition writeSlowDown :: "request \<Rightarrow> response" where
  "writeSlowDown r = writeS3Error r 503 ''SlowDown'' slowDownMessage"

definition RateLimitMiddleware ::
  "lib \<Rightarrow> 'l buckets \<Rightarrow> TrustedProxyConfig \<Rightarrow> time \<Rightarrow> (request \<Rightarrow> 'w \<Rightarrow> response \<times> 'w)
     \<Rightarrow> request \<Rightarrow> 'l RateLimitController \<times> 'w \<Rightarrow> response \<times> ('l RateLimitController \<times> 'w)" where
  "RateLimitMiddleware L K tp now next r st =
     (let (rc, w) = st
      in if \<not> rlEnabled (rc_cfg rc)
         then let (resp, w') = next r w in (resp, rc, w')
         else let key = ResolveClientIP L tp r;
                  (ok, rl') = allow K now key (rc_rl rc);
                  rc' = rc\<lparr>rc_rl := rl'\<rparr>
              in if ok then let (resp, w') = next r w in (resp, rc', w')
                 else (with_header ''Retry-After'' (Itoa slowDownRetryAfterSeconds) (writeSlowDown r), rc', w))"

section \<open>Bounds\<close>

datatype rate_op = RateAllow time string | RateReap time | RateReconfigure rat int

fun rate_step :: "'l buckets \<Rightarrow> rate_op \<Rightarrow> 'l rateLimiter \<Rightarrow> 'l rateLimiter" where
  "rate_step K (RateAllow now key) rl = snd (allow K now key rl)"
| "rate_step K (RateReap now) rl = reapIdle now rl"
| "rate_step K (RateReconfigure rps burst) rl = rl_reconfigure rps burst rl"

definition rate_inv :: "'l rateLimiter \<Rightarrow> bool" where
  "rate_inv rl \<longleftrightarrow> wf_map (rl_entries rl) \<and> length (rl_entries rl) \<le> maxLimiterEntries
     \<and> 0 < rl_rps rl \<and> 1 \<le> rl_burst rl"

lemma clamp_pos [simp]: "0 < clamp_rps x" "1 \<le> clamp_burst b"
  by (simp_all add: clamp_rps_def clamp_burst_def)

lemma allow_known:
  assumes "map_of (rl_entries rl) key = Some e"
  shows "fst (allow K now key rl) = fst (Allow K now (le_limiter e))"
    "rl_entries (snd (allow K now key rl))
       = AList.update key \<lparr>le_limiter = snd (Allow K now (le_limiter e)), le_lastSeen = now\<rparr> (rl_entries rl)"
    "rl_rps (snd (allow K now key rl)) = rl_rps rl" "rl_burst (snd (allow K now key rl)) = rl_burst rl"
  using assms by (simp_all add: allow_def Let_def split: prod.splits)

lemma allow_new:
  assumes "map_of (rl_entries rl) key = None"
  shows "fst (allow K now key rl) = fst (Allow K now (NewLimiter K (rl_rps rl) (rl_burst rl)))"
    "rl_entries (snd (allow K now key rl))
       = AList.update key \<lparr>le_limiter = snd (Allow K now (NewLimiter K (rl_rps rl) (rl_burst rl))), le_lastSeen = now\<rparr>
           (if length (rl_entries rl) \<ge> maxLimiterEntries then evict_oldest le_lastSeen (rl_entries rl) else rl_entries rl)"
    "rl_rps (snd (allow K now key rl)) = rl_rps rl" "rl_burst (snd (allow K now key rl)) = rl_burst rl"
  using assms by (simp_all add: allow_def Let_def evictOldestLocked_def split: prod.splits)

lemma allow_inv:
  assumes "rate_inv rl"
  shows "rate_inv (snd (allow K now key rl))"
proof (cases "map_of (rl_entries rl) key")
  case None
  let ?m = "if length (rl_entries rl) \<ge> maxLimiterEntries then evict_oldest le_lastSeen (rl_entries rl) else rl_entries rl"
  have "0 < maxLimiterEntries" by (simp add: maxLimiterEntries_def)
  moreover have "length (rl_entries rl) \<le> maxLimiterEntries" using assms by (simp add: rate_inv_def)
  ultimately have "length (AList.update key x ?m) \<le> maxLimiterEntries" for x
    by (intro capped_insert[of "rl_entries rl" maxLimiterEntries ?m le_lastSeen]) auto
  with allow_new[OF None, of K now] assms show ?thesis
    by (simp add: rate_inv_def wf_map_update wf_map_evict)
next
  case (Some e)
  have "length (AList.update key x (rl_entries rl)) = length (rl_entries rl)" for x
    by (metis Some length_update map_of_None_keys option.distinct(1))
  with allow_known[OF Some, of K now] assms show ?thesis
    by (simp add: rate_inv_def wf_map_update)
qed

lemma rate_step_inv: "rate_inv rl \<Longrightarrow> rate_inv (rate_step K op rl)"
proof (cases op)
  case (RateReap now)
  assume "rate_inv rl"
  with RateReap show ?thesis
    by (auto simp: reapIdle_def rate_inv_def wf_map_filter Let_def intro: order.trans[OF length_filter_le])
next
  case (RateReconfigure rps burst)
  then show ?thesis by (simp add: rl_reconfigure_def rate_inv_def)
qed (simp add: allow_inv)

interpretation rate: bounded_table "rate_step K" rate_inv "\<lambda>rl. length (rl_entries rl)" "\<lambda>_. maxLimiterEntries"
proof
  show "rate_inv s \<Longrightarrow> rate_inv (rate_step K op s)" for op and s :: "'a rateLimiter" by (rule rate_step_inv)
  show "rate_inv s \<Longrightarrow> length (rl_entries s) \<le> maxLimiterEntries" for s :: "'a rateLimiter" by (simp add: rate_inv_def)
  show "maxLimiterEntries = maxLimiterEntries" by (rule refl)
qed

lemma newRateLimiter_inv: "rate_inv (newRateLimiter rps burst)"
  by (simp add: newRateLimiter_def rate_inv_def)

text \<open>A throttled request does not reach the rest of the chain.\<close>

lemma RateLimitMiddleware_throttles:
  assumes "rlEnabled (rc_cfg rc)" "\<not> fst (allow K now (ResolveClientIP L tp r) (rc_rl rc))"
  shows "status (fst (RateLimitMiddleware L K tp now next r (rc, w))) = 503"
    "snd (snd (RateLimitMiddleware L K tp now next r (rc, w))) = w"
proof -
  obtain rl' where "allow K now (ResolveClientIP L tp r) (rc_rl rc) = (False, rl')"
    using assms(2) by (cases "allow K now (ResolveClientIP L tp r) (rc_rl rc)") simp
  then show "status (fst (RateLimitMiddleware L K tp now next r (rc, w))) = 503"
    "snd (snd (RateLimitMiddleware L K tp now next r (rc, w))) = w"
    using assms(1) by (simp_all add: RateLimitMiddleware_def writeSlowDown_def Let_def)
qed

end
