(* ===== verification/Access_Theorems.thy ===== *)
theory Access_Theorems
  imports Admin_History Ip_Ban Rate_Limit Reference_Env
begin

text \<open>
  What guards the doors: the admin API, its lockout, the IP ban and the rate limit, over every
  history of requests.
\<close>

section \<open>The admin API\<close>

text \<open>C6: Over every history, a request passes the admin middleware only with the credentials of a
  stored administrator from an address that is not locked out, or with the cookie of a session
  that a successful login issued less than eight hours ago to a user who is still an
  administrator, that has not been logged out since, and from the same origin or with a safe
  method.\<close>

theorem admin_requests_are_justified:
  assumes "one_lib L evs" "lb E = L" "AdminAuthMiddleware E B d r (fold (admin_step B) evs init_admin_auth) = (Inr r', st')"
  shows "(\<exists>u. r' = publishAdmin u authMethodHdr r \<and> by_headers E B d r (fold (admin_step B) evs init_admin_auth) u)
     \<or> (\<exists>u token ak t. r' = publishAdmin u authMethodSess r \<and> Cookie r SessionCookieName = Some token
          \<and> same_origin_or_safe E r \<and> GetUser L B ak d = Inr u \<and> isAdmin u
          \<and> issued B L evs token ak t \<and> now E - t < 8 * Hour)"
  by (rule admin_accepted[OF assms])

definition ref_login :: request where
  "ref_login = (ref_request ''POST'' [] [] (put_meta [(''AK'', ''s3cret'')]))"

definition ref_admin :: request where
  "ref_admin = (ref_request ''GET'' [] [] [])\<lparr>req_header := [(''X-Admin-Accesskey'', [''AK'']), (''X-Admin-Secret'', [''s3cret''])]\<rparr>"

lemma admin_requests_are_justified_witness:
  "\<exists>r' st'. AdminAuthMiddleware ref_env ref_bolt ref_store ref_admin (fold (admin_step ref_bolt) [] init_admin_auth) = (Inr r', st')
     \<and> (ctx_authMethod r' = authMethodHdr \<or> ctx_authMethod r' = authMethodSess)"
proof -
  let ?x = "AdminAuthMiddleware ref_env ref_bolt ref_store ref_admin (fold (admin_step ref_bolt) [] init_admin_auth)"
  have "\<not> isl (fst ?x)" by code_simp
  then obtain r' st' where x: "?x = (Inr r', st')" by (metis prod.collapse sum.collapse(2))
  have m: "ctx_authMethod (publishAdmin u m r) = m" for u m r by (simp add: publishAdmin_def)
  have o: "one_lib ref_lib ([] :: ref_db admin_event list)" by (simp add: one_lib_def)
  have "lb ref_env = ref_lib" by simp
  from admin_requests_are_justified[OF o this x] show ?thesis using x m by metis
qed

text \<open>C28: Ten wrong secrets from one address within 15 minutes lock that address out for the rest of
  the window, the right secret included, and the refused attempts change nothing.\<close>

theorem ten_wrong_secrets_lock_out:
  assumes "map_of (byKey (aa_failures st)) ip = None"
    "window (aa_failures st) = LoginFailureWindow" "max_failures (aa_failures st) = loginMaxFailures"
    "length evs = 10" "\<forall>ev\<in>set evs. wrong_secret B ip ev \<and> event_time ev - event_time (hd evs) < 15 * Minute"
    "now E - event_time (hd evs) < 15 * Minute" "client_ip E r = ip"
  shows "\<exists>resp. checkCredentials E B d r ak secret (fold (admin_step B) evs st) = (Inl resp, fold (admin_step B) evs st)
     \<and> status resp = 429"
  by (rule ten_failures_lock[OF assms])

definition ref_wrong :: request where
  "ref_wrong = (ref_request ''GET'' [] [] [])\<lparr>req_header := [(''X-Admin-Accesskey'', [''AK'']), (''X-Admin-Secret'', [''guess''])]\<rparr>"

lemma ten_wrong_secrets_lock_out_witness:
  "\<exists>resp. checkCredentials ref_env ref_bolt ref_store ref_admin ''AK'' ''s3cret''
      (fold (admin_step ref_bolt) (replicate 10 (Admin_Request ref_env ref_store ref_wrong)) init_admin_auth)
    = (Inl resp, fold (admin_step ref_bolt) (replicate 10 (Admin_Request ref_env ref_store ref_wrong)) init_admin_auth)
    \<and> status resp = 429"
proof (rule ten_wrong_secrets_lock_out[where ip = "''1.2.3.4''"])
  have "verifyAdmin ref_env ref_bolt ref_store (GetHeader ref_wrong ''X-Admin-AccessKey'') (GetHeader ref_wrong ''X-Admin-Secret'')
      = Inl errInvalidCredentials" "client_ip ref_env ref_wrong = ''1.2.3.4''"
    "GetHeader ref_wrong ''X-Admin-AccessKey'' \<noteq> []" "GetHeader ref_wrong ''X-Admin-Secret'' \<noteq> []" by code_simp+
  then show "\<forall>ev\<in>set (replicate 10 (Admin_Request ref_env ref_store ref_wrong)). wrong_secret ref_bolt ''1.2.3.4'' ev
      \<and> event_time ev - event_time (hd (replicate 10 (Admin_Request ref_env ref_store ref_wrong))) < 15 * Minute"
    by (simp add: wrong_secret_def event_time_def Minute_def)
  show "client_ip ref_env ref_admin = ''1.2.3.4''" by code_simp
qed (simp_all add: init_admin_auth_def failures_def newFailureLimiter_def event_time_def Minute_def)

text \<open>C31: No history of admin requests, logins and logouts grows the two tables beyond 1024 sessions
  and 4096 failure windows.\<close>

theorem admin_tables_are_bounded:
  "length (byDigest (aa_sessions (fold (admin_step B) evs init_admin_auth))) \<le> 1024
   \<and> length (byKey (aa_failures (fold (admin_step B) evs init_admin_auth))) \<le> 4096"
proof -
  have "length (byDigest (aa_sessions (fold (admin_step B) evs init_admin_auth))) \<le> capacity (aa_sessions init_admin_auth)"
    by (rule adm.never_over[OF admin_inv_init])
  moreover have "limiter_inv (aa_failures (fold (admin_step B) evs init_admin_auth))"
    using adm.run_inv[OF admin_inv_init, of B evs] by (simp add: admin_inv_def)
  moreover have "limiter_capacity (aa_failures (fold (admin_step B) evs st)) = limiter_capacity (aa_failures st)" for st
  proof (induction evs arbitrary: st)
    case (Cons ev evs)
    then show ?case using admin_step_failures[of B ev st] by auto
  qed simp
  ultimately show ?thesis
    by (auto simp: limiter_inv_def init_admin_auth_def sessions_def newSessionStore_def sessionCap_def
        failures_def newFailureLimiter_def loginLimiterCap_def)
qed

section \<open>IP ban and rate limit\<close>

text \<open>C36: An address is banned by exactly the configured number of failures in a window, not before;
  while the ban lasts its requests are answered 403 and reach no handler.\<close>

theorem ban_at_the_limit:
  assumes "map_of (bans s) ip = None" "map_of (fails s) ip = None" "1 < ban_max s"
    "int (length ts) + 2 = ban_max s" "\<forall>t\<in>set (ts @ [tn]). Sub t t1 < ban_window s"
    and "ibEnabled (ban_cfg bc)" "bannableIP L (ResolveClientIP L tp r) = Some ip"
    and "ban_store bc = fail_all ip (t1 # ts @ [tn]) s" "now1 < tn + ban_len s"
  shows "map_of (bans (fail_all ip (t1 # ts) s)) ip = None
    \<and> IPBanMiddleware L tp now1 now2 next r (bc, w) = (writeS3Error r 403 ''AccessDenied'' accessDeniedMessage, bc, w)"
proof
  note b = ban_after_max[OF assms(1-5)]
  show "map_of (bans (fail_all ip (t1 # ts) s)) ip = None" by (rule b(1))
  have "map_of (bans (ban_store bc)) ip = Some (tn + ban_len s)" using b(2) by (simp only: assms(8))
  from IPBanMiddleware_refuses[OF assms(6,7) this assms(9)]
  show "IPBanMiddleware L tp now1 now2 next r (bc, w) = (writeS3Error r 403 ''AccessDenied'' accessDeniedMessage, bc, w)" .
qed

definition ref_ban_store :: banStore where
  "ref_ban_store = newBanStore \<lparr>ibEnabled = True, MaxFailures = 3, WindowSeconds = 60, BanSeconds = 900\<rparr> 10"

definition ref_banned :: IPBanController where
  "ref_banned = (NewIPBanController DefaultIPBanConfig)\<lparr>ban_cfg := \<lparr>ibEnabled = True, MaxFailures = 3, WindowSeconds = 60, BanSeconds = 900\<rparr>,
     ban_store := fail_all ''1.2.3.4'' [1, 2, 3] ref_ban_store\<rparr>"

lemma ban_at_the_limit_witness:
  "IPBanMiddleware ref_lib (tproxy ref_env) 9 9 (\<lambda>r w. (Status 200, w)) (ref_request ''GET'' ''bkt'' ''k'' []) (ref_banned, ())
      = (writeS3Error (ref_request ''GET'' ''bkt'' ''k'' []) 403 ''AccessDenied'' accessDeniedMessage, ref_banned, ())"
proof -
  have r: "ResolveClientIP ref_lib (tproxy ref_env) (ref_request ''GET'' ''bkt'' ''k'' []) = ''1.2.3.4''" by code_simp
  have b: "bannableIP ref_lib ''1.2.3.4'' = Some ''1.2.3.4''" by code_simp
  show ?thesis
    by (rule conjunct2[OF ban_at_the_limit[where ip = "''1.2.3.4''" and s = ref_ban_store and ts = "[2]" and tn = 3 and ?t1.0 = 1]])
      (simp_all add: ref_banned_def ref_ban_store_def newBanStore_def reconfigure_def r b Sub_def Second_def
        max_duration_def min_duration_def)
qed

text \<open>Whatever addresses attack, the ban tables and the rate limiter hold at most 65536 entries
  each.\<close>

theorem limit_tables_are_bounded:
  "length (fails (fold ban_step ops (newBanStore cfg maxBanEntries))) \<le> 65536
   \<and> length (bans (fold ban_step ops (newBanStore cfg maxBanEntries))) \<le> 65536
   \<and> length (rl_entries (fold (rate_step K) rops (newRateLimiter rps burst))) \<le> 65536"
proof -
  have "ban_inv (newBanStore cfg maxBanEntries)" by (rule newBanStore_inv) (simp add: maxBanEntries_def)
  from ban.never_over[OF this, of ops] show ?thesis
    using rate.never_over[OF newRateLimiter_inv, of K rops rps burst]
    by (simp add: newBanStore_def reconfigure_def maxBanEntries_def maxLimiterEntries_def)
qed

text \<open>C40: Without trusted proxy headers no request header can change the address a request is counted
  under; with one trusted header, what the client itself wrote into it is ignored in favour of
  the last address, which the proxy appended.\<close>

theorem client_address_cannot_be_forged:
  "(tpHeaders cfg = [] \<and> req_remote r = req_remote r' \<longrightarrow> ResolveClientIP L cfg r = ResolveClientIP L cfg r')
   \<and> (header_values r h = vs @ [forged @ CHR '','' # addr] \<and> CHR '','' \<notin> set addr
       \<and> ParseIP L (TrimSpace addr) = Some ip \<and> TrimSpace addr \<noteq> [] \<and> ip_string ip \<noteq> []
      \<longrightarrow> resolveClientIP L r (h # hs) False = ip_string ip)"
proof (intro conjI impI)
  assume a: "tpHeaders cfg = [] \<and> req_remote r = req_remote r'"
  then show "ResolveClientIP L cfg r = ResolveClientIP L cfg r'"
    using ResolveClientIP_untrusted[of cfg L r] ResolveClientIP_untrusted[of cfg L r'] by (simp only: remoteAddrIP_def)
qed (elim conjE, rule resolveClientIP_rightmost)

lemma client_address_cannot_be_forged_witness:
  "resolveClientIP ref_lib ((ref_request ''GET'' ''b'' ''k'' [])\<lparr>req_header := [(''X-Forwarded-For'', [''9.9.9.9, 5.6.7.8''])]\<rparr>)
     [''X-Forwarded-For''] False = ''5.6.7.8''"
proof -
  let ?r = "(ref_request ''GET'' ''b'' ''k'' [])\<lparr>req_header := [(''X-Forwarded-For'', [''9.9.9.9, 5.6.7.8''])]\<rparr>"
  have h: "header_values ?r ''X-Forwarded-For'' = [] @ [''9.9.9.9'' @ CHR '','' # '' 5.6.7.8'']"
    "CHR '','' \<notin> set '' 5.6.7.8''" "TrimSpace '' 5.6.7.8'' = ''5.6.7.8''" by code_simp+
  have p: "ParseIP ref_lib ''5.6.7.8'' = Some \<lparr>ip_string = ''5.6.7.8'', ip_global_unicast = True, ip_private = False, ip_cgnat = False\<rparr>"
    by code_simp
  show ?thesis
    using mp[OF conjunct2[OF client_address_cannot_be_forged], of ?r "''X-Forwarded-For''" "[]" "''9.9.9.9''" "'' 5.6.7.8''" ref_lib
        "\<lparr>ip_string = ''5.6.7.8'', ip_global_unicast = True, ip_private = False, ip_cgnat = False\<rparr>" "[]"] h p
    by (simp del: resolveClientIP.simps)
qed

end
