(* ===== verification/Store_Theorems.thy ===== *)
theory Store_Theorems
  imports Reference_Env
begin

text \<open>
  What the stores guarantee: names stay below the root, the user store is a map, secrets come
  back, and a sidecar that has been put is what is read.
\<close>

section \<open>Names\<close>

text \<open>C29: Whatever the validator lets through names a file below the object root: its bucket's
  directory, then the segments of the cleaned key, none of them empty, dot or dot-dot.\<close>

theorem names_stay_below_the_root:
  assumes "ValidateNames r = Inr r'" "param_bucket r \<noteq> []" "TrimPrefix (param_objectKey r) ''/'' \<noteq> []"
  shows "SafeJoin ObjectsRoot [param_bucket r, ctx_cleanedKey r']
       = Inr (abs_path (root_segs @ param_bucket r # Split CHR ''/'' (ctx_cleanedKey r')))
    \<and> list_all proper_seg (param_bucket r # Split CHR ''/'' (ctx_cleanedKey r'))"
  using ValidateNames_contained[OF assms root_proper] ValidateNames_Inr(3)[OF assms(1,2)] ValidateNames_Inr(4)[OF assms(1,3)]
    ValidateBucketName_proper[of "param_bucket r"] ValidateObjectKey_ok(4)
  by (auto simp: ObjectsRoot_def)

lemma names_stay_below_the_root_witness:
  "\<exists>r'. ValidateNames (ref_request ''GET'' ''bkt'' ''a/b'' []) = Inr r'
     \<and> SafeJoin ObjectsRoot [''bkt'', ctx_cleanedKey r'] = Inr (abs_path (root_segs @ ''bkt'' # Split CHR ''/'' (ctx_cleanedKey r')))"
proof -
  let ?r = "ref_request ''GET'' ''bkt'' ''a/b'' []"
  have "\<not> isl (ValidateNames ?r)" by code_simp
  then obtain r' where v: "ValidateNames ?r = Inr r'" by (metis sum.collapse(2))
  have h: "param_bucket ?r \<noteq> []" "TrimPrefix (param_objectKey ?r) ''/'' \<noteq> []" by code_simp+
  show ?thesis using names_stay_below_the_root[OF v h] v unfolding ref_request_simps by blast
qed

text \<open>The hand-written check of bucket names accepts exactly the labels of lower-case letters and
  digits joined by hyphens, up to 63 characters; one character is enough, although the error
  message says three.\<close>

theorem bucket_names_accepted:
  "(ValidateBucketName n = None \<longleftrightarrow> length n \<le> 63 \<and> bucket_shape n) \<and> ValidateBucketName ''a'' = None"
  using ValidateBucketName_ok_iff[of n] by (simp add: ValidateBucketName_def bucketNameMaxLen_def bucketNameRe_def name_char_def)

section \<open>Users\<close>

text \<open>C30: The user store refines a map from access keys to users: a successful create adds a new
  entry, an update replaces the rules of an existing one, a delete removes one, and an
  operation that fails changes nothing.\<close>

theorem user_store_is_a_map:
  assumes "bolt_ok B" "user_codec_ok L" "valid_user user" "list_all valid_rule rules"
  shows "(case CreateUser L B t user d of
      (Inl _, d') \<Rightarrow> d' = d
    | (Inr u, d') \<Rightarrow> user_view L B d (AccessKeyID user) = None \<and> CreatedAt u \<noteq> None
        \<and> user_view L B d' = (user_view L B d)(AccessKeyID user \<mapsto> u\<lparr>SecretAccessKey := []\<rparr>))
    \<and> (case UpdateUserACL L B ak rules d of
      (Some _, d') \<Rightarrow> d' = d
    | (None, d') \<Rightarrow> \<exists>u. user_view L B d ak = Some u
        \<and> user_view L B d' = (user_view L B d)(ak \<mapsto> u\<lparr>ACL := rules, SecretAccessKey := []\<rparr>))
    \<and> (case DeleteUser B ak d of
      (Some _, d') \<Rightarrow> d' = d
    | (None, d') \<Rightarrow> user_view L B d' = (user_view L B d)(ak := None))"
  using CreateUser_view[OF assms(1-3)] CreateUser_error[of L B t user d]
    UpdateUserACL_view[OF assms(1,2,4)] UpdateUserACL_error[of L B ak rules d] DeleteUser_view[OF assms(1)]
  by (auto split: prod.splits sum.splits option.splits simp: DeleteUser_def)

lemma user_store_is_a_map_witness:
  "user_view ref_lib ref_bolt (snd (UpdateUserACL ref_lib ref_bolt ''AK'' [] ref_store)) ''AK'' = Some (ref_user\<lparr>ACL := []\<rparr>)
   \<and> user_view ref_lib ref_bolt ref_store ''AK'' = Some ref_user"
proof -
  have c: "fst (UpdateUserACL ref_lib ref_bolt ''AK'' [] ref_store) = None" by code_simp
  have v: "user_view ref_lib ref_bolt ref_store ''AK'' = Some ref_user" using ref_store_get by (simp add: user_view_def)
  have u: "valid_user ref_user" using ref_user_valid[of _ ref_user] ref_store_get
    by (auto simp: GetUser_def ref_lib_def split: option.splits)
  obtain d' where d: "UpdateUserACL ref_lib ref_bolt ''AK'' [] ref_store = (None, d')" using c by (metis prod.collapse)
  note m = user_store_is_a_map[OF ref_bolt_ok ref_lib_ok(2) u, where rules = "[]" and ak = "''AK''" and d = ref_store]
  from conjunct1[OF conjunct2[OF m]] d v show ?thesis by (simp add: ref_user_def)
qed

text \<open>C32: The secret handed out when a user is created is the one a later signature is checked
  against: 40 characters that survive encryption, encoding and storage.\<close>

theorem created_secret_is_stored:
  assumes "bolt_ok B" "user_codec_ok L" "cipher_ok L" "length nonce = NonceSize" "list_all valid_rule rules"
    "CreateUserWithACL L B key nonce draw1 draw2 t rules d = (Inr u, d')"
  shows "length (AccessKeyID u) = 20 \<and> length (SecretAccessKey u) = 40
    \<and> (\<exists>v. GetUser L B (AccessKeyID u) d' = Inr v \<and> ACL v = rules
         \<and> Decrypt L key (EncryptedSecret v) = Some (SecretAccessKey u))"
proof -
  let ?ak = "GenerateRandomString draw1 20 AccessKeyCharset" and ?sk = "GenerateRandomString draw2 40 SecretAccessKeyCharset"
  obtain enc where enc: "Encrypt L key nonce ?sk = Some enc"
    and cr: "CreateUser L B t \<lparr>AccessKeyID = ?ak, EncryptedSecret = enc, ACL = rules, CreatedAt = None, SecretAccessKey = ?sk\<rparr> d = (Inr u, d')"
    using assms(6) by (auto simp: CreateUserWithACL_def Let_def split: option.splits)
  let ?n = "\<lparr>AccessKeyID = ?ak, EncryptedSecret = enc, ACL = rules, CreatedAt = None, SecretAccessKey = ?sk\<rparr>"
  have "ValidString ?ak"
    using GenerateRandomString_charset[of AccessKeyCharset draw1 20] by (intro ValidString_ascii) (auto simp: AccessKeyCharset_def)
  moreover have "ValidString enc" using enc ascii_valid[OF ascii_b64] by (auto simp: Encrypt_def split: if_splits)
  ultimately have v: "valid_user ?n" using assms(5) by (simp add: valid_user_def)
  note c = CreateUser_view[OF assms(1,2) v cr]
  have u: "u = ?n\<lparr>CreatedAt := Some t\<rparr>"
    using cr by (auto simp: CreateUser_def Let_def split: if_splits option.splits)
  have "user_view L B d' ?ak = Some (u\<lparr>SecretAccessKey := []\<rparr>)" using c(2) by simp
  then have "GetUser L B (AccessKeyID u) d' = Inr (u\<lparr>SecretAccessKey := []\<rparr>)"
    using u by (auto simp: user_view_def split: sum.splits)
  then show ?thesis using Decrypt_Encrypt[OF assms(3,4) enc] by (simp add: u)
qed

lemma created_secret_is_stored_witness:
  "\<exists>u d'. CreateUserWithACL ref_lib ref_bolt (replicate 32 CHR ''k'') (replicate 12 CHR ''n'') (\<lambda>i. i) (\<lambda>i. i + 1) 1 [] [] = (Inr u, d')
     \<and> length (SecretAccessKey u) = 40"
proof -
  let ?x = "CreateUserWithACL ref_lib ref_bolt (replicate 32 CHR ''k'') (replicate 12 CHR ''n'') (\<lambda>i. i) (\<lambda>i. i + 1) 1 [] []"
  have "\<exists>u. fst ?x = Inr u"
    by (simp add: CreateUserWithACL_def Encrypt_def NewCipher_def CreateUser_def Let_def ref_lib_def ref_bolt_def ref_user_enc_def)
  then obtain u where "?x = (Inr u, snd ?x)" by (metis prod.collapse)
  from created_secret_is_stored[OF ref_bolt_ok ref_lib_ok(2,1) _ _ this] this show ?thesis by (auto simp: NonceSize_def)
qed

section \<open>Sidecars\<close>

text \<open>However many bucket ACLs, CORS configurations or tag sets have been put before, failed puts
  included, a put that succeeds is what is read afterwards.\<close>

theorem sidecar_puts_are_read_back:
  assumes "fs_wf fs"
  shows "(canned_codec_ok (lb E) \<and> \<not> fails (ft E) OpRead (psegs (acl_slot b))
        \<and> PutBucketACL E b v (fold (\<lambda>v fs. snd (PutBucketACL E b v fs)) vs fs) = (None, fs1)
      \<longrightarrow> GetBucketACL E b fs1 = Inr (canonACL v))
    \<and> (cors_codec_ok (lb E) \<and> list_all valid_cors c \<and> \<not> fails (ft E) OpRead (psegs (cors_slot b))
        \<and> PutBucketCORS E b c (fold (\<lambda>v fs. snd (PutBucketCORS E b v fs)) cs fs) = (None, fs2)
      \<longrightarrow> GetBucketCORS E b fs2 = Inr c)
    \<and> (tags_codec_ok (lb E) \<and> \<not> fails (ft E) OpRead (psegs (objectTagsPath p))
        \<and> SetObjectTags E p ts (fold (\<lambda>v fs. snd (SetObjectTags E p v fs)) tss fs) = (None, fs3)
      \<longrightarrow> GetObjectTags E p fs3 = Inr ts)"
  using bucket_acl.puts_then_get[OF assms, of E b v vs fs1] bucket_cors.puts_then_get[OF assms, of c E b cs fs2]
    object_tags.puts_then_get[OF assms, of E p ts tss fs3] by auto

lemma sidecar_puts_are_read_back_witness:
  "\<exists>fs1. PutBucketACL ref_env ''bkt'' ''Public-Read'' (disk (ref_world\<lparr>disk := disk ref_world @ [(root_segs @ [''bkt''], Dir)]\<rparr>)) = (None, fs1)
     \<and> GetBucketACL ref_env ''bkt'' fs1 = Inr ''public-read''"
proof -
  let ?fs = "disk (ref_world\<lparr>disk := disk ref_world @ [(root_segs @ [''bkt''], Dir)]\<rparr>)"
  have wf: "fs_wf ?fs"
    by (auto simp: fs_wf_def ref_world_def wf_map_def seg_ok_def node_at_def root_segs_def split: if_splits)
  have "fst (PutBucketACL ref_env ''bkt'' ''Public-Read'' ?fs) = None" by code_simp
  then obtain fs1 where p: "PutBucketACL ref_env ''bkt'' ''Public-Read'' ?fs = (None, fs1)" by (metis prod.collapse)
  have "canonACL ''Public-Read'' = ''public-read''" by code_simp
  with conjunct1[OF sidecar_puts_are_read_back[OF wf, of ref_env "''bkt''" "''Public-Read''" "[]" fs1]] p ref_lib_ok(5)
  show ?thesis by (simp add: no_fault_def)
qed

text \<open>C39: A tag set is stored exactly when it is legal: at most ten tags, distinct keys of 1 to 128
  characters, values of at most 256, all of them valid UTF-8.\<close>

theorem tag_sets_accepted:
  "(ValidateObjectTags ts = None \<longleftrightarrow> legal_tags ts)
   \<and> (fst (SetObjectTags E p ts fs) = None \<longrightarrow> legal_tags ts)"
  using ValidateObjectTags_iff[of ts] by (auto simp: SetObjectTags_def split: option.splits)

lemma tag_sets_accepted_witness: "legal_tags [\<lparr>TagKey = ''k'', TagValue = ''v''\<rparr>]"
proof -
  have "ValidateObjectTags [\<lparr>TagKey = ''k'', TagValue = ''v''\<rparr>] = None" by code_simp
  then show ?thesis using tag_sets_accepted by blast
qed

end
