(* ===== verification/Cors.thy ===== *)
theory Cors
  imports Objects
begin

text \<open>
  Cross-origin access: \<open>internal/middleware/bucket\_cors.go\<close> (rule matching and the
  middleware that answers preflights before authentication) and the \<open>?cors\<close> handlers of
  \<open>internal/handlers/bucket\_cors.go\<close>.  A middleware here is the response it aborts with,
  or the headers it sets before the next handler runs.
\<close>

section \<open>Matching a rule\<close>

definition bucketFromPath :: "string \<Rightarrow> string" where
  "bucketFromPath p =
     (let q = TrimPrefix p ''/''
      in if q = [] then []
         else case Index q ''/'' of Some i \<Rightarrow> take i q | None \<Rightarrow> q)"

fun matchList :: "string list \<Rightarrow> string \<Rightarrow> bool" where
  "matchList [] s = False"
| "matchList (a # as) s =
     (if a = s then True
      else case Index a ''*'' of
          None \<Rightarrow> matchList as s
        | Some star \<Rightarrow>
            (let prefix = take star a; suffix = drop (star + 1) a
             in if length s < length prefix + length suffix then matchList as s
                else if HasPrefix s prefix \<and> HasSuffix s suffix then True
                else matchList as s))"

text \<open>\<open>allowed\<close> covers one requested header name, lower-cased and trimmed.\<close>

definition header_covered :: "string list \<Rightarrow> string \<Rightarrow> bool" where
  "header_covered allowed h = list_ex (\<lambda>a. ToLower a = ''*'' \<or> ToLower a = h) allowed"

definition headersAllowed :: "string list \<Rightarrow> string \<Rightarrow> bool" where
  "headersAllowed allowed reqHeaders =
     (if reqHeaders = [] then True
      else list_all (\<lambda>x. let h = TrimSpace (ToLower x) in h = [] \<or> header_covered allowed h)
             (Split CHR '','' reqHeaders))"

fun matchCORSRule :: "BucketCORSRule list \<Rightarrow> string \<Rightarrow> string \<Rightarrow> string \<Rightarrow> BucketCORSRule option" where
  "matchCORSRule [] origin mth reqHeaders = None"
| "matchCORSRule (r # rs) origin mth reqHeaders =
     (if \<not> matchList (AllowedOrigins r) origin then matchCORSRule rs origin mth reqHeaders
      else if mth \<noteq> [] \<and> \<not> matchList (AllowedMethods r) mth then matchCORSRule rs origin mth reqHeaders
      else if \<not> headersAllowed (AllowedHeaders r) reqHeaders then matchCORSRule rs origin mth reqHeaders
      else Some r)"

definition header_list :: "string \<Rightarrow> string list \<Rightarrow> (string \<times> string) list \<Rightarrow> (string \<times> string) list" where
  "header_list name vs hs = (if vs = [] then hs else set_header name (Join '', '' vs) hs)"

definition applyCORSHeaders :: "BucketCORSRule \<Rightarrow> string \<Rightarrow> (string \<times> string) list \<Rightarrow> (string \<times> string) list" where
  "applyCORSHeaders r origin hs =
     (let h1 = set_header ''Access-Control-Allow-Origin'' origin hs;
          h2 = set_header ''Vary'' ''Origin'' h1;
          h3 = header_list ''Access-Control-Allow-Methods'' (AllowedMethods r) h2;
          h4 = header_list ''Access-Control-Allow-Headers'' (AllowedHeaders r) h3;
          h5 = header_list ''Access-Control-Expose-Headers'' (ExposeHeaders r) h4
      in if MaxAgeSeconds r > 0 then set_header ''Access-Control-Max-Age'' (Itoa (MaxAgeSeconds r)) h5 else h5)"

definition BucketCORSMiddleware :: "env \<Rightarrow> request \<Rightarrow> fs \<Rightarrow> response + (string \<times> string) list" where
  "BucketCORSMiddleware E r fs =
     (let origin = GetHeader r ''Origin''; bucket = bucketFromPath (req_path r);
          preflight = (req_method r = ''OPTIONS'')
      in if origin = [] then Inr []
         else if bucket = [] then (if preflight then Inl (Status 403) else Inr [])
         else case GetBucketCORS E bucket fs of
             Inl e \<Rightarrow> if e = NoSuchConfig \<and> preflight then Inl (Status 403) else Inr []
           | Inr rules \<Rightarrow>
               (let reqMethod = (if preflight then GetHeader r ''Access-Control-Request-Method'' else req_method r);
                    reqHeaders = GetHeader r ''Access-Control-Request-Headers''
                in case matchCORSRule rules origin reqMethod reqHeaders of
                     None \<Rightarrow> if preflight then Inl (Status 403) else Inr []
                   | Some rule \<Rightarrow>
                       (let hs = applyCORSHeaders rule origin []
                        in if preflight then Inl (add_headers hs (Status 204)) else Inr hs)))"

section \<open>The ?cors handlers\<close>

text \<open>
  \<open>fromStorage\<close> and \<open>toStorage\<close> rename fields between the XML and the stored rule, so the
  decoders give the stored rule and the trees below carry both sets of names.
\<close>

definition slist :: "string list \<Rightarrow> tree" where
  "slist xs = json_slice (map TStr xs)"

definition omit_slice :: "string \<Rightarrow> string list \<Rightarrow> (string \<times> tree) list" where
  "omit_slice k xs = (if xs = [] then [] else [(k, TList (map TStr xs))])"

definition omit_zero :: "string \<Rightarrow> int \<Rightarrow> (string \<times> tree) list" where
  "omit_zero k n = (if n = 0 then [] else [(k, TInt n)])"

definition fromStorage :: "BucketCORSRule list \<Rightarrow> tree" where
  "fromStorage cfg = TObj [(''CORSRule'', TList (map (\<lambda>c. TObj (
     omit_empty ''ID'' (RuleID c) @ [(''AllowedMethod'', TList (map TStr (AllowedMethods c))),
       (''AllowedOrigin'', TList (map TStr (AllowedOrigins c)))]
     @ omit_slice ''AllowedHeader'' (AllowedHeaders c) @ omit_slice ''ExposeHeader'' (ExposeHeaders c)
     @ omit_zero ''MaxAgeSeconds'' (MaxAgeSeconds c))) cfg))]"

definition BucketCORSConfig :: "BucketCORSRule list \<Rightarrow> tree" where
  "BucketCORSConfig cfg = TObj [(''CORSRules'', json_slice (map (\<lambda>c. TObj (
     omit_empty ''ID'' (RuleID c) @ [(''AllowedMethods'', slist (AllowedMethods c)), (''AllowedOrigins'', slist (AllowedOrigins c))]
     @ omit_slice ''AllowedHeaders'' (AllowedHeaders c) @ omit_slice ''ExposeHeaders'' (ExposeHeaders c)
     @ omit_zero ''MaxAgeSeconds'' (MaxAgeSeconds c))) cfg))]"

definition is_json_body :: "request \<Rightarrow> bool" where
  "is_json_body r = Contains (GetHeader r ''Content-Type'') ''application/json''"

definition PutBucketCORSHandler :: handler where
  "PutBucketCORSHandler E r w =
     (let bucket = param_bucket r
      in if bucket = [] then (respondError r 400 ''InvalidBucketName'' ''Bucket name required'', w)
         else case ReadAll r of
             None \<Rightarrow> (respondError r 400 ''IncompleteBody'' ''Failed to read request body'', w)
           | Some body \<Rightarrow>
               (case (if is_json_body r then cors_dec (lb E) body else cors_dec_xml (lb E) body) of
                  None \<Rightarrow> (respondError r 400 ''MalformedCORSConfiguration''
                            (if is_json_body r then ''Invalid JSON body'' else ''Invalid XML body''), w)
                | Some cfg \<Rightarrow>
                    (case PutBucketCORS E bucket cfg (disk w) of
                       (Some _, fs') \<Rightarrow>
                         (respondError r 500 ''InternalError'' ''Failed to persist CORS configuration'', w\<lparr>disk := fs'\<rparr>)
                     | (None, fs') \<Rightarrow> (Status 200, w\<lparr>disk := fs'\<rparr>))))"

definition GetBucketCORSHandler :: "env \<Rightarrow> request \<Rightarrow> world \<Rightarrow> response" where
  "GetBucketCORSHandler E r w =
     (case GetBucketCORS E (param_bucket r) (disk w) of
        Inl e \<Rightarrow>
          if e = NoSuchConfig then respondError r 404 ''NoSuchCORSConfiguration'' ''The CORS configuration does not exist''
          else respondError r 500 ''InternalError'' ''Failed to load CORS configuration''
      | Inr cfg \<Rightarrow> respondXMLOrJSON r 200 (''CORSConfiguration'', fromStorage cfg) (BucketCORSConfig cfg))"

definition DeleteBucketCORSHandler :: handler where
  "DeleteBucketCORSHandler E r w =
     (case DeleteBucketCORS E (param_bucket r) (disk w) of
        (None, fs') \<Rightarrow> (Status 204, w\<lparr>disk := fs'\<rparr>)
      | (Some e, fs') \<Rightarrow>
          ((if e = NoSuchConfig then respondError r 404 ''NoSuchCORSConfiguration'' ''The CORS configuration does not exist''
            else respondError r 500 ''InternalError'' ''Failed to delete CORS configuration''), w\<lparr>disk := fs'\<rparr>))"

section \<open>What a match means\<close>

text \<open>A pattern matches itself, or has a star that stands for any middle part.\<close>

definition pattern_covers :: "string \<Rightarrow> string \<Rightarrow> bool" where
  "pattern_covers a s \<longleftrightarrow> a = s
     \<or> (\<exists>p q mid. a = p @ CHR ''*'' # q \<and> CHR ''*'' \<notin> set p \<and> s = p @ mid @ q)"

lemma Index_single: "Index a [c] = (if c \<in> set a then Some (length (takeWhile (\<lambda>x. x \<noteq> c) a)) else None)"
  by (induction a) (auto simp: HasPrefix_iff)

lemma split_at_star: "c \<in> set a \<Longrightarrow> \<exists>d. a = takeWhile (\<lambda>x. x \<noteq> c) a @ c # d"
  by (induction a) auto

lemma two_sided:
  "length p + length q \<le> length s \<and> HasPrefix s p \<and> HasSuffix s q \<longleftrightarrow> (\<exists>mid. s = p @ mid @ q)"
proof
  assume a: "length p + length q \<le> length s \<and> HasPrefix s p \<and> HasSuffix s q"
  then obtain u v where u: "s = p @ u" and v: "s = v @ q" unfolding HasPrefix_iff HasSuffix_iff by blast
  then have "length p + length q \<le> length v + length q" using a by (metis length_append)
  then have "length p \<le> length v" by simp
  with u v obtain mid where "v = p @ mid" by (metis append_eq_append_conv_if append_eq_conv_conj append_take_drop_id)
  with v show "\<exists>mid. s = p @ mid @ q" by auto
qed (auto simp: HasPrefix_iff HasSuffix_iff)

lemma matchList_iff: "matchList as s \<longleftrightarrow> (\<exists>a\<in>set as. pattern_covers a s)"
proof (induction as)
  case (Cons a as)
  let ?t = "takeWhile (\<lambda>x. x \<noteq> CHR ''*'') a" and ?u = "drop (length (takeWhile (\<lambda>x. x \<noteq> CHR ''*'') a) + 1) a"
  show ?case
  proof (cases "CHR ''*'' \<in> set a")
    case True
    obtain d where d: "a = ?t @ CHR ''*'' # d" using split_at_star[OF True] by blast
    have "drop (length ?t + 1) (?t @ CHR ''*'' # d) = d" by simp
    then have sp: "a = ?t @ CHR ''*'' # ?u" using d by metis
    have nt: "CHR ''*'' \<notin> set ?t" by (auto dest: set_takeWhileD)
    have uniq: "p = ?t \<and> q = ?u" if "a = p @ CHR ''*'' # q" "CHR ''*'' \<notin> set p" for p q
    proof -
      have "?t = p" using that takeWhile_append_stop[of p "\<lambda>x. x \<noteq> CHR ''*''" "CHR ''*''" q] unfolding that(1) by blast
      then show ?thesis using that(1) by auto
    qed
    have tk: "take (length ?t) a = ?t" by (metis sp append_eq_conv_conj)
    have "pattern_covers a s \<longleftrightarrow> a = s \<or> (\<exists>mid. s = ?t @ mid @ ?u)"
      unfolding pattern_covers_def using sp nt uniq by metis
    then show ?thesis using Cons.IH True tk
      by (simp add: Index_single Let_def two_sided[symmetric] not_less del: drop_append takeWhile_append) blast
  next
    case False
    then have "pattern_covers a s \<longleftrightarrow> a = s" unfolding pattern_covers_def
      by (metis in_set_conv_decomp)
    then show ?thesis using Cons.IH False by (simp add: Index_single)
  qed
qed simp

lemma matchCORSRule_Some:
  "matchCORSRule rs origin m h = Some r \<Longrightarrow>
     r \<in> set rs \<and> matchList (AllowedOrigins r) origin \<and> (m = [] \<or> matchList (AllowedMethods r) m)
     \<and> headersAllowed (AllowedHeaders r) h"
  by (induction rs) (auto split: if_splits)

end
