(* ===== verification/Acl_Handlers.thy ===== *)
theory Acl_Handlers
  imports Cors
begin

text \<open>
  The \<open>?acl\<close> handlers of \<open>internal/handlers/acl.go\<close> and the \<open>?tagging\<close> handlers of
  \<open>internal/handlers/tagging.go\<close>: reading the canned ACL or the tag set from a header or
  a bounded document, the existence checks, the store calls of \<open>Sidecars\<close> and the audit
  line.  The text of a decoder's error is not modelled: it is empty in a message.
\<close>

section \<open>Reading a canned ACL\<close>

definition aclMaxBodyBytes :: nat where "aclMaxBodyBytes = 8 * 1024"

definition s3AllUsersURI :: string where "s3AllUsersURI = ''http://acs.amazonaws.com/groups/global/AllUsers''"

fun reduceXMLToCanned :: "grant list \<Rightarrow> string" where
  "reduceXMLToCanned [] = ACLPrivate"
| "reduceXMLToCanned (g # gs) =
     (if granteeURI g \<noteq> s3AllUsersURI then reduceXMLToCanned gs
      else let perm = ToUpper (grantPermission g)
           in if perm = ''READ'' \<or> perm = ''FULL_CONTROL'' then ACLPublicRead else reduceXMLToCanned gs)"

text \<open>An error is its text.\<close>

definition canned_or_text :: "string \<Rightarrow> string + string" where
  "canned_or_text v = (case NormalizeCannedACL v of Inl _ \<Rightarrow> Inl ''unsupported canned ACL'' | Inr c \<Rightarrow> Inr c)"

definition readCannedACLFromAclSubresource :: "env \<Rightarrow> request \<Rightarrow> string + string" where
  "readCannedACLFromAclSubresource E r =
     (let hdr = GetHeader r ''x-amz-acl''
      in if hdr \<noteq> [] then canned_or_text hdr
         else case ReadLimited (aclMaxBodyBytes + 1) r of
             None \<Rightarrow> Inl []
           | Some body \<Rightarrow>
               if length body > aclMaxBodyBytes then Inl ''ACL document too large''
               else if body = [] then Inl ''missing ACL''
               else if is_json_body r then
                 (case acl_dec_json (lb E) body of None \<Rightarrow> Inl [] | Some c \<Rightarrow> canned_or_text c)
               else (case acl_dec_xml (lb E) body of None \<Rightarrow> Inl [] | Some gs \<Rightarrow> Inr (reduceXMLToCanned gs)))"

definition renderACLResponse :: "request \<Rightarrow> string \<Rightarrow> response" where
  "renderACLResponse r canned =
     (if wantsJSON r then c_JSON 200 (TObj [(''canned'', TStr canned)])
      else c_XML 200 ''AccessControlPolicy'' (TObj
        [(''Owner'', TObj ((''ID'', TStr (actor_of r)) # omit_empty ''DisplayName'' (actor_of r))),
         (''AccessControlList'', TObj [(''Grant'', TList
            (if IsPublicRead canned
             then [TObj [(''Grantee'', TObj [(''type'', TStr ''Group''), (''URI'', TStr s3AllUsersURI)]),
                         (''Permission'', TStr ''READ'')]]
             else []))])]))"

section \<open>Bucket ACL\<close>

definition prior_acl :: "store_error + string \<Rightarrow> string" where
  "prior_acl x = (case x of Inl _ \<Rightarrow> [] | Inr v \<Rightarrow> v)"

definition PutBucketACLHandler :: handler where
  "PutBucketACLHandler E r w =
     (let bucket = param_bucket r
      in if bucket = [] then (respondError r 400 ''InvalidBucketName'' ''Bucket name required'', w)
         else case resolvePath r [bucket] of
             Inl resp \<Rightarrow> (resp, w)
           | Inr bucketPath \<Rightarrow>
               if Stat (ft E) (disk w) bucketPath \<noteq> Inr Dir
               then (respondError r 404 ''NoSuchBucket'' ''Bucket not found'', w)
               else case readCannedACLFromAclSubresource E r of
                   Inl txt \<Rightarrow> (respondError r 400 ''InvalidArgument'' (''Invalid ACL: '' @ txt), w)
                 | Inr canned \<Rightarrow>
                     (let prior = prior_acl (EffectiveBucketACL E bucket (disk w))
                      in case PutBucketACL E bucket canned (disk w) of
                           (Some _, fs') \<Rightarrow>
                             (respondError r 500 ''InternalError'' ''Failed to persist bucket ACL'', w\<lparr>disk := fs'\<rparr>)
                         | (None, fs') \<Rightarrow>
                             (Status 200, auditACLChange E r ''bucket'' bucket [] prior canned (w\<lparr>disk := fs'\<rparr>))))"

definition GetBucketACLHandler :: "env \<Rightarrow> request \<Rightarrow> world \<Rightarrow> response" where
  "GetBucketACLHandler E r w =
     (let bucket = param_bucket r
      in case resolvePath r [bucket] of
           Inl resp \<Rightarrow> resp
         | Inr bucketPath \<Rightarrow>
             if Stat (ft E) (disk w) bucketPath \<noteq> Inr Dir then respondError r 404 ''NoSuchBucket'' ''Bucket not found''
             else case EffectiveBucketACL E bucket (disk w) of
                 Inl _ \<Rightarrow> respondError r 500 ''InternalError'' ''Failed to load bucket ACL''
               | Inr canned \<Rightarrow> renderACLResponse r canned)"

section \<open>Object ACL\<close>

definition key_of :: "request \<Rightarrow> string" where
  "key_of r = TrimPrefix (Clean (param_objectKey r)) ''/''"

definition is_object :: "env \<Rightarrow> world \<Rightarrow> string \<Rightarrow> bool" where
  "is_object E w p = (case Stat (ft E) (disk w) p of Inr (File _ _) \<Rightarrow> True | _ \<Rightarrow> False)"

definition PutObjectACLHandler :: handler where
  "PutObjectACLHandler E r w =
     (let bucket = param_bucket r; key = key_of r
      in if bucket = [] \<or> key = [] then (respondError r 400 ''InvalidRequest'' ''Bucket and key required'', w)
         else case resolvePath r [bucket, key] of
             Inl resp \<Rightarrow> (resp, w)
           | Inr objectPath \<Rightarrow>
               if \<not> is_object E w objectPath then (respondError r 404 ''NoSuchKey'' ''Object not found'', w)
               else case readCannedACLFromAclSubresource E r of
                   Inl txt \<Rightarrow> (respondError r 400 ''InvalidArgument'' (''Invalid ACL: '' @ txt), w)
                 | Inr canned \<Rightarrow>
                     (let prior = prior_acl (EffectiveObjectACL E bucket objectPath (disk w))
                      in case SetObjectACL E objectPath canned (disk w) of
                           (Some _, fs') \<Rightarrow>
                             (respondError r 500 ''InternalError'' ''Failed to persist object ACL'', w\<lparr>disk := fs'\<rparr>)
                         | (None, fs') \<Rightarrow>
                             (Status 200, auditACLChange E r ''object'' bucket key prior canned (w\<lparr>disk := fs'\<rparr>))))"

definition GetObjectACLHandler :: "env \<Rightarrow> request \<Rightarrow> world \<Rightarrow> response" where
  "GetObjectACLHandler E r w =
     (let bucket = param_bucket r; key = key_of r
      in case resolvePath r [bucket, key] of
           Inl resp \<Rightarrow> resp
         | Inr objectPath \<Rightarrow>
             if \<not> is_object E w objectPath then respondError r 404 ''NoSuchKey'' ''Object not found''
             else case EffectiveObjectACL E bucket objectPath (disk w) of
                 Inl _ \<Rightarrow> respondError r 500 ''InternalError'' ''Failed to load object ACL''
               | Inr canned \<Rightarrow> renderACLResponse r canned)"

section \<open>Object tags\<close>

definition taggingMaxBodyBytes :: nat where "taggingMaxBodyBytes = 16 * 1024"

definition resolveObjectForTagging :: "env \<Rightarrow> request \<Rightarrow> world \<Rightarrow> response + string" where
  "resolveObjectForTagging E r w =
     (let bucket = param_bucket r; key = key_of r
      in if bucket = [] \<or> key = [] then Inl (respondError r 400 ''InvalidRequest'' ''Bucket and key required'')
         else case resolvePath r [bucket, key] of
             Inl resp \<Rightarrow> Inl resp
           | Inr objectPath \<Rightarrow>
               if \<not> is_object E w objectPath then Inl (respondError r 404 ''NoSuchKey'' ''Object not found'')
               else Inr objectPath)"

definition parseInboundTagging :: "env \<Rightarrow> request \<Rightarrow> string + ObjectTag list" where
  "parseInboundTagging E r =
     (case ReadLimited (taggingMaxBodyBytes + 1) r of
        None \<Rightarrow> Inl []
      | Some body \<Rightarrow>
          if length body > taggingMaxBodyBytes then Inl ''tagging document too large''
          else (case (if is_json_body r then tags_dec_json (lb E) body else tags_dec_xml (lb E) body) of
                  None \<Rightarrow> Inl [] | Some ts \<Rightarrow> Inr ts))"

definition msgTagLimits :: string where
  "msgTagLimits = ''Tag set violates limits: max 10 tags, key 1-128 chars, value 0-256 chars, no duplicate keys''"

definition PutObjectTaggingHandler :: handler where
  "PutObjectTaggingHandler E r w =
     (case resolveObjectForTagging E r w of
        Inl resp \<Rightarrow> (resp, w)
      | Inr objectPath \<Rightarrow>
          (case parseInboundTagging E r of
             Inl txt \<Rightarrow> (respondError r 400 ''MalformedXML'' (''Invalid tagging document: '' @ txt), w)
           | Inr tags \<Rightarrow>
               if ValidateObjectTags tags \<noteq> None then (respondError r 400 ''InvalidTag'' msgTagLimits, w)
               else (case SetObjectTags E objectPath tags (disk w) of
                       (Some _, fs') \<Rightarrow>
                         (respondError r 500 ''InternalError'' ''Failed to persist object tags'', w\<lparr>disk := fs'\<rparr>)
                     | (None, fs') \<Rightarrow> (Status 200, w\<lparr>disk := fs'\<rparr>))))"

definition tag_json :: "ObjectTag \<Rightarrow> tree" where
  "tag_json t = TObj [(''key'', TStr (TagKey t)), (''value'', TStr (TagValue t))]"

definition tag_xml :: "ObjectTag \<Rightarrow> tree" where
  "tag_xml t = TObj [(''Key'', TStr (TagKey t)), (''Value'', TStr (TagValue t))]"

definition GetObjectTaggingHandler :: "env \<Rightarrow> request \<Rightarrow> world \<Rightarrow> response" where
  "GetObjectTaggingHandler E r w =
     (case resolveObjectForTagging E r w of
        Inl resp \<Rightarrow> resp
      | Inr objectPath \<Rightarrow>
          (case GetObjectTags E objectPath (disk w) of
             Inl _ \<Rightarrow> respondError r 500 ''InternalError'' ''Failed to load object tags''
           | Inr tags \<Rightarrow>
               if wantsJSON r then c_JSON 200 (TObj [(''tagSet'', TList (map tag_json tags))])
               else c_XML 200 ''Tagging'' (TObj [(''TagSet'', TObj [(''Tag'', TList (map tag_xml tags))])])))"

definition DeleteObjectTaggingHandler :: handler where
  "DeleteObjectTaggingHandler E r w =
     (case resolveObjectForTagging E r w of
        Inl resp \<Rightarrow> (resp, w)
      | Inr objectPath \<Rightarrow>
          (case DeleteObjectTags E objectPath (disk w) of
             (Some _, fs') \<Rightarrow> (respondError r 500 ''InternalError'' ''Failed to delete object tags'', w\<lparr>disk := fs'\<rparr>)
           | (None, fs') \<Rightarrow> (Status 204, w\<lparr>disk := fs'\<rparr>)))"

end
