(* ===== verification/Copy_Delete.thy ===== *)
theory Copy_Delete
  imports Acl_Handlers
begin

text \<open>
  Copying an object (\<open>internal/handlers/copy\_object.go\<close>) and the batch delete
  (\<open>internal/handlers/delete\_objects.go\<close>).  Both take object names from outside the URL,
  so they validate them themselves; both reuse the writing and removing steps of
  \<open>Objects\<close>.
\<close>

section \<open>Copy\<close>

definition bad_copy_source :: "request \<Rightarrow> response" where
  "bad_copy_source r = respondError r 400 ''InvalidArgument'' ''Malformed x-amz-copy-source''"

definition parseCopySource :: "request \<Rightarrow> response + string \<times> string" where
  "parseCopySource r =
     (let raw0 = TrimPrefix (GetHeader r ''x-amz-copy-source'') ''/'';
          raw = (case Index raw0 ''?'' of Some i \<Rightarrow> take i raw0 | None \<Rightarrow> raw0);
          (bucket, key, found) = Cut CHR ''/'' raw
      in if \<not> found \<or> bucket = [] \<or> key = [] then Inl (bad_copy_source r)
         else case PathUnescape key of
             None \<Rightarrow> Inl (bad_copy_source r)
           | Some decodedKey \<Rightarrow>
               if ValidateBucketName bucket \<noteq> None
               then Inl (respondError r 400 ''InvalidArgument'' ''Invalid copy-source bucket'')
               else (case ValidateObjectKey decodedKey of
                       Inl _ \<Rightarrow> Inl (respondError r 400 ''InvalidArgument'' ''Invalid copy-source key'')
                     | Inr cleanKey \<Rightarrow> Inr (bucket, cleanKey)))"

text \<open>The metadata the source carries over: its content type and its user metadata.\<close>

definition source_meta :: "meta_map \<Rightarrow> meta_map" where
  "source_meta srcMeta =
     (let meta0 = [(contentTypeMetaKey, ''application/octet-stream'')];
          ct = meta_get srcMeta contentTypeMetaKey;
          meta1 = (if ct \<noteq> [] then AList.update contentTypeMetaKey ct meta0 else meta0)
      in fold (\<lambda>(k, v) m. AList.update k v m)
           (filter (\<lambda>(k, _). HasPrefix (ToLower k) ''x-amz-meta-'') srcMeta) meta1)"

definition buildCopyMetadata :: "env \<Rightarrow> request \<Rightarrow> string \<Rightarrow> string \<Rightarrow> fs \<Rightarrow> response + meta_map" where
  "buildCopyMetadata E r srcPath directive fs =
     (if directive = ''REPLACE'' then
        (case collectUserMetadataChecked r of
           None \<Rightarrow> Inl (respondError r 400 ''MetadataTooLarge'' ''x-amz-meta-* headers exceed 2 KiB total'')
         | Some meta \<Rightarrow> Inr (AList.update contentTypeMetaKey (contentTypeOrOctet r) meta))
      else case ReadFile (ft E) fs (srcPath @ ''.meta'') of
          Inl _ \<Rightarrow> Inr [(contentTypeMetaKey, ''application/octet-stream'')]
        | Inr data \<Rightarrow>
            (case meta_dec (lb E) data of
               None \<Rightarrow> Inr [(contentTypeMetaKey, ''application/octet-stream'')]
             | Some srcMeta \<Rightarrow> Inr (source_meta srcMeta)))"

definition copy_directive :: "request \<Rightarrow> string" where
  "copy_directive r =
     (let d = ToUpper (TrimSpace (GetHeader r ''x-amz-metadata-directive'')) in if d = [] then ''COPY'' else d)"

definition copy_result :: "env \<Rightarrow> string \<Rightarrow> (string \<times> tree) \<times> tree" where
  "copy_result E etag =
     ((''CopyObjectResult'', TObj [(''ETag'', TStr etag), (''LastModified'', TStr (FormatRFC3339 (lb E) (now E)))]),
      TObj [(''etag'', TStr etag), (''lastModified'', TStr (FormatRFC3339 (lb E) (now E)))])"

text \<open>The write of the destination, once the source has been opened.\<close>

definition copy_write :: "env \<Rightarrow> request \<Rightarrow> string \<Rightarrow> bytes \<Rightarrow> string \<Rightarrow> meta_map \<Rightarrow> world \<Rightarrow> response \<times> world" where
  "copy_write E r dstKey src cannedACL meta w =
     (let dstBucket = param_bucket r
      in case resolvePath r [dstBucket, dstKey] of
           Inl resp \<Rightarrow> (resp, w)
         | Inr dstPath \<Rightarrow>
             (case finalizeObjectWrite E dstBucket dstPath src False meta w of
                (Inl _, w1) \<Rightarrow> (respondError r 500 ''InternalError'' ''Error copying object'', w1)
              | (Inr (etag, written), w1) \<Rightarrow>
                  (let w2 = RecordObjectUpload dstBucket written w1;
                       w3 = (if cannedACL \<noteq> []
                             then auditACLChange E r ''object'' dstBucket dstKey ACLPrivate cannedACL w2 else w2);
                       (x, j) = copy_result E etag
                   in (add_headers [(''Etag'', etag)] (respondXMLOrJSON r 200 x j), w3))))"

definition with_acl :: "string \<Rightarrow> meta_map \<Rightarrow> meta_map" where
  "with_acl cannedACL meta = (if cannedACL \<noteq> [] then AList.update ''acl'' cannedACL meta else meta)"

definition CopyObjectHandler :: handler where
  "CopyObjectHandler E r w =
     (let dstBucket = param_bucket r; dstKey = key_of r
      in case parseCopySource r of
           Inl resp \<Rightarrow> (resp, w)
         | Inr (srcBucket, srcKey) \<Rightarrow>
             (case resolvePath r [srcBucket, srcKey] of
                Inl resp \<Rightarrow> (resp, w)
              | Inr srcPath \<Rightarrow>
                  if \<not> is_object E w srcPath then (respondError r 404 ''NoSuchKey'' ''Source object not found'', w)
                  else let directive = copy_directive r
                  in if directive \<noteq> ''COPY'' \<and> directive \<noteq> ''REPLACE''
                  then (respondError r 400 ''InvalidArgument'' ''Invalid x-amz-metadata-directive'', w)
                  else if srcBucket = dstBucket \<and> srcKey = dstKey \<and> directive = ''COPY''
                  then (respondError r 400 ''InvalidRequest'' ''Copy to self requires the REPLACE metadata directive'', w)
                  else case resolveCannedACL r of
                      Inl resp \<Rightarrow> (resp, w)
                    | Inr cannedACL \<Rightarrow>
                        (case buildCopyMetadata E r srcPath directive (disk w) of
                           Inl resp \<Rightarrow> (resp, w)
                         | Inr meta \<Rightarrow>
                             (case ReadFile (ft E) (disk w) srcPath of
                                Inl _ \<Rightarrow> (respondError r 500 ''InternalError'' ''Error reading source object'', w)
                              | Inr src \<Rightarrow>
                                  copy_write E r dstKey src cannedACL (with_acl cannedACL meta) w))))"

section \<open>Batch delete\<close>

definition maxDeleteKeys :: nat where "maxDeleteKeys = 1000"
definition deleteMaxBodyBytes :: nat where "deleteMaxBodyBytes = 2 * 1024 * 1024"

definition parseDeleteRequest :: "env \<Rightarrow> request \<Rightarrow> string + string list \<times> bool" where
  "parseDeleteRequest E r =
     (case ReadLimited (deleteMaxBodyBytes + 1) r of
        None \<Rightarrow> Inl []
      | Some body \<Rightarrow>
          if length body > deleteMaxBodyBytes then Inl ''delete document too large''
          else (case (if is_json_body r then delete_dec_json (lb E) body else delete_dec_xml (lb E) body) of
                  None \<Rightarrow> Inl [] | Some kq \<Rightarrow> Inr kq))"

record deleteFailure =
  failKey :: string
  failCode :: string
  failMessage :: string

text \<open>The loop over the keys: the keys deleted and the failures, in order.\<close>

fun delete_keys :: "env \<Rightarrow> string \<Rightarrow> string list \<Rightarrow> world \<Rightarrow> (string list \<times> deleteFailure list) \<times> world" where
  "delete_keys E bucket [] w = (([], []), w)"
| "delete_keys E bucket (raw # ks) w =
     (case ValidateObjectKey raw of
        Inl _ \<Rightarrow>
          (let ((ds, fs), w1) = delete_keys E bucket ks w
           in ((ds, \<lparr>failKey = raw, failCode = ''InvalidArgument'', failMessage = ''Invalid object key''\<rparr> # fs), w1))
      | Inr clean \<Rightarrow>
          (case removeObject E bucket clean w of
             (Some _, w1) \<Rightarrow>
               (let ((ds, fs), w2) = delete_keys E bucket ks w1
                in ((ds, \<lparr>failKey = raw, failCode = ''InternalError'', failMessage = ''Error deleting object''\<rparr> # fs), w2))
           | (None, w1) \<Rightarrow>
               (let ((ds, fs), w2) = delete_keys E bucket ks w1 in ((raw # ds, fs), w2))))"

definition failure_tree :: "bool \<Rightarrow> deleteFailure \<Rightarrow> tree" where
  "failure_tree json f =
     (if json then TObj [(''key'', TStr (failKey f)), (''code'', TStr (failCode f)), (''message'', TStr (failMessage f))]
      else TObj [(''Key'', TStr (failKey f)), (''Code'', TStr (failCode f)), (''Message'', TStr (failMessage f))])"

definition delete_result :: "string list \<Rightarrow> deleteFailure list \<Rightarrow> tree" where
  "delete_result ds fs = TObj
     [(''Deleted'', TList (map (\<lambda>k. TObj [(''Key'', TStr k)]) ds)), (''Error'', TList (map (failure_tree False) fs))]"

definition admin_delete_result :: "string list \<Rightarrow> deleteFailure list \<Rightarrow> tree" where
  "admin_delete_result ds fs = TObj
     [(''deleted'', json_slice (map TStr ds)), (''errors'', json_slice (map (failure_tree True) fs))]"

definition DeleteObjectsHandler :: handler where
  "DeleteObjectsHandler E r w =
     (let bucket = param_bucket r
      in if bucket = [] then (respondError r 400 ''InvalidRequest'' ''Bucket required'', w)
         else case parseDeleteRequest E r of
             Inl txt \<Rightarrow> (respondError r 400 ''MalformedXML'' (''Invalid delete document: '' @ txt), w)
           | Inr (ks, quiet) \<Rightarrow>
               if ks = [] then (respondError r 400 ''MalformedXML'' ''Delete request must contain at least one object'', w)
               else if length ks > maxDeleteKeys
               then (respondError r 400 ''MalformedXML'' ''Delete request exceeds 1000 objects'', w)
               else let ((ds, fs), w1) = delete_keys E bucket ks w;
                        shown = (if quiet then [] else ds)
                    in (respondXMLOrJSON r 200 (''DeleteResult'', delete_result shown fs) (admin_delete_result shown fs), w1))"

end
