(* ===== verification/Multipart.thy ===== *)
theory Multipart
  imports Copy_Delete
begin

text \<open>
  Multipart uploads: \<open>internal/storage/multipart.go\<close> (staging directory, manifest, parts,
  completion) and \<open>internal/handlers/multipart.go\<close>.  An upload lives in
  \<open>/data/uploads/<bucket>/<upload id>\<close>, with its manifest and one file per part; completing
  it streams the parts into the object and drops the directory.
\<close>

section \<open>Staging\<close>

datatype mp_error = ErrNoSuchUpload | ErrInvalidPart | ErrInvalidPartOrder | ErrInvalidPartRange | ErrOther

definition MinPartNumber :: int where "MinPartNumber = 1"
definition MaxPartNumber :: int where "MaxPartNumber = 10000"

definition uploads_segs :: path where "uploads_segs = [''data'', ''uploads'']"
definition UploadsRoot :: string where "UploadsRoot = abs_path uploads_segs"

record UploadedPart =
  PartNumber :: int
  ETag :: string
  Size :: nat
  LastModified :: time

definition uploadDir :: "string \<Rightarrow> string \<Rightarrow> name_error + string" where
  "uploadDir bucket uploadID = SafeJoin UploadsRoot [bucket, uploadID]"

definition manifestPath :: "string \<Rightarrow> string" where
  "manifestPath dir = PathJoin [dir, ''manifest.json'']"

text \<open>\<open>%05d\<close>\<close>

definition pad5 :: "int \<Rightarrow> string" where
  "pad5 n =
     (let d = nat_digits (nat \<bar>n\<bar>)
      in if n < 0 then CHR ''-'' # replicate (4 - length d) CHR ''0'' @ d
         else replicate (5 - length d) CHR ''0'' @ d)"

definition partPath :: "string \<Rightarrow> int \<Rightarrow> string" where
  "partPath dir partNumber = PathJoin [dir, pad5 partNumber]"

definition writeManifest :: "env \<Rightarrow> string \<Rightarrow> MultipartUpload \<Rightarrow> fs \<Rightarrow> mp_error option \<times> fs" where
  "writeManifest E dir up fs =
     (case manifest_enc (lb E) up of
        None \<Rightarrow> (Some ErrOther, fs)
      | Some data \<Rightarrow>
          (case write_replace E (manifestPath dir) data fs of
             (Some _, fs') \<Rightarrow> (Some ErrOther, fs')
           | (None, fs') \<Rightarrow> (None, fs')))"

definition CreateMultipartUpload ::
  "env \<Rightarrow> string \<Rightarrow> string \<Rightarrow> meta_map \<Rightarrow> fs \<Rightarrow> (mp_error + MultipartUpload) \<times> fs" where
  "CreateMultipartUpload E bucket key metadata fs =
     (if bucket = [] \<or> key = [] then (Inl ErrOther, fs)
      else let up = \<lparr>mpUploadID = uuid E, mpBucket = bucket, mpKey = key, mpInitiated = now E, mpMetadata = metadata\<rparr>
      in case uploadDir bucket (mpUploadID up) of
           Inl _ \<Rightarrow> (Inl ErrOther, fs)
         | Inr dir \<Rightarrow>
             (case MkdirAll (ft E) dir fs of
                (Some _, fs1) \<Rightarrow> (Inl ErrOther, fs1)
              | (None, fs1) \<Rightarrow>
                  (case writeManifest E dir up fs1 of
                     (Some e, fs2) \<Rightarrow> (Inl e, snd (RemoveAll (ft E) dir fs2))
                   | (None, fs2) \<Rightarrow> (Inr up, fs2))))"

definition openUpload :: "env \<Rightarrow> string \<Rightarrow> string \<Rightarrow> string \<Rightarrow> fs \<Rightarrow> mp_error + MultipartUpload \<times> string" where
  "openUpload E bucket key uploadID fs =
     (case uploadDir bucket uploadID of
        Inl _ \<Rightarrow> Inl ErrNoSuchUpload
      | Inr dir \<Rightarrow>
          (case ReadFile (ft E) fs (manifestPath dir) of
             Inl e \<Rightarrow> if IsNotExist e then Inl ErrNoSuchUpload else Inl ErrOther
           | Inr data \<Rightarrow>
               (case manifest_dec (lb E) data of
                  None \<Rightarrow> Inl ErrOther
                | Some up \<Rightarrow>
                    if mpKey up \<noteq> key \<or> mpBucket up \<noteq> bucket then Inl ErrNoSuchUpload else Inr (up, dir))))"

section \<open>Parts\<close>

text \<open>\<open>os.Create\<close>, then the copy into the open file and its close.\<close>

definition CreateFile :: "fault \<Rightarrow> time \<Rightarrow> string \<Rightarrow> fs \<Rightarrow> os_error option \<times> fs" where
  "CreateFile f t p fs = WriteFile (f\<lparr>fails := \<lambda>op q. op \<noteq> OpWrite \<and> fails f op q\<rparr>) t p [] fs"

definition fill_file :: "env \<Rightarrow> string \<Rightarrow> bytes \<Rightarrow> bool \<Rightarrow> fs \<Rightarrow> bool \<times> fs" where
  "fill_file E p src src_fails fs =
     (let q = psegs p; bad = (src_fails \<or> fails (ft E) OpWrite q)
      in (\<not> bad \<and> \<not> fails (ft E) OpClose q,
          AList.update q (File (if bad then take (short_write (ft E) q) src else src) (now E)) fs))"

definition part_etag :: "lib \<Rightarrow> bytes \<Rightarrow> string" where
  "part_etag L c = CHR 0x22 # hex_encode (md5 L c) @ [CHR 0x22]"

definition UploadPart ::
  "env \<Rightarrow> string \<Rightarrow> string \<Rightarrow> string \<Rightarrow> int \<Rightarrow> bytes \<Rightarrow> bool \<Rightarrow> fs \<Rightarrow> (mp_error + UploadedPart) \<times> fs" where
  "UploadPart E bucket key uploadID partNumber src src_fails fs =
     (if partNumber < MinPartNumber \<or> partNumber > MaxPartNumber then (Inl ErrInvalidPartRange, fs)
      else case openUpload E bucket key uploadID fs of
          Inl e \<Rightarrow> (Inl e, fs)
        | Inr (_, dir) \<Rightarrow>
            (let dst = partPath dir partNumber; tmp = dst @ ''.tmp''
             in case CreateFile (ft E) (now E) tmp fs of
                  (Some _, fs1) \<Rightarrow> (Inl ErrOther, fs1)
                | (None, fs1) \<Rightarrow>
                    (case fill_file E tmp src src_fails fs1 of
                       (False, fs2) \<Rightarrow> (Inl ErrOther, snd (Remove (ft E) tmp fs2))
                     | (True, fs2) \<Rightarrow>
                         (case Rename (ft E) tmp dst fs2 of
                            (Some _, fs3) \<Rightarrow> (Inl ErrOther, snd (Remove (ft E) tmp fs3))
                          | (None, fs3) \<Rightarrow>
                              (Inr \<lparr>PartNumber = partNumber, ETag = part_etag (lb E) src, Size = length src,
                                    LastModified = now E\<rparr>, fs3)))))"

definition partETag :: "env \<Rightarrow> string \<Rightarrow> int \<Rightarrow> fs \<Rightarrow> mp_error + string" where
  "partETag E dir partNumber fs =
     (case ReadFile (ft E) fs (partPath dir partNumber) of
        Inl _ \<Rightarrow> Inl ErrOther
      | Inr c \<Rightarrow> Inr (part_etag (lb E) c))"

fun collect_parts :: "env \<Rightarrow> string \<Rightarrow> fs \<Rightarrow> (string \<times> node) list \<Rightarrow> mp_error + UploadedPart list" where
  "collect_parts E dir fs [] = Inr []"
| "collect_parts E dir fs ((name, Dir) # es) = collect_parts E dir fs es"
| "collect_parts E dir fs ((name, File c t) # es) =
     (if name = ''manifest.json'' \<or> HasSuffix name ''.tmp'' then collect_parts E dir fs es
      else case Atoi name of
          Inl _ \<Rightarrow> collect_parts E dir fs es
        | Inr pn \<Rightarrow>
            if fails (ft E) OpStat (psegs dir @ [name]) then Inl ErrOther
            else (case partETag E dir pn fs of
                    Inl e \<Rightarrow> Inl e
                  | Inr etag \<Rightarrow>
                      (case collect_parts E dir fs es of
                         Inl e \<Rightarrow> Inl e
                       | Inr ps \<Rightarrow>
                           Inr (\<lparr>PartNumber = pn, ETag = etag, Size = length c, LastModified = t\<rparr> # ps))))"

definition listParts :: "env \<Rightarrow> string \<Rightarrow> fs \<Rightarrow> mp_error + UploadedPart list" where
  "listParts E dir fs =
     (case ReadDir (ft E) fs dir of
        Inl _ \<Rightarrow> Inl ErrOther
      | Inr entries \<Rightarrow>
          (case collect_parts E dir fs entries of
             Inl e \<Rightarrow> Inl e
           | Inr ps \<Rightarrow> Inr (sort_key PartNumber ps)))"

definition ListParts :: "env \<Rightarrow> string \<Rightarrow> string \<Rightarrow> string \<Rightarrow> fs \<Rightarrow> mp_error + UploadedPart list" where
  "ListParts E bucket key uploadID fs =
     (case openUpload E bucket key uploadID fs of Inl e \<Rightarrow> Inl e | Inr (_, dir) \<Rightarrow> listParts E dir fs)"

section \<open>Completion\<close>

definition normalizeETag :: "string \<Rightarrow> string" where
  "normalizeETag s = Trim s CHR 0x22"

fun ascending :: "UploadedPart list \<Rightarrow> bool" where
  "ascending (p # q # ps) = (if PartNumber q \<le> PartNumber p then False else ascending (q # ps))"
| "ascending _ = True"

definition storedByNum :: "UploadedPart list \<Rightarrow> int \<Rightarrow> UploadedPart option" where
  "storedByNum stored = map_of (rev (map (\<lambda>p. (PartNumber p, p)) stored))"

definition parts_match :: "UploadedPart list \<Rightarrow> UploadedPart list \<Rightarrow> bool" where
  "parts_match stored expected =
     list_all (\<lambda>want. case storedByNum stored (PartNumber want) of
                 None \<Rightarrow> False
               | Some got \<Rightarrow> normalizeETag (ETag got) = normalizeETag (ETag want)) expected"

text \<open>\<open>streamPart\<close> over the expected parts: the bytes written so far, and the part digests or the error.\<close>

fun stream_parts :: "env \<Rightarrow> string \<Rightarrow> UploadedPart list \<Rightarrow> bytes \<Rightarrow> bytes \<Rightarrow> fs \<Rightarrow> bytes \<times> (mp_error + bytes)" where
  "stream_parts E dir [] out composite fs = (out, Inr composite)"
| "stream_parts E dir (want # ws) out composite fs =
     (case ReadFile (ft E) fs (partPath dir (PartNumber want)) of
        Inl e \<Rightarrow> (out, Inl (if IsNotExist e then ErrInvalidPart else ErrOther))
      | Inr c \<Rightarrow> stream_parts E dir ws (out @ c) (composite @ md5 (lb E) c) fs)"

definition composite_etag :: "lib \<Rightarrow> bytes \<Rightarrow> nat \<Rightarrow> string" where
  "composite_etag L composite n =
     CHR 0x22 # hex_encode (md5 L composite) @ ''-'' @ Itoa (int n) @ [CHR 0x22]"

definition multipart_meta :: "MultipartUpload \<Rightarrow> string \<Rightarrow> nat \<Rightarrow> nat \<Rightarrow> meta_map" where
  "multipart_meta up finalETag nbytes n =
     AList.update ''x-amz-multipart-parts'' (Itoa (int n))
       (AList.update ''Content-Length'' (Itoa (int nbytes)) (AList.update ''ETag'' finalETag (mpMetadata up)))"

definition complete_check ::
  "env \<Rightarrow> string \<Rightarrow> string \<Rightarrow> string \<Rightarrow> UploadedPart list \<Rightarrow> fs \<Rightarrow> mp_error + MultipartUpload \<times> string" where
  "complete_check E bucket key uploadID expected fs =
     (case openUpload E bucket key uploadID fs of
        Inl e \<Rightarrow> Inl e
      | Inr (up, dir) \<Rightarrow>
          if expected = [] then Inl ErrInvalidPart
          else if \<not> ascending expected then Inl ErrInvalidPartOrder
          else (case listParts E dir fs of
                  Inl e \<Rightarrow> Inl e
                | Inr stored \<Rightarrow> if \<not> parts_match stored expected then Inl ErrInvalidPart else Inr (up, dir)))"

text \<open>The concatenation into the temporary file and its rename onto the object.\<close>

definition assemble ::
  "env \<Rightarrow> string \<Rightarrow> string \<Rightarrow> UploadedPart list \<Rightarrow> fs \<Rightarrow> (mp_error + bytes \<times> nat) \<times> fs" where
  "assemble E dir finalPath expected fs =
     (let tmp = finalPath @ ''.mpu.tmp''
      in case CreateFile (ft E) (now E) tmp fs of
           (Some _, fs1) \<Rightarrow> (Inl ErrOther, fs1)
         | (None, fs1) \<Rightarrow>
             (let (out, res) = stream_parts E dir expected [] [] fs1;
                  (ok, fs2) = fill_file E tmp out False fs1
              in case res of
                   Inl e \<Rightarrow> (Inl e, snd (Remove (ft E) tmp fs2))
                 | Inr composite \<Rightarrow>
                     if \<not> ok then (Inl ErrOther, snd (Remove (ft E) tmp fs2))
                     else (case Rename (ft E) tmp finalPath fs2 of
                             (Some _, fs3) \<Rightarrow> (Inl ErrOther, snd (Remove (ft E) tmp fs3))
                           | (None, fs3) \<Rightarrow> (Inr (composite, length out), fs3))))"

text \<open>The sidecar of the assembled object, then the staging directory goes (best effort).\<close>

definition finish_upload ::
  "env \<Rightarrow> string \<Rightarrow> string \<Rightarrow> MultipartUpload \<Rightarrow> bytes \<Rightarrow> nat \<Rightarrow> nat \<Rightarrow> fs \<Rightarrow> (mp_error + string \<times> nat) \<times> fs" where
  "finish_upload E dir finalPath up composite nbytes nparts fs =
     (let finalETag = composite_etag (lb E) composite nparts
      in case meta_enc (lb E) (multipart_meta up finalETag nbytes nparts) of
           None \<Rightarrow> (Inl ErrOther, fs)
         | Some raw \<Rightarrow>
             (case WriteFile (ft E) (now E) (finalPath @ ''.meta'') raw fs of
                (Some _, fs1) \<Rightarrow> (Inl ErrOther, fs1)
              | (None, fs1) \<Rightarrow> (Inr (finalETag, nbytes), snd (RemoveAll (ft E) dir fs1))))"

definition CompleteMultipartUpload ::
  "env \<Rightarrow> string \<Rightarrow> string \<Rightarrow> string \<Rightarrow> UploadedPart list \<Rightarrow> fs \<Rightarrow> (mp_error + string \<times> nat) \<times> fs" where
  "CompleteMultipartUpload E bucket key uploadID expected fs =
     (case complete_check E bucket key uploadID expected fs of
        Inl e \<Rightarrow> (Inl e, fs)
      | Inr (up, dir) \<Rightarrow>
          (case SafeJoin ObjectsRoot [bucket, key] of
             Inl _ \<Rightarrow> (Inl ErrOther, fs)
           | Inr finalPath \<Rightarrow>
               (case MkdirAll (ft E) (path_dir finalPath) fs of
                  (Some _, fs1) \<Rightarrow> (Inl ErrOther, fs1)
                | (None, fs1) \<Rightarrow>
                    (case assemble E dir finalPath expected fs1 of
                       (Inl e, fs2) \<Rightarrow> (Inl e, fs2)
                     | (Inr (composite, nbytes), fs2) \<Rightarrow>
                         finish_upload E dir finalPath up composite nbytes (length expected) fs2))))"

definition AbortMultipartUpload :: "env \<Rightarrow> string \<Rightarrow> string \<Rightarrow> string \<Rightarrow> fs \<Rightarrow> mp_error option \<times> fs" where
  "AbortMultipartUpload E bucket key uploadID fs =
     (case openUpload E bucket key uploadID fs of
        Inl e \<Rightarrow> (Some e, fs)
      | Inr (_, dir) \<Rightarrow>
          (case RemoveAll (ft E) dir fs of (Some _, fs') \<Rightarrow> (Some ErrOther, fs') | (None, fs') \<Rightarrow> (None, fs')))"

definition ListMultipartUploads :: "env \<Rightarrow> string \<Rightarrow> fs \<Rightarrow> mp_error + MultipartUpload list" where
  "ListMultipartUploads E bucket fs =
     (case SafeJoin UploadsRoot [bucket] of
        Inl _ \<Rightarrow> Inl ErrOther
      | Inr bucketDir \<Rightarrow>
          (case ReadDir (ft E) fs bucketDir of
             Inl e \<Rightarrow> if IsNotExist e then Inr [] else Inl ErrOther
           | Inr entries \<Rightarrow>
               Inr (List.map_filter (\<lambda>(name, n).
                  if n \<noteq> Dir then None
                  else case ReadFile (ft E) fs (PathJoin [bucketDir, name, ''manifest.json'']) of
                      Inl _ \<Rightarrow> None
                    | Inr data \<Rightarrow> manifest_dec (lb E) data) entries)))"

section \<open>Handlers\<close>

definition s3XMLNS :: string where "s3XMLNS = ''http://s3.amazonaws.com/doc/2006-03-01/''"

definition cleanObjectKey :: "request \<Rightarrow> string" where
  "cleanObjectKey r = TrimPrefix (Clean (param_objectKey r)) ''/''"

definition mapMultipartErr :: "request \<Rightarrow> mp_error \<Rightarrow> response" where
  "mapMultipartErr r e = (case e of
      ErrNoSuchUpload \<Rightarrow> respondError r 404 ''NoSuchUpload'' ''The specified upload does not exist''
    | ErrInvalidPart \<Rightarrow> respondError r 400 ''InvalidPart'' ''One or more of the specified parts could not be found''
    | ErrInvalidPartOrder \<Rightarrow> respondError r 400 ''InvalidPartOrder'' ''Parts must be specified in ascending PartNumber order''
    | ErrInvalidPartRange \<Rightarrow> respondError r 400 ''InvalidArgument'' ''PartNumber out of range''
    | ErrOther \<Rightarrow> respondError r 500 ''InternalError'' ''Multipart operation failed'')"

definition gauge_add :: "int \<Rightarrow> world \<Rightarrow> world" where
  "gauge_add n w = w\<lparr>MultipartUploadsInProgress := MultipartUploadsInProgress w + n\<rparr>"

definition CreateMultipartUploadHandler :: handler where
  "CreateMultipartUploadHandler E r w =
     (let bucket = param_bucket r; key = cleanObjectKey r
      in if bucket = [] \<or> key = [] \<or> key = ''/'' then (respondError r 400 ''InvalidRequest'' ''Bucket and key required'', w)
         else case collectUserMetadataChecked r of
             None \<Rightarrow> (respondError r 400 ''MetadataTooLarge'' ''x-amz-meta-* headers exceed 2 KiB total'', w)
           | Some meta \<Rightarrow>
               (case resolveCannedACL r of
                  Inl resp \<Rightarrow> (resp, w)
                | Inr canned \<Rightarrow>
                    (case CreateMultipartUpload E bucket key (with_acl canned meta) (disk w) of
                       (Inl _, fs1) \<Rightarrow>
                         (respondError r 500 ''InternalError'' ''Failed to initiate multipart upload'', w\<lparr>disk := fs1\<rparr>)
                     | (Inr up, fs1) \<Rightarrow>
                         (respondXMLOrJSON r 200
                            (''InitiateMultipartUploadResult'', TObj [(''xmlns'', TStr s3XMLNS), (''Bucket'', TStr bucket),
                               (''Key'', TStr key), (''UploadId'', TStr (mpUploadID up))])
                            (TObj [(''bucket'', TStr bucket), (''key'', TStr key), (''uploadId'', TStr (mpUploadID up))]),
                          gauge_add 1 (w\<lparr>disk := fs1\<rparr>)))))"

definition UploadPartHandler :: handler where
  "UploadPartHandler E r w =
     (case Atoi (Query r ''partNumber'') of
        Inl _ \<Rightarrow> (respondError r 400 ''InvalidArgument'' ''Invalid partNumber'', w)
      | Inr partNumber \<Rightarrow>
          (case UploadPart E (param_bucket r) (cleanObjectKey r) (Query r ''uploadId'') partNumber
                  (req_body r) (req_body_fails r) (disk w) of
             (Inl e, fs1) \<Rightarrow> (mapMultipartErr r e, w\<lparr>disk := fs1\<rparr>)
           | (Inr part, fs1) \<Rightarrow> (with_header ''ETag'' (ETag part) (Status 200), w\<lparr>disk := fs1\<rparr>)))"

definition expected_part :: "int \<times> string \<Rightarrow> UploadedPart" where
  "expected_part p = \<lparr>PartNumber = fst p, ETag = snd p, Size = 0, LastModified = 0\<rparr>"

definition CompleteMultipartUploadHandler :: handler where
  "CompleteMultipartUploadHandler E r w =
     (let bucket = param_bucket r; key = cleanObjectKey r
      in case ReadAll r of
           None \<Rightarrow> (respondError r 400 ''IncompleteBody'' ''Failed to read request body'', w)
         | Some raw \<Rightarrow>
             (case (if is_json_body r then parts_dec_json (lb E) raw else parts_dec_xml (lb E) raw) of
                None \<Rightarrow> (respondError r 400 ''MalformedXML''
                          (if is_json_body r then ''Invalid JSON body'' else ''Invalid XML body''), w)
              | Some parts \<Rightarrow>
                  if parts = [] then (respondError r 400 ''InvalidPart'' ''No parts supplied'', w)
                  else (case CompleteMultipartUpload E bucket key (Query r ''uploadId'') (map expected_part parts) (disk w) of
                          (Inl e, fs1) \<Rightarrow> (mapMultipartErr r e, w\<lparr>disk := fs1\<rparr>)
                        | (Inr (finalETag, finalSize), fs1) \<Rightarrow>
                            (add_headers [(''Etag'', finalETag)] (respondXMLOrJSON r 200
                               (''CompleteMultipartUploadResult'', TObj [(''xmlns'', TStr s3XMLNS),
                                  (''Location'', TStr (''http://'' @ req_host r @ ''/'' @ bucket @ ''/'' @ key)),
                                  (''Bucket'', TStr bucket), (''Key'', TStr key), (''ETag'', TStr finalETag)])
                               (TObj [(''bucket'', TStr bucket), (''key'', TStr key), (''etag'', TStr finalETag)])),
                             add_bytes bucket (int finalSize) (gauge_add (-1) (w\<lparr>disk := fs1\<rparr>))))))"

definition AbortMultipartUploadHandler :: handler where
  "AbortMultipartUploadHandler E r w =
     (case AbortMultipartUpload E (param_bucket r) (cleanObjectKey r) (Query r ''uploadId'') (disk w) of
        (Some e, fs1) \<Rightarrow> (mapMultipartErr r e, w\<lparr>disk := fs1\<rparr>)
      | (None, fs1) \<Rightarrow> (Status 204, gauge_add (-1) (w\<lparr>disk := fs1\<rparr>)))"

definition part_json :: "lib \<Rightarrow> UploadedPart \<Rightarrow> tree" where
  "part_json L p = TObj [(''partNumber'', TInt (PartNumber p)), (''etag'', TStr (ETag p)), (''size'', TInt (int (Size p))),
     (''lastModified'', TStr (FormatMillis L (LastModified p)))]"

definition part_xml :: "lib \<Rightarrow> UploadedPart \<Rightarrow> tree" where
  "part_xml L p = TObj [(''PartNumber'', TInt (PartNumber p)), (''ETag'', TStr (ETag p)), (''Size'', TInt (int (Size p))),
     (''LastModified'', TStr (FormatMillis L (LastModified p)))]"

definition ListPartsHandler :: "env \<Rightarrow> request \<Rightarrow> world \<Rightarrow> response" where
  "ListPartsHandler E r w =
     (let bucket = param_bucket r; key = cleanObjectKey r; uploadID = Query r ''uploadId''
      in case ListParts E bucket key uploadID (disk w) of
           Inl e \<Rightarrow> mapMultipartErr r e
         | Inr parts \<Rightarrow>
             respondXMLOrJSON r 200
               (''ListPartsResult'', TObj [(''xmlns'', TStr s3XMLNS), (''Bucket'', TStr bucket), (''Key'', TStr key),
                  (''UploadId'', TStr uploadID), (''Part'', TList (map (part_xml (lb E)) parts))])
               (TObj [(''bucket'', TStr bucket), (''key'', TStr key), (''uploadId'', TStr uploadID),
                  (''parts'', TList (map (part_json (lb E)) parts))]))"

definition upload_xml :: "lib \<Rightarrow> MultipartUpload \<Rightarrow> tree" where
  "upload_xml L u = TObj [(''Key'', TStr (mpKey u)), (''UploadId'', TStr (mpUploadID u)),
     (''Initiated'', TStr (FormatMillis L (mpInitiated u)))]"

definition upload_json :: "lib \<Rightarrow> MultipartUpload \<Rightarrow> tree" where
  "upload_json L u = TObj [(''key'', TStr (mpKey u)), (''uploadId'', TStr (mpUploadID u)),
     (''initiated'', TStr (FormatMillis L (mpInitiated u)))]"

definition ListMultipartUploadsHandler :: "env \<Rightarrow> request \<Rightarrow> world \<Rightarrow> response" where
  "ListMultipartUploadsHandler E r w =
     (case ListMultipartUploads E (param_bucket r) (disk w) of
        Inl _ \<Rightarrow> respondError r 500 ''InternalError'' ''Failed to list multipart uploads''
      | Inr ups \<Rightarrow>
          respondXMLOrJSON r 200
            (''ListMultipartUploadsResult'', TObj [(''xmlns'', TStr s3XMLNS), (''Bucket'', TStr (param_bucket r)),
               (''Upload'', TList (map (upload_xml (lb E)) ups))])
            (TObj [(''bucket'', TStr (param_bucket r)), (''uploads'', TList (map (upload_json (lb E)) ups))]))"

end
