(* ===== verification/Storage_Router.thy ===== *)
theory Storage_Router
  imports Multipart Buckets Sigv4 Ip_Ban Rate_Limit
begin

text \<open>
  The storage surface: the dispatchers of \<open>internal/router/storage\_routes.go\<close>, the middleware
  chain of \<open>storage\_router.go\<close>, and the presign handler of \<open>internal/handlers/presign.go\<close>.
  Which pattern a request matches, and its path parameters, come from gin: \<open>route\<close> and the
  \<open>param_\<close> fields of the request are inputs.  Panic recovery and the log, metrics and
  access-log middlewares observe a response and do not change it; they are not in the chain.
\<close>

datatype route = RouteNone | RouteHealth | RouteFavicon | RouteRoot | RouteBucket | RouteObject

text \<open>What the process fixed at start: the public base URL, the favicon, and directory times.\<close>

record surface =
  publicBaseURL :: string
  FaviconICO :: "bytes option"
  dirTimes :: "path \<Rightarrow> time"

section \<open>Presigned URLs\<close>

definition presignMaxExpires :: duration where "presignMaxExpires = 7 * 24 * Hour"
definition presignDefaultExpires :: duration where "presignDefaultExpires = 15 * Minute"

text \<open>\<open>time.Duration\<close> is a 64-bit integer: the product wraps.\<close>

definition wrap64 :: "int \<Rightarrow> int" where
  "wrap64 n = (n + 2 ^ 63) mod 2 ^ 64 - 2 ^ 63"

definition presign_expires :: "string \<Rightarrow> duration" where
  "presign_expires raw =
     (if raw = [] then presignDefaultExpires
      else case Atoi raw of
          Inl _ \<Rightarrow> presignDefaultExpires
        | Inr n \<Rightarrow>
            if n \<le> 0 then presignDefaultExpires
            else let expires = wrap64 (n * Second) in if expires > presignMaxExpires then presignMaxExpires else expires)"

definition presignBaseURL :: "surface \<Rightarrow> string" where
  "presignBaseURL S = TrimRight (publicBaseURL S) CHR ''/''"

definition PresignObjectHandler :: "surface \<Rightarrow> env \<Rightarrow> request \<Rightarrow> response" where
  "PresignObjectHandler S E r =
     (let bucket = param_bucket r; key = key_of r
      in if bucket = [] \<or> key = [] then respondError r 400 ''InvalidRequest'' ''Bucket and key required''
         else let expires = presign_expires (Query r ''expires'')
         in case ctx_user r of
             None \<Rightarrow> respondError r 500 ''InternalError'' ''Missing authenticated user''
           | Some u \<Rightarrow>
               (case Decrypt (lb E) (enc_key E) (EncryptedSecret u) of
                  None \<Rightarrow> respondError r 500 ''InternalError'' ''Error decrypting credentials''
                | Some secret \<Rightarrow>
                    (let base = presignBaseURL S
                     in if base = []
                        then respondError r 503 ''PresignUnavailable''
                          ''Presigned URLs unavailable: server has no public base URL configured''
                        else case PresignGetURL (lb E) (now E) (AccessKeyID u) secret base bucket key expires of
                            None \<Rightarrow> respondError r 500 ''InternalError'' ''Failed to sign URL: ''
                          | Some url \<Rightarrow> c_JSON 200 (TObj [(''url'', TStr url), (''expiresIn'', TInt (expires div Second)),
                              (''expiresAt'', TStr (FormatRFC3339 (lb E) (now E + expires)))]))))"

section \<open>Dispatch\<close>

definition reading :: "(env \<Rightarrow> request \<Rightarrow> world \<Rightarrow> response) \<Rightarrow> handler" where
  "reading h E r w = (h E r w, w)"

definition methodNotAllowed :: handler where
  "methodNotAllowed E r w = (Status 405, w)"

text \<open>A dispatcher that calls no handler leaves gin's empty 200.\<close>

definition no_handler :: handler where
  "no_handler E r w = (Status 200, w)"

definition dispatchBucketCORS :: "string \<Rightarrow> handler" where
  "dispatchBucketCORS m =
     (if m = ''PUT'' then PutBucketCORSHandler
      else if m = ''GET'' then reading GetBucketCORSHandler
      else if m = ''DELETE'' then DeleteBucketCORSHandler
      else no_handler)"

definition dispatchBucketSubresource :: "handler \<Rightarrow> string \<Rightarrow> handler" where
  "dispatchBucketSubresource defaultHandler m E r w =
     (if hasQuery r ''cors'' then dispatchBucketCORS m E r w
      else if hasQuery r ''acl'' then
        (if m = ''PUT'' then PutBucketACLHandler E r w
         else if m = ''GET'' then reading GetBucketACLHandler E r w
         else no_handler E r w)
      else if hasQuery r ''uploads'' \<and> m = ''GET'' then reading ListMultipartUploadsHandler E r w
      else if hasQuery r ''delete'' \<and> m = ''POST'' then DeleteObjectsHandler E r w
      else defaultHandler E r w)"

definition bucket_addressed :: "request \<Rightarrow> bool" where
  "bucket_addressed r \<longleftrightarrow> param_objectKey r = [] \<or> param_objectKey r = ''/''"

definition dispatchObjectPUT :: handler where
  "dispatchObjectPUT E r w =
     (if bucket_addressed r then CreateBucketHandler E r w
      else if hasQuery r ''acl'' then PutObjectACLHandler E r w
      else if hasQuery r ''tagging'' then PutObjectTaggingHandler E r w
      else if Query r ''uploadId'' \<noteq> [] \<and> Query r ''partNumber'' \<noteq> [] then UploadPartHandler E r w
      else if GetHeader r ''x-amz-copy-source'' \<noteq> [] then CopyObjectHandler E r w
      else UploadObjectHandler E r w)"

definition dispatchObjectGET :: "surface \<Rightarrow> handler" where
  "dispatchObjectGET S E r w =
     (if hasQuery r ''acl'' then reading GetObjectACLHandler E r w
      else if hasQuery r ''tagging'' then reading GetObjectTaggingHandler E r w
      else if hasQuery r ''presign'' then (PresignObjectHandler S E r, w)
      else if Query r ''uploadId'' \<noteq> [] then reading ListPartsHandler E r w
      else DownloadObjectHandler E r w)"

definition dispatchObjectDELETE :: handler where
  "dispatchObjectDELETE E r w =
     (if hasQuery r ''tagging'' then DeleteObjectTaggingHandler E r w
      else if Query r ''uploadId'' \<noteq> [] then AbortMultipartUploadHandler E r w
      else DeleteObjectHandler E r w)"

definition dispatchObjectPOST :: handler where
  "dispatchObjectPOST E r w =
     (if hasQuery r ''uploads'' then CreateMultipartUploadHandler E r w
      else if Query r ''uploadId'' \<noteq> [] then CompleteMultipartUploadHandler E r w
      else (Status 405, w))"

definition dispatchObjectHEAD :: handler where
  "dispatchObjectHEAD E r w =
     (if bucket_addressed r then reading HeadBucketHandler E r w else GetObjectMetadataHandler E r w)"

text \<open>The validator in front of every route with a name.\<close>

definition validated :: "handler \<Rightarrow> handler" where
  "validated h E r w = (case ValidateNames r of Inl resp \<Rightarrow> (resp, w) | Inr r1 \<Rightarrow> h E r1 w)"

definition RegisterStorageRoutes :: "surface \<Rightarrow> route \<Rightarrow> string \<Rightarrow> handler option" where
  "RegisterStorageRoutes S rt m =
     (if rt = RouteRoot then
        (if m = ''GET'' then Some (reading (ListBucketsHandler (dirTimes S))) else None)
      else if rt = RouteBucket then
        (if m = ''PUT'' then Some (validated (dispatchBucketSubresource CreateBucketHandler ''PUT''))
         else if m = ''GET'' then Some (validated (dispatchBucketSubresource ListObjectsHandler ''GET''))
         else if m = ''DELETE'' then Some (validated (dispatchBucketSubresource DeleteBucketHandler ''DELETE''))
         else if m = ''POST'' then Some (validated (dispatchBucketSubresource methodNotAllowed ''POST''))
         else if m = ''HEAD'' then Some (validated (reading HeadBucketHandler))
         else None)
      else if rt = RouteObject then
        (if m = ''PUT'' then Some (validated dispatchObjectPUT)
         else if m = ''GET'' then Some (validated (dispatchObjectGET S))
         else if m = ''DELETE'' then Some (validated dispatchObjectDELETE)
         else if m = ''POST'' then Some (validated dispatchObjectPOST)
         else if m = ''HEAD'' then Some (validated dispatchObjectHEAD)
         else None)
      else None)"

section \<open>The chain\<close>

definition faviconHandler :: "surface \<Rightarrow> response" where
  "faviconHandler S =
     (case FaviconICO S of
        None \<Rightarrow> Status 404
      | Some icon \<Rightarrow> \<lparr>status = 200, headers = [(''Content-Type'', ''image/vnd.microsoft.icon'')], payload = RawBody icon,
          error_code = []\<rparr>)"

text \<open>gin's answer when no route matches.\<close>

definition not_found :: response where
  "not_found = \<lparr>status = 404, headers = [(''Content-Type'', ''text/plain'')], payload = RawBody ''404 page not found'',
     error_code = []\<rparr>"

text \<open>From the CORS middleware inwards: CORS, name validation, authentication, the route.\<close>

definition storage_inner :: "surface \<Rightarrow> env \<Rightarrow> 'db bolt \<Rightarrow> 'db \<Rightarrow> route \<Rightarrow> request \<Rightarrow> world \<Rightarrow> response \<times> world" where
  "storage_inner S E B d rt r w =
     (case BucketCORSMiddleware E r (disk w) of
        Inl resp \<Rightarrow> (resp, w)
      | Inr hs \<Rightarrow>
          (case ValidateNames r of
             Inl resp \<Rightarrow> (add_headers hs resp, w)
           | Inr r1 \<Rightarrow>
               (case AuthMiddleware E B d (disk w) r1 of
                  Inl resp \<Rightarrow> (add_headers hs resp, w)
                | Inr r2 \<Rightarrow>
                    (case RegisterStorageRoutes S rt (req_method r2) of
                       None \<Rightarrow> (add_headers hs not_found, w)
                     | Some h \<Rightarrow> (let (resp, w1) = h E r2 w in (add_headers hs resp, w1))))))"

text \<open>The public endpoints are registered before CORS and authentication.\<close>

definition storage_core :: "surface \<Rightarrow> env \<Rightarrow> 'db bolt \<Rightarrow> 'db \<Rightarrow> route \<Rightarrow> request \<Rightarrow> world \<Rightarrow> response \<times> world" where
  "storage_core S E B d rt r w =
     (if rt = RouteHealth then (HealthHandler, w)
      else if rt = RouteFavicon then (faviconHandler S, w)
      else storage_inner S E B d rt r w)"

definition RequestIDMiddleware :: "string \<Rightarrow> (request \<Rightarrow> 'w \<Rightarrow> response \<times> 'w) \<Rightarrow> request \<Rightarrow> 'w \<Rightarrow> response \<times> 'w" where
  "RequestIDMiddleware rid next r w =
     (let (resp, w1) = next (r\<lparr>ctx_requestID := rid\<rparr>) w
      in (add_headers (set_header ''x-amz-request-id'' rid []) resp, w1))"

text \<open>\<open>now2\<close> is the time at which the response is ready, when a failure is recorded.\<close>

definition NewStorageRouter ::
  "surface \<Rightarrow> 'l buckets \<Rightarrow> env \<Rightarrow> time \<Rightarrow> string \<Rightarrow> 'db bolt \<Rightarrow> 'db \<Rightarrow> route \<Rightarrow> request
     \<Rightarrow> IPBanController \<times> 'l RateLimitController \<times> world
     \<Rightarrow> response \<times> IPBanController \<times> 'l RateLimitController \<times> world" where
  "NewStorageRouter S K E now2 rid B d rt =
     RequestIDMiddleware rid
       (IPBanMiddleware (lb E) (tproxy E) (now E) now2
          (RateLimitMiddleware (lb E) K (tproxy E) (now E)
             (storage_core S E B d rt)))"

end
