(* ===== verification/Subresource_Laws.thy ===== *)
theory Subresource_Laws
  imports Copy_Delete Object_Delete
begin

text \<open>
  Facts about the subresource handlers, the copy and the batch delete: which files each may
  touch, what a success leaves behind, and the one object a sidecar write can destroy.
\<close>

section \<open>Keys and paths\<close>

lemma key_of_object: "\<lbrakk>names_ok b k; for_object b k r\<rbrakk> \<Longrightarrow> key_of r = k"
  by (simp add: key_of_def for_object_def Clean_key TrimPrefix_def HasPrefix_def)

lemma names_ok_nonempty: "names_ok b k \<Longrightarrow> b \<noteq> [] \<and> k \<noteq> []"
  using names_ok_proper[of b k] proper_not_abs[of k] by (auto simp: proper_seg_def)

lemma resolve_object:
  "\<lbrakk>names_ok b k; for_object b k r\<rbrakk> \<Longrightarrow> resolvePath r' [param_bucket r, key_of r] = Inr (object_path b k)"
  using resolvePath_names key_of_object by (simp add: for_object_def)

lemma is_object_iff:
  "\<lbrakk>fs_wf (disk w); names_ok b k\<rbrakk> \<Longrightarrow> is_object E w (object_path b k) \<longleftrightarrow>
     (\<exists>c t. node_at (disk w) (object_segs b k) = Some (File c t)) \<and> \<not> fails (ft E) OpStat (object_segs b k)"
  using Stat_at[of "disk w" "ft E" "object_path b k"]
  by (cases "Stat (ft E) (disk w) (object_path b k)") (auto simp: is_object_def split: node.splits)

lemma bucket_root_ok: "ValidateBucketName b = None \<Longrightarrow> list_all seg_ok (root_segs @ [b])"
  using ValidateBucketName_proper proper_seg_ok root_proper by (auto simp: list_all_iff)

lemma resolve_bucket: "ValidateBucketName b = None \<Longrightarrow> resolvePath r [b] = Inr (abs_path (root_segs @ [b]))"
  using SafeJoin_proper[OF root_proper, of "[b]"] ValidateBucketName_proper[of b] Split_bucket[of b]
  by (simp add: resolvePath_def ObjectsRoot_def del: SafeJoin.simps)

lemma tmp_segs_neq: "CHR ''/'' \<notin> set x \<Longrightarrow> list_all seg_ok ss \<Longrightarrow> ss \<noteq> [] \<Longrightarrow> x \<noteq> [] \<Longrightarrow>
    psegs (abs_path ss @ x) \<noteq> ss"
  by (simp add: psegs_suffix) (metis append_butlast_last_id last_snoc self_append_conv)

text \<open>A replacement consumes whatever was at its temporary path.\<close>

lemma write_replace_consumes:
  assumes "write_replace E p d fs = (None, fs')" "tmp_segs p \<noteq> psegs p" "tmp_segs p \<noteq> []"
  shows "node_at fs' (tmp_segs p) = None"
proof -
  obtain fs1 where rn: "Rename (ft E) (p @ ''.tmp'') p fs1 = (None, fs')"
    using assms(1) by (auto simp: write_replace_def split: prod.splits option.splits)
  from Rename_ok[OF rn] assms(2,3) show ?thesis by (auto simp: node_at_delete)
qed

lemma write_replace_files:
  "same_files {psegs p, tmp_segs p} fs (snd (write_replace E p d fs))"
  by (rule same_files_frame) (simp add: write_replace_frame)

lemma object_meta_tmp_files:
  assumes "names_ok b k"
  shows "tmp_segs (object_path b k @ ''.meta'') = psegs (object_path b k @ ''.meta.tmp'')"
  by simp

section \<open>Bucket ACL\<close>

lemma PutBucketACLHandler_cases:
  assumes "ValidateBucketName (param_bucket r) = None" "PutBucketACLHandler E r w = (resp, w')"
  shows "(status resp \<in> {400, 404} \<and> w' = w)
     \<or> (\<exists>canned x. readCannedACLFromAclSubresource E r = Inr canned
          \<and> Stat (ft E) (disk w) (abs_path (root_segs @ [param_bucket r])) = Inr Dir
          \<and> PutBucketACL E (param_bucket r) canned (disk w) = (x, disk w')
          \<and> status resp = (if x = None then 200 else 500))"
  using assms resolve_bucket[OF assms(1), of r]
  by (auto simp: PutBucketACLHandler_def Let_def auditACLChange_def split: if_splits sum.splits prod.splits option.splits)

lemma acl_handler_reads_back:
  assumes "ValidateBucketName (param_bucket r) = None" "fs_wf (disk w)" "canned_codec_ok (lb E)"
    "\<not> fails (ft E) OpRead (psegs (acl_slot (param_bucket r)))"
    "PutBucketACLHandler E r w = (resp, w')" "status resp = 200"
  shows "\<exists>canned. readCannedACLFromAclSubresource E r = Inr canned
      \<and> GetBucketACL E (param_bucket r) (disk w') = Inr (canonACL canned)"
proof -
  obtain canned where c: "readCannedACLFromAclSubresource E r = Inr canned"
    and p: "PutBucketACL E (param_bucket r) canned (disk w) = (None, disk w')"
    using PutBucketACLHandler_cases[OF assms(1,5)] assms(6) by (auto split: if_splits)
  have "GetBucketACL E (param_bucket r) (disk w') = Inr (canonACL canned)"
    by (rule bucket_acl.get_put[OF assms(2) _ p]) (use assms in simp)
  with c show ?thesis by blast
qed

lemma canonACL_fix: "NormalizeCannedACL v = Inr c \<Longrightarrow> canonACL c = c"
proof -
  have n: "NormalizeCannedACL ACLPublicRead = Inr ACLPublicRead" "NormalizeCannedACL ACLPrivate = Inr ACLPrivate" by code_simp+
  assume "NormalizeCannedACL v = Inr c"
  then have "c = ACLPrivate \<or> c = ACLPublicRead" by (rule NormalizeCannedACL_cases)
  then show ?thesis using n by (auto simp: canonACL_def)
qed

lemma reduceXMLToCanned_canon: "canonACL (reduceXMLToCanned gs) = reduceXMLToCanned gs"
proof -
  have n: "canonACL ACLPublicRead = ACLPublicRead" "canonACL ACLPrivate = ACLPrivate" by code_simp+
  have "reduceXMLToCanned gs = ACLPublicRead \<or> reduceXMLToCanned gs = ACLPrivate"
    by (induction gs) (auto simp: Let_def)
  then show ?thesis using n by auto
qed

lemma readCanned_canon: "readCannedACLFromAclSubresource E r = Inr c \<Longrightarrow> canonACL c = c"
  using canonACL_fix reduceXMLToCanned_canon
  by (auto simp: readCannedACLFromAclSubresource_def canned_or_text_def Let_def split: if_splits sum.splits option.splits)

text \<open>The document becomes public only for an explicit read grant to everyone.\<close>

lemma reduceXMLToCanned_public:
  "reduceXMLToCanned gs = ACLPublicRead \<longleftrightarrow>
     (\<exists>g\<in>set gs. granteeURI g = s3AllUsersURI \<and> ToUpper (grantPermission g) \<in> {''READ'', ''FULL_CONTROL''})"
  by (induction gs) (auto simp: Let_def ACLPrivate_def ACLPublicRead_def)

text \<open>The temporary file of the bucket's ACL is a legal object name.\<close>

lemma acl_slot_segs: "ValidateBucketName b = None \<Longrightarrow> bucketACLPath b = Inr (abs_path (root_segs @ [b, ''.acl.json'']))
    \<and> psegs (acl_slot b) = root_segs @ [b, ''.acl.json'']"
proof -
  assume b: "ValidateBucketName b = None"
  have pr: "list_all proper_seg (root_segs @ [b])" using ValidateBucketName_proper[OF b] by simp
  have sp: "Split CHR ''/'' ''.acl.json'' = [''.acl.json'']" by code_simp
  have "SafeJoin ObjectsRoot [b, ''.acl.json''] = Inr (abs_path (root_segs @ [b, ''.acl.json'']))"
    using SafeJoin_proper[OF root_proper, of "[b, ''.acl.json'']"] Split_bucket[OF b] pr sp
    by (simp add: ObjectsRoot_def proper_seg_def del: SafeJoin.simps)
  moreover have "list_all seg_ok (root_segs @ [b, ''.acl.json''])"
    using bucket_root_ok[OF b] by (simp add: seg_ok_def)
  ultimately show "bucketACLPath b = Inr (abs_path (root_segs @ [b, ''.acl.json''])) \<and> psegs (acl_slot b) = root_segs @ [b, ''.acl.json'']"
    by (simp add: bucketACLPath_def acl_slot_def psegs_abs_path del: SafeJoin.simps)
qed

lemma acl_tmp_segs: "ValidateBucketName b = None \<Longrightarrow> tmp_segs (acl_slot b) = object_segs b ''.acl.json.tmp''"
proof -
  assume b: "ValidateBucketName b = None"
  have sp: "Split CHR ''/'' ''.acl.json.tmp'' = [''.acl.json.tmp'']" by code_simp
  have ok: "list_all seg_ok (root_segs @ [b, ''.acl.json''])" using bucket_root_ok[OF b] by (simp add: seg_ok_def)
  have "acl_slot b = abs_path (root_segs @ [b, ''.acl.json''])" using acl_slot_segs[OF b] by (simp add: acl_slot_def)
  then show ?thesis using psegs_suffix[OF ok, of "''.tmp''"] by (simp add: object_segs_def sp butlast_append)
qed

lemma acl_put_consumes:
  assumes "ValidateBucketName (param_bucket r) = None" "PutBucketACLHandler E r w = (resp, w')" "status resp = 200"
  shows "node_at (disk w') (object_segs (param_bucket r) ''.acl.json.tmp'') = None"
proof -
  let ?b = "param_bucket r"
  obtain canned where p: "PutBucketACL E ?b canned (disk w) = (None, disk w')"
    using PutBucketACLHandler_cases[OF assms(1,2)] assms(3) by (auto split: if_splits)
  then obtain d where "write_replace E (acl_slot ?b) d (disk w) = (None, disk w')"
    by (cases rule: PutBucketACL_cases) auto
  from write_replace_consumes[OF this] show ?thesis
    unfolding acl_tmp_segs[OF assms(1)] using conjunct2[OF acl_slot_segs[OF assms(1)]] by (simp add: object_segs_def)
qed

section \<open>Object ACL\<close>

text \<open>The sidecar of the object decodes to valid text, as a JSON decoder gives.\<close>

definition utf8_meta :: "lib \<Rightarrow> string \<Rightarrow> string \<Rightarrow> fs \<Rightarrow> bool" where
  "utf8_meta L b k fs \<longleftrightarrow>
     (\<forall>raw t m. node_at fs (object_meta_segs b k) = Some (File raw t) \<and> meta_dec L raw = Some m \<longrightarrow> valid_meta m)"

definition object_meta_tmp :: "string \<Rightarrow> string \<Rightarrow> path" where
  "object_meta_tmp b k = tmp_segs (object_path b k @ ''.meta'')"

lemma object_meta_tmp_neq:
  assumes "names_ok b k"
  shows "object_meta_tmp b k \<noteq> object_segs b k" "object_meta_tmp b k \<noteq> object_meta_segs b k"
proof -
  have l: "butlast (object_segs b k) @ [last (object_segs b k)] = object_segs b k" by (rule append_butlast_last_id) simp
  have "object_meta_tmp b k = butlast (object_segs b k) @ [last (object_segs b k) @ ''.meta.tmp'']"
    "object_meta_segs b k = butlast (object_segs b k) @ [last (object_segs b k) @ ''.meta'']"
    using psegs_object_suffix[OF assms, of "''.meta.tmp''"] psegs_object_suffix[OF assms, of "''.meta''"]
    by (simp_all add: object_meta_tmp_def object_meta_segs_def)
  then show "object_meta_tmp b k \<noteq> object_segs b k" "object_meta_tmp b k \<noteq> object_meta_segs b k"
    using l by (metis last_snoc list.distinct(1) self_append_conv, simp)
qed

lemma SetObjectACL_keeps:
  assumes "names_ok b k" "stored (lb E) b k body t etag fs" "utf8_meta (lb E) b k fs" "meta_codec_ok (lb E)"
    "SetObjectACL E (object_path b k) acl fs = (None, fs')"
  shows "stored (lb E) b k body t etag fs'"
    "\<exists>raw t m. node_at fs' (object_meta_segs b k) = Some (File raw t) \<and> meta_dec (lb E) raw = Some m
       \<and> map_of m ''acl'' = Some (canonACL acl)"
proof -
  have wf: "fs_wf fs" and et: "etag \<noteq> []" using assms(2) by (auto simp: stored_def)
  obtain raw t' m where at: "node_at fs (object_meta_segs b k) = Some (File raw t')" "meta_dec (lb E) raw = Some m"
    "meta_get m ''ETag'' = etag" using assms(2) by (auto simp: stored_def)
  have rd: "ReadFile (ft E) fs (object_path b k @ ''.meta'') = Inr x \<Longrightarrow> x = raw" for x
    using at(1) by (simp add: ReadFile_at[OF wf] object_meta_segs_def split: if_splits)
  have nr: "ReadFile (ft E) fs (object_path b k @ ''.meta'') \<noteq> Inl ENOENT"
    using iffD2[OF lookup_iff[OF wf] at(1)] by (simp add: ReadFile_def object_meta_segs_def)
  obtain canned raw' where c: "NormalizeCannedACL acl = Inr canned"
    and enc: "meta_enc (lb E) (AList.update ''acl'' canned m) = Some raw'"
    and wr: "write_replace E (object_path b k @ ''.meta'') raw' fs = (None, fs')"
    using assms(5) at(2) rd nr
    by (auto simp: SetObjectACL_def Let_def IsNotExist_def split: sum.splits option.splits prod.splits if_splits)
  have "ValidString canned" using NormalizeCannedACL_cases[OF c] by auto
  then have "valid_meta (AList.update ''acl'' canned m)"
    using valid_meta_update assms(3) at by (auto simp: utf8_meta_def)
  then obtain m' where m': "meta_dec (lb E) raw' = Some m'" "map_of m' = map_of (AList.update ''acl'' canned m)"
    using meta_codec_roundtrip[OF assms(4) _ enc] by blast
  have fs': "node_at fs' (object_meta_segs b k) = Some (File raw' (now E))"
    using write_replace_ok(1)[OF wf wr] by (simp add: object_meta_segs_def)
  have same: "node_at fs' (object_segs b k) = node_at fs (object_segs b k)"
    using write_replace_frame[of "object_segs b k" "object_path b k @ ''.meta''" E raw' fs] wr
      object_meta_tmp_neq(1)[OF assms(1)] meta_not_object[OF assms(1)] by (simp add: object_meta_tmp_def)
  have "meta_get m' ''ETag'' = etag" using at(3) m'(2) by (simp add: meta_get_def map_of_upd)
  moreover have "fs_wf fs'" using write_replace_wf[OF wf, of E "object_path b k @ ''.meta''" raw'] wr by simp
  ultimately show "stored (lb E) b k body t etag fs'"
    using assms(2) same fs' m'(1) by (auto simp: stored_def)
  show "\<exists>raw t m. node_at fs' (object_meta_segs b k) = Some (File raw t) \<and> meta_dec (lb E) raw = Some m
       \<and> map_of m ''acl'' = Some (canonACL acl)"
    using fs' m' c by (auto simp: canonACL_def map_of_upd)
qed

section \<open>Copy\<close>

lemma parseCopySource_names: "parseCopySource r = Inr (sb, sk) \<Longrightarrow> names_ok sb sk"
  using ValidateObjectKey_idem
  by (auto simp: parseCopySource_def names_ok_def Let_def split: if_splits option.splits sum.splits prod.splits)

lemma valid_meta_Cons: "valid_meta ((k, v) # m) \<longleftrightarrow> ValidString k \<and> ValidString v \<and> valid_meta m"
  by (auto simp: valid_meta_def)

lemma source_meta_valid: "valid_meta m \<Longrightarrow> valid_meta (source_meta m)"
proof -
  assume m: "valid_meta m"
  have "ValidString (meta_get m contentTypeMetaKey)"
    using m map_of_SomeD[of m contentTypeMetaKey] by (fastforce simp: meta_get_def valid_meta_def split: option.splits)
  moreover have "valid_meta [(contentTypeMetaKey, ''application/octet-stream'')]"
    by (simp add: valid_meta_def contentTypeMetaKey_def)
  moreover have "valid_meta (fold (\<lambda>(k, v) m. AList.update k v m) xs a)" if "valid_meta xs" "valid_meta a" for xs a
    using that
    by (induction xs arbitrary: a) (auto simp: valid_meta_Cons valid_meta_update)
  moreover have "valid_meta (filter (\<lambda>(k, _). HasPrefix (ToLower k) ''x-amz-meta-'') m)"
    using m by (auto simp: valid_meta_def)
  ultimately show ?thesis unfolding source_meta_def
    by (auto simp: Let_def contentTypeMetaKey_def valid_meta_Cons valid_meta_def[of "[]"])
qed

lemma buildCopyMetadata_valid:
  assumes "buildCopyMetadata E r (object_path sb sk) d fs = Inr m" "fs_wf fs" "utf8_request r" "utf8_meta (lb E) sb sk fs"
  shows "valid_meta m"
proof -
  have dflt: "valid_meta [(contentTypeMetaKey, ''application/octet-stream'')]"
    by (simp add: valid_meta_def contentTypeMetaKey_def)
  show ?thesis
  proof (cases "d = ''REPLACE''")
    case True
    then obtain m0 where "collect_meta 0 [] (req_header r) = Some m0"
      "m = AList.update contentTypeMetaKey (contentTypeOrOctet r) m0"
      using assms(1) by (auto simp: buildCopyMetadata_def collectUserMetadataChecked_def split: option.splits)
    then show ?thesis using assms(3) collect_meta_valid[of 0 "[]" "req_header r" m0]
      by (auto simp: utf8_request_def utf8_headers_def contentTypeMetaKey_def valid_meta_def[of "[]"] intro!: valid_meta_update)
  next
    case False
    then show ?thesis
      using assms dflt source_meta_valid
      by (auto simp: buildCopyMetadata_def utf8_meta_def object_meta_segs_def ReadFile_at
          split: sum.splits option.splits if_splits)
  qed
qed

text \<open>A copy that succeeds stores the source's bytes under the destination's name.\<close>

lemma Copy_stored:
  assumes "names_ok b k" "for_object b k r" "fresh_tmp E b k" "utf8_request r" "meta_codec_ok (lb E)"
    "parseCopySource r = Inr (sb, sk)" "stored (lb E) sb sk body t etag (disk w)" "utf8_meta (lb E) sb sk (disk w)"
    "CopyObjectHandler E r w = (resp, w')" "status resp = 200"
  shows "stored (lb E) b k body (now E) (formatETag (md5 (lb E) body)) (disk w')"
    "same_files (touched E b k) (disk w) (disk w')"
proof -
  have wf: "fs_wf (disk w)" using assms(7) by (simp add: stored_def)
  note n = parseCopySource_names[OF assms(6)]
  have b: "param_bucket r = b" and key: "key_of r = k" using assms(2) key_of_object[OF assms(1,2)] by (simp_all add: for_object_def)
  have acl400: "status resp' = 400" if "resolveCannedACL r = Inl resp'" for resp' using that by (rule resolveCannedACL_status)
  have meta400: "status resp' = 400" if "buildCopyMetadata E r p d fs = Inl resp'" for p d fs resp'
    using that by (auto simp: buildCopyMetadata_def split: if_splits option.splits sum.splits)
  obtain canned meta src where cw: "copy_write E r k src canned (with_acl canned meta) w = (resp, w')"
    and meta: "buildCopyMetadata E r (object_path sb sk) (copy_directive r) (disk w) = Inr meta"
    and src: "ReadFile (ft E) (disk w) (object_path sb sk) = Inr src" and acl: "resolveCannedACL r = Inr canned"
    using assms(9,10) acl400 meta400
    by (auto simp: CopyObjectHandler_def assms(6) b key resolvePath_names[OF n] Let_def
        split: if_splits sum.splits)
  have srcb: "src = body" using src assms(7) n by (auto simp: stored_def ReadFile_at[OF wf])
  define m where "m = with_acl canned meta"
  have vm: "valid_meta m" using buildCopyMetadata_valid[OF meta wf assms(4,8)] resolveCannedACL_cases[OF acl]
    by (auto simp: m_def with_acl_def intro!: valid_meta_update)
  obtain x w1 where fin: "finalizeObjectWrite E b (object_path b k) body False m w = (x, w1)" by (metis surj_pair)
  have tmp: "tmp_ok E" "object_tmp E b k \<noteq> object_segs b k" using assms(3) by (simp_all add: fresh_tmp_def)
  note f = finalizeObjectWrite_facts[OF assms(1) wf tmp fin]
  have x: "\<exists>tag n. x = Inr (tag, n) \<and> disk w' = disk w1"
    using assms(10) cw
    by (cases x) (auto simp: copy_write_def b resolvePath_names[OF assms(1)] srcb m_def[symmetric] fin RecordObjectUpload_def
        auditACLChange_def copy_result_def Let_def split: if_splits)
  then obtain tag n where xi: "x = Inr (tag, n)" and d: "disk w' = disk w1" by blast
  obtain crc raw where e: "meta_enc (lb E) (stamp_meta tag crc n m) = Some raw" "crc = b64_encode StdEncoding (crc32 (lb E) body)"
    "node_at (disk w1) (object_meta_segs b k) = Some (File raw (now E))" "tag = formatETag (md5 (lb E) body)"
    "node_at (disk w1) (object_segs b k) = Some (File body (now E))" using f(4)[OF xi] by auto
  have "valid_meta (stamp_meta tag crc n m)" unfolding e(2,4) by (rule valid_stamp_meta[OF vm])
  from meta_codec_roundtrip[OF assms(5) this e(1)] obtain m' where m': "meta_dec (lb E) raw = Some m'"
    "map_of m' = map_of (stamp_meta tag crc n m)" by blast
  have "meta_get m' ''ETag'' = tag" using m'(2) by (simp add: meta_get_def stamp_meta_def etagMetaKey_def map_of_upd)
  then show "stored (lb E) b k body (now E) (formatETag (md5 (lb E) body)) (disk w')"
    using f(1) e m'(1) d by (auto simp: stored_def formatETag_def)
  show "same_files (touched E b k) (disk w) (disk w')" using f(2) d by simp
qed

section \<open>Batch delete\<close>

lemma removeObject_slash: "names_ok b k \<Longrightarrow> removeObject E b k w = removeObject E b (CHR ''/'' # k) w"
proof -
  assume "names_ok b k"
  then have "\<not> IsAbs k" using names_ok_proper proper_not_abs by blast
  then have "TrimPrefix k ''/'' = k" by (cases k) (auto simp: TrimPrefix_def HasPrefix_def)
  then show ?thesis by (simp add: removeObject_def TrimPrefix_def HasPrefix_def)
qed

lemma valid_key_names: "\<lbrakk>ValidateBucketName b = None; ValidateObjectKey raw = Inr k\<rbrakk> \<Longrightarrow> names_ok b k"
  using ValidateObjectKey_idem by (auto simp: names_ok_def)

text \<open>The keys of a batch that are valid, cleaned.\<close>

definition batch_keys :: "string list \<Rightarrow> string set" where
  "batch_keys ks = {k. \<exists>raw\<in>set ks. ValidateObjectKey raw = Inr k}"

definition key_files :: "string \<Rightarrow> string set \<Rightarrow> path set" where
  "key_files b K = (\<Union>k\<in>K. {object_segs b k, object_meta_segs b k})"

lemma key_files_mono: "K \<subseteq> K' \<Longrightarrow> key_files b K \<subseteq> key_files b K'"
  by (auto simp: key_files_def)

lemma batch_keys_Cons: "batch_keys (raw # ks) = (case ValidateObjectKey raw of Inl _ \<Rightarrow> {} | Inr k \<Rightarrow> {k}) \<union> batch_keys ks"
  by (auto simp: batch_keys_def split: sum.splits)

text \<open>A batch touches only the files of its keys, and every key gets one answer.\<close>

lemma delete_keys_files:
  assumes "ValidateBucketName b = None" "fs_wf (disk w)" "delete_keys E b ks w = ((ds, fs), w')"
  shows "fs_wf (disk w') \<and> same_files (key_files b (batch_keys ks)) (disk w) (disk w')
      \<and> length ds + length fs = length ks \<and> set ds \<union> failKey ` set fs = set ks"
  using assms(2,3)
proof (induction ks arbitrary: w ds fs)
  case (Cons raw ks)
  show ?case
  proof (cases "ValidateObjectKey raw")
    case (Inl e)
    then obtain fs1 where r: "delete_keys E b ks w = ((ds, fs1), w')" and fs: "length fs = Suc (length fs1)"
      "failKey ` set fs = insert raw (failKey ` set fs1)"
      using Cons.prems(2) by (auto split: prod.splits)
    from Cons.IH[OF Cons.prems(1) r] fs Inl show ?thesis by (auto simp: batch_keys_Cons)
  next
    case (Inr k)
    note n = valid_key_names[OF assms(1) Inr]
    obtain x w1 where rm: "removeObject E b k w = (x, w1)" by (metis surj_pair)
    note a = removeObject_any[OF n Cons.prems(1) rm[unfolded removeObject_slash[OF n]]]
    obtain ds1 fs1 where r: "delete_keys E b ks w1 = ((ds1, fs1), w')"
      and len: "length ds + length fs = Suc (length ds1 + length fs1)"
      and sets: "set ds \<union> failKey ` set fs = insert raw (set ds1 \<union> failKey ` set fs1)"
      using Cons.prems(2) Inr rm by (auto split: option.splits prod.splits)
    note ih = Cons.IH[OF a(1) r]
    have K: "batch_keys (raw # ks) = insert k (batch_keys ks)" using Inr by (auto simp: batch_keys_Cons)
    have "same_files (key_files b (batch_keys (raw # ks))) (disk w) (disk w1)"
      using same_files_mono[OF a(2)] by (auto simp: K key_files_def)
    moreover have "same_files (key_files b (batch_keys (raw # ks))) (disk w1) (disk w')"
      using same_files_mono[OF conjunct1[OF conjunct2[OF ih]] key_files_mono[of "batch_keys ks" "insert k (batch_keys ks)" b]] by (auto simp: K)
    ultimately show ?thesis using ih len sets same_files_trans by auto
  qed
qed (auto simp: batch_keys_def)

text \<open>A file that is gone stays gone.\<close>

lemma delete_keys_keep_gone:
  assumes "ValidateBucketName b = None" "fs_wf (disk w)" "delete_keys E b ks w = (res, w')" "names_ok b k"
    "\<forall>c t. node_at (disk w) (object_segs b k) \<noteq> Some (File c t)"
  shows "node_at (disk w') (object_segs b k) \<noteq> Some (File c t)"
  using assms(2,3,5)
proof (induction ks arbitrary: w res)
  case (Cons raw ks)
  show ?case
  proof (cases "ValidateObjectKey raw")
    case (Inl e)
    then show ?thesis using Cons by (auto split: prod.splits)
  next
    case (Inr k1)
    note n = valid_key_names[OF assms(1) Inr]
    obtain x w1 where rm: "removeObject E b k1 w = (x, w1)" by (metis surj_pair)
    note a = removeObject_any[OF n Cons.prems(1) rm[unfolded removeObject_slash[OF n]]]
    obtain res1 where r: "delete_keys E b ks w1 = (res1, w')"
      using Cons.prems(2) Inr rm by (auto split: option.splits prod.splits)
    have "\<forall>c t. node_at (disk w1) (object_segs b k) \<noteq> Some (File c t)"
    proof (cases "k = k1")
      case True
      then show ?thesis using a(3,4) Cons.prems(3) by (cases x) auto
    next
      case False
      then have "object_segs b k \<notin> {object_segs b k1, object_meta_segs b k1}"
        using other_object[OF n assms(4)] by auto
      then show ?thesis using a(2) Cons.prems(3) unfolding same_files_def by blast
    qed
    from Cons.IH[OF a(1) r this] show ?thesis .
  qed
qed simp

text \<open>Every key that is reported as deleted names no object afterwards.\<close>

lemma delete_keys_deleted:
  assumes "ValidateBucketName b = None" "fs_wf (disk w)" "delete_keys E b ks w = ((ds, fs), w')" "raw \<in> set ds"
  shows "\<exists>k. ValidateObjectKey raw = Inr k \<and> (\<forall>c t. node_at (disk w') (object_segs b k) \<noteq> Some (File c t))"
  using assms(2,3,4)
proof (induction ks arbitrary: w ds fs)
  case (Cons raw1 ks)
  show ?case
  proof (cases "ValidateObjectKey raw1")
    case (Inl e)
    then show ?thesis using Cons by (auto split: prod.splits)
  next
    case (Inr k1)
    note n = valid_key_names[OF assms(1) Inr]
    obtain x w1 where rm: "removeObject E b k1 w = (x, w1)" by (metis surj_pair)
    note a = removeObject_any[OF n Cons.prems(1) rm[unfolded removeObject_slash[OF n]]]
    obtain ds1 fs1 where r: "delete_keys E b ks w1 = ((ds1, fs1), w')" and ds: "ds = (if x = None then raw1 # ds1 else ds1)"
      using Cons.prems(2) Inr rm by (auto split: option.splits prod.splits)
    show ?thesis
    proof (cases "raw \<in> set ds1")
      case True
      from Cons.IH[OF a(1) r True] show ?thesis .
    next
      case False
      then have x: "x = None" and raw: "raw = raw1" using ds Cons.prems(3) by (auto split: if_splits)
      have "\<forall>c t. node_at (disk w1) (object_segs b k1) \<noteq> Some (File c t)" using a(3)[OF x] by blast
      from delete_keys_keep_gone[OF assms(1) a(1) r n this] Inr raw show ?thesis by blast
    qed
  qed
qed simp

end
