(* ===== verification/Multipart_Laws.thy ===== *)
theory Multipart_Laws
  imports Multipart Subresource_Laws
begin

text \<open>
  Facts about multipart uploads: the staging files lie below \<open>/data/uploads\<close> whatever upload
  id the client sends, a part that is acknowledged is stored whole, and a completed upload is
  the concatenation of its parts.
\<close>

section \<open>Part names\<close>

lemma pad5_chars: "c \<in> set (pad5 n) \<Longrightarrow> is_digit c \<or> c = CHR ''-''"
  using nat_digits_all_digits[of c "nat \<bar>n\<bar>"] by (auto simp: pad5_def Let_def is_digit_def split: if_splits)

lemma pad5_proper: "proper_seg (pad5 n)"
proof -
  have "c \<in> set (pad5 n) \<Longrightarrow> c \<noteq> CHR ''.'' \<and> c \<noteq> CHR ''/''" for c using pad5_chars[of c n] by (auto simp: is_digit_def)
  then have "CHR ''.'' \<notin> set (pad5 n)" "CHR ''/'' \<notin> set (pad5 n)" by blast+
  moreover have "pad5 n \<noteq> []" by (simp add: pad5_def Let_def)
  ultimately show ?thesis by (auto simp: proper_seg_def)
qed

lemma Atoi_pad5:
  assumes "0 \<le> n" "n < 2 ^ 63"
  shows "Atoi (pad5 n) = Inr n"
proof -
  let ?d = "nat_digits (nat n)"
  have p: "parse_uint_loop 0 (pad5 n) = Inr (nat n)"
    using parse_nat_digits[of "nat n"] assms by (simp add: pad5_def parse_zeros nat_less_iff Let_def)
  have "hd (pad5 n) \<noteq> CHR ''-''" "hd (pad5 n) \<noteq> CHR ''+''" "pad5 n \<noteq> []"
    using hd_nat_digits_not_sign[of "nat n"] assms by (auto simp: pad5_def hd_append Let_def)
  then show ?thesis using p assms by (simp add: ParseInt_def ParseUint_def Let_def nat_less_iff)
qed

lemma pad5_inj: "\<lbrakk>0 \<le> n; n < 2 ^ 63; 0 \<le> m; m < 2 ^ 63; pad5 n = pad5 m\<rbrakk> \<Longrightarrow> n = m"
  using Atoi_pad5 by (metis sum.inject(2))

section \<open>Paths of the staging area\<close>

lemma uploads_proper [simp]: "list_all proper_seg uploads_segs"
  by (simp add: uploads_segs_def proper_seg_def)

lemma uploadDir_below:
  assumes "uploadDir b uid = Inr dir"
  obtains ss where "dir = abs_path (uploads_segs @ ss)" "list_all proper_seg (uploads_segs @ ss)" "2 \<le> length ss"
    "psegs dir = uploads_segs @ ss"
proof -
  obtain ss where ss: "dir = abs_path (uploads_segs @ ss)" "list_all proper_seg ss" "length [b, uid] \<le> length ss"
    using SafeJoin_below[OF assms[unfolded uploadDir_def UploadsRoot_def] uploads_proper] by blast
  have "list_all seg_ok (uploads_segs @ ss)" using ss(2) uploads_proper proper_seg_ok by (auto simp: list_all_iff)
  then show thesis using that ss psegs_abs_path by simp
qed

lemma join_seg:
  assumes "list_all proper_seg D" "proper_seg s"
  shows "PathJoin [abs_path D, s] = abs_path (D @ [s])"
proof -
  have sp: "Split CHR ''/'' s = [s]" using assms(2) by (simp add: proper_seg_def Split_single)
  then have "list_all proper_seg (Split CHR ''/'' s)" using assms(2) by simp
  note p = proper_IsLocal[OF this]
  show ?thesis using PathJoin_abs[OF assms(1) p(1)] p(3) sp by simp
qed

lemma psegs_join:
  assumes "uploadDir b uid = Inr dir" "proper_seg s" "CHR ''/'' \<notin> set x"
  shows "psegs (PathJoin [dir, s]) = psegs dir @ [s]" "psegs (PathJoin [dir, s] @ x) = psegs dir @ [s @ x]"
proof -
  obtain ss where d: "dir = abs_path (uploads_segs @ ss)" "list_all proper_seg (uploads_segs @ ss)" "psegs dir = uploads_segs @ ss"
    using uploadDir_below[OF assms(1)] by metis
  have ok: "list_all seg_ok (uploads_segs @ ss @ [s])" using d(2) assms(2) proper_seg_ok by (auto simp: list_all_iff)
  have j: "PathJoin [dir, s] = abs_path (uploads_segs @ ss @ [s])" using join_seg[OF d(2) assms(2)] d(1) by simp
  show "psegs (PathJoin [dir, s]) = psegs dir @ [s]" using j d(3) psegs_abs_path[OF ok] by simp
  show "psegs (PathJoin [dir, s] @ x) = psegs dir @ [s @ x]" using j d(3) psegs_suffix[OF ok _ assms(3)] by (simp add: butlast_append)
qed

lemma part_segs:
  assumes "uploadDir b uid = Inr dir"
  shows "psegs (partPath dir n) = psegs dir @ [pad5 n]" "psegs (partPath dir n @ ''.tmp'') = psegs dir @ [pad5 n @ ''.tmp'']"
    "psegs (manifestPath dir) = psegs dir @ [''manifest.json'']"
    "psegs (manifestPath dir @ ''.tmp'') = psegs dir @ [''manifest.json.tmp'']"
  using psegs_join[OF assms pad5_proper, of "''.tmp''"] psegs_join[OF assms, of "''manifest.json''" "''.tmp''"]
  by (simp_all add: partPath_def manifestPath_def proper_seg_def)

text \<open>Staging files and object files are apart.\<close>

definition staged :: "path \<Rightarrow> bool" where
  "staged q \<longleftrightarrow> below uploads_segs q"

lemma staged_dir: "uploadDir b uid = Inr dir \<Longrightarrow> staged (psegs dir @ r)"
  by (erule uploadDir_below) (auto simp: staged_def below_iff)

lemma object_not_staged: "\<not> staged (object_segs b k @ r)" "\<not> staged (object_segs b k)"
  by (auto simp: staged_def below_iff object_segs_def root_segs_def uploads_segs_def)

lemma object_suffix_not_staged: "\<lbrakk>names_ok b k; CHR ''/'' \<notin> set x\<rbrakk> \<Longrightarrow> \<not> staged (psegs (object_path b k @ x))"
proof -
  assume a: "names_ok b k" "CHR ''/'' \<notin> set x"
  have "butlast (object_segs b k) = root_segs @ butlast (b # Split CHR ''/'' k)"
    by (simp add: object_segs_def butlast_append)
  then show ?thesis using psegs_object_suffix[OF a] by (auto simp: staged_def below_iff root_segs_def uploads_segs_def)
qed

section \<open>Writing into an open file\<close>

lemma CreateFile_ok:
  assumes "CreateFile f t p fs = (None, fs')"
  shows "fs' = AList.update (psegs p) (File [] t) fs" "psegs p \<noteq> []" "lookup_path fs (butlast (psegs p)) = Inr Dir"
    "node_at fs (psegs p) \<noteq> Some Dir"
  using WriteFile_ok[OF assms[unfolded CreateFile_def]] by simp_all

lemma CreateFile_error: "CreateFile f t p fs = (Some e, fs') \<Longrightarrow> fs' = fs"
  by (auto simp: CreateFile_def WriteFile_def Let_def split: sum.splits node.splits if_splits)

lemma create_fill:
  assumes "fs_wf fs" "CreateFile (ft E) t p fs = (None, fs1)" "fill_file E p src sf fs1 = (ok, fs2)"
  shows "fs_wf fs2" "r \<noteq> psegs p \<Longrightarrow> node_at fs2 r = node_at fs r" "psegs p \<noteq> []"
    "ok \<Longrightarrow> node_at fs2 (psegs p) = Some (File src (now E)) \<and> \<not> sf"
    "r \<noteq> psegs p \<Longrightarrow> node_at fs1 r = node_at fs r" "fs_wf fs1"
proof -
  note c = CreateFile_ok[OF assms(2)]
  obtain x where x: "fs2 = AList.update (psegs p) (File x (now E)) fs1" "ok \<Longrightarrow> x = src \<and> \<not> sf"
    using assms(3) by (auto simp: fill_file_def Let_def)
  have par: "node_at fs (butlast (psegs p)) = Some Dir" using c(3) lookup_iff[OF assms(1)] by simp
  show "fs_wf fs1" using fs_wf_update[OF assms(1) c(2) psegs_ok par] c(1,4) by simp
  have eq: "fs2 = AList.update (psegs p) (File x (now E)) fs"
    unfolding x(1) c(1) by (rule update_last)
  show "fs_wf fs2" using fs_wf_update[OF assms(1) c(2) psegs_ok par] c(4) eq by simp
  show "r \<noteq> psegs p \<Longrightarrow> node_at fs2 r = node_at fs r" using eq c(2) by simp
  show "r \<noteq> psegs p \<Longrightarrow> node_at fs1 r = node_at fs r" using c by simp
  show "psegs p \<noteq> []" by (rule c(2))
  show "ok \<Longrightarrow> node_at fs2 (psegs p) = Some (File src (now E)) \<and> \<not> sf" using x eq c(2) by simp
qed

section \<open>Uploading a part\<close>

lemma tmp_neq: "s \<noteq> s @ ''.tmp''" "p @ [s] \<noteq> p @ [s @ ''.tmp'']"
  by auto

lemma openUpload_dir: "openUpload E b k uid fs = Inr (up, dir) \<Longrightarrow>
    uploadDir b uid = Inr dir \<and> mpKey up = k \<and> mpBucket up = b
    \<and> (\<exists>d. ReadFile (ft E) fs (manifestPath dir) = Inr d \<and> manifest_dec (lb E) d = Some up)"
  by (auto simp: openUpload_def split: sum.splits option.splits if_splits)

lemma UploadPart_facts:
  assumes wf: "fs_wf fs" and op: "openUpload E b k uid fs = Inr (up, dir)"
    and up: "UploadPart E b k uid n src sf fs = (x, fs')"
  shows "fs_wf fs'" "r \<notin> {psegs dir @ [pad5 n], psegs dir @ [pad5 n @ ''.tmp'']} \<Longrightarrow> node_at fs' r = node_at fs r"
    "x = Inl e \<Longrightarrow> node_at fs' (psegs dir @ [pad5 n]) = node_at fs (psegs dir @ [pad5 n])"
    "x = Inr p \<Longrightarrow> 1 \<le> n \<and> n \<le> 10000 \<and> \<not> sf \<and> node_at fs' (psegs dir @ [pad5 n]) = Some (File src (now E))
       \<and> p = \<lparr>PartNumber = n, ETag = part_etag (lb E) src, Size = length src, LastModified = now E\<rparr>"
proof -
  let ?q = "psegs dir @ [pad5 n]" and ?t = "psegs dir @ [pad5 n @ ''.tmp'']" and ?tmp = "partPath dir n @ ''.tmp''"
  have dir: "uploadDir b uid = Inr dir" using openUpload_dir[OF op] by blast
  note seg = part_segs[OF dir]
  have *: "fs_wf fs' \<and> (\<forall>r. r \<notin> {?q, ?t} \<longrightarrow> node_at fs' r = node_at fs r)
      \<and> (\<forall>e. x = Inl e \<longrightarrow> node_at fs' ?q = node_at fs ?q)
      \<and> (\<forall>p. x = Inr p \<longrightarrow> 1 \<le> n \<and> n \<le> 10000 \<and> \<not> sf \<and> node_at fs' ?q = Some (File src (now E))
           \<and> p = \<lparr>PartNumber = n, ETag = part_etag (lb E) src, Size = length src, LastModified = now E\<rparr>)"
  proof (cases "n < MinPartNumber \<or> n > MaxPartNumber")
    case True
    then show ?thesis using up wf by (auto simp: UploadPart_def)
  next
    case False
    obtain y fs1 where cr: "CreateFile (ft E) (now E) ?tmp fs = (y, fs1)" by (metis surj_pair)
    show ?thesis
    proof (cases y)
      case (Some e)
      then show ?thesis using up wf False op cr CreateFile_error[of "ft E" "now E" ?tmp fs e fs1] by (auto simp: UploadPart_def)
    next
      case None
      obtain ok fs2 where fl: "fill_file E ?tmp src sf fs1 = (ok, fs2)" by (metis surj_pair)
      note c = create_fill[OF wf cr[unfolded None] fl]
      obtain z fs3 where rn: "Rename (ft E) ?tmp (partPath dir n) fs2 = (z, fs3)" by (metis surj_pair)
      show ?thesis
      proof (cases "ok \<and> z = None")
        case True
        then have res: "x = Inr \<lparr>PartNumber = n, ETag = part_etag (lb E) src, Size = length src, LastModified = now E\<rparr>"
          "fs' = fs3" using up False op cr None fl rn by (simp_all add: UploadPart_def)
        from Rename_ok[OF rn[unfolded conjunct2[OF True]]] obtain b' t' where
          l: "lookup_path fs2 ?t = Inr (File b' t')" and f3: "fs3 = AList.update ?q (File b' t') (AList.delete ?t fs2)"
          by (auto simp: seg)
        have "b' = src \<and> t' = now E" using l lookup_iff[OF c(1)] c(4) True seg by simp
        moreover have "fs_wf fs3" using Rename_wf[OF c(1), of "ft E" ?tmp "partPath dir n"] rn by simp
        moreover have "node_at fs3 r = node_at fs r" if "r \<notin> {?q, ?t}" for r
          using that c(2) f3 seg by (simp add: node_at_delete)
        ultimately show ?thesis using res f3 False c(4) True by (auto simp: MinPartNumber_def MaxPartNumber_def)
      next
        case False': False
        have z: "z = Some e \<Longrightarrow> fs3 = fs2" for e using Rename_error[of "ft E" ?tmp "partPath dir n" fs2 e fs3] rn by simp
        have res: "(\<exists>e. x = Inl e) \<and> fs' = snd (Remove (ft E) ?tmp fs2)"
          using up False op cr None fl rn False' z by (cases z; cases ok) (auto simp: UploadPart_def)
        have "node_at fs' r = node_at fs r" if "r \<noteq> ?t" for r
          using conjunct2[OF res] c(2) that Remove_frame[of r ?tmp "ft E" fs2] seg by simp
        moreover have "fs_wf fs'" using Remove_wf[OF c(1)] conjunct2[OF res] by simp
        moreover obtain e where "x = Inl e" using conjunct1[OF res] by blast
        ultimately show ?thesis by simp
      qed
    qed
  qed
  from * show "fs_wf fs'" by blast
  from * show "r \<notin> {?q, ?t} \<Longrightarrow> node_at fs' r = node_at fs r" by blast
  from * show "x = Inl e \<Longrightarrow> node_at fs' ?q = node_at fs ?q" by blast
  from * show "x = Inr p \<Longrightarrow> 1 \<le> n \<and> n \<le> 10000 \<and> \<not> sf \<and> node_at fs' ?q = Some (File src (now E))
       \<and> p = \<lparr>PartNumber = n, ETag = part_etag (lb E) src, Size = length src, LastModified = now E\<rparr>" by blast
qed

section \<open>Assembling the object\<close>

definition part_contents :: "env \<Rightarrow> string \<Rightarrow> fs \<Rightarrow> UploadedPart list \<Rightarrow> bytes list \<Rightarrow> bool" where
  "part_contents E dir fs = list_all2 (\<lambda>p c. ReadFile (ft E) fs (partPath dir (PartNumber p)) = Inr c)"

lemma stream_parts_ok:
  "stream_parts E dir ws out cmp fs = (o', Inr c') \<Longrightarrow>
     \<exists>cs. part_contents E dir fs ws cs \<and> o' = out @ concat cs \<and> c' = cmp @ concat (map (md5 (lb E)) cs)"
proof (induction ws arbitrary: out cmp)
  case (Cons w ws)
  then obtain c where c: "ReadFile (ft E) fs (partPath dir (PartNumber w)) = Inr c"
    "stream_parts E dir ws (out @ c) (cmp @ md5 (lb E) c) fs = (o', Inr c')" by (auto split: sum.splits)
  from Cons.IH[OF c(2)] obtain cs where "part_contents E dir fs ws cs" "o' = (out @ c) @ concat cs"
    "c' = (cmp @ md5 (lb E) c) @ concat (map (md5 (lb E)) cs)" by blast
  then show ?case using c(1) by (intro exI[of _ "c # cs"]) (simp add: part_contents_def)
qed (simp add: part_contents_def)

lemma part_contents_cong:
  assumes "part_contents E dir fs ws cs" "uploadDir b uid = Inr dir" "fs_wf fs" "fs_wf fs'"
    "\<And>n c t. node_at fs (psegs dir @ [pad5 n]) = Some (File c t) \<Longrightarrow> node_at fs' (psegs dir @ [pad5 n]) = Some (File c t)"
  shows "part_contents E dir fs' ws cs"
proof -
  have "ReadFile (ft E) fs (partPath dir n) = Inr c \<Longrightarrow> ReadFile (ft E) fs' (partPath dir n) = Inr c" for n c
    using assms(5) part_segs(1)[OF assms(2), of n] by (auto simp: ReadFile_at[OF assms(3)] ReadFile_at[OF assms(4)])
  then show ?thesis using assms(1) unfolding part_contents_def by (auto elim: list_all2_mono)
qed

lemma assemble_facts:
  assumes wf: "fs_wf fs" and as: "assemble E dir p expected fs = (x, fs')" and ne: "psegs (p @ ''.mpu.tmp'') \<noteq> psegs p"
    and ud: "uploadDir b uid = Inr dir" and ns: "\<not> staged (psegs (p @ ''.mpu.tmp''))"
  shows "fs_wf fs'" "r \<notin> {psegs p, psegs (p @ ''.mpu.tmp'')} \<Longrightarrow> node_at fs' r = node_at fs r"
    "x = Inl e \<Longrightarrow> node_at fs' (psegs p) = node_at fs (psegs p)"
    "x = Inr (cmp, n) \<Longrightarrow> \<exists>cs. part_contents E dir fs expected cs \<and> cmp = concat (map (md5 (lb E)) cs)
       \<and> n = length (concat cs) \<and> node_at fs' (psegs p) = Some (File (concat cs) (now E)) \<and> psegs p \<noteq> []"
proof -
  let ?tmp = "p @ ''.mpu.tmp''"
  have *: "fs_wf fs' \<and> (\<forall>r. r \<notin> {psegs p, psegs ?tmp} \<longrightarrow> node_at fs' r = node_at fs r)
      \<and> (\<forall>e. x = Inl e \<longrightarrow> node_at fs' (psegs p) = node_at fs (psegs p))
      \<and> (\<forall>cmp n. x = Inr (cmp, n) \<longrightarrow> (\<exists>cs. part_contents E dir fs expected cs \<and> cmp = concat (map (md5 (lb E)) cs)
       \<and> n = length (concat cs) \<and> node_at fs' (psegs p) = Some (File (concat cs) (now E)) \<and> psegs p \<noteq> []))"
  proof -
    obtain y fs1 where cr: "CreateFile (ft E) (now E) ?tmp fs = (y, fs1)" by (metis surj_pair)
    show ?thesis
    proof (cases y)
      case (Some e)
      then show ?thesis using as wf cr CreateFile_error[of "ft E" "now E" ?tmp fs e fs1] by (auto simp: assemble_def)
    next
      case None
      obtain out res where st: "stream_parts E dir expected [] [] fs1 = (out, res)" by (metis surj_pair)
      obtain ok fs2 where fl: "fill_file E ?tmp out False fs1 = (ok, fs2)" by (metis surj_pair)
      note c = create_fill[OF wf cr[unfolded None] fl]
      obtain z fs3 where rn: "Rename (ft E) ?tmp p fs2 = (z, fs3)" by (metis surj_pair)
      show ?thesis
      proof (cases "\<exists>cmp. res = Inr cmp \<and> ok \<and> z = None")
        case True
        then obtain cmp where g: "res = Inr cmp" "ok" "z = None" by blast
        have res: "x = Inr (cmp, length out)" "fs' = fs3" using as cr None st fl rn g by (simp_all add: assemble_def)
        from Rename_ok[OF rn[unfolded g(3)]] obtain b' t' where l: "lookup_path fs2 (psegs ?tmp) = Inr (File b' t')"
          and f3: "fs3 = AList.update (psegs p) (File b' t') (AList.delete (psegs ?tmp) fs2)" and pne: "psegs p \<noteq> []" by blast
        have b: "b' = out \<and> t' = now E" using l lookup_iff[OF c(1)] c(4)[OF g(2)] by simp
        obtain cs where cs: "part_contents E dir fs1 expected cs" "out = concat cs" "cmp = concat (map (md5 (lb E)) cs)"
          using stream_parts_ok[of E dir expected "[]" "[]" fs1 out cmp] st g(1) by auto
        have "part_contents E dir fs expected cs"
        proof (rule part_contents_cong[OF cs(1) ud c(6) wf])
          fix n c' t assume "node_at fs1 (psegs dir @ [pad5 n]) = Some (File c' t)"
          moreover have "psegs dir @ [pad5 n] \<noteq> psegs ?tmp" using staged_dir[OF ud] ns by metis
          ultimately show "node_at fs (psegs dir @ [pad5 n]) = Some (File c' t)" using c(5) by simp
        qed
        moreover have "fs_wf fs3" using Rename_wf[OF c(1), of "ft E" ?tmp p] rn by simp
        moreover have "node_at fs3 r = node_at fs r" if "r \<notin> {psegs p, psegs ?tmp}" for r
          using that c(2,3) f3 pne by (simp add: node_at_delete)
        ultimately show ?thesis using res f3 b cs pne by auto
      next
        case False
        have z: "z = Some e \<Longrightarrow> fs3 = fs2" for e using Rename_error[of "ft E" ?tmp p fs2 e fs3] rn by simp
        have res: "(\<exists>e. x = Inl e) \<and> fs' = snd (Remove (ft E) ?tmp fs2)"
          using as cr None st fl rn False z by (cases z; cases ok; cases res) (auto simp: assemble_def)
        have "node_at fs' r = node_at fs r" if "r \<noteq> psegs ?tmp" for r
          using conjunct2[OF res] c(2) that Remove_frame[of r ?tmp "ft E" fs2] by simp
        moreover have "fs_wf fs'" using Remove_wf[OF c(1)] conjunct2[OF res] by simp
        moreover obtain e where "x = Inl e" using conjunct1[OF res] by blast
        ultimately show ?thesis using ne by simp
      qed
    qed
  qed
  from * show "fs_wf fs'" by blast
  from * show "r \<notin> {psegs p, psegs ?tmp} \<Longrightarrow> node_at fs' r = node_at fs r" by blast
  from * show "x = Inl e \<Longrightarrow> node_at fs' (psegs p) = node_at fs (psegs p)" by blast
  from * show "x = Inr (cmp, n) \<Longrightarrow> \<exists>cs. part_contents E dir fs expected cs \<and> cmp = concat (map (md5 (lb E)) cs)
       \<and> n = length (concat cs) \<and> node_at fs' (psegs p) = Some (File (concat cs) (now E)) \<and> psegs p \<noteq> []" by blast
qed

section \<open>Completing an upload\<close>

lemma RemoveAll_frame: "\<not> below (psegs p) r \<Longrightarrow> node_at (snd (RemoveAll f p fs)) r = node_at fs r"
  by (auto simp: RemoveAll_def node_at_def map_of_filter_keys)

lemma RemoveAll_gone: "\<lbrakk>RemoveAll f p fs = (None, fs'); below (psegs p) r; psegs p \<noteq> []\<rbrakk> \<Longrightarrow> node_at fs' r = None"
  by (auto simp: RemoveAll_def node_at_def map_of_filter_keys below_def split: if_splits)

definition object_mpu :: "string \<Rightarrow> string \<Rightarrow> path" where
  "object_mpu b k = psegs (object_path b k @ ''.mpu.tmp'')"

definition completes :: "string \<Rightarrow> string \<Rightarrow> path set" where
  "completes b k = {object_segs b k, object_meta_segs b k, object_mpu b k} \<union> {q. staged q}"

lemma object_mpu_neq: "names_ok b k \<Longrightarrow> object_mpu b k \<noteq> object_segs b k" "names_ok b k \<Longrightarrow> object_mpu b k \<noteq> object_meta_segs b k"
proof -
  assume n: "names_ok b k"
  have l: "butlast (object_segs b k) @ [last (object_segs b k)] = object_segs b k" by (rule append_butlast_last_id) simp
  have e: "object_mpu b k = butlast (object_segs b k) @ [last (object_segs b k) @ ''.mpu.tmp'']"
    "object_meta_segs b k = butlast (object_segs b k) @ [last (object_segs b k) @ ''.meta'']"
    using psegs_object_suffix[OF n, of "''.mpu.tmp''"] psegs_object_suffix[OF n, of "''.meta''"]
    by (simp_all add: object_mpu_def object_meta_segs_def)
  then show "object_mpu b k \<noteq> object_segs b k" using l by (metis last_snoc list.distinct(1) self_append_conv)
  show "object_mpu b k \<noteq> object_meta_segs b k" using e by simp
qed

lemma finish_upload_facts:
  assumes n: "names_ok b k" and wf: "fs_wf fs" and dir: "uploadDir b uid = Inr dir"
    and fin: "finish_upload E dir (object_path b k) up cmp nb np fs = (x, fs')"
  shows "fs_wf fs'" "same_files (completes b k) fs fs'" "node_at fs' (object_segs b k) = node_at fs (object_segs b k)"
    "x = Inr (etag, nb') \<Longrightarrow> etag = composite_etag (lb E) cmp np \<and> nb' = nb
       \<and> (\<exists>raw. meta_enc (lb E) (multipart_meta up etag nb np) = Some raw \<and> node_at fs' (object_meta_segs b k) = Some (File raw (now E)))
       \<and> (\<not> fails (ft E) OpRemove (psegs dir) \<longrightarrow> node_at fs' (psegs dir) = None)"
proof -
  let ?m = "object_path b k @ ''.meta''"
  define tag where "tag = composite_etag (lb E) cmp np"
  have *: "fs_wf fs' \<and> same_files (completes b k) fs fs' \<and> node_at fs' (object_segs b k) = node_at fs (object_segs b k)
      \<and> (\<forall>etag nb'. x = Inr (etag, nb') \<longrightarrow> etag = tag \<and> nb' = nb
          \<and> (\<exists>raw. meta_enc (lb E) (multipart_meta up etag nb np) = Some raw \<and> node_at fs' (object_meta_segs b k) = Some (File raw (now E)))
          \<and> (\<not> fails (ft E) OpRemove (psegs dir) \<longrightarrow> node_at fs' (psegs dir) = None))"
  proof (cases "meta_enc (lb E) (multipart_meta up tag nb np)")
    case None
    then show ?thesis using fin wf by (auto simp: finish_upload_def tag_def Let_def)
  next
    case (Some raw)
    obtain v fs1 where wr: "WriteFile (ft E) (now E) ?m raw fs = (v, fs1)" by (metis surj_pair)
    have wf1: "fs_wf fs1" using WriteFile_wf[OF wf, of "ft E" "now E" ?m raw] wr by simp
    have fr: "node_at fs1 r = node_at fs r" if "r \<noteq> object_meta_segs b k" for r
      using WriteFile_frame[of r ?m "ft E" "now E" raw fs] that wr by (simp add: object_meta_segs_def)
    have s1: "same_files (completes b k) fs fs1" using fr by (intro same_files_frame) (auto simp: completes_def)
    have om: "object_segs b k \<noteq> object_meta_segs b k" using meta_not_object[OF n] by (simp add: object_meta_segs_def)
    show ?thesis
    proof (cases v)
      case (Some e)
      then show ?thesis using fin \<open>meta_enc _ _ = Some raw\<close> wr wf1 s1 fr[OF om] by (auto simp: finish_upload_def tag_def Let_def)
    next
      case None
      have res: "x = Inr (tag, nb)" "fs' = snd (RemoveAll (ft E) dir fs1)"
        using fin \<open>meta_enc _ _ = Some raw\<close> wr None by (simp_all add: finish_upload_def tag_def Let_def)
      have keep: "node_at fs' r = node_at fs1 r" if "\<not> staged r" for r
        using RemoveAll_frame[of dir r "ft E" fs1] staged_dir[OF dir] that res(2) by (auto simp: below_iff)
      have s2: "same_files (completes b k) fs fs'"
        using same_files_trans[OF s1 same_files_frame[of "completes b k" fs' fs1]] keep by (simp add: completes_def)
      have m: "node_at fs' (object_meta_segs b k) = Some (File raw (now E))"
        using WriteFile_ok(1,2)[OF wr[unfolded None]] keep object_suffix_not_staged[OF n, of "''.meta''"]
        by (simp add: object_meta_segs_def)
      have dne: "psegs dir \<noteq> []" by (rule uploadDir_below[OF dir]) (simp add: uploads_segs_def)
      have g: "node_at fs' (psegs dir) = None" if "\<not> fails (ft E) OpRemove (psegs dir)"
        using RemoveAll_gone[of "ft E" dir fs1 fs' "psegs dir"] that dne res(2) by (simp add: RemoveAll_def below_def)
      show ?thesis
        using res(1) RemoveAll_wf[OF wf1] res(2) s2 keep[OF object_not_staged(2)] fr[OF om] m g \<open>meta_enc _ _ = Some raw\<close> by simp
    qed
  qed
  from * show "fs_wf fs'" "same_files (completes b k) fs fs'" "node_at fs' (object_segs b k) = node_at fs (object_segs b k)" by blast+
  from * show "x = Inr (etag, nb') \<Longrightarrow> etag = composite_etag (lb E) cmp np \<and> nb' = nb
       \<and> (\<exists>raw. meta_enc (lb E) (multipart_meta up etag nb np) = Some raw \<and> node_at fs' (object_meta_segs b k) = Some (File raw (now E)))
       \<and> (\<not> fails (ft E) OpRemove (psegs dir) \<longrightarrow> node_at fs' (psegs dir) = None)" unfolding tag_def by blast
qed

text \<open>A completion either leaves the destination as it was, or writes the parts in order.\<close>

definition assembled :: "env \<Rightarrow> string \<Rightarrow> UploadedPart list \<Rightarrow> fs \<Rightarrow> bytes list \<Rightarrow> string \<Rightarrow> nat \<Rightarrow> bool" where
  "assembled E dir expected fs cs etag nb \<longleftrightarrow> expected \<noteq> [] \<and> ascending expected \<and> part_contents E dir fs expected cs
     \<and> etag = composite_etag (lb E) (concat (map (md5 (lb E)) cs)) (length expected) \<and> nb = length (concat cs)"

lemma Complete_facts:
  assumes n: "names_ok b k" and wf: "fs_wf fs" and co: "CompleteMultipartUpload E b k uid expected fs = (x, fs')"
  shows "fs_wf fs' \<and> same_files (completes b k) fs fs' \<and> (\<forall>etag nb. x = Inr (etag, nb) \<longrightarrow>
      (\<exists>up dir cs raw. openUpload E b k uid fs = Inr (up, dir) \<and> assembled E dir expected fs cs etag nb
       \<and> node_at fs' (object_segs b k) = Some (File (concat cs) (now E))
       \<and> meta_enc (lb E) (multipart_meta up etag nb (length expected)) = Some raw
       \<and> node_at fs' (object_meta_segs b k) = Some (File raw (now E))
       \<and> (\<not> fails (ft E) OpRemove (psegs dir) \<longrightarrow> node_at fs' (psegs dir) = None)))"
proof (cases "complete_check E b k uid expected fs")
  case (Inl e)
  then show ?thesis using co wf by (auto simp: CompleteMultipartUpload_def)
next
  case chk: (Inr ud)
  let ?p = "object_path b k"
  obtain up dir where ud: "ud = (up, dir)" by (metis surj_pair)
  have ck: "openUpload E b k uid fs = Inr (up, dir)" "expected \<noteq> []" "ascending expected"
    using chk ud by (auto simp: complete_check_def split: sum.splits if_splits prod.splits)
  have dir: "uploadDir b uid = Inr dir" using openUpload_dir[OF ck(1)] by blast
  have sj: "SafeJoin ObjectsRoot [b, k] = Inr ?p"
    using resolvePath_names[OF n, of undefined] by (cases "SafeJoin ObjectsRoot [b, k]") (simp_all add: resolvePath_def del: SafeJoin.simps)
  obtain y fs1 where mk: "MkdirAll (ft E) (path_dir ?p) fs = (y, fs1)" by (metis surj_pair)
  have wf1: "fs_wf fs1" using MkdirAll_wf[OF wf, of "ft E" "path_dir ?p"] mk by simp
  have s1: "same_files (completes b k) fs fs1"
    using same_files_mono[OF same_files_mkdir[of "{}" fs "ft E" "path_dir ?p"]] mk by simp
  show ?thesis
  proof (cases y)
    case (Some e)
    then show ?thesis using co wf1 s1 chk ud sj mk by (auto simp: CompleteMultipartUpload_def simp del: SafeJoin.simps)
  next
    case None
    obtain z fs2 where as: "assemble E dir ?p expected fs1 = (z, fs2)" by (metis surj_pair)
    have ne: "psegs (?p @ ''.mpu.tmp'') \<noteq> psegs ?p" using object_mpu_neq(1)[OF n] n by (simp add: object_mpu_def)
    have ns: "\<not> staged (psegs (?p @ ''.mpu.tmp''))" using object_suffix_not_staged[OF n] by simp
    note a = assemble_facts[OF wf1 as ne dir ns]
    have s2: "same_files (completes b k) fs fs2"
      using same_files_trans[OF s1 same_files_frame[of "completes b k" fs2 fs1]] a(2) n by (auto simp: completes_def object_mpu_def)
    show ?thesis
    proof (cases z)
      case (Inl e)
      then show ?thesis using co a(1) s2 chk ud sj mk None as by (auto simp: CompleteMultipartUpload_def simp del: SafeJoin.simps)
    next
      case (Inr cn)
      obtain cmp m where cn: "cn = (cmp, m)" by (metis surj_pair)
      obtain cs where cs: "part_contents E dir fs1 expected cs" "cmp = concat (map (md5 (lb E)) cs)" "m = length (concat cs)"
        "node_at fs2 (object_segs b k) = Some (File (concat cs) (now E))" using a(4) Inr cn n by auto
      have pc: "part_contents E dir fs expected cs"
        by (rule part_contents_cong[OF cs(1) dir wf1 wf]) (use MkdirAll_files[of "ft E" "path_dir ?p" fs] mk in auto)
      have fin: "finish_upload E dir ?p up cmp m (length expected) fs2 = (x, fs')"
        using co chk ud sj mk None as Inr cn by (simp add: CompleteMultipartUpload_def del: SafeJoin.simps)
      note f = finish_upload_facts[OF n a(1) dir fin]
      have asm: "assembled E dir expected fs cs etag nb" if "x = Inr (etag, nb)" for etag nb
        using f(4)[OF that] ck(2,3) pc cs(2,3) by (simp add: assembled_def)
      show ?thesis using same_files_trans[OF s2 f(2)] f(1,3) cs(4) ck(1) asm f(4) by (metis cs(3))
    qed
  qed
qed

lemma ascii_composite: "ascii (composite_etag L c n)"
  by (simp add: composite_etag_def ascii_hex ascii_Itoa)

lemma valid_multipart_meta: "\<lbrakk>valid_meta (mpMetadata up); ascii etag\<rbrakk> \<Longrightarrow> valid_meta (multipart_meta up etag nb n)"
  unfolding multipart_meta_def by (intro valid_meta_update) (auto intro!: ascii_valid simp: ascii_Itoa)

text \<open>A completed object is stored: its bytes are those of the parts, its ETag the composite one.\<close>

lemma Complete_stored:
  assumes "names_ok b k" "fs_wf fs" "CompleteMultipartUpload E b k uid expected fs = (Inr (etag, nb), fs')"
    "openUpload E b k uid fs = Inr (up, dir)" "valid_meta (mpMetadata up)" "meta_codec_ok (lb E)"
  shows "\<exists>cs. assembled E dir expected fs cs etag nb \<and> stored (lb E) b k (concat cs) (now E) etag fs'"
proof -
  obtain cs raw where c: "assembled E dir expected fs cs etag nb" "node_at fs' (object_segs b k) = Some (File (concat cs) (now E))"
    "meta_enc (lb E) (multipart_meta up etag nb (length expected)) = Some raw"
    "node_at fs' (object_meta_segs b k) = Some (File raw (now E))" "fs_wf fs'"
    using Complete_facts[OF assms(1-3)] assms(4) by auto
  have et: "etag = composite_etag (lb E) (concat (map (md5 (lb E)) cs)) (length expected)" using c(1) by (simp add: assembled_def)
  have "valid_meta (multipart_meta up etag nb (length expected))"
    using valid_multipart_meta[OF assms(5)] ascii_composite et by metis
  from meta_codec_roundtrip[OF assms(6) this c(3)] obtain m' where m': "meta_dec (lb E) raw = Some m'"
    "map_of m' = map_of (multipart_meta up etag nb (length expected))" by blast
  have "meta_get m' ''ETag'' = etag" using m'(2) by (simp add: meta_get_def multipart_meta_def map_of_upd)
  moreover have "etag \<noteq> []" using et by (simp add: composite_etag_def)
  ultimately have "stored (lb E) b k (concat cs) (now E) etag fs'"
    using c m'(1) by (auto simp: stored_def)
  with c(1) show ?thesis by blast
qed

section \<open>A sequence of parts\<close>

fun upload_parts ::
  "env \<Rightarrow> string \<Rightarrow> string \<Rightarrow> string \<Rightarrow> (int \<times> bytes) list \<Rightarrow> fs \<Rightarrow> UploadedPart list option \<times> fs" where
  "upload_parts E b k uid [] fs = (Some [], fs)"
| "upload_parts E b k uid ((n, src) # ps) fs =
     (case UploadPart E b k uid n src False fs of
        (Inl _, fs1) \<Rightarrow> (None, fs1)
      | (Inr p, fs1) \<Rightarrow>
          (case upload_parts E b k uid ps fs1 of
             (None, fs2) \<Rightarrow> (None, fs2)
           | (Some qs, fs2) \<Rightarrow> (Some (p # qs), fs2)))"

lemma pad5_not_manifest: "pad5 n \<noteq> ''manifest.json''" "pad5 n @ ''.tmp'' \<noteq> ''manifest.json''" "pad5 n \<noteq> pad5 m @ ''.tmp''"
proof -
  have nd: "c \<in> set (pad5 n) \<Longrightarrow> is_digit c \<or> c = CHR ''-''" for c n by (rule pad5_chars)
  have "CHR ''m'' \<notin> set (pad5 n)" "CHR ''p'' \<notin> set (pad5 n)" using nd[of "CHR ''m''" n] nd[of "CHR ''p''" n] by (auto simp: is_digit_def)
  then show "pad5 n \<noteq> ''manifest.json''" "pad5 n \<noteq> pad5 m @ ''.tmp''" by auto
  have "last (pad5 n @ ''.tmp'') \<noteq> last ''manifest.json''" by simp
  then show "pad5 n @ ''.tmp'' \<noteq> ''manifest.json''" by metis
qed

lemma openUpload_cong:
  assumes "fs_wf fs" "fs_wf fs'" "openUpload E b k uid fs = Inr (up, dir)"
    "node_at fs' (psegs dir @ [''manifest.json'']) = node_at fs (psegs dir @ [''manifest.json''])"
  shows "openUpload E b k uid fs' = Inr (up, dir)"
proof -
  note o' = openUpload_dir[OF assms(3)]
  then obtain d where d: "ReadFile (ft E) fs (manifestPath dir) = Inr d" by blast
  then have "ReadFile (ft E) fs' (manifestPath dir) = Inr d"
    using assms(4) part_segs(3)[OF conjunct1[OF o']] by (simp add: ReadFile_at[OF assms(1)] ReadFile_at[OF assms(2)])
  then show ?thesis using assms(3) d o' by (auto simp: openUpload_def)
qed

lemma upload_parts_facts:
  assumes "fs_wf fs" "openUpload E b k uid fs = Inr (up, dir)" "upload_parts E b k uid ps fs = (Some qs, fs')" "distinct (map fst ps)"
  shows "fs_wf fs' \<and> openUpload E b k uid fs' = Inr (up, dir) \<and> map PartNumber qs = map fst ps
     \<and> (\<forall>r. \<not> staged r \<longrightarrow> node_at fs' r = node_at fs r)
     \<and> (\<forall>m. m \<notin> fst ` set ps \<and> 1 \<le> m \<and> m \<le> 10000 \<longrightarrow> node_at fs' (psegs dir @ [pad5 m]) = node_at fs (psegs dir @ [pad5 m]))
     \<and> (\<forall>(n, src)\<in>set ps. 1 \<le> n \<and> n \<le> 10000 \<and> node_at fs' (psegs dir @ [pad5 n]) = Some (File src (now E)))"
  using assms
proof (induction ps arbitrary: fs qs)
  case (Cons np ps)
  obtain n src where np: "np = (n, src)" by (metis surj_pair)
  obtain p fs1 qs1 where up: "UploadPart E b k uid n src False fs = (Inr p, fs1)"
    and rest: "upload_parts E b k uid ps fs1 = (Some qs1, fs')" and qs: "qs = p # qs1"
    using Cons.prems(3) np by (auto split: prod.splits sum.splits option.splits)
  note f = UploadPart_facts[OF Cons.prems(1,2) up]
  note g = f(4)[OF refl]
  have dir: "uploadDir b uid = Inr dir" using openUpload_dir[OF Cons.prems(2)] by blast
  have "psegs dir @ [''manifest.json''] \<notin> {psegs dir @ [pad5 n], psegs dir @ [pad5 n @ ''.tmp'']}"
    using pad5_not_manifest(1,2)[of n] by (metis empty_iff insert_iff last_snoc)
  then have op1: "openUpload E b k uid fs1 = Inr (up, dir)"
    by (intro openUpload_cong[OF Cons.prems(1) f(1) Cons.prems(2)] f(2))
  have ih: "fs_wf fs' \<and> openUpload E b k uid fs' = Inr (up, dir) \<and> map PartNumber qs1 = map fst ps
     \<and> (\<forall>r. \<not> staged r \<longrightarrow> node_at fs' r = node_at fs1 r)
     \<and> (\<forall>m. m \<notin> fst ` set ps \<and> 1 \<le> m \<and> m \<le> 10000 \<longrightarrow> node_at fs' (psegs dir @ [pad5 m]) = node_at fs1 (psegs dir @ [pad5 m]))
     \<and> (\<forall>(n, src)\<in>set ps. 1 \<le> n \<and> n \<le> 10000 \<and> node_at fs' (psegs dir @ [pad5 n]) = Some (File src (now E)))"
    using Cons.IH[OF f(1) op1 rest] Cons.prems(4) by simp
  have st: "node_at fs1 r = node_at fs r" if "\<not> staged r" for r using f(2)[of r] staged_dir[OF dir] that by auto
  have other: "node_at fs1 (psegs dir @ [pad5 m]) = node_at fs (psegs dir @ [pad5 m])" if "m \<noteq> n" "1 \<le> m" "m \<le> 10000" for m
  proof (rule f(2))
    have "pad5 m \<noteq> pad5 n" using pad5_inj[of m n] that g by fastforce
    then show "psegs dir @ [pad5 m] \<notin> {psegs dir @ [pad5 n], psegs dir @ [pad5 n @ ''.tmp'']}"
      using pad5_not_manifest(3)[of m n] by (metis empty_iff insert_iff last_snoc)
  qed
  have "n \<notin> fst ` set ps" using Cons.prems(4) np by auto
  then have "node_at fs' (psegs dir @ [pad5 n]) = Some (File src (now E))" using ih g by auto
  then show ?case using ih g qs np st other by auto
qed simp

text \<open>Uploading parts and completing with exactly these parts stores their concatenation.\<close>

lemma multipart_stored:
  assumes "names_ok b k" "fs_wf fs" "openUpload E b k uid fs = Inr (up, dir)" "valid_meta (mpMetadata up)" "meta_codec_ok (lb E)"
    "distinct (map fst ps)" "upload_parts E b k uid ps fs = (Some qs, fs1)"
    "CompleteMultipartUpload E b k uid qs fs1 = (Inr (etag, nb), fs2)"
  shows "stored (lb E) b k (concat (map snd ps)) (now E) etag fs2"
    "etag = composite_etag (lb E) (concat (map (md5 (lb E) \<circ> snd) ps)) (length ps)" "nb = length (concat (map snd ps))"
proof -
  note u = upload_parts_facts[OF assms(2,3,7,6)]
  have wf1: "fs_wf fs1" using u by blast
  have dir: "uploadDir b uid = Inr dir" using openUpload_dir[OF assms(3)] by blast
  obtain cs where cs: "assembled E dir qs fs1 cs etag nb" "stored (lb E) b k (concat cs) (now E) etag fs2"
    using Complete_stored[OF assms(1) wf1 assms(8) _ assms(4,5)] u by blast
  have pn: "map PartNumber qs = map fst ps" using u by blast
  then have len: "length qs = length ps" by (metis length_map)
  have pc: "list_all2 (\<lambda>p c. ReadFile (ft E) fs1 (partPath dir (PartNumber p)) = Inr c) qs cs"
    using cs(1) by (simp add: assembled_def part_contents_def)
  have "cs ! i = snd (ps ! i)" if i: "i < length ps" for i
  proof -
    have "PartNumber (qs ! i) = fst (ps ! i)" using pn i len by (metis nth_map)
    then have "ReadFile (ft E) fs1 (partPath dir (fst (ps ! i))) = Inr (cs ! i)"
      using list_all2_nthD[OF pc, of i] i len by simp
    then obtain t where "node_at fs1 (psegs dir @ [pad5 (fst (ps ! i))]) = Some (File (cs ! i) t)"
      by (auto simp: ReadFile_at[OF wf1] part_segs(1)[OF dir])
    moreover have "node_at fs1 (psegs dir @ [pad5 (fst (ps ! i))]) = Some (File (snd (ps ! i)) (now E))"
      using u nth_mem[OF i] by (auto simp: case_prod_beta)
    ultimately show ?thesis by simp
  qed
  moreover have "length cs = length ps" using list_all2_lengthD[OF pc] len by simp
  ultimately have eq: "cs = map snd ps" by (intro nth_equalityI) auto
  show "stored (lb E) b k (concat (map snd ps)) (now E) etag fs2" using cs(2) eq by simp
  show "etag = composite_etag (lb E) (concat (map (md5 (lb E) \<circ> snd) ps)) (length ps)" "nb = length (concat (map snd ps))"
    using cs(1) eq len by (simp_all add: assembled_def)
qed

end
