(* ===== verification/Router_Laws.thy ===== *)
theory Router_Laws
  imports Storage_Router Sigv4_Laws Multipart_Laws
begin

text \<open>
  Facts about the storage surface as a whole: the middlewares in front of it never touch the
  stored state, and a request that changes it by a writing method has been validated and
  authenticated.
\<close>

lemma RequestID_world: "snd (RequestIDMiddleware rid next r w) = snd (next (r\<lparr>ctx_requestID := rid\<rparr>) w)"
  by (simp add: RequestIDMiddleware_def split: prod.split)

lemma ban_world:
  "snd (snd (IPBanMiddleware L tp t t' next r (bc, w))) \<in> {w, snd (next r w)}"
  by (auto simp: IPBanMiddleware_def Let_def split: prod.splits option.splits)

lemma rate_world:
  "snd (snd (RateLimitMiddleware L K tp t next r (rc, w))) \<in> {w, snd (next r w)}"
  by (auto simp: RateLimitMiddleware_def Let_def split: prod.splits)

text \<open>The world after a request is what it was, or what the core made of it.\<close>

lemma router_world:
  assumes "NewStorageRouter S K E t rid B d rt r (bc, rc, w) = (resp, bc', rc', w')"
  shows "w' = w \<or> w' = snd (storage_core S E B d rt (r\<lparr>ctx_requestID := rid\<rparr>) w)"
proof -
  let ?r = "r\<lparr>ctx_requestID := rid\<rparr>"
  have "(bc', rc', w') = snd (IPBanMiddleware (lb E) (tproxy E) (now E) t
      (RateLimitMiddleware (lb E) K (tproxy E) (now E) (storage_core S E B d rt)) ?r (bc, rc, w))"
    using arg_cong[OF assms, of snd] by (simp add: NewStorageRouter_def RequestID_world)
  then have "(rc', w') \<in> {(rc, w), snd (RateLimitMiddleware (lb E) K (tproxy E) (now E) (storage_core S E B d rt) ?r (rc, w))}"
    using ban_world[of "lb E" "tproxy E" "now E" t "RateLimitMiddleware (lb E) K (tproxy E) (now E) (storage_core S E B d rt)" ?r bc "(rc, w)"]
    by (metis snd_conv)
  then show ?thesis
    using rate_world[of "lb E" K "tproxy E" "now E" "storage_core S E B d rt" ?r rc w] by (metis insert_iff singletonD snd_conv)
qed

text \<open>The core changes nothing unless all three gates let the request through.\<close>

lemma core_gates:
  assumes "snd (storage_core S E B d rt r w) \<noteq> w"
  shows "\<exists>r1 r2 h. ValidateNames r = Inr r1 \<and> AuthMiddleware E B d (disk w) r1 = Inr r2
     \<and> RegisterStorageRoutes S rt (req_method r2) = Some h \<and> snd (storage_core S E B d rt r w) = snd (h E r2 w)"
  using assms
  by (auto simp: storage_core_def storage_inner_def split: sum.splits option.splits prod.splits if_splits)

lemma ValidateNames_fields: "ValidateNames r = Inr r1 \<Longrightarrow>
    req_method r1 = req_method r \<and> param_bucket r1 = param_bucket r \<and> param_objectKey r1 = param_objectKey r
    \<and> req_header r1 = req_header r \<and> req_query r1 = req_query r"
  by (auto simp: ValidateNames_def Let_def split: if_splits sum.splits)

text \<open>A writing method needs a signature; a read can be anonymous.\<close>

lemma AuthMiddleware_writer:
  assumes "AuthMiddleware E B d fs r = Inr r'" "req_method r \<notin> {''GET'', ''HEAD''}"
  shows "\<exists>u. r' = as_user u r
     \<and> (isUserAllowed u (req_method r) (param_bucket r)
          \<and> header_evidence E B d r (auth_params (TrimPrefix (GetHeader r ''Authorization'') ''AWS4-HMAC-SHA256 '')) u
        \<or> presigned_evidence E B d r u)"
  using AuthMiddleware_Inr[OF assms(1)] assms(2) by (auto simp: anonymous_evidence_def)

lemma RouteRoot_get: "RegisterStorageRoutes S RouteRoot m = Some h \<Longrightarrow> m = ''GET''"
  by (simp add: RegisterStorageRoutes_def split: if_splits)

text \<open>Behind the gates the route's own validator changes nothing, so its handler runs on the
  authenticated request.\<close>

definition authenticated :: "env \<Rightarrow> 'db bolt \<Rightarrow> 'db \<Rightarrow> world \<Rightarrow> request \<Rightarrow> request \<Rightarrow> bool" where
  "authenticated E B d w r r2 \<longleftrightarrow> (\<exists>r1. ValidateNames r = Inr r1 \<and> AuthMiddleware E B d (disk w) r1 = Inr r2)"

lemma AuthMiddleware_fields:
  assumes "AuthMiddleware E B d fs r = Inr r'"
  shows "req_method r' = req_method r" "ValidateNames r = Inr r \<Longrightarrow> ValidateNames r' = Inr r'"
proof -
  have "\<exists>u m. r' = r\<lparr>ctx_user := u, ctx_authMethod := m\<rparr>"
    using AuthMiddleware_Inr[OF assms] unfolding as_user_def by (metis (no_types) request.surjective request.update_convs(14,15))
  then obtain u m where r': "r' = r\<lparr>ctx_user := u, ctx_authMethod := m\<rparr>" by blast
  show "req_method r' = req_method r" using r' by simp
  show "ValidateNames r = Inr r \<Longrightarrow> ValidateNames r' = Inr r'"
    unfolding r' by (cases r) (auto simp: ValidateNames_def Let_def split: if_splits sum.splits)
qed

lemma ValidateNames_idem: "ValidateNames r = Inr r1 \<Longrightarrow> ValidateNames r1 = Inr r1"
  by (auto simp: ValidateNames_def Let_def split: if_splits sum.splits)

lemma core_handler:
  assumes "authenticated E B d w r r2" "BucketCORSMiddleware E r (disk w) = Inr hs"
    "RegisterStorageRoutes S rt (req_method r2) = Some (validated h)"
  shows "storage_core S E B d rt r w = (add_headers hs (fst (h E r2 w)), snd (h E r2 w))"
proof -
  obtain r1 where v: "ValidateNames r = Inr r1" and a: "AuthMiddleware E B d (disk w) r1 = Inr r2"
    using assms(1) by (auto simp: authenticated_def)
  have "ValidateNames r2 = Inr r2" using AuthMiddleware_fields(2)[OF a] ValidateNames_idem[OF v] by blast
  moreover have "rt \<noteq> RouteHealth" "rt \<noteq> RouteFavicon" using assms(3) by (auto simp: RegisterStorageRoutes_def)
  ultimately show ?thesis
    by (simp add: storage_core_def storage_inner_def assms(2,3) v a validated_def split: prod.split)
qed

lemma dispatch_copy:
  assumes "\<not> bucket_addressed r" "\<not> hasQuery r ''acl''" "\<not> hasQuery r ''tagging''" "Query r ''uploadId'' = []"
    "parseCopySource r = Inr src"
  shows "dispatchObjectPUT E r w = CopyObjectHandler E r w"
proof -
  have "Index [] ''?'' = None" "Cut CHR ''/'' [] = ([], [], False)" by code_simp+
  then have "GetHeader r ''x-amz-copy-source'' \<noteq> []"
    using assms(5) by (auto simp: parseCopySource_def TrimPrefix_def HasPrefix_def)
  then show ?thesis using assms(1-4) by (simp add: dispatchObjectPUT_def)
qed

end
