(* ===== verification/Reference_Signed.thy ===== *)
theory Reference_Signed
  imports Router_Laws Sigv4_Accept Reference_Env
begin

text \<open>
  A concrete user with rights on one bucket only, and PUT requests signed with its secret,
  over \<open>Reference_Env\<close>.
\<close>

definition ref_limited :: User where
  "ref_limited = ref_user\<lparr>ACL := [\<lparr>Effect = ''Allow'', Buckets = [''bkt''], Actions = [''*'']\<rparr>]\<rparr>"

definition ref_limited_store :: ref_db where
  "ref_limited_store = snd (CreateUser ref_lib ref_bolt 1 ref_limited [])"

definition ref_put_unsigned :: "string \<Rightarrow> bytes \<Rightarrow> request" where
  "ref_put_unsigned k body = (ref_request ''PUT'' ''bkt'' k body)\<lparr>ctx_cleanedKey := k, req_header :=
     [(''X-Amz-Date'', [FormatAmzDate ref_lib 5]), (''X-Amz-Content-Sha256'', [''UNSIGNED-PAYLOAD''])]\<rparr>"

definition ref_put :: "string \<Rightarrow> bytes \<Rightarrow> (string \<times> string list) list \<Rightarrow> request" where
  "ref_put k body extra = (let r = ref_put_unsigned k body; a = FormatAmzDate ref_lib 5; date = take 8 a
     in r\<lparr>req_header := (''Authorization'', [authorization_header (credential ''AK'' date ''us-east-1'' ''s3'') ''host''
          (signature ref_lib ''s3cret'' a date ''us-east-1'' ''s3''
            (canonical_request r (buildCanonicalQuery []) ''host'' ''UNSIGNED-PAYLOAD''))]) # extra @ req_header r\<rparr>)"

text \<open>A PUT of two bytes, and a copy from a bucket on which the user has no rights.\<close>

definition ref_put_hi :: request where "ref_put_hi = ref_put ''k'' ''hi'' []"
definition ref_put_copy :: request where "ref_put_copy = ref_put ''k'' [] [(''X-Amz-Copy-Source'', [''/src/s''])]"

abbreviation ref_amz :: string where "ref_amz \<equiv> FormatAmzDate (lb ref_env) 5"

lemma ref_signed_base:
  "amz_time_ok (lb ref_env)" "(0 :: time) \<le> 5" "(5 :: time) < year_10000"
  "plain_part ''AK''" "plain_part ''us-east-1''" "plain_part ''s3''" "plain ''host''"
  "GetUser (lb ref_env) ref_bolt ''AK'' ref_limited_store = Inr ref_limited"
  "Decrypt (lb ref_env) (enc_key ref_env) (EncryptedSecret ref_limited) = Some ''s3cret''"
  "now ref_env - (5 - 5 mod Second) \<le> 15 * Minute" "5 - 5 mod Second - now ref_env \<le> 15 * Minute"
proof -
  show "amz_time_ok (lb ref_env)" using ref_time_ok by simp
  show "Decrypt (lb ref_env) (enc_key ref_env) (EncryptedSecret ref_limited) = Some ''s3cret''"
    using ref_user_secret by (simp add: ref_limited_def)
  show "(5 :: time) < year_10000" "now ref_env - (5 - 5 mod Second) \<le> 15 * Minute" "5 - 5 mod Second - now ref_env \<le> 15 * Minute"
    by (simp_all add: year_10000_def Second_def Minute_def)
qed code_simp+

lemma ref_signed_auth:
  assumes "GetHeader r ''X-Amz-Date'' = ref_amz" "GetHeader r ''X-Amz-Content-Sha256'' = ''UNSIGNED-PAYLOAD''"
    "GetHeader r ''Authorization'' =
      authorization_header (credential ''AK'' (take 8 ref_amz) ''us-east-1'' ''s3'') ''host''
        (signature (lb ref_env) ''s3cret'' ref_amz (take 8 ref_amz) ''us-east-1'' ''s3''
          (canonical_request r (buildCanonicalQuery (req_query r)) ''host'' ''UNSIGNED-PAYLOAD''))"
    "isUserAllowed ref_limited (req_method r) (param_bucket r)"
  shows "AuthMiddleware ref_env ref_bolt ref_limited_store fs r = Inr (as_user ref_limited r)"
proof -
  have b: "body_matches (lb ref_env) r ''UNSIGNED-PAYLOAD''" by (simp add: body_matches_def skips_body_check_def)
  note s = ref_signed_base
  show ?thesis by (rule header_accepted[OF s(1-7) assms(1,2) _ b s(8,9) assms(3) s(10,11) assms(4)]) simp
qed

lemma ref_put_hi_auth: "AuthMiddleware ref_env ref_bolt ref_limited_store fs ref_put_hi = Inr (as_user ref_limited ref_put_hi)"
  by (rule ref_signed_auth; code_simp)

lemma ref_put_copy_auth: "AuthMiddleware ref_env ref_bolt ref_limited_store fs ref_put_copy = Inr (as_user ref_limited ref_put_copy)"
  by (rule ref_signed_auth; code_simp)

text \<open>A world with an object in a second bucket.\<close>

definition ref_src_world :: world where
  "ref_src_world = snd (UploadObjectHandler ref_env (ref_request ''PUT'' ''src'' ''s'' ''data'') ref_world)"

definition ref_surface :: surface where
  "ref_surface = \<lparr>publicBaseURL = ''https://s3.local'', FaviconICO = None, dirTimes = (\<lambda>_. 0)\<rparr>"

definition ref_ban :: IPBanController where "ref_ban = NewIPBanController DefaultIPBanConfig"

definition ref_limits :: "unit buckets" where "ref_limits = \<lparr>NewLimiter = (\<lambda>_ _. ()), Allow = (\<lambda>_ l. (True, l))\<rparr>"

definition ref_rates :: "unit RateLimitController" where
  "ref_rates = NewRateLimitController \<lparr>rlEnabled = False, RPS = 1, Burst = 1\<rparr>"

end
