(* ===== verification/Multipart_Checks.thy ===== *)
theory Multipart_Checks
  imports Multipart_Laws
begin

text \<open>
  What creating an upload leaves in its staging directory, and what completing one has
  verified: the digest named for every part is that of the bytes that go into the object.
\<close>

section \<open>Creation\<close>

lemma manifest_roundtrip:
  assumes "manifest_codec_ok L" "valid_meta (mpMetadata u)" "ValidString (mpKey u)" "ValidString (mpBucket u)"
    "ValidString (mpUploadID u)" "manifest_enc L u = Some d"
  shows "\<exists>m'. manifest_dec L d = Some (u\<lparr>mpMetadata := m'\<rparr>) \<and> valid_meta m'"
  using assms unfolding manifest_codec_ok_def by force

lemma Create_facts:
  assumes "fs_wf fs" "CreateMultipartUpload E b k md fs = (Inr up, fs')"
  shows "fs_wf fs'" "up = \<lparr>mpUploadID = uuid E, mpBucket = b, mpKey = k, mpInitiated = now E, mpMetadata = md\<rparr>"
    "\<exists>dir d. uploadDir b (uuid E) = Inr dir \<and> manifest_enc (lb E) up = Some d
       \<and> node_at fs' (psegs dir @ [''manifest.json'']) = Some (File d (now E))"
proof -
  show up: "up = \<lparr>mpUploadID = uuid E, mpBucket = b, mpKey = k, mpInitiated = now E, mpMetadata = md\<rparr>"
    using assms(2) by (auto simp: CreateMultipartUpload_def Let_def split: if_splits sum.splits prod.splits option.splits)
  obtain dir fs1 d where dir: "uploadDir b (uuid E) = Inr dir" and mk: "MkdirAll (ft E) dir fs = (None, fs1)"
    and d: "manifest_enc (lb E) up = Some d" and wr: "write_replace E (manifestPath dir) d fs1 = (None, fs')"
    using assms(2) up
    by (auto simp: CreateMultipartUpload_def Let_def writeManifest_def split: if_splits sum.splits prod.splits option.splits)
  have wf1: "fs_wf fs1" using MkdirAll_wf[OF assms(1), of "ft E" dir] mk by simp
  show "fs_wf fs'" using write_replace_wf[OF wf1, of E "manifestPath dir" d] wr by simp
  show "\<exists>dir d. uploadDir b (uuid E) = Inr dir \<and> manifest_enc (lb E) up = Some d
       \<and> node_at fs' (psegs dir @ [''manifest.json'']) = Some (File d (now E))"
    using dir d write_replace_ok(1)[OF wf1 wr] part_segs(3)[OF dir] by auto
qed

text \<open>Opening the upload afterwards gives the metadata it was created with.\<close>

lemma Create_opens:
  assumes "fs_wf fs" "CreateMultipartUpload E b k md fs = (Inr up, fs')" "manifest_codec_ok (lb E)" "valid_meta md"
    "ValidString k" "ValidString b" "ValidString (uuid E)" "lb E' = lb E"
    "openUpload E' b k (mpUploadID up) fs' = Inr (up', dir)"
  shows "valid_meta (mpMetadata up')"
proof -
  note c = Create_facts[OF assms(1,2)]
  obtain dir' d where d: "uploadDir b (uuid E) = Inr dir'" "manifest_enc (lb E) up = Some d"
    "node_at fs' (psegs dir' @ [''manifest.json'']) = Some (File d (now E))" using c(3) by blast
  note o' = openUpload_dir[OF assms(9)]
  have eq: "dir' = dir" using o' d(1) c(2) by simp
  obtain d' where d': "ReadFile (ft E') fs' (manifestPath dir) = Inr d'" "manifest_dec (lb E) d' = Some up'"
    using o' assms(8) by auto
  have "d' = d" using d'(1) d(3) eq part_segs(3)[OF conjunct1[OF o']] by (auto simp: ReadFile_at[OF c(1)] split: if_splits)
  then show ?thesis using manifest_roundtrip[OF assms(3) _ _ _ _ d(2)] assms(4-7) c(2) d'(2) by auto
qed

section \<open>What a completion has checked\<close>

lemma collect_parts_etag:
  "\<lbrakk>collect_parts E dir fs es = Inr ps; p \<in> set ps\<rbrakk> \<Longrightarrow>
     \<exists>c. ReadFile (ft E) fs (partPath dir (PartNumber p)) = Inr c \<and> ETag p = part_etag (lb E) c"
proof (induction es arbitrary: ps)
  case (Cons e es)
  obtain name n where e: "e = (name, n)" by (metis surj_pair)
  show ?case using Cons
    by (cases n) (auto simp: e partETag_def split: if_splits sum.splits)
qed simp

lemma listParts_etag:
  assumes "listParts E dir fs = Inr ps" "storedByNum ps n = Some p"
  shows "\<exists>c. ReadFile (ft E) fs (partPath dir n) = Inr c \<and> ETag p = part_etag (lb E) c"
proof -
  obtain es qs where c: "collect_parts E dir fs es = Inr qs" and ps: "ps = sort_key PartNumber qs"
    using assms(1) by (auto simp: listParts_def split: sum.splits)
  have "(n, p) \<in> set (map (\<lambda>p. (PartNumber p, p)) ps)" using map_of_SomeD[OF assms(2)[unfolded storedByNum_def]] by simp
  then show ?thesis using collect_parts_etag[OF c] ps by auto
qed

definition digest_named :: "lib \<Rightarrow> UploadedPart \<Rightarrow> bytes \<Rightarrow> bool" where
  "digest_named L p c \<longleftrightarrow> normalizeETag (ETag p) = hex_encode (md5 L c)"

lemma Trim_quoted:
  assumes "CHR 0x22 \<notin> set s"
  shows "normalizeETag (CHR 0x22 # s @ [CHR 0x22]) = s"
proof -
  have "dropWhile (\<lambda>x. x = CHR 0x22) (s @ [CHR 0x22]) = (if s = [] then [] else s @ [CHR 0x22])"
    using assms by (cases s) auto
  moreover have "dropWhile (\<lambda>x. x = CHR 0x22) (rev s) = rev s"
    using assms by (cases s rule: rev_cases) auto
  ultimately show ?thesis by (simp add: normalizeETag_def Trim_def TrimRight_def)
qed

lemma normalize_part_etag: "normalizeETag (part_etag L c) = hex_encode (md5 L c)"
  using Trim_quoted[OF hex_encode_no_quote] by (simp add: part_etag_def)

lemma complete_check_digests:
  assumes "complete_check E b k uid expected fs = Inr (up, dir)" "p \<in> set expected"
    "ReadFile (ft E) fs (partPath dir (PartNumber p)) = Inr c"
  shows "normalizeETag (ETag p) = normalizeETag (part_etag (lb E) c)"
proof -
  obtain ps where l: "listParts E dir fs = Inr ps" and m: "parts_match ps expected"
    using assms(1) by (auto simp: complete_check_def split: sum.splits if_splits)
  obtain q where q: "storedByNum ps (PartNumber p) = Some q" "normalizeETag (ETag q) = normalizeETag (ETag p)"
    using m assms(2) by (auto simp: parts_match_def list_all_iff split: option.splits)
  from listParts_etag[OF l q(1)] assms(3) q(2) show ?thesis by auto
qed

text \<open>So a completed upload consists of parts whose digests the client named.\<close>

lemma Complete_verified:
  assumes "names_ok b k" "fs_wf fs" "CompleteMultipartUpload E b k uid expected fs = (Inr (etag, nb), fs')"
  shows "\<exists>cs. list_all2 (digest_named (lb E)) expected cs \<and> ascending expected \<and> expected \<noteq> []
     \<and> node_at fs' (object_segs b k) = Some (File (concat cs) (now E)) \<and> nb = length (concat cs)
     \<and> etag = composite_etag (lb E) (concat (map (md5 (lb E)) cs)) (length expected)"
proof -
  obtain up dir cs where o: "openUpload E b k uid fs = Inr (up, dir)" and a: "assembled E dir expected fs cs etag nb"
    and at: "node_at fs' (object_segs b k) = Some (File (concat cs) (now E))"
    using Complete_facts[OF assms] by blast
  have ck: "complete_check E b k uid expected fs = Inr (up, dir)"
    using assms(3) o by (cases "complete_check E b k uid expected fs")
      (auto simp: CompleteMultipartUpload_def complete_check_def split: sum.splits if_splits)
  have pc: "list_all2 (\<lambda>p c. ReadFile (ft E) fs (partPath dir (PartNumber p)) = Inr c) expected cs"
    using a by (simp add: assembled_def part_contents_def)
  have "list_all2 (digest_named (lb E)) expected cs"
    using pc complete_check_digests[OF ck] normalize_part_etag
    unfolding digest_named_def by (fastforce simp: list_all2_conv_all_nth)
  with a at show ?thesis by (auto simp: assembled_def)
qed

end
