(* ===== verification/Surface_Theorems.thy ===== *)
theory Surface_Theorems
  imports Reference_Signed Multipart_Checks Subresource_Laws
begin

text \<open>
  Properties of the storage surface as a whole: what its router lets change, multipart uploads,
  copies, batch deletes, cross-origin rules and ACL changes.
\<close>

section \<open>The router\<close>

text \<open>C5: Through the whole chain of the storage router, a request with a method other than GET
  and HEAD that changes the stored state has a legal bucket name and key, and carries a
  signature of a stored user: in the header, and then that user's rules allow the action, or in
  the query.\<close>

theorem writes_need_a_signature:
  assumes "NewStorageRouter S K E t rid B d rt r (bc, rc, w) = (resp, bc', rc', w')"
    and "req_method r \<notin> {''GET'', ''HEAD''}" "w' \<noteq> w"
  shows "\<exists>r1 u. ValidateNames (r\<lparr>ctx_requestID := rid\<rparr>) = Inr r1
     \<and> (isUserAllowed u (req_method r) (param_bucket r)
          \<and> header_evidence E B d r1 (auth_params (TrimPrefix (GetHeader r1 ''Authorization'') ''AWS4-HMAC-SHA256 '')) u
        \<or> presigned_evidence E B d r1 u)"
proof -
  let ?r = "r\<lparr>ctx_requestID := rid\<rparr>"
  have "snd (storage_core S E B d rt ?r w) \<noteq> w" using router_world[OF assms(1)] assms(3) by auto
  from core_gates[OF this] obtain r1 r2 where v: "ValidateNames ?r = Inr r1" and a: "AuthMiddleware E B d (disk w) r1 = Inr r2" by blast
  from ValidateNames_fields[OF v] AuthMiddleware_writer[OF a] assms(2) v show ?thesis by auto
qed

lemma ref_put_hi_core:
  "snd (storage_core ref_surface ref_env ref_bolt ref_limited_store RouteObject ref_put_hi ref_world)
     = snd (UploadObjectHandler ref_env (as_user ref_limited ref_put_hi) ref_world)"
proof -
  have v: "ValidateNames ref_put_hi = Inr ref_put_hi" by code_simp
  have v2: "ValidateNames (as_user ref_limited ref_put_hi) = Inr (as_user ref_limited ref_put_hi)" by code_simp
  have c: "BucketCORSMiddleware ref_env ref_put_hi (disk ref_world) = Inr []" by code_simp
  have m: "req_method (as_user ref_limited ref_put_hi) = ''PUT''" by code_simp
  have q: "dispatchObjectPUT ref_env (as_user ref_limited ref_put_hi) ref_world
     = UploadObjectHandler ref_env (as_user ref_limited ref_put_hi) ref_world"
    unfolding dispatchObjectPUT_def by (subst if_not_P, code_simp)+ (rule refl)
  show ?thesis
    by (simp add: storage_core_def storage_inner_def c v ref_put_hi_auth m RegisterStorageRoutes_def validated_def v2 q split: prod.split)
qed

lemma ref_put_hi_router:
  "snd (snd (snd (NewStorageRouter ref_surface ref_limits ref_env 5 ''r1'' ref_bolt ref_limited_store RouteObject ref_put_hi (ref_ban, ref_rates, ref_world))))
     = snd (storage_core ref_surface ref_env ref_bolt ref_limited_store RouteObject ref_put_hi ref_world)"
proof -
  have "\<not> ibEnabled (ban_cfg ref_ban)" "\<not> rlEnabled (rc_cfg ref_rates)" by code_simp+
  moreover have "ref_put_hi\<lparr>ctx_requestID := ''r1''\<rparr> = ref_put_hi" by code_simp
  ultimately show ?thesis
    by (simp add: NewStorageRouter_def RequestID_world IPBanMiddleware_def RateLimitMiddleware_def split: prod.split)
qed

lemma writes_need_a_signature_witness:
  "\<exists>r1 u. ValidateNames (ref_put_hi\<lparr>ctx_requestID := ''r1''\<rparr>) = Inr r1
     \<and> (isUserAllowed u ''PUT'' ''bkt''
          \<and> header_evidence ref_env ref_bolt ref_limited_store r1
              (auth_params (TrimPrefix (GetHeader r1 ''Authorization'') ''AWS4-HMAC-SHA256 '')) u
        \<or> presigned_evidence ref_env ref_bolt ref_limited_store r1 u)"
proof -
  obtain resp bc' rc' w' where run: "NewStorageRouter ref_surface ref_limits ref_env 5 ''r1'' ref_bolt ref_limited_store RouteObject
      ref_put_hi (ref_ban, ref_rates, ref_world) = (resp, bc', rc', w')" by (metis surj_pair)
  have p: "req_method ref_put_hi = ''PUT''" "param_bucket ref_put_hi = ''bkt''" by code_simp+
  have "disk (snd (UploadObjectHandler ref_env (as_user ref_limited ref_put_hi) ref_world)) \<noteq> disk ref_world" by code_simp
  then have "w' \<noteq> ref_world" using ref_put_hi_router ref_put_hi_core run by (metis snd_conv)
  from writes_need_a_signature[OF run _ this] p show ?thesis by simp
qed

text \<open>C26: A copy asks for rights on its destination only.  A PUT accepted for the destination's bucket,
  of a user who may not read the source's bucket, and answered 200, has stored the source's bytes
  at the destination, with their ETag.\<close>

theorem copy_ignores_source_permission:
  assumes "authenticated E B d w r r2" "ctx_user r2 = Some u" "req_method r2 = ''PUT''" "BucketCORSMiddleware E r (disk w) = Inr hs"
    and "names_ok b k" "for_object b k r2" "\<not> hasQuery r2 ''acl''" "\<not> hasQuery r2 ''tagging''" "Query r2 ''uploadId'' = []"
    and "parseCopySource r2 = Inr (sb, sk)" "\<not> isUserAllowed u ''GET'' sb"
    and "stored (lb E) sb sk body t etag (disk w)" "utf8_meta (lb E) sb sk (disk w)"
    and "fresh_tmp E b k" "utf8_request r2" "meta_codec_ok (lb E)"
    and "storage_core S E B d RouteObject r w = (resp, w')" "status resp = 200"
  shows "stored (lb E) b k body (now E) (formatETag (md5 (lb E) body)) (disk w')"
proof -
  have "RegisterStorageRoutes S RouteObject (req_method r2) = Some (validated dispatchObjectPUT)"
    using assms(3) by (simp add: RegisterStorageRoutes_def)
  note core = core_handler[OF assms(1,4) this]
  have "\<not> bucket_addressed r2" using assms(5,6) names_ok_nonempty by (auto simp: bucket_addressed_def for_object_def)
  then have "dispatchObjectPUT E r2 w = CopyObjectHandler E r2 w" by (rule dispatch_copy) fact+
  then have c: "CopyObjectHandler E r2 w = (fst (CopyObjectHandler E r2 w), w')" "status (fst (CopyObjectHandler E r2 w)) = 200"
    using core assms(17,18) by auto
  show ?thesis by (rule Copy_stored[OF assms(5,6,14,15,16,10,12,13) c])
qed

lemma copy_ignores_source_permission_witness:
  "\<not> isUserAllowed ref_limited ''GET'' ''src''
   \<and> stored ref_lib ''bkt'' ''k'' ''data'' 5 (formatETag (md5 ref_lib ''data''))
       (disk (snd (storage_core ref_surface ref_env ref_bolt ref_limited_store RouteObject ref_put_copy ref_src_world)))"
proof -
  let ?r2 = "as_user ref_limited ref_put_copy" and ?u = "ref_request ''PUT'' ''src'' ''s'' ''data''"
  let ?run = "storage_core ref_surface ref_env ref_bolt ref_limited_store RouteObject ref_put_copy ref_src_world"
  have "ValidateNames ref_put_copy = Inr ref_put_copy" by code_simp
  then have a: "authenticated ref_env ref_bolt ref_limited_store ref_src_world ref_put_copy ?r2"
    using ref_put_copy_auth by (auto simp: authenticated_def)
  have u: "names_ok ''src'' ''s''" "for_object ''src'' ''s'' ?u" "fresh_tmp ref_env ''src'' ''s''" "utf8_request ?u"
    "status (fst (UploadObjectHandler ref_env ?u ref_world)) = 200" by code_simp+
  have src: "stored (lb ref_env) ''src'' ''s'' ''data'' 5 (formatETag (md5 ref_lib ''data'')) (disk ref_src_world)"
    using Upload_stored[OF u(1,2) ref_world_wf u(3,4) _ surjective_pairing u(5)] ref_lib_ok(3)
    by (simp add: ref_src_world_def)
  have um: "utf8_meta (lb ref_env) ''src'' ''s'' (disk ref_src_world)"
  proof -
    obtain raw t where n: "node_at (disk ref_src_world) (object_meta_segs ''src'' ''s'') = Some (File raw t)"
      using src by (auto simp: stored_def)
    have "case node_at (disk ref_src_world) (object_meta_segs ''src'' ''s'') of
        Some (File raw t) \<Rightarrow> (case meta_dec ref_lib raw of Some m \<Rightarrow> list_all (\<lambda>(k, v). ValidString k \<and> ValidString v) m | None \<Rightarrow> True)
      | _ \<Rightarrow> True" by code_simp
    then show ?thesis using n by (auto simp: utf8_meta_def valid_meta_def list_all_iff)
  qed
  have cors: "BucketCORSMiddleware ref_env ref_put_copy (disk ref_src_world) = Inr []"
  proof -
    have "GetHeader ref_put_copy ''Origin'' = []" by code_simp
    then show ?thesis by (simp add: BucketCORSMiddleware_def)
  qed
  have c: "ctx_user ?r2 = Some ref_limited" "req_method ?r2 = ''PUT''"
    by (simp_all add: as_user_def ref_put_copy_def ref_put_def ref_put_unsigned_def ref_request_def Let_def)
  have o: "names_ok ''bkt'' ''k''" "for_object ''bkt'' ''k'' ?r2" by code_simp+
  have n: "\<not> hasQuery ?r2 ''acl''" "\<not> hasQuery ?r2 ''tagging''" "Query ?r2 ''uploadId'' = []" by code_simp+
  have s: "parseCopySource ?r2 = Inr (''src'', ''s'')" "\<not> isUserAllowed ref_limited ''GET'' ''src''" by code_simp+
  have f: "fresh_tmp ref_env ''bkt'' ''k''" "utf8_request ?r2" by code_simp+
  have "RegisterStorageRoutes ref_surface RouteObject (req_method ?r2) = Some (validated dispatchObjectPUT)"
    using c(2) by (simp add: RegisterStorageRoutes_def)
  from core_handler[OF a cors this] have "status (fst ?run) = status (fst (dispatchObjectPUT ref_env ?r2 ref_src_world))" by simp
  also have "\<dots> = 200" by code_simp
  finally have ok: "status (fst ?run) = 200" .
  show ?thesis
    using copy_ignores_source_permission[OF a c cors o n s src um f _ surjective_pairing ok] ref_lib_ok(3) s(2) by simp
qed

section \<open>Multipart uploads\<close>

text \<open>C9: Multipart round trip: an upload is created, distinct parts are uploaded and it is completed
  with exactly the parts the uploads returned; a later plain GET answers 200 with the
  concatenation of the part bodies, in order, and with the composite ETag, the digest of the
  part digests followed by the number of parts.\<close>

theorem multipart_then_get:
  assumes "names_ok b k" "fs_wf (disk w)" "meta_codec_ok (lb E)" "manifest_codec_ok (lb E)"
    and "valid_meta md" "ValidString k" "ValidString b" "ValidString (uuid E)"
    and "CreateMultipartUpload E b k md (disk w) = (Inr up, fs1)"
    and "lb E1 = lb E" "distinct (map fst ps)" "upload_parts E1 b k (mpUploadID up) ps fs1 = (Some qs, fs2)"
    and "CompleteMultipartUpload E1 b k (mpUploadID up) qs fs2 = (Inr (etag, nb), fs3)"
    and "for_object b k r" "lb E2 = lb E" "readable E2 b k" "unconditional r" "GetHeader r ''Range'' = []"
  shows "status (fst (DownloadObjectHandler E2 r (w\<lparr>disk := fs3\<rparr>))) = 200
    \<and> payload (fst (DownloadObjectHandler E2 r (w\<lparr>disk := fs3\<rparr>))) = RawBody (concat (map snd ps))
    \<and> map_of (headers (fst (DownloadObjectHandler E2 r (w\<lparr>disk := fs3\<rparr>)))) ''Etag''
        = Some (composite_etag (lb E) (concat (map (md5 (lb E) \<circ> snd) ps)) (length ps))"
proof -
  note wf1 = Create_facts(1)[OF assms(2,9)]
  have "ps \<noteq> []" using assms(12,13) by (auto simp: CompleteMultipartUpload_def complete_check_def split: sum.splits if_splits)
  then obtain n src ps' where "ps = (n, src) # ps'" by (metis list.exhaust surj_pair)
  then obtain up' dir where o: "openUpload E1 b k (mpUploadID up) fs1 = Inr (up', dir)"
    using assms(12) by (cases "openUpload E1 b k (mpUploadID up) fs1")
      (auto simp: UploadPart_def split: if_splits prod.splits sum.splits)
  note vm = Create_opens[OF assms(2,9,4-8) assms(10) o]
  note m = multipart_stored[OF assms(1) wf1 o vm _ assms(11-13)]
  have "stored (lb E2) b k (concat (map snd ps)) (now E1) etag (disk (w\<lparr>disk := fs3\<rparr>))"
    "etag = composite_etag (lb E) (concat (map (md5 (lb E) \<circ> snd) ps)) (length ps)"
    using m(1,2) assms(3,10,15) by simp_all
  with Download_whole[OF assms(1,14) _ assms(16-18)] show ?thesis by blast
qed

definition ref_parts :: "(int \<times> bytes) list" where "ref_parts = [(1, ''ab''), (7, ''c'')]"

definition ref_created :: fs where
  "ref_created = snd (CreateMultipartUpload ref_env ''bkt'' ''k'' [] (disk ref_world))"

lemma ref_created: "\<exists>up. CreateMultipartUpload ref_env ''bkt'' ''k'' [] (disk ref_world) = (Inr up, ref_created) \<and> mpUploadID up = ''u1''"
proof -
  have "case fst (CreateMultipartUpload ref_env ''bkt'' ''k'' [] (disk ref_world)) of Inr up \<Rightarrow> mpUploadID up = ''u1'' | _ \<Rightarrow> False"
    by code_simp
  then show ?thesis unfolding ref_created_def by (auto split: sum.splits simp: prod_eq_iff)
qed

definition ref_uploaded :: "UploadedPart list option \<times> fs" where
  "ref_uploaded = upload_parts ref_env ''bkt'' ''k'' ''u1'' ref_parts ref_created"

definition ref_completed :: "(mp_error + string \<times> nat) \<times> fs" where
  "ref_completed = CompleteMultipartUpload ref_env ''bkt'' ''k'' ''u1'' (the (fst ref_uploaded)) (snd ref_uploaded)"

lemma ref_uploaded: "upload_parts ref_env ''bkt'' ''k'' ''u1'' ref_parts ref_created = (Some (the (fst ref_uploaded)), snd ref_uploaded)"
proof -
  have "fst ref_uploaded \<noteq> None" by code_simp
  then show ?thesis by (simp add: ref_uploaded_def prod_eq_iff)
qed

lemma ref_completed: "\<exists>etag. CompleteMultipartUpload ref_env ''bkt'' ''k'' ''u1'' (the (fst ref_uploaded)) (snd ref_uploaded)
    = (Inr (etag, 3), snd ref_completed)"
proof -
  have "case fst ref_completed of Inr (_, nb) \<Rightarrow> nb = 3 | _ \<Rightarrow> False" by code_simp
  then show ?thesis by (auto split: sum.splits simp: ref_completed_def prod_eq_iff)
qed

lemma multipart_then_get_witness:
  "payload (fst (DownloadObjectHandler ref_env (ref_request ''GET'' ''bkt'' ''k'' []) (ref_world\<lparr>disk := snd ref_completed\<rparr>))) = RawBody ''abc''"
proof -
  let ?g = "ref_request ''GET'' ''bkt'' ''k'' []"
  obtain up where up: "CreateMultipartUpload ref_env ''bkt'' ''k'' [] (disk ref_world) = (Inr up, ref_created)" "mpUploadID up = ''u1''"
    using ref_created by blast
  obtain etag where co: "CompleteMultipartUpload ref_env ''bkt'' ''k'' ''u1'' (the (fst ref_uploaded)) (snd ref_uploaded)
    = (Inr (etag, 3), snd ref_completed)" using ref_completed by blast
  have h: "names_ok ''bkt'' ''k''" "valid_meta []" "ValidString ''k''" "ValidString ''bkt''" "ValidString (uuid ref_env)"
    "distinct (map fst ref_parts)" by code_simp+
  have g: "for_object ''bkt'' ''k'' ?g" "unconditional ?g" "GetHeader ?g ''Range'' = []" by code_simp+
  have c: "meta_codec_ok (lb ref_env)" "manifest_codec_ok (lb ref_env)" using ref_lib_ok(3) ref_manifest_ok by simp_all
  show ?thesis
    using multipart_then_get[OF h(1) ref_world_wf c h(2-5) up(1) refl h(6) ref_uploaded[folded up(2)] co[folded up(2)] g(1) refl ref_readable g(2,3)]
    by (simp add: ref_parts_def)
qed

end
