(* ===== verification/Subresource_Theorems.thy ===== *)
theory Subresource_Theorems
  imports Surface_Theorems
begin

text \<open>
  Properties of the subresources: completing an upload, batch deletes, cross-origin rules and
  ACL changes.
\<close>

section \<open>Multipart uploads\<close>

text \<open>C12: Completing an upload touches, among all files, only the object, its metadata, its temporary
  file and the staging area; when it succeeds, the parts were named in ascending order, each
  with the digest of its bytes, and the object is the concatenation of these bytes under the
  composite ETag.\<close>

theorem completed_parts_are_verified:
  assumes "names_ok b k" "fs_wf fs" "CompleteMultipartUpload E b k uid expected fs = (x, fs')"
  shows "fs_wf fs' \<and> same_files (completes b k) fs fs'
    \<and> (\<forall>etag nb. x = Inr (etag, nb) \<longrightarrow>
        (\<exists>cs. list_all2 (digest_named (lb E)) expected cs \<and> ascending expected \<and> expected \<noteq> []
          \<and> node_at fs' (object_segs b k) = Some (File (concat cs) (now E)) \<and> nb = length (concat cs)
          \<and> etag = composite_etag (lb E) (concat (map (md5 (lb E)) cs)) (length expected)))"
proof -
  note f = Complete_facts[OF assms]
  have v: "\<exists>cs. list_all2 (digest_named (lb E)) expected cs \<and> ascending expected \<and> expected \<noteq> []
          \<and> node_at fs' (object_segs b k) = Some (File (concat cs) (now E)) \<and> nb = length (concat cs)
          \<and> etag = composite_etag (lb E) (concat (map (md5 (lb E)) cs)) (length expected)" if "x = Inr (etag, nb)" for etag nb
    by (rule Complete_verified[OF assms(1,2) assms(3)[unfolded that]])
  from f v show ?thesis by blast
qed

text \<open>The two parts of the upload of \<open>Surface_Theorems\<close>, numbered 1 and 7, completed: the object is verified.\<close>

lemma completed_parts_are_verified_witness:
  "\<exists>etag cs. CompleteMultipartUpload ref_env ''bkt'' ''k'' ''u1'' (the (fst ref_uploaded)) (snd ref_uploaded)
       = (Inr (etag, 3), snd ref_completed)
     \<and> list_all2 (digest_named (lb ref_env)) (the (fst ref_uploaded)) cs \<and> length cs = 2
     \<and> node_at (snd ref_completed) (object_segs ''bkt'' ''k'') = Some (File (concat cs) (now ref_env)) \<and> concat cs = ''abc''
     \<and> etag = composite_etag (lb ref_env) (concat (map (md5 (lb ref_env)) cs)) 2"
proof -
  have n: "names_ok ''bkt'' ''k''" by code_simp
  obtain up where up: "CreateMultipartUpload ref_env ''bkt'' ''k'' [] (disk ref_world) = (Inr up, ref_created)" "mpUploadID up = ''u1''"
    using ref_created by blast
  have "\<not> isl (openUpload ref_env ''bkt'' ''k'' ''u1'' ref_created)" "distinct (map fst ref_parts)" by code_simp+
  then obtain up' dir where "openUpload ref_env ''bkt'' ''k'' ''u1'' ref_created = Inr (up', dir)"
    by (cases "openUpload ref_env ''bkt'' ''k'' ''u1'' ref_created") auto
  from upload_parts_facts[OF Create_facts(1)[OF ref_world_wf up(1)] this ref_uploaded \<open>distinct (map fst ref_parts)\<close>]
  have wf: "fs_wf (snd ref_uploaded)" by (rule conjunct1)
  obtain etag where co: "CompleteMultipartUpload ref_env ''bkt'' ''k'' ''u1'' (the (fst ref_uploaded)) (snd ref_uploaded)
    = (Inr (etag, 3), snd ref_completed)" using ref_completed by blast
  have two: "length (the (fst ref_uploaded)) = 2" by code_simp
  have abc: "node_at (snd ref_completed) (object_segs ''bkt'' ''k'') = Some (File ''abc'' (now ref_env))" by code_simp
  from completed_parts_are_verified[OF n wf co] obtain cs where "list_all2 (digest_named (lb ref_env)) (the (fst ref_uploaded)) cs"
    "node_at (snd ref_completed) (object_segs ''bkt'' ''k'') = Some (File (concat cs) (now ref_env))"
    "etag = composite_etag (lb ref_env) (concat (map (md5 (lb ref_env)) cs)) (length (the (fst ref_uploaded)))" by blast
  then show ?thesis using co abc two list_all2_lengthD[of "digest_named (lb ref_env)" "the (fst ref_uploaded)" cs]
    by (intro exI[of _ etag] exI[of _ cs]) simp
qed

section \<open>Batch delete\<close>

text \<open>C25: A batch delete either answers 400 and changes nothing, or it names between one and 1000 keys;
  then every key is reported once, as deleted or as failed, no file changes but those of the
  valid keys named, and a key reported as deleted names no object any more.\<close>

theorem batch_delete_exact:
  assumes "ValidateBucketName (param_bucket r) = None" "fs_wf (disk w)" "DeleteObjectsHandler E r w = (resp, w')"
  shows "status resp = 400 \<and> w' = w
    \<or> (\<exists>ks quiet ds fs. parseDeleteRequest E r = Inr (ks, quiet) \<and> ks \<noteq> [] \<and> length ks \<le> 1000
        \<and> resp = respondXMLOrJSON r 200 (''DeleteResult'', delete_result (if quiet then [] else ds) fs)
                   (admin_delete_result (if quiet then [] else ds) fs)
        \<and> length ds + length fs = length ks \<and> set ds \<union> failKey ` set fs = set ks
        \<and> same_files (key_files (param_bucket r) (batch_keys ks)) (disk w) (disk w')
        \<and> (\<forall>raw\<in>set ds. \<exists>k. ValidateObjectKey raw = Inr k
              \<and> (\<forall>c t. node_at (disk w') (object_segs (param_bucket r) k) \<noteq> Some (File c t))))"
proof -
  let ?b = "param_bucket r"
  have ne: "?b \<noteq> []" using assms(1) ValidateBucketName_proper by (force simp: proper_seg_def)
  consider "status resp = 400 \<and> w' = w"
    | ks quiet ds fs where "parseDeleteRequest E r = Inr (ks, quiet)" "ks \<noteq> []" "length ks \<le> 1000"
        "delete_keys E ?b ks w = ((ds, fs), w')"
        "resp = respondXMLOrJSON r 200 (''DeleteResult'', delete_result (if quiet then [] else ds) fs)
                   (admin_delete_result (if quiet then [] else ds) fs)"
    using assms(3) ne
    by (auto simp: DeleteObjectsHandler_def Let_def maxDeleteKeys_def not_less split: sum.splits if_splits prod.splits)
  then show ?thesis
  proof cases
    case (2 ks quiet ds fs)
    note f = delete_keys_files[OF assms(1,2) 2(4)]
    have "\<forall>raw\<in>set ds. \<exists>k. ValidateObjectKey raw = Inr k
              \<and> (\<forall>c t. node_at (disk w') (object_segs ?b k) \<noteq> Some (File c t))"
      using delete_keys_deleted[OF assms(1,2) 2(4)] by blast
    with 2 f show ?thesis by blast
  qed simp
qed

definition ref_doomed :: bytes where "ref_doomed = put_list put_str [''k'', ''../x'']"

lemma batch_delete_exact_witness:
  "same_files (key_files ''bkt'' (batch_keys [''k'', ''../x'']))
     (disk (snd (UploadObjectHandler ref_env (ref_request ''PUT'' ''bkt'' ''k'' ''hi'') ref_world)))
     (disk (snd (DeleteObjectsHandler ref_env (ref_request ''POST'' ''bkt'' [] ref_doomed)
       (snd (UploadObjectHandler ref_env (ref_request ''PUT'' ''bkt'' ''k'' ''hi'') ref_world)))))"
proof -
  let ?w = "snd (UploadObjectHandler ref_env (ref_request ''PUT'' ''bkt'' ''k'' ''hi'') ref_world)"
    and ?r = "ref_request ''POST'' ''bkt'' [] ref_doomed"
  have h: "names_ok ''bkt'' ''k''" "for_object ''bkt'' ''k'' (ref_request ''PUT'' ''bkt'' ''k'' ''hi'')" "fresh_tmp ref_env ''bkt'' ''k''"
    by code_simp+
  have wf: "fs_wf (disk ?w)" using Upload_any[OF h(1,2) ref_world_wf h(3)] by blast
  have len: "length ref_doomed \<le> 100" by code_simp
  have dec: "delete_dec_xml ref_lib ref_doomed = Some ([''k'', ''../x''], False)"
    "is_json_body ?r = False" "req_body_fails ?r = False" by code_simp+
  have p: "parseDeleteRequest ref_env ?r = Inr ([''k'', ''../x''], False)"
    using len dec by (simp add: parseDeleteRequest_def ReadLimited_def deleteMaxBodyBytes_def)
  have s: "status (fst (DeleteObjectsHandler ref_env ?r ?w)) = 200"
    by (simp add: DeleteObjectsHandler_def p Let_def maxDeleteKeys_def del: delete_keys.simps split: prod.split)
  have b: "ValidateBucketName (param_bucket ?r) = None" by code_simp
  let ?w1 = "snd (DeleteObjectsHandler ref_env ?r ?w)"
  from batch_delete_exact[OF b wf surjective_pairing]
  have "status (fst (DeleteObjectsHandler ref_env ?r ?w)) = 400
      \<or> (\<exists>ks quiet. parseDeleteRequest ref_env ?r = Inr (ks, quiet)
            \<and> same_files (key_files (param_bucket ?r) (batch_keys ks)) (disk ?w) (disk ?w1))" by blast
  then obtain ks quiet where k: "parseDeleteRequest ref_env ?r = Inr (ks, quiet)"
    "same_files (key_files (param_bucket ?r) (batch_keys ks)) (disk ?w) (disk ?w1)" unfolding s by auto
  have "ks = [''k'', ''../x'']" "param_bucket ?r = ''bkt''" using k(1) unfolding p by simp_all
  with k(2) show ?thesis by simp
qed

section \<open>Cross-origin rules\<close>

definition allowed_by :: "env \<Rightarrow> request \<Rightarrow> fs \<Rightarrow> BucketCORSRule \<Rightarrow> bool" where
  "allowed_by E r fs rule \<longleftrightarrow> GetHeader r ''Origin'' \<noteq> [] \<and> bucketFromPath (req_path r) \<noteq> []
     \<and> (\<exists>rules. GetBucketCORS E (bucketFromPath (req_path r)) fs = Inr rules \<and> rule \<in> set rules)
     \<and> (\<exists>a\<in>set (AllowedOrigins rule). pattern_covers a (GetHeader r ''Origin''))
     \<and> (let m = (if req_method r = ''OPTIONS'' then GetHeader r ''Access-Control-Request-Method'' else req_method r)
        in m = [] \<or> (\<exists>a\<in>set (AllowedMethods rule). pattern_covers a m))
     \<and> headersAllowed (AllowedHeaders rule) (GetHeader r ''Access-Control-Request-Headers'')"

definition granted_origin :: "response + (string \<times> string) list \<Rightarrow> string option" where
  "granted_origin x = map_of (case x of Inl resp \<Rightarrow> headers resp | Inr hs \<Rightarrow> hs) ''Access-Control-Allow-Origin''"

lemma canon_cors:
  "CanonicalHeaderKey ''Access-Control-Allow-Origin'' = ''Access-Control-Allow-Origin''" "CanonicalHeaderKey ''Vary'' = ''Vary''"
  "CanonicalHeaderKey ''Access-Control-Allow-Methods'' = ''Access-Control-Allow-Methods''"
  "CanonicalHeaderKey ''Access-Control-Allow-Headers'' = ''Access-Control-Allow-Headers''"
  "CanonicalHeaderKey ''Access-Control-Expose-Headers'' = ''Access-Control-Expose-Headers''"
  "CanonicalHeaderKey ''Access-Control-Max-Age'' = ''Access-Control-Max-Age''"
  by code_simp+

lemma applyCORSHeaders_origin:
  "origin \<noteq> [] \<Longrightarrow> map_of (applyCORSHeaders rule origin []) ''Access-Control-Allow-Origin'' = Some origin"
  by (simp add: applyCORSHeaders_def header_list_def Let_def map_of_set_header canon_cors)

lemma matchCORSRule_iff:
  "matchCORSRule rs origin m h \<noteq> None \<longleftrightarrow>
     (\<exists>r\<in>set rs. matchList (AllowedOrigins r) origin \<and> (m = [] \<or> matchList (AllowedMethods r) m)
        \<and> headersAllowed (AllowedHeaders r) h)"
  by (induction rs) auto

lemma allowed_by_match:
  assumes "GetHeader r ''Origin'' \<noteq> []" "bucketFromPath (req_path r) \<noteq> []"
    "GetBucketCORS E (bucketFromPath (req_path r)) fs = Inr rules"
  shows "(\<exists>rule. allowed_by E r fs rule) \<longleftrightarrow>
     matchCORSRule rules (GetHeader r ''Origin'')
       (if req_method r = ''OPTIONS'' then GetHeader r ''Access-Control-Request-Method'' else req_method r)
       (GetHeader r ''Access-Control-Request-Headers'') \<noteq> None"
  unfolding matchCORSRule_iff allowed_by_def Let_def matchList_iff[symmetric] using assms by simp blast

text \<open>C37: Cross-origin headers need a rule: the middleware allows an origin exactly when the request has
  an Origin header and names a bucket whose stored rules have one that covers the origin by one
  of its patterns, the method and the requested headers; the origin is then echoed.\<close>

theorem cors_headers_need_a_rule:
  "granted_origin (BucketCORSMiddleware E r fs)
     = (if \<exists>rule. allowed_by E r fs rule then Some (GetHeader r ''Origin'') else None)"
proof (cases "GetHeader r ''Origin'' = [] \<or> bucketFromPath (req_path r) = []
    \<or> (\<exists>e. GetBucketCORS E (bucketFromPath (req_path r)) fs = Inl e)")
  case True
  then have "\<not> (\<exists>rule. allowed_by E r fs rule)" by (auto simp: allowed_by_def)
  with True show ?thesis
    by (auto simp: BucketCORSMiddleware_def granted_origin_def Let_def Status_def)
next
  case False
  then obtain rules where g: "GetBucketCORS E (bucketFromPath (req_path r)) fs = Inr rules" by (metis sum.exhaust)
  let ?m = "matchCORSRule rules (GetHeader r ''Origin'')
       (if req_method r = ''OPTIONS'' then GetHeader r ''Access-Control-Request-Method'' else req_method r)
       (GetHeader r ''Access-Control-Request-Headers'')"
  have iff: "(\<exists>rule. allowed_by E r fs rule) \<longleftrightarrow> ?m \<noteq> None" using allowed_by_match[OF _ _ g] False by blast
  show ?thesis
  proof (cases ?m)
    case None
    then show ?thesis using iff False g by (simp add: BucketCORSMiddleware_def granted_origin_def Let_def Status_def)
  next
    case (Some rule)
    then show ?thesis using iff False g applyCORSHeaders_origin
      by (simp add: BucketCORSMiddleware_def granted_origin_def Let_def Status_def add_headers_def)
  qed
qed

section \<open>ACL changes\<close>

lemma PutBucketACL_wf: "\<lbrakk>PutBucketACL E b canned fs = (x, fs'); fs_wf fs\<rbrakk> \<Longrightarrow> fs_wf fs'"
  using write_replace_wf[of fs E] by (auto simp: PutBucketACL_def split: sum.splits option.splits prod.splits) (metis snd_conv)+

text \<open>C38: A change of a bucket's ACL destroys the object whose name is that of the ACL's temporary file:
  the name is legal, and after a successful PUT of the bucket's ACL an object stored under it is
  gone, although nobody deleted it.\<close>

theorem acl_change_destroys_an_object:
  assumes "ValidateBucketName (param_bucket r) = None" "stored (lb E) (param_bucket r) ''.acl.json.tmp'' body t etag (disk w)"
    and "PutBucketACLHandler E r w = (resp, w')" "status resp = 200"
    and "for_object (param_bucket r) ''.acl.json.tmp'' r'"
  shows "ValidateObjectKey ''.acl.json.tmp'' = Inr ''.acl.json.tmp''
    \<and> status (fst (DownloadObjectHandler E' r' w')) = 404 \<and> error_code (fst (DownloadObjectHandler E' r' w')) = ''NoSuchKey''"
proof -
  have k: "ValidateObjectKey ''.acl.json.tmp'' = Inr ''.acl.json.tmp''" by code_simp
  then have n: "names_ok (param_bucket r) ''.acl.json.tmp''" using assms(1) by (simp add: names_ok_def)
  have "fs_wf (disk w')"
    using PutBucketACLHandler_cases[OF assms(1,3)] assms(2) by (auto simp: stored_def intro: PutBucketACL_wf)
  from Download_missing(1,2)[OF n assms(5) this acl_put_consumes[OF assms(1,3,4)]] k show ?thesis by simp
qed

lemma acl_change_destroys_an_object_witness:
  "status (fst (DownloadObjectHandler ref_env (ref_request ''GET'' ''bkt'' ''.acl.json.tmp'' [])
     (snd (PutBucketACLHandler ref_env ((ref_request ''PUT'' ''bkt'' [] [])\<lparr>req_header := [(''X-Amz-Acl'', [''private''])]\<rparr>)
       (snd (UploadObjectHandler ref_env (ref_request ''PUT'' ''bkt'' ''.acl.json.tmp'' ''hi'') ref_world)))))) = 404"
proof -
  let ?u = "ref_request ''PUT'' ''bkt'' ''.acl.json.tmp'' ''hi''" and ?g = "ref_request ''GET'' ''bkt'' ''.acl.json.tmp'' []"
    and ?a = "(ref_request ''PUT'' ''bkt'' [] [])\<lparr>req_header := [(''X-Amz-Acl'', [''private''])]\<rparr>"
  let ?w = "snd (UploadObjectHandler ref_env ?u ref_world)"
  have h: "names_ok ''bkt'' ''.acl.json.tmp''" "for_object ''bkt'' ''.acl.json.tmp'' ?u" "fresh_tmp ref_env ''bkt'' ''.acl.json.tmp''"
    "utf8_request ?u" "status (fst (UploadObjectHandler ref_env ?u ref_world)) = 200" by code_simp+
  have st: "stored (lb ref_env) ''bkt'' ''.acl.json.tmp'' ''hi'' 5 (formatETag (md5 ref_lib ''hi'')) (disk ?w)"
    using Upload_stored[OF h(1,2) ref_world_wf h(3,4) _ surjective_pairing h(5)] ref_lib_ok(3) by simp
  have a: "ValidateBucketName ''bkt'' = None" "status (fst (PutBucketACLHandler ref_env ?a ?w)) = 200"
    "for_object ''bkt'' ''.acl.json.tmp'' ?g" by code_simp+
  have b: "param_bucket ?a = ''bkt''" by simp
  have v: "ValidateBucketName (param_bucket ?a) = None" unfolding b by (rule a(1))
  have o: "for_object (param_bucket ?a) ''.acl.json.tmp'' ?g" unfolding b by (rule a(3))
  have st': "stored (lb ref_env) (param_bucket ?a) ''.acl.json.tmp'' ''hi'' 5 (formatETag (md5 ref_lib ''hi'')) (disk ?w)"
    unfolding b by (rule st)
  from acl_change_destroys_an_object[OF v st' surjective_pairing a(2) o] show ?thesis by blast
qed

end
