(* ===== verification/Byte_Words.thy ===== *)
theory Byte_Words
  imports Prelude "HOL-Library.List_Lexorder" "HOL-Library.Char_ord"
begin

text \<open>
  Big-endian encodings of fixed-width integers (\<open>encoding/binary\<close>), which the stores use as
  keys: the byte-wise order of the keys is the order of the numbers.
\<close>

text \<open>\<open>be_bytes k n\<close> is the last \<open>k\<close> bytes of \<open>n\<close> in two's complement; \<open>be_val\<close> reads bytes as an unsigned number.\<close>

fun be_bytes :: "nat \<Rightarrow> int \<Rightarrow> bytes" where
  "be_bytes 0 n = []"
| "be_bytes (Suc k) n = char_of (n div 256 ^ k mod 256) # be_bytes k n"

fun be_val :: "bytes \<Rightarrow> int" where
  "be_val [] = 0"
| "be_val (c # cs) = of_char c * 256 ^ length cs + be_val cs"

text \<open>\<open>int64(x)\<close> of an unsigned 64-bit number.\<close>

definition int64 :: "int \<Rightarrow> int" where
  "int64 n = (n + 2 ^ 63) mod 2 ^ 64 - 2 ^ 63"

lemma length_be_bytes [simp]: "length (be_bytes k n) = k"
  by (induction k) auto

lemma of_char_byte: "of_char (char_of (n mod 256 :: int)) = (n mod 256 :: int)"
  by (simp add: of_char_of)

lemma mod_div_step: "n div 256 ^ k mod 256 * 256 ^ k + n mod 256 ^ k = n mod (256 ^ Suc k :: int)"
  using zmod_zmult2_eq[of 256 n "256 ^ k"] by (simp add: mult.commute)

lemma be_val_bytes: "be_val (be_bytes k n) = n mod 256 ^ k"
proof (induction k)
  case (Suc k)
  have "be_val (be_bytes (Suc k) n) = n div 256 ^ k mod 256 * 256 ^ k + be_val (be_bytes k n)"
    by (simp only: be_bytes.simps be_val.simps length_be_bytes of_char_byte)
  then show ?case unfolding Suc.IH mod_div_step .
qed simp

lemma be_bytes_inj: "\<lbrakk>be_bytes k m = be_bytes k n; 0 \<le> m; m < 256 ^ k; 0 \<le> n; n < 256 ^ k\<rbrakk> \<Longrightarrow> m = n"
  by (metis be_val_bytes mod_pos_pos_trivial)

lemma of_char_range: "0 \<le> (of_char c :: int)" "(of_char c :: int) < 256"
  by (metis of_nat_0_le_iff of_nat_of_char) (metis nat_of_char_less_256 of_nat_less_numeral_iff of_nat_of_char)

lemma less_char: "c < d \<longleftrightarrow> (of_char c :: int) < of_char d"
  by (metis less_char_def of_nat_less_iff of_nat_of_char)

text \<open>Bytes of the same length compare as the numbers do.\<close>

lemma be_val_range: "0 \<le> be_val cs \<and> be_val cs < 256 ^ length cs"
proof (induction cs)
  case (Cons c cs)
  have "0 \<le> (of_char c :: int) \<and> (of_char c :: int) \<le> 255" using of_char_range[of c] by simp
  then have "(of_char c :: int) * 256 ^ length cs \<le> 255 * 256 ^ length cs" "0 \<le> (of_char c :: int) * 256 ^ length cs"
    by (simp_all add: mult_right_mono)
  then show ?case using Cons unfolding be_val.simps length_Cons power_Suc by linarith
qed simp

lemma less_be_val: "length a = length b \<Longrightarrow> a < b \<longleftrightarrow> be_val a < be_val b"
proof (induction a b rule: list_induct2)
  case (Cons x a y b)
  note r = be_val_range[of a] be_val_range[of b]
  have "be_val (x # a) < be_val (y # b) \<longleftrightarrow> (of_char x :: int) < of_char y \<or> (of_char x :: int) = of_char y \<and> be_val a < be_val b"
  proof (cases "(of_char x :: int)" "of_char y :: int" rule: linorder_cases)
    case less
    then have "(of_char x + 1) * 256 ^ length a \<le> (of_char y :: int) * 256 ^ length a" by (intro mult_right_mono) auto
    then show ?thesis using less r Cons.hyps by (auto simp: algebra_simps)
  next
    case greater
    then have "(of_char y + 1) * 256 ^ length a \<le> (of_char x :: int) * 256 ^ length a" by (intro mult_right_mono) auto
    then show ?thesis using greater r Cons.hyps by (auto simp: algebra_simps)
  qed (use Cons.hyps in simp)
  then show ?case using Cons.IH by (simp add: less_char)
qed simp

lemma less_append: "length a = length b \<Longrightarrow> a @ c < b @ d \<longleftrightarrow> a < b \<or> a = b \<and> c < d"
  by (induction a b rule: list_induct2) (auto simp: less_list_code)

lemma int64_small: "\<lbrakk>- (2 ^ 63) \<le> n; n < 2 ^ 63\<rbrakk> \<Longrightarrow> int64 n = n"
  by (simp add: int64_def)

lemma int64_mod: "int64 (n mod 2 ^ 64) = int64 n"
  unfolding int64_def by (simp add: mod_add_left_eq)

end
