(* ===== verification/Event_Log.thy ===== *)
theory Event_Log
  imports Complex_Main Library Byte_Words
begin

text \<open>
  The unified event log, \<open>internal/storage/events.go\<close>: two bolt buckets of events in time
  order with their caps, the buffer of data events and the flusher that drains it.
\<close>

section \<open>Events and their keys\<close>

record Event =
  TimeUnixNano :: int
  Category :: string
  Actor :: string
  Op :: string
  Target :: string
  evBucket :: string
  evKey :: string
  evStatus :: int
  ErrorCode :: string
  ClientIP :: string
  BytesIn :: int
  BytesOut :: int
  DurationMs :: rat
  UserAgent :: string
  Detail :: string

definition EventControl :: string where "EventControl = ''control''"
definition EventData :: string where "EventData = ''data''"
definition eventControlBucket :: string where "eventControlBucket = ''EventControl''"
definition eventDataBucket :: string where "eventDataBucket = ''EventData''"
definition maxControlEvents :: int where "maxControlEvents = 10000"
definition eventChanCap :: nat where "eventChanCap = 8192"

text \<open>
  What the log uses beside \<open>bolt\<close>: the JSON codec of an event, and the per-bucket counter that
  \<open>NextSequence\<close> increments and returns.
\<close>

record 'db event_lib =
  event_enc :: "Event \<Rightarrow> bytes option"
  event_dec :: "bytes \<Rightarrow> Event option"
  bseq :: "string \<Rightarrow> 'db \<Rightarrow> int"
  NextSequence :: "string \<Rightarrow> 'db \<Rightarrow> (int \<times> 'db) option"

text \<open>The live settings of the data-plane log, the buffered channel and the drop counter.\<close>

record access_log =
  accessEnabled :: bool
  accessMaxCount :: int
  accessMaxAgeNs :: duration
  eventCh :: "Event list"
  eventsDropped :: int

definition init_access_log :: access_log where
  "init_access_log = \<lparr>accessEnabled = False, accessMaxCount = 100000, accessMaxAgeNs = 30 * 24 * Hour, eventCh = [],
     eventsDropped = 0\<rparr>"

definition SetAccessLogEnabled :: "bool \<Rightarrow> access_log \<Rightarrow> access_log" where
  "SetAccessLogEnabled on st = st\<lparr>accessEnabled := on\<rparr>"

definition SetAccessLogMaxEvents :: "int \<Rightarrow> access_log \<Rightarrow> access_log" where
  "SetAccessLogMaxEvents n st = st\<lparr>accessMaxCount := (if n < 0 then 0 else n)\<rparr>"

definition SetAccessLogMaxAge :: "duration \<Rightarrow> access_log \<Rightarrow> access_log" where
  "SetAccessLogMaxAge d st = st\<lparr>accessMaxAgeNs := (if d < 0 then 0 else d)\<rparr>"

definition encodeEventKey :: "int \<Rightarrow> int \<Rightarrow> bytes" where
  "encodeEventKey nano seq = be_bytes 8 nano @ be_bytes 8 seq"

definition key_nano :: "bytes \<Rightarrow> int" where
  "key_nano k = int64 (be_val (take 8 k))"

definition bucketFor :: "string \<Rightarrow> string" where
  "bucketFor category = (if category = EventData then eventDataBucket else eventControlBucket)"

section \<open>Writing\<close>

text \<open>A write is one bolt transaction: \<open>None\<close> is an error, and the database stays as it was.\<close>

definition putEvent :: "'db event_lib \<Rightarrow> 'db bolt \<Rightarrow> string \<Rightarrow> Event \<Rightarrow> 'db \<Rightarrow> 'db option" where
  "putEvent L B b e d =
     (case NextSequence L b d of
        None \<Rightarrow> None
      | Some (seq, d1) \<Rightarrow>
          (case event_enc L e of
             None \<Rightarrow> None
           | Some val \<Rightarrow> bput B b (encodeEventKey (TimeUnixNano e) seq) val d1))"

fun delete_all :: "'db bolt \<Rightarrow> string \<Rightarrow> bytes list \<Rightarrow> 'db \<Rightarrow> 'db option" where
  "delete_all B b [] d = Some d"
| "delete_all B b (k # ks) d = (case bdelete B b k d of None \<Rightarrow> None | Some d1 \<Rightarrow> delete_all B b ks d1)"

definition pruneByAge :: "'db bolt \<Rightarrow> string \<Rightarrow> int \<Rightarrow> 'db \<Rightarrow> 'db option" where
  "pruneByAge B b cutoffNano d =
     delete_all B b (takeWhile (\<lambda>k. \<not> key_nano k \<ge> cutoffNano) (map fst (bitems B b d))) d"

definition pruneByCount :: "'db bolt \<Rightarrow> string \<Rightarrow> int \<Rightarrow> 'db \<Rightarrow> 'db option" where
  "pruneByCount B b mx d =
     (if mx \<le> 0 then Some d
      else let over = int (length (bitems B b d)) - mx
           in if over \<le> 0 then Some d else delete_all B b (take (nat over) (map fst (bitems B b d))) d)"

definition pruneBucket :: "'db bolt \<Rightarrow> access_log \<Rightarrow> string \<Rightarrow> string \<Rightarrow> time \<Rightarrow> 'db \<Rightarrow> 'db option" where
  "pruneBucket B st b category t d =
     (if category = EventData then
        (case (if accessMaxAgeNs st > 0 then pruneByAge B b (t - accessMaxAgeNs st) d else Some d) of
           None \<Rightarrow> None
         | Some d1 \<Rightarrow> pruneByCount B b (accessMaxCount st) d1)
      else pruneByCount B b maxControlEvents d)"

definition AppendEvent :: "'db event_lib \<Rightarrow> 'db bolt \<Rightarrow> access_log \<Rightarrow> Event \<Rightarrow> 'db \<Rightarrow> 'db option" where
  "AppendEvent L B st e d =
     (let b = bucketFor (Category e)
      in case putEvent L B b e d of
           None \<Rightarrow> None
         | Some d1 \<Rightarrow> pruneBucket B st b (Category e) (TimeUnixNano e) d1)"

fun put_events :: "'db event_lib \<Rightarrow> 'db bolt \<Rightarrow> string \<Rightarrow> Event list \<Rightarrow> 'db \<Rightarrow> 'db option" where
  "put_events L B b [] d = Some d"
| "put_events L B b (e # es) d = (case putEvent L B b e d of None \<Rightarrow> None | Some d1 \<Rightarrow> put_events L B b es d1)"

definition flushEvents :: "'db event_lib \<Rightarrow> 'db bolt \<Rightarrow> access_log \<Rightarrow> time \<Rightarrow> Event list \<Rightarrow> 'db \<Rightarrow> 'db option" where
  "flushEvents L B st t batch d =
     (if batch = [] then Some d
      else case put_events L B eventDataBucket batch d of
          None \<Rightarrow> None
        | Some d1 \<Rightarrow> pruneBucket B st eventDataBucket EventData t d1)"

section \<open>Reading\<close>

fun query_scan :: "'db event_lib \<Rightarrow> nat \<Rightarrow> int \<Rightarrow> (bytes \<times> bytes) list \<Rightarrow> Event list" where
  "query_scan L limit beforeNano [] = []"
| "query_scan L limit beforeNano ((k, v) # xs) =
     (if limit = 0 then []
      else if beforeNano > 0 \<and> key_nano k \<ge> beforeNano then query_scan L limit beforeNano xs
      else case event_dec L v of
          None \<Rightarrow> query_scan L limit beforeNano xs
        | Some e \<Rightarrow> e # query_scan L (limit - 1) beforeNano xs)"

definition QueryEvents :: "'db event_lib \<Rightarrow> 'db bolt \<Rightarrow> string \<Rightarrow> int \<Rightarrow> int \<Rightarrow> 'db \<Rightarrow> Event list" where
  "QueryEvents L B category limit beforeNano d =
     (if limit \<le> 0 then [] else query_scan L (nat limit) beforeNano (rev (bitems B (bucketFor category) d)))"

section \<open>The buffer and the flusher\<close>

definition EnqueueEvent :: "Event \<Rightarrow> access_log \<Rightarrow> access_log" where
  "EnqueueEvent e st =
     (if \<not> accessEnabled st then st
      else if length (eventCh st) < eventChanCap then st\<lparr>eventCh := eventCh st @ [e]\<rparr>
      else st\<lparr>eventsDropped := eventsDropped st + 1\<rparr>)"

text \<open>The flusher holds a batch; a failed flush is logged and its batch is gone.\<close>

record 'db flusher =
  batch :: "Event list"
  flog :: access_log
  fdb :: 'db

definition flush :: "'db event_lib \<Rightarrow> 'db bolt \<Rightarrow> time \<Rightarrow> 'db flusher \<Rightarrow> 'db flusher" where
  "flush L B t f = \<lparr>batch = [], flog = (flog f)\<lparr>eventsDropped := 0\<rparr>,
     fdb = (case flushEvents L B (flog f) t (batch f) (fdb f) of None \<Rightarrow> fdb f | Some d \<Rightarrow> d)\<rparr>"

text \<open>One event from the channel.\<close>

definition take_event :: "Event \<Rightarrow> Event list \<Rightarrow> 'db flusher \<Rightarrow> 'db flusher" where
  "take_event e es f = f\<lparr>batch := batch f @ [e], flog := (flog f)\<lparr>eventCh := es\<rparr>\<rparr>"

text \<open>
  What a step did, for the observer: nothing, an event accepted into the channel, a batch written
  under the settings and at the time of its flush, or a batch dropped because its transaction failed.
\<close>

datatype observation = Silent | Accepted Event | Flushed access_log time "Event list" | Dropped "Event list"

definition flush_result :: "'db event_lib \<Rightarrow> 'db bolt \<Rightarrow> time \<Rightarrow> 'db flusher \<Rightarrow> observation" where
  "flush_result L B t f =
     (case flushEvents L B (flog f) t (batch f) (fdb f) of
        None \<Rightarrow> Dropped (batch f)
      | Some _ \<Rightarrow> Flushed (flog f) t (batch f))"

text \<open>
  A round of the loop, or a handler at work meanwhile: the channel yields an event, the ticker
  fires, a handler enqueues an event, changes the settings or appends a control event.
\<close>

inductive flusher_step :: "'db event_lib \<Rightarrow> 'db bolt \<Rightarrow> nat \<Rightarrow> 'db flusher \<Rightarrow> observation \<Rightarrow> 'db flusher \<Rightarrow> bool"
  for L :: "'db event_lib" and B :: "'db bolt" and maxBatch :: nat where
  receive: "\<lbrakk>eventCh (flog f) = e # es; f1 = take_event e es f; length (batch f1) < maxBatch\<rbrakk>
     \<Longrightarrow> flusher_step L B maxBatch f Silent f1"
| receive_full: "\<lbrakk>eventCh (flog f) = e # es; f1 = take_event e es f; length (batch f1) \<ge> maxBatch\<rbrakk>
     \<Longrightarrow> flusher_step L B maxBatch f (flush_result L B t f1) (flush L B t f1)"
| tick: "flusher_step L B maxBatch f (flush_result L B t f) (flush L B t f)"
| enqueue: "\<lbrakk>st = EnqueueEvent e (flog f)\<rbrakk>
     \<Longrightarrow> flusher_step L B maxBatch f (if eventCh st = eventCh (flog f) then Silent else Accepted e) (f\<lparr>flog := st\<rparr>)"
| configure: "eventCh st = eventCh (flog f) \<Longrightarrow> flusher_step L B maxBatch f Silent (f\<lparr>flog := st\<rparr>)"
| audit: "\<lbrakk>Category e = EventControl; AppendEvent L B (flog f) e (fdb f) = Some d\<rbrakk>
     \<Longrightarrow> flusher_step L B maxBatch f Silent (f\<lparr>fdb := d\<rparr>)"

text \<open>
  The drain after cancellation, when no more events come: at most \<open>eventChanCap + 1\<close> rounds, each
  takes an event or finds the channel empty, flushes and stops.  \<open>clk\<close> is the clock by round; what
  the rounds did is the trace.
\<close>

fun final_drain ::
  "'db event_lib \<Rightarrow> 'db bolt \<Rightarrow> nat \<Rightarrow> (nat \<Rightarrow> time) \<Rightarrow> nat \<Rightarrow> 'db flusher \<Rightarrow> observation list \<times> 'db flusher" where
  "final_drain L B maxBatch clk 0 f = ([flush_result L B (clk 0) f], flush L B (clk 0) f)"
| "final_drain L B maxBatch clk (Suc n) f =
     (case eventCh (flog f) of
        [] \<Rightarrow> ([flush_result L B (clk (Suc n)) f], flush L B (clk (Suc n)) f)
      | e # es \<Rightarrow>
          (let f1 = take_event e es f
           in if length (batch f1) \<ge> maxBatch
              then (let (tr, f2) = final_drain L B maxBatch clk n (flush L B (clk (Suc n)) f1)
                    in (flush_result L B (clk (Suc n)) f1 # tr, f2))
              else (let (tr, f2) = final_drain L B maxBatch clk n f1 in (Silent # tr, f2))))"

definition drain_rounds :: nat where "drain_rounds = eventChanCap + 1"

end
