(* ===== verification/Event_Laws.thy ===== *)
theory Event_Laws
  imports Event_Log
begin

text \<open>
  What the operations of the event log do to the buckets: a write inserts in key order, pruning
  drops a prefix, a query takes from the newest end; and every accepted event is in one batch of the flusher.
\<close>

section \<open>Buckets as sorted lists\<close>

lemma sorted_items_unique:
  assumes "sorted (map fst xs)" "distinct (map fst xs)" "sorted (map fst ys)" "distinct (map fst ys)" "map_of xs = map_of ys"
  shows "xs = ys"
proof -
  have "set (map fst xs) = set (map fst ys)" using assms(5) by (metis dom_map_of_conv_image_fst list.set_map)
  then have k: "map fst xs = map fst ys" using assms(1-4) sorted_distinct_set_unique by blast
  have s: "map snd zs = map (\<lambda>k. the (map_of zs k)) (map fst zs)" if "distinct (map fst zs)" for zs :: "('a \<times> 'b) list"
    using that by (auto simp: map_of_is_SomeI)
  then have "map snd xs = map snd ys" using s[OF assms(2)] s[OF assms(4)] k assms(5) by metis
  with k show ?thesis by (metis zip_map_fst_snd)
qed

lemma map_fst_insort: "map fst (insort_key fst x xs) = insort (fst x) (map fst xs)"
  by (induction xs) auto

lemma bput_items:
  assumes "bolt_ok B" "bput B b k v d = Some d'" "k \<notin> fst ` set (bitems B b d)"
  shows "bitems B b d' = insort_key fst (k, v) (bitems B b d)"
proof (rule sorted_items_unique)
  note i = bolt_items[OF assms(1)]
  show "sorted (map fst (bitems B b d'))" "distinct (map fst (bitems B b d'))" by (rule i)+
  show "sorted (map fst (insort_key fst (k, v) (bitems B b d)))" using i(1) by (rule sorted_insort_key[THEN iffD2])
  have set: "set (insort_key fst (k, v) (bitems B b d)) = insert (k, v) (set (bitems B b d))" by (rule set_insort_key)
  show dist: "distinct (map fst (insort_key fst (k, v) (bitems B b d)))"
    using i(2) assms(3) by (simp add: map_fst_insort distinct_insort)
  show "map_of (bitems B b d') = map_of (insort_key fst (k, v) (bitems B b d))"
  proof
    fix k'
    have m: "map_of (insort_key fst (k, v) (bitems B b d)) k' = Some x \<longleftrightarrow> k' = k \<and> x = v \<or> (k', x) \<in> set (bitems B b d)" for x
      using map_of_eq_Some_iff[OF dist] set by auto
    have "map_of (bitems B b d') k' = (if k' = k then Some v else bget B b k' d)"
      using i(3) bolt_put[OF assms(1,2)] by simp
    also have "\<dots> = map_of (insort_key fst (k, v) (bitems B b d)) k'"
    proof (cases "k' = k")
      case True
      then show ?thesis using m[of v] by simp
    next
      case False
      then show ?thesis using m bolt_items_mem[OF assms(1), of k' _ b d] by (metis option.exhaust)
    qed
    finally show "map_of (bitems B b d') k' = map_of (insort_key fst (k, v) (bitems B b d)) k'" .
  qed
qed

lemma bput_other_items: "\<lbrakk>bolt_ok B; bput B b k v d = Some d'; b' \<noteq> b\<rbrakk> \<Longrightarrow> bitems B b' d' = bitems B b' d"
  by (rule bolt_items_eqI) (auto simp: bolt_put)

lemma bdelete_items:
  assumes "bolt_ok B" "bdelete B b k d = Some d'"
  shows "bitems B b' d' = (if b' = b then filter (\<lambda>x. fst x \<noteq> k) (bitems B b d) else bitems B b' d)"
proof (cases "b' = b")
  case True
  note i = bolt_items[OF assms(1)]
  have "bitems B b d' = filter (\<lambda>x. fst x \<noteq> k) (bitems B b d)"
  proof (rule sorted_items_unique)
    show "sorted (map fst (bitems B b d'))" "distinct (map fst (bitems B b d'))" by (rule i)+
    show "sorted (map fst (filter (\<lambda>x. fst x \<noteq> k) (bitems B b d)))" using i(1) by (rule sorted_filter)
    show "distinct (map fst (filter (\<lambda>x. fst x \<noteq> k) (bitems B b d)))" using i(2) by (rule distinct_map_filter)
    have "map_of (filter (\<lambda>x. fst x \<noteq> k) xs) k' = (if k' = k then None else map_of xs k')" for xs :: "(bytes \<times> bytes) list" and k'
      by (induction xs) auto
    then show "map_of (bitems B b d') = map_of (filter (\<lambda>x. fst x \<noteq> k) (bitems B b d))"
      using i(3) bolt_delete[OF assms] by (intro ext) auto
  qed
  then show ?thesis using True by simp
next
  case False
  then show ?thesis using assms by (auto intro: bolt_items_eqI simp: bolt_delete)
qed

lemma delete_all_items:
  "\<lbrakk>bolt_ok B; delete_all B b ks d = Some d'\<rbrakk> \<Longrightarrow>
     bitems B b' d' = (if b' = b then filter (\<lambda>x. fst x \<notin> set ks) (bitems B b d) else bitems B b' d)"
proof (induction ks arbitrary: d)
  case (Cons k ks)
  then obtain d1 where d1: "bdelete B b k d = Some d1" "delete_all B b ks d1 = Some d'" by (auto split: option.splits)
  show ?case using Cons.IH[OF Cons.prems(1) d1(2)] bdelete_items[OF Cons.prems(1) d1(1), of b']
      bdelete_items[OF Cons.prems(1) d1(1), of b] by (auto simp: conj_commute intro: filter_cong)
qed simp

text \<open>Deleting the keys of a prefix leaves the rest.\<close>

lemma filter_prefix:
  assumes "distinct (map fst (ps @ xs))"
  shows "filter (\<lambda>x. fst x \<notin> set (map fst ps)) (ps @ xs) = xs"
proof -
  have "filter (\<lambda>x. fst x \<notin> set (map fst ps)) xs = xs" using assms by (auto simp: filter_id_conv)
  then show ?thesis by (auto simp: filter_empty_conv)
qed

definition keep_newest :: "int \<Rightarrow> 'a list \<Rightarrow> 'a list" where
  "keep_newest n xs = (if n \<le> 0 then xs else drop (length xs - nat n) xs)"

lemma length_keep_newest: "0 < n \<Longrightarrow> length (keep_newest n xs) \<le> nat n"
  by (simp add: keep_newest_def)

lemma pruneByCount_items:
  assumes "bolt_ok B" "pruneByCount B b n d = Some d'"
  shows "bitems B b d' = keep_newest n (bitems B b d)" "b' \<noteq> b \<Longrightarrow> bitems B b' d' = bitems B b' d"
proof -
  let ?xs = "bitems B b d" and ?m = "length (bitems B b d) - nat n"
  have *: "bitems B b d' = keep_newest n ?xs \<and> (b' \<noteq> b \<longrightarrow> bitems B b' d' = bitems B b' d)"
  proof (cases "n \<le> 0 \<or> int (length ?xs) - n \<le> 0")
    case True
    then show ?thesis using assms(2) by (auto simp: pruneByCount_def keep_newest_def Let_def)
  next
    case False
    then have m: "nat (int (length ?xs) - n) = ?m" by linarith
    have del: "delete_all B b (map fst (take ?m ?xs)) d = Some d'"
      using assms(2) False by (simp add: pruneByCount_def Let_def m take_map)
    have "filter (\<lambda>x. fst x \<notin> set (map fst (take ?m ?xs))) (take ?m ?xs @ drop ?m ?xs) = drop ?m ?xs"
      by (rule filter_prefix) (simp add: bolt_items(2)[OF assms(1)])
    then show ?thesis using delete_all_items[OF assms(1) del] False by (simp add: keep_newest_def)
  qed
  from * show "bitems B b d' = keep_newest n (bitems B b d)" "b' \<noteq> b \<Longrightarrow> bitems B b' d' = bitems B b' d" by blast+
qed

definition keep_since :: "int \<Rightarrow> (bytes \<times> bytes) list \<Rightarrow> (bytes \<times> bytes) list" where
  "keep_since t xs = dropWhile (\<lambda>x. key_nano (fst x) < t) xs"

lemma pruneByAge_items:
  assumes "bolt_ok B" "pruneByAge B b t d = Some d'"
  shows "bitems B b d' = keep_since t (bitems B b d)" "b' \<noteq> b \<Longrightarrow> bitems B b' d' = bitems B b' d"
proof -
  let ?xs = "bitems B b d" and ?P = "\<lambda>x. key_nano (fst x) < t"
  have del: "delete_all B b (map fst (takeWhile ?P ?xs)) d = Some d'"
    using assms(2) by (simp add: pruneByAge_def takeWhile_map not_le comp_def)
  have "filter (\<lambda>x. fst x \<notin> set (map fst (takeWhile ?P ?xs))) (takeWhile ?P ?xs @ dropWhile ?P ?xs) = dropWhile ?P ?xs"
    by (rule filter_prefix) (metis bolt_items(2)[OF assms(1)] takeWhile_dropWhile_id)
  then show "bitems B b d' = keep_since t (bitems B b d)" "b' \<noteq> b \<Longrightarrow> bitems B b' d' = bitems B b' d"
    using delete_all_items[OF assms(1) del] by (simp_all add: keep_since_def)
qed

section \<open>The sequence\<close>

definition seq_ok :: "'db event_lib \<Rightarrow> 'db bolt \<Rightarrow> bool" where
  "seq_ok L B \<longleftrightarrow>
     (\<forall>b d n d'. NextSequence L b d = Some (n, d') \<longrightarrow>
        n = bseq L b d + 1 \<and> (\<forall>b'. bseq L b' d' = (if b' = b then n else bseq L b' d) \<and> bitems B b' d' = bitems B b' d))
   \<and> (\<forall>b k v d d' b'. bput B b k v d = Some d' \<longrightarrow> bseq L b' d' = bseq L b' d)
   \<and> (\<forall>b k d d' b'. bdelete B b k d = Some d' \<longrightarrow> bseq L b' d' = bseq L b' d)
   \<and> (\<forall>b d. 0 \<le> bseq L b d)"

lemma NextSequence_ok:
  "\<lbrakk>seq_ok L B; NextSequence L b d = Some (n, d')\<rbrakk> \<Longrightarrow>
     n = bseq L b d + 1 \<and> (\<forall>b'. bseq L b' d' = (if b' = b then n else bseq L b' d) \<and> bitems B b' d' = bitems B b' d)"
  unfolding seq_ok_def by blast

lemma seq_put_delete:
  "\<lbrakk>seq_ok L B; bput B b k v d = Some d'\<rbrakk> \<Longrightarrow> bseq L b' d' = bseq L b' d"
  "\<lbrakk>seq_ok L B; bdelete B b k d = Some d'\<rbrakk> \<Longrightarrow> bseq L b' d' = bseq L b' d"
  "seq_ok L B \<Longrightarrow> 0 \<le> bseq L b d"
  unfolding seq_ok_def by blast+

text \<open>Every key of the bucket was made with a number the sequence has passed.\<close>

definition log_inv :: "'db event_lib \<Rightarrow> 'db bolt \<Rightarrow> string \<Rightarrow> 'db \<Rightarrow> bool" where
  "log_inv L B b d \<longleftrightarrow>
     (\<forall>k\<in>fst ` set (bitems B b d). \<exists>t s. k = encodeEventKey t s \<and> 0 < s \<and> s \<le> bseq L b d)"

lemma encodeEventKey_seq: "\<lbrakk>encodeEventKey t s = encodeEventKey t' s'; 0 \<le> s; s < 2 ^ 64; 0 \<le> s'; s' < 2 ^ 64\<rbrakk> \<Longrightarrow> s = s'"
  using be_bytes_inj[of 8 s s'] by (simp add: encodeEventKey_def)

lemma key_nano_encode: "\<lbrakk>- (2 ^ 63) \<le> t; t < 2 ^ 63\<rbrakk> \<Longrightarrow> key_nano (encodeEventKey t s) = t"
  using be_val_bytes[of 8 t] int64_mod[of t] int64_small[of t] by (simp add: key_nano_def encodeEventKey_def)

lemma putEvent_items:
  assumes "bolt_ok B" "seq_ok L B" "log_inv L B b d" "bseq L b d + 1 < 2 ^ 64" "putEvent L B b e d = Some d'"
  shows "\<exists>v. event_enc L e = Some v
      \<and> bitems B b d' = insort_key fst (encodeEventKey (TimeUnixNano e) (bseq L b d + 1), v) (bitems B b d)"
    "bseq L b d' = bseq L b d + 1" "log_inv L B b d'" "b' \<noteq> b \<Longrightarrow> bitems B b' d' = bitems B b' d"
proof -
  let ?s = "bseq L b d + 1"
  let ?k = "encodeEventKey (TimeUnixNano e) ?s"
  obtain n d1 v where ns: "NextSequence L b d = Some (n, d1)" and v: "event_enc L e = Some v"
    and p: "bput B b (encodeEventKey (TimeUnixNano e) n) v d1 = Some d'"
    using assms(5) by (auto simp: putEvent_def split: option.splits prod.splits)
  note sq1 = NextSequence_ok[OF assms(2) ns]
  then have put: "bput B b ?k v d1 = Some d'" and same: "\<And>x. bitems B x d1 = bitems B x d" using p by auto
  have "0 \<le> bseq L b d" by (rule seq_put_delete(3)[OF assms(2)])
  then have fresh: "?k \<notin> fst ` set (bitems B b d)"
    using assms(3,4) encodeEventKey_seq[of "TimeUnixNano e" ?s] unfolding log_inv_def by fastforce
  note ins = bput_items[OF assms(1) put, unfolded same, OF fresh]
  show "\<exists>v. event_enc L e = Some v \<and> bitems B b d' = insort_key fst (?k, v) (bitems B b d)" using v ins by blast
  show sq: "bseq L b d' = ?s" using sq1 seq_put_delete(1)[OF assms(2) put] by simp
  show "log_inv L B b d'" using assms(3) \<open>0 \<le> bseq L b d\<close> unfolding log_inv_def ins sq set_insort_key
    by (fastforce simp: image_iff)
  show "b' \<noteq> b \<Longrightarrow> bitems B b' d' = bitems B b' d" using bput_other_items[OF assms(1) put] same by simp
qed

section \<open>Appending and flushing\<close>

lemma delete_all_seq: "\<lbrakk>seq_ok L B; delete_all B b ks d = Some d'\<rbrakk> \<Longrightarrow> bseq L b' d' = bseq L b' d"
  by (induction ks arbitrary: d) (auto simp: seq_put_delete split: option.splits)

lemma prune_seq:
  "\<lbrakk>seq_ok L B; pruneBucket B st b c t d = Some d'\<rbrakk> \<Longrightarrow> bseq L b' d' = bseq L b' d"
  using delete_all_seq[of L B b]
  by (auto simp: pruneBucket_def pruneByAge_def pruneByCount_def Let_def split: if_splits option.splits)

definition pruned :: "access_log \<Rightarrow> string \<Rightarrow> time \<Rightarrow> (bytes \<times> bytes) list \<Rightarrow> (bytes \<times> bytes) list" where
  "pruned st category t xs =
     (if category = EventData
      then keep_newest (accessMaxCount st) (if accessMaxAgeNs st > 0 then keep_since (t - accessMaxAgeNs st) xs else xs)
      else keep_newest maxControlEvents xs)"

lemma pruneBucket_items:
  assumes "bolt_ok B" "pruneBucket B st b c t d = Some d'"
  shows "bitems B b d' = pruned st c t (bitems B b d)" "b' \<noteq> b \<Longrightarrow> bitems B b' d' = bitems B b' d"
  using assms pruneByCount_items[OF assms(1)] pruneByAge_items[OF assms(1)]
  by (auto simp: pruneBucket_def pruned_def split: if_splits option.splits)

lemma set_keep_newest: "set (keep_newest n xs) \<subseteq> set xs"
  by (simp add: keep_newest_def set_drop_subset)

lemma set_keep_since: "set (keep_since t xs) \<subseteq> set xs"
  using set_dropWhileD unfolding keep_since_def by fast

lemma set_pruned: "set (pruned st c t xs) \<subseteq> set xs"
  using set_keep_newest set_keep_since by (fastforce simp: pruned_def split: if_splits)

lemma pruneBucket_inv:
  assumes "bolt_ok B" "seq_ok L B" "log_inv L B b d" "pruneBucket B st b c t d = Some d'"
  shows "log_inv L B b d'"
  using assms(3) set_pruned[of st c t "bitems B b d"] unfolding log_inv_def pruneBucket_items(1)[OF assms(1,4)] prune_seq[OF assms(2,4)]
  by (meson image_mono subsetD)

text \<open>The entries a batch adds, with the numbers the sequence gives them.\<close>

fun add_batch :: "'db event_lib \<Rightarrow> int \<Rightarrow> Event list \<Rightarrow> (bytes \<times> bytes) list \<Rightarrow> (bytes \<times> bytes) list" where
  "add_batch L n [] xs = xs"
| "add_batch L n (e # es) xs =
     add_batch L (n + 1) es (insort_key fst (encodeEventKey (TimeUnixNano e) (n + 1), the (event_enc L e)) xs)"

lemma put_events_items:
  assumes "bolt_ok B" "seq_ok L B" "log_inv L B b d" "bseq L b d + int (length es) < 2 ^ 64" "put_events L B b es d = Some d'"
  shows "bitems B b d' = add_batch L (bseq L b d) es (bitems B b d) \<and> log_inv L B b d'
     \<and> bseq L b d' = bseq L b d + int (length es) \<and> (\<forall>b'. b' \<noteq> b \<longrightarrow> bitems B b' d' = bitems B b' d)"
  using assms(3-5)
proof (induction es arbitrary: d)
  case (Cons e es)
  obtain d1 where d1: "putEvent L B b e d = Some d1" "put_events L B b es d1 = Some d'"
    using Cons.prems(3) by (auto split: option.splits)
  have lt: "bseq L b d + 1 < 2 ^ 64" using Cons.prems(2) by simp
  note p = putEvent_items[OF assms(1,2) Cons.prems(1) lt d1(1)]
  obtain v where v: "event_enc L e = Some v"
    "bitems B b d1 = insort_key fst (encodeEventKey (TimeUnixNano e) (bseq L b d + 1), v) (bitems B b d)" using p(1) by blast
  have "bseq L b d1 + int (length es) < 2 ^ 64" using Cons.prems(2) p(2) by simp
  from Cons.IH[OF p(3) this d1(2)] v p(2,4) show ?case by auto
qed (use assms in auto)

lemma AppendEvent_items:
  assumes "bolt_ok B" "seq_ok L B" "log_inv L B b d" "b = bucketFor (Category e)" "bseq L b d + 1 < 2 ^ 64"
    "AppendEvent L B st e d = Some d'"
  shows "\<exists>v. event_enc L e = Some v \<and> bitems B b d' = pruned st (Category e) (TimeUnixNano e)
           (insort_key fst (encodeEventKey (TimeUnixNano e) (bseq L b d + 1), v) (bitems B b d))"
    "log_inv L B b d'" "b' \<noteq> b \<Longrightarrow> bitems B b' d' = bitems B b' d"
proof -
  obtain d1 where d1: "putEvent L B b e d = Some d1" "pruneBucket B st b (Category e) (TimeUnixNano e) d1 = Some d'"
    using assms(4,6) by (auto simp: AppendEvent_def Let_def split: option.splits)
  note p = putEvent_items[OF assms(1-3,5) d1(1)] and q = pruneBucket_items[OF assms(1) d1(2)]
  show "\<exists>v. event_enc L e = Some v \<and> bitems B b d' = pruned st (Category e) (TimeUnixNano e)
           (insort_key fst (encodeEventKey (TimeUnixNano e) (bseq L b d + 1), v) (bitems B b d))" using p(1) q(1) by auto
  show "log_inv L B b d'" by (rule pruneBucket_inv[OF assms(1,2) p(3) d1(2)])
  show "b' \<noteq> b \<Longrightarrow> bitems B b' d' = bitems B b' d" using p(4) q(2) by simp
qed

lemma flushEvents_items:
  assumes "bolt_ok B" "seq_ok L B" "log_inv L B eventDataBucket d" "es \<noteq> []"
    "bseq L eventDataBucket d + int (length es) < 2 ^ 64" "flushEvents L B st t es d = Some d'"
  shows "bitems B eventDataBucket d' = pruned st EventData t (add_batch L (bseq L eventDataBucket d) es (bitems B eventDataBucket d))"
    "log_inv L B eventDataBucket d'" "b \<noteq> eventDataBucket \<Longrightarrow> bitems B b d' = bitems B b d"
proof -
  obtain d1 where d1: "put_events L B eventDataBucket es d = Some d1" "pruneBucket B st eventDataBucket EventData t d1 = Some d'"
    using assms(4,6) by (auto simp: flushEvents_def split: option.splits)
  note p = put_events_items[OF assms(1-3,5) d1(1)] and q = pruneBucket_items[OF assms(1) d1(2)]
  show "bitems B eventDataBucket d' = pruned st EventData t (add_batch L (bseq L eventDataBucket d) es (bitems B eventDataBucket d))"
    using p q(1) by simp
  show "log_inv L B eventDataBucket d'" using pruneBucket_inv[OF assms(1,2) _ d1(2)] p by blast
  show "b \<noteq> eventDataBucket \<Longrightarrow> bitems B b d' = bitems B b d" using p q(2) by simp
qed

section \<open>Queries\<close>

definition shown :: "'db event_lib \<Rightarrow> int \<Rightarrow> bytes \<times> bytes \<Rightarrow> Event option" where
  "shown L before kv = (if before > 0 \<and> key_nano (fst kv) \<ge> before then None else event_dec L (snd kv))"

lemma query_scan_eq: "query_scan L n before xs = take n (List.map_filter (shown L before) xs)"
  by (induction xs arbitrary: n) (auto simp: shown_def List.map_filter_def take_Cons' split: option.splits)

lemma QueryEvents_eq:
  "QueryEvents L B c limit before d = take (nat limit) (List.map_filter (shown L before) (rev (bitems B (bucketFor c) d)))"
  by (simp add: QueryEvents_def query_scan_eq)

text \<open>Each stored event carries the time in its key, and no two times of the bucket agree.\<close>

definition timed :: "'db event_lib \<Rightarrow> (bytes \<times> bytes) list \<Rightarrow> bool" where
  "timed L xs \<longleftrightarrow> (\<forall>(k, v)\<in>set xs. 0 < key_nano k \<and> (\<forall>e. event_dec L v = Some e \<longrightarrow> TimeUnixNano e = key_nano k))
     \<and> sorted_wrt (<) (map (key_nano \<circ> fst) xs)"

lemma map_filter_eq: "(\<And>x. x \<in> set ys \<Longrightarrow> f x = g x) \<Longrightarrow> List.map_filter f ys = List.map_filter g ys"
  by (induction ys) (auto split: option.split)

text \<open>The events older than the last of a page are those after it.\<close>

lemma map_filter_after:
  assumes "sorted_wrt (\<lambda>x y. key_nano (fst y) < key_nano (fst x)) ys"
    "\<forall>(k, v)\<in>set ys. 0 < key_nano k \<and> (\<forall>e. event_dec L v = Some e \<longrightarrow> TimeUnixNano e = key_nano k)"
    "take n (List.map_filter (shown L before) ys) \<noteq> []" "t = TimeUnixNano (last (take n (List.map_filter (shown L before) ys)))"
  shows "List.map_filter (shown L t) ys = drop n (List.map_filter (shown L before) ys)"
  using assms
proof (induction ys arbitrary: n)
  case (Cons y ys)
  let ?F = "List.map_filter (shown L before) ys"
  have hyps: "sorted_wrt (\<lambda>x y. key_nano (fst y) < key_nano (fst x)) ys"
    "\<forall>(k, v)\<in>set ys. 0 < key_nano k \<and> (\<forall>e. event_dec L v = Some e \<longrightarrow> TimeUnixNano e = key_nano k)"
    using Cons.prems(1,2) by auto
  have times: "\<exists>x\<in>set ys. key_nano (fst x) = TimeUnixNano e" if "e \<in> set ?F" for e
    using that hyps(2) by (force simp: List.map_filter_def shown_def split: if_splits)
  show ?case
  proof (cases "shown L before y")
    case None
    then have F: "List.map_filter (shown L before) (y # ys) = ?F" by (simp add: List.map_filter_simps)
    have ne: "take n ?F \<noteq> []" using Cons.prems(3) F by simp
    then have "last (take n ?F) \<in> set ?F" by (meson in_set_takeD last_in_set)
    then obtain x where "x \<in> set ys" "key_nano (fst x) = t" using times Cons.prems(4) F by metis
    then have "0 < t" "t \<le> key_nano (fst y)" using Cons.prems(1,2) by (auto simp: case_prod_beta)
    then have "shown L t y = None" by (simp add: shown_def)
    then show ?thesis using Cons.IH[OF hyps ne] Cons.prems(4) F by (simp add: List.map_filter_simps)
  next
    case (Some e)
    then have F: "List.map_filter (shown L before) (y # ys) = e # ?F" by (simp add: List.map_filter_simps)
    have te: "TimeUnixNano e = key_nano (fst y)" "0 < key_nano (fst y)"
      using Some Cons.prems(2) by (cases y; auto simp: shown_def split: if_splits)+
    obtain m where n: "n = Suc m" using Cons.prems(3) F by (cases n) auto
    show ?thesis
    proof (cases "take m ?F = []")
      case True
      then have t: "t = key_nano (fst y)" using Cons.prems(4) F n te by simp
      have "shown L t x = shown L before x" if "x \<in> set ys" for x
      proof -
        have "key_nano (fst x) < t" using that Cons.prems(1) t by auto
        moreover have "\<not> (before > 0 \<and> key_nano (fst y) \<ge> before)" using Some by (auto simp: shown_def)
        ultimately show ?thesis using t by (auto simp: shown_def)
      qed
      then have eq: "List.map_filter (shown L t) ys = ?F" by (rule map_filter_eq)
      have "m = 0 \<or> ?F = []" using True by simp
      moreover have "shown L t y = None" using t te by (simp add: shown_def)
      ultimately show ?thesis using n eq unfolding F by auto
    next
      case False
      have t: "t = TimeUnixNano (last (take m ?F))" using Cons.prems(4) F n False by simp
      then have "last (take m ?F) \<in> set ?F" using False by (meson in_set_takeD last_in_set)
      then obtain x where "x \<in> set ys" "key_nano (fst x) = t" using times t by metis
      then have "0 < t" "t \<le> key_nano (fst y)" using Cons.prems(1,2) by (auto simp: case_prod_beta)
      then have "shown L t y = None" by (simp add: shown_def)
      then show ?thesis using Cons.IH[OF hyps False t] F n by (simp add: List.map_filter_simps)
    qed
  qed
qed (simp add: List.map_filter_simps)

section \<open>The flusher\<close>

inductive flusher_run :: "'db event_lib \<Rightarrow> 'db bolt \<Rightarrow> nat \<Rightarrow> 'db flusher \<Rightarrow> observation list \<Rightarrow> 'db flusher \<Rightarrow> bool"
  for L :: "'db event_lib" and B :: "'db bolt" and maxBatch :: nat where
  start: "flusher_run L B maxBatch f [] f"
| snoc: "\<lbrakk>flusher_run L B maxBatch f tr f1; flusher_step L B maxBatch f1 x f2\<rbrakk> \<Longrightarrow> flusher_run L B maxBatch f (tr @ [x]) f2"

fun accepted_of :: "observation \<Rightarrow> Event list" where
  "accepted_of (Accepted e) = [e]" | "accepted_of _ = []"

text \<open>The batch a step took out of the hands of the flusher, written or dropped.\<close>

fun batch_of :: "observation \<Rightarrow> Event list" where
  "batch_of (Flushed st t es) = es" | "batch_of (Dropped es) = es" | "batch_of _ = []"

fun dropped_of :: "observation \<Rightarrow> Event list" where
  "dropped_of (Dropped es) = es" | "dropped_of _ = []"

definition accepted :: "observation list \<Rightarrow> Event list" where "accepted tr = concat (map accepted_of tr)"
definition batches :: "observation list \<Rightarrow> Event list" where "batches tr = concat (map batch_of tr)"

lemma observation_appends [simp]:
  "accepted (tr @ tr') = accepted tr @ accepted tr'" "batches (tr @ tr') = batches tr @ batches tr'"
  "accepted [] = []" "batches [] = []" "accepted [x] = accepted_of x" "batches [x] = batch_of x"
  by (simp_all add: accepted_def batches_def)

lemma EnqueueEvent_ch: "eventCh (EnqueueEvent e st) = eventCh st \<or> eventCh (EnqueueEvent e st) = eventCh st @ [e]"
  by (simp add: EnqueueEvent_def)

lemma EnqueueEvent_cap: "length (eventCh st) \<le> eventChanCap \<Longrightarrow> length (eventCh (EnqueueEvent e st)) \<le> eventChanCap"
  by (simp add: EnqueueEvent_def)

lemma flush_ch [simp]: "eventCh (flog (flush L B t f)) = eventCh (flog f)" "batch (flush L B t f) = []"
  by (simp_all add: flush_def)

lemma flush_result_simps [simp]: "batch_of (flush_result L B t f) = batch f" "accepted_of (flush_result L B t f) = []"
  by (simp_all add: flush_result_def split: option.split)

lemma take_event_simps [simp]:
  "eventCh (flog (take_event e es f)) = es" "batch (take_event e es f) = batch f @ [e]" "fdb (take_event e es f) = fdb f"
  by (simp_all add: take_event_def)

lemma flusher_step_fifo:
  "flusher_step L B mb f x f' \<Longrightarrow> batch f @ eventCh (flog f) @ accepted_of x = batch_of x @ batch f' @ eventCh (flog f')"
  by (induction rule: flusher_step.induct) (use EnqueueEvent_ch in fastforce)+

lemma flusher_run_fifo:
  "flusher_run L B mb f tr f' \<Longrightarrow> batch f @ eventCh (flog f) @ accepted tr = batches tr @ batch f' @ eventCh (flog f')"
proof (induction rule: flusher_run.induct)
  case (snoc f tr f1 x f2)
  have "batch f @ eventCh (flog f) @ accepted (tr @ [x]) = (batch f @ eventCh (flog f) @ accepted tr) @ accepted_of x" by simp
  also have "\<dots> = batches tr @ batch f1 @ eventCh (flog f1) @ accepted_of x" by (simp add: snoc.IH)
  also have "\<dots> = batches (tr @ [x]) @ batch f2 @ eventCh (flog f2)" by (simp add: flusher_step_fifo[OF snoc.hyps(2)])
  finally show ?case .
qed simp

definition flusher_inv :: "nat \<Rightarrow> 'db flusher \<Rightarrow> bool" where
  "flusher_inv mb f \<longleftrightarrow> length (batch f) < mb \<and> length (eventCh (flog f)) \<le> eventChanCap"

lemma flusher_step_inv: "\<lbrakk>flusher_step L B mb f x f'; 0 < mb; flusher_inv mb f\<rbrakk> \<Longrightarrow> flusher_inv mb f' \<and> length (batch_of x) \<le> mb"
  by (induction rule: flusher_step.induct) (auto simp: flusher_inv_def EnqueueEvent_cap)

lemma flusher_run_inv:
  "\<lbrakk>flusher_run L B mb f tr f'; 0 < mb; flusher_inv mb f\<rbrakk> \<Longrightarrow> flusher_inv mb f' \<and> (\<forall>x\<in>set tr. length (batch_of x) \<le> mb)"
  by (induction rule: flusher_run.induct) (auto dest: flusher_step_inv)

text \<open>The last drain is a run too, one that accepts nothing and leaves nothing behind.\<close>

lemma flusher_run_trans:
  "\<lbrakk>flusher_run L B mb f1 tr' f2; flusher_run L B mb f tr f1\<rbrakk> \<Longrightarrow> flusher_run L B mb f (tr @ tr') f2"
  by (induction rule: flusher_run.induct) (auto simp: append_assoc[symmetric] simp del: append_assoc intro: snoc)

lemma run_Cons: "\<lbrakk>flusher_step L B mb f x f1; flusher_run L B mb f1 tr f2\<rbrakk> \<Longrightarrow> flusher_run L B mb f (x # tr) f2"
  using flusher_run_trans[of L B mb f1 tr f2 f "[x]"] snoc[OF start, of L B mb f x f1] by simp

lemma run_tick: "flusher_run L B mb f [flush_result L B t f] (flush L B t f)"
  using snoc[OF start tick] by simp

lemma final_drain_run:
  "\<lbrakk>final_drain L B mb clk n f = (tr, f'); length (eventCh (flog f)) < n\<rbrakk> \<Longrightarrow>
     flusher_run L B mb f tr f' \<and> accepted tr = [] \<and> batch f' = [] \<and> eventCh (flog f') = []"
proof (induction n arbitrary: f tr f')
  case (Suc n)
  show ?case
  proof (cases "eventCh (flog f)")
    case Nil
    then show ?thesis using Suc.prems run_tick by auto
  next
    case (Cons e es)
    let ?f1 = "take_event e es f"
    show ?thesis
    proof (cases "length (batch ?f1) \<ge> mb")
      case True
      obtain tr1 f2 where r: "final_drain L B mb clk n (flush L B (clk (Suc n)) ?f1) = (tr1, f2)" by (metis surj_pair)
      have "flusher_step L B mb f (flush_result L B (clk (Suc n)) ?f1) (flush L B (clk (Suc n)) ?f1)"
        using Cons True by (intro receive_full) auto
      then show ?thesis using Suc.IH[OF r] Suc.prems Cons True r by (auto simp: accepted_def intro: run_Cons)
    next
      case False
      obtain tr1 f2 where r: "final_drain L B mb clk n ?f1 = (tr1, f2)" by (metis surj_pair)
      have "flusher_step L B mb f Silent ?f1" using Cons False by (intro receive) auto
      then show ?thesis using Suc.IH[OF r] Suc.prems Cons False r by (auto simp: accepted_def intro: run_Cons)
    qed
  qed
qed simp

end
