(* ===== verification/Event_History.thy ===== *)
theory Event_History
  imports Event_Laws
begin

text \<open>
  The control log as a history: against every interleaving of audit appends and data-plane
  flushes, some of which may fail, the control bucket holds the newest acknowledged events.
\<close>

section \<open>The codec\<close>

definition valid_event :: "Event \<Rightarrow> bool" where
  "valid_event e \<longleftrightarrow> 0 \<le> TimeUnixNano e \<and> TimeUnixNano e < 2 ^ 63
     \<and> list_all ValidString [Category e, Actor e, Op e, Target e, evBucket e, evKey e, ErrorCode e, ClientIP e, UserAgent e, Detail e]"

definition event_codec_ok :: "'db event_lib \<Rightarrow> bool" where
  "event_codec_ok L \<longleftrightarrow> (\<forall>e v. valid_event e \<and> event_enc L e = Some v \<longrightarrow> event_dec L v = Some e)"

section \<open>A bucket that stands for a list of events\<close>

definition log_rel :: "'db event_lib \<Rightarrow> 'db bolt \<Rightarrow> string \<Rightarrow> 'db \<Rightarrow> Event list \<Rightarrow> bool" where
  "log_rel L B b d es \<longleftrightarrow> log_inv L B b d
     \<and> map (\<lambda>kv. event_dec L (snd kv)) (bitems B b d) = map Some es
     \<and> map (\<lambda>kv. key_nano (fst kv)) (bitems B b d) = map TimeUnixNano es"

lemma log_rel_cong:
  "\<lbrakk>bitems B b d' = bitems B b d; bseq L b d' = bseq L b d\<rbrakk> \<Longrightarrow> log_rel L B b d' es \<longleftrightarrow> log_rel L B b d es"
  by (simp add: log_rel_def log_inv_def)

lemma encodeEventKey_less:
  assumes "key_nano (encodeEventKey t' s') = T" "0 \<le> T" "T \<le> t" "t < 2 ^ 63" "0 \<le> s'" "s' < s" "s < 2 ^ 64"
  shows "encodeEventKey t' s' < encodeEventKey t s"
proof -
  let ?a = "be_bytes 8 t'" and ?b = "be_bytes 8 t"
  have "int64 (t' mod 2 ^ 64) = T" using assms(1) be_val_bytes[of 8 t'] by (simp add: key_nano_def encodeEventKey_def)
  moreover have "int64 x = (if x < 2 ^ 63 then x else x - 2 ^ 64)" if "0 \<le> x" "x < 2 ^ 64" for x
  proof (cases "x < 2 ^ 63")
    case False
    have "(x + 2 ^ 63) mod 2 ^ 64 = (x + 2 ^ 63 - 2 ^ 64) mod (2 ^ 64 :: int)" by (metis minus_mod_self2)
    also have "\<dots> = x + 2 ^ 63 - 2 ^ 64" using that False by (intro mod_pos_pos_trivial) auto
    finally show ?thesis using False by (simp add: int64_def)
  qed (use that in \<open>simp add: int64_def\<close>)
  ultimately have "t' mod 2 ^ 64 = T" using assms(2) pos_mod_bound[of "2 ^ 64" t'] pos_mod_sign[of "2 ^ 64" t'] by (auto split: if_splits)
  then have a: "be_val ?a = T" using be_val_bytes[of 8 t'] by simp
  have b: "be_val ?b = t" using be_val_bytes[of 8 t] assms(2-4) by simp
  have s: "be_bytes 8 s' < be_bytes 8 s"
    using less_be_val[of "be_bytes 8 s'" "be_bytes 8 s"] be_val_bytes[of 8 s'] be_val_bytes[of 8 s] assms(5-7) by simp
  have "?a < ?b \<or> ?a = ?b" using less_be_val[of ?a ?b] less_be_val[of ?b ?a] a b assms(3) by (metis length_be_bytes linorder_less_linear not_le)
  then show ?thesis using less_append[of ?a ?b "be_bytes 8 s'" "be_bytes 8 s"] s by (simp add: encodeEventKey_def)
qed

lemma insort_key_last: "(\<And>y. y \<in> set xs \<Longrightarrow> f y < f x) \<Longrightarrow> insort_key f x xs = xs @ [x]"
proof (induction xs)
  case (Cons y ys)
  then have "f y < f x" "insort_key f x ys = ys @ [x]" by auto
  then show ?case by (simp add: linorder_not_le[symmetric])
qed simp

lemma map_keep_newest: "map f (keep_newest n xs) = keep_newest n (map f xs)"
  by (simp add: keep_newest_def drop_map)

lemma log_rel_append:
  assumes "bolt_ok B" "seq_ok L B" "event_codec_ok L" "log_rel L B eventControlBucket d es"
    "valid_event e" "Category e = EventControl" "\<forall>x\<in>set es. 0 \<le> TimeUnixNano x \<and> TimeUnixNano x \<le> TimeUnixNano e"
    "bseq L eventControlBucket d + 1 < 2 ^ 64" "AppendEvent L B st e d = Some d'"
  shows "log_rel L B eventControlBucket d' (keep_newest maxControlEvents (es @ [e]))"
proof -
  let ?b = eventControlBucket and ?n = "bseq L eventControlBucket d + 1"
  have b: "?b = bucketFor (Category e)" "Category e \<noteq> EventData" using assms(6) by (simp_all add: bucketFor_def EventControl_def EventData_def)
  have inv: "log_inv L B ?b d" and dec: "map (\<lambda>kv. event_dec L (snd kv)) (bitems B ?b d) = map Some es"
    and times: "map (\<lambda>kv. key_nano (fst kv)) (bitems B ?b d) = map TimeUnixNano es" using assms(4) by (simp_all add: log_rel_def)
  note a = AppendEvent_items[OF assms(1,2) inv b(1) assms(8,9)]
  obtain v where v: "event_enc L e = Some v" "bitems B ?b d' = keep_newest maxControlEvents
      (insort_key fst (encodeEventKey (TimeUnixNano e) ?n, v) (bitems B ?b d))"
    using a(1) b(2) by (auto simp: pruned_def)
  have t: "0 \<le> TimeUnixNano e" "TimeUnixNano e < 2 ^ 63" using assms(5) by (simp_all add: valid_event_def)
  have lt: "k < encodeEventKey (TimeUnixNano e) ?n" if kx: "(k, x) \<in> set (bitems B ?b d)" for k x
  proof -
    obtain t' s where k: "k = encodeEventKey t' s" "0 < s" "s \<le> bseq L ?b d"
      using inv imageI[OF kx, of fst] unfolding log_inv_def fst_conv by blast
    have "key_nano k \<in> set (map (\<lambda>kv. key_nano (fst kv)) (bitems B ?b d))" using kx by force
    then have "key_nano k \<in> TimeUnixNano ` set es" unfolding times by simp
    then have "0 \<le> key_nano k" "key_nano k \<le> TimeUnixNano e" using assms(7) by auto
    then show ?thesis unfolding k(1) using k(2,3) assms(8) t(2) by (intro encodeEventKey_less) auto
  qed
  then have ins: "insort_key fst (encodeEventKey (TimeUnixNano e) ?n, v) (bitems B ?b d)
      = bitems B ?b d @ [(encodeEventKey (TimeUnixNano e) ?n, v)]" by (intro insort_key_last) auto
  have "event_dec L v = Some e" using assms(3,5) v(1) unfolding event_codec_ok_def by blast
  moreover have "key_nano (encodeEventKey (TimeUnixNano e) ?n) = TimeUnixNano e" using t by (intro key_nano_encode) auto
  ultimately show ?thesis unfolding log_rel_def v(2) ins map_keep_newest using a(2) dec times
    by (simp only: map_append list.map snd_conv fst_conv simp_thms)
qed

section \<open>Operations that leave a bucket alone\<close>

lemma putEvent_other:
  assumes "bolt_ok B" "seq_ok L B" "putEvent L B b e d = Some d'" "b' \<noteq> b"
  shows "bitems B b' d' = bitems B b' d" "bseq L b' d' = bseq L b' d"
proof -
  obtain n d1 v where ns: "NextSequence L b d = Some (n, d1)" and p: "bput B b (encodeEventKey (TimeUnixNano e) n) v d1 = Some d'"
    using assms(3) by (auto simp: putEvent_def split: option.splits prod.splits)
  show "bitems B b' d' = bitems B b' d" "bseq L b' d' = bseq L b' d"
    using NextSequence_ok[OF assms(2) ns] bput_other_items[OF assms(1) p assms(4)] seq_put_delete(1)[OF assms(2) p] assms(4) by simp_all
qed

lemma flushEvents_other:
  assumes "bolt_ok B" "seq_ok L B" "flushEvents L B st t es d = Some d'" "b \<noteq> eventDataBucket"
  shows "bitems B b d' = bitems B b d" "bseq L b d' = bseq L b d"
proof -
  have put: "put_events L B eventDataBucket xs d0 = Some d1 \<Longrightarrow> bitems B b d1 = bitems B b d0 \<and> bseq L b d1 = bseq L b d0" for xs d0 d1
    by (induction xs arbitrary: d0) (auto split: option.splits simp: putEvent_other[OF assms(1,2) _ assms(4)])
  show "bitems B b d' = bitems B b d" "bseq L b d' = bseq L b d"
    using assms(3,4) put pruneBucket_items(2)[OF assms(1)] prune_seq[OF assms(2)]
    by (fastforce simp: flushEvents_def split: if_splits option.splits)+
qed

lemma AppendEvent_seq:
  assumes "bolt_ok B" "seq_ok L B" "log_inv L B (bucketFor (Category e)) d" "bseq L (bucketFor (Category e)) d + 1 < 2 ^ 64"
    "AppendEvent L B st e d = Some d'"
  shows "bseq L (bucketFor (Category e)) d' = bseq L (bucketFor (Category e)) d + 1"
  using assms(5) putEvent_items(2)[OF assms(1-4)] prune_seq[OF assms(2)] by (fastforce simp: AppendEvent_def Let_def split: option.splits)

section \<open>Histories\<close>

text \<open>An audit append or a flush of a data batch; a transaction that fails leaves the log as it was.\<close>

datatype log_op = AuditOp Event | FlushOp time "Event list"

fun log_run :: "'db event_lib \<Rightarrow> 'db bolt \<Rightarrow> access_log \<Rightarrow> log_op list \<Rightarrow> 'db \<Rightarrow> Event list \<times> 'db" where
  "log_run L B st [] d = ([], d)"
| "log_run L B st (AuditOp e # ops) d =
     (case AppendEvent L B st e d of
        None \<Rightarrow> log_run L B st ops d
      | Some d1 \<Rightarrow> (let (es, d2) = log_run L B st ops d1 in (e # es, d2)))"
| "log_run L B st (FlushOp t b # ops) d =
     (case flushEvents L B st t b d of None \<Rightarrow> log_run L B st ops d | Some d1 \<Rightarrow> log_run L B st ops d1)"

fun audits :: "log_op list \<Rightarrow> Event list" where
  "audits [] = []"
| "audits (AuditOp e # ops) = e # audits ops"
| "audits (FlushOp t b # ops) = audits ops"

lemma set_keep: "x \<in> set (keep_newest n xs) \<Longrightarrow> x \<in> set xs"
  by (auto simp: keep_newest_def dest: in_set_dropD split: if_splits)

lemma keep_newest_drop: "\<exists>m. keep_newest n xs = drop m xs"
  unfolding keep_newest_def by (metis drop0)

lemma sorted_keep_newest:
  assumes "sorted (map f (xs @ ys))"
  shows "sorted (map f (keep_newest n xs @ ys))"
proof -
  obtain m where "keep_newest n (map f xs) = drop m (map f xs)" using keep_newest_drop by blast
  then have "sorted (map f (keep_newest n xs))" using assms by (simp add: map_keep_newest sorted_append sorted_wrt_drop)
  then show ?thesis using assms set_keep[of _ n xs] by (simp add: sorted_append)
qed

lemma keep_newest_append: "keep_newest n (keep_newest n xs @ ys) = keep_newest n (xs @ ys)"
proof (cases "length xs \<le> nat n")
  case False
  then have "length xs + length ys - nat n - (length xs - nat n) = length ys" by simp
  then show ?thesis using False by (simp add: keep_newest_def add.commute)
qed (simp add: keep_newest_def)

lemma control_not_data: "eventControlBucket \<noteq> eventDataBucket"
  by (simp add: eventControlBucket_def eventDataBucket_def)

lemma log_run_rel:
  assumes "bolt_ok B" "seq_ok L B" "event_codec_ok L"
    and "log_rel L B eventControlBucket d es" "log_run L B st ops d = (acked, d')"
    and "bseq L eventControlBucket d + int (length ops) < 2 ^ 64"
    and "\<forall>e\<in>set (audits ops). valid_event e \<and> Category e = EventControl"
    and "sorted (map TimeUnixNano (es @ audits ops))" "\<forall>x\<in>set es. 0 \<le> TimeUnixNano x"
  shows "log_rel L B eventControlBucket d' (keep_newest maxControlEvents (es @ acked))
      \<or> acked = [] \<and> log_rel L B eventControlBucket d' es"
  using assms(4-)
proof (induction ops arbitrary: d es acked)
  case (Cons op ops)
  show ?case
  proof (cases op)
    case (FlushOp t b)
    obtain d1 where d1: "log_run L B st ops d1 = (acked, d')" "d1 = d \<or> flushEvents L B st t b d = Some d1"
      using Cons.prems(2) FlushOp by (auto split: option.splits)
    then have same: "bitems B eventControlBucket d1 = bitems B eventControlBucket d" "bseq L eventControlBucket d1 = bseq L eventControlBucket d"
      using flushEvents_other[OF assms(1,2) _ control_not_data] by auto
    show ?thesis using Cons.prems FlushOp d1(1) same log_rel_cong[OF same] by (intro Cons.IH[of d1 es acked]) auto
  next
    case (AuditOp e)
    have b: "bucketFor (Category e) = eventControlBucket" using Cons.prems(4) AuditOp by (simp add: bucketFor_def EventControl_def EventData_def)
    show ?thesis
    proof (cases "AppendEvent L B st e d")
      case None
      have "sorted (map TimeUnixNano (es @ audits ops))" using Cons.prems(5) AuditOp by (auto simp: sorted_append)
      then show ?thesis using Cons.prems AuditOp None by (intro Cons.IH[of d es acked]) auto
    next
      case (Some d1)
      then obtain acked' where r: "log_run L B st ops d1 = (acked', d')" "acked = e # acked'"
        using Cons.prems(2) AuditOp by (auto split: prod.splits)
      have "log_inv L B eventControlBucket d" using Cons.prems(1) by (simp add: log_rel_def)
      then have sq: "bseq L eventControlBucket d1 = bseq L eventControlBucket d + 1"
        using AppendEvent_seq[OF assms(1,2) _ _ Some] Cons.prems(3) unfolding b by simp
      have e: "valid_event e" "Category e = EventControl" "\<forall>x\<in>set es. 0 \<le> TimeUnixNano x \<and> TimeUnixNano x \<le> TimeUnixNano e"
        using Cons.prems(4-6) AuditOp by (auto simp: sorted_append)
      have "bseq L eventControlBucket d + 1 < 2 ^ 64" using Cons.prems(3) by simp
      note rel = log_rel_append[OF assms(1-3) Cons.prems(1) e this Some]
      let ?es = "keep_newest maxControlEvents (es @ [e])"
      have "sorted (map TimeUnixNano (?es @ audits ops))"
        using Cons.prems(5) AuditOp by (intro sorted_keep_newest) simp
      moreover have "\<forall>x\<in>set ?es. 0 \<le> TimeUnixNano x" using set_keep[of _ maxControlEvents "es @ [e]"] e by (auto simp: valid_event_def)
      ultimately have "log_rel L B eventControlBucket d' (keep_newest maxControlEvents (?es @ acked'))
          \<or> acked' = [] \<and> log_rel L B eventControlBucket d' ?es"
        using Cons.prems(3,4) AuditOp sq r(1) rel by (intro Cons.IH) auto
      then show ?thesis using r(2) by (auto simp: keep_newest_append)
    qed
  qed
qed auto

lemma map_filter_Some: "map f xs = map Some ys \<Longrightarrow> List.map_filter f xs = ys"
  by (induction xs arbitrary: ys) (auto simp: List.map_filter_simps)

lemma log_rel_query:
  assumes "log_rel L B (bucketFor c) d es"
  shows "QueryEvents L B c n 0 d = take (nat n) (rev es)"
proof -
  have "shown L 0 = (\<lambda>kv. event_dec L (snd kv))" by (simp add: shown_def fun_eq_iff)
  moreover have "map (\<lambda>kv. event_dec L (snd kv)) (rev (bitems B (bucketFor c) d)) = map Some (rev es)"
    using assms by (simp add: log_rel_def rev_map[symmetric])
  ultimately show ?thesis by (simp add: QueryEvents_eq map_filter_Some)
qed

end
