(* ===== verification/Reference_Events.thy ===== *)
theory Reference_Events
  imports Event_History Reference_Lib
begin

text \<open>
  An instance of the parameters of the event log: the reference store with a counter per
  bucket, and an executable codec of events.
\<close>

section \<open>A store with sequences\<close>

type_synonym seq_db = "ref_db \<times> (string \<times> nat) list"

definition seq_of :: "string \<Rightarrow> seq_db \<Rightarrow> int" where
  "seq_of b d = (case map_of (snd d) b of None \<Rightarrow> 0 | Some n \<Rightarrow> int n)"

definition seq_bolt :: "seq_db bolt" where
  "seq_bolt = \<lparr>
     bget = (\<lambda>b k d. bget ref_bolt b k (fst d)),
     bput = (\<lambda>b k v d. map_option (\<lambda>x. (x, snd d)) (bput ref_bolt b k v (fst d))),
     bdelete = (\<lambda>b k d. map_option (\<lambda>x. (x, snd d)) (bdelete ref_bolt b k (fst d))),
     bitems = (\<lambda>b d. bitems ref_bolt b (fst d))\<rparr>"

lemma seq_bolt_ok: "bolt_ok seq_bolt"
  using ref_bolt_ok by (auto simp: bolt_ok_def seq_bolt_def)

section \<open>A codec of events\<close>

definition put_rat :: "rat \<Rightarrow> bytes" where
  "put_rat q = put_int (fst (quotient_of q)) @ put_int (snd (quotient_of q))"

definition get_rat :: "bytes \<Rightarrow> (rat \<times> bytes) option" where
  "get_rat b = (case get_int b of None \<Rightarrow> None | Some (n, r) \<Rightarrow>
     (case get_int r of None \<Rightarrow> None | Some (m, r') \<Rightarrow> Some (of_int n / of_int m, r')))"

lemma get_put_rat [simp]: "get_rat (put_rat q @ r) = Some (q, r)"
  using quotient_of_div[OF prod.collapse[symmetric], of q] by (simp add: get_rat_def put_rat_def)

definition put_event :: "Event \<Rightarrow> bytes" where
  "put_event e = put_list put_str [Category e, Actor e, Op e, Target e, evBucket e, evKey e, ErrorCode e, ClientIP e, UserAgent e, Detail e]
     @ put_list put_int [TimeUnixNano e, evStatus e, BytesIn e, BytesOut e] @ put_rat (DurationMs e)"

definition get_event :: "bytes \<Rightarrow> Event option" where
  "get_event b = (case get_all get_str b of
       Some ([c, a, o', t, bk, k, ec, ip, ua, dt], r) \<Rightarrow>
         (case get_all get_int r of
            Some ([n, s, i, o2], r') \<Rightarrow>
              (case get_rat r' of
                 Some (q, _) \<Rightarrow> Some \<lparr>TimeUnixNano = n, Category = c, Actor = a, Op = o', Target = t, evBucket = bk, evKey = k,
                   evStatus = s, ErrorCode = ec, ClientIP = ip, BytesIn = i, BytesOut = o2, DurationMs = q, UserAgent = ua, Detail = dt\<rparr>
               | None \<Rightarrow> None)
          | _ \<Rightarrow> None)
     | _ \<Rightarrow> None)"

lemma get_put_event [simp]: "get_event (put_event e) = Some e"
proof -
  have strs: "get_all get_str (put_list put_str xs @ r) = Some (xs, r)" for xs r by (rule get_put_all) (rule get_put_str)
  have ints: "get_all get_int (put_list put_int xs @ r) = Some (xs, r)" for xs r by (rule get_put_all) (rule get_put_int)
  have "get_rat (put_rat (DurationMs e)) = Some (DurationMs e, [])" using get_put_rat[of "DurationMs e" "[]"] by simp
  then show ?thesis unfolding get_event_def put_event_def strs ints option.case prod.case list.case by simp
qed

definition ref_event_lib :: "seq_db event_lib" where
  "ref_event_lib = \<lparr>event_enc = (\<lambda>e. Some (put_event e)), event_dec = get_event, bseq = seq_of,
     NextSequence = (\<lambda>b d. let n = seq_of b d + 1 in Some (n, fst d, AList.update b (nat n) (snd d)))\<rparr>"

lemma seq_of_nonneg: "0 \<le> seq_of b d"
  by (simp add: seq_of_def split: option.split)

lemma ref_event_codec: "event_codec_ok ref_event_lib"
  by (auto simp: event_codec_ok_def ref_event_lib_def)

lemma ref_event_seq: "seq_ok ref_event_lib seq_bolt"
proof -
  have "seq_of b' (x, AList.update b (nat (seq_of b d + 1)) (snd d)) = (if b' = b then seq_of b d + 1 else seq_of b' d)" for b b' x and d :: seq_db
    using seq_of_nonneg[of b d] by (auto simp: seq_of_def update_conv)
  moreover have "seq_of b (x, snd d) = seq_of b d" for b x and d :: seq_db by (simp add: seq_of_def)
  ultimately show ?thesis unfolding seq_ok_def
    by (auto simp: ref_event_lib_def seq_bolt_def Let_def seq_of_nonneg)
qed

text \<open>An audit event.\<close>

definition ref_audit :: "int \<Rightarrow> string \<Rightarrow> Event" where
  "ref_audit t op = \<lparr>TimeUnixNano = t, Category = EventControl, Actor = ''AK'', Op = op, Target = [], evBucket = [], evKey = [],
     evStatus = 0, ErrorCode = [], ClientIP = [], BytesIn = 0, BytesOut = 0, DurationMs = 0, UserAgent = [], Detail = []\<rparr>"

definition ref_access :: "int \<Rightarrow> string \<Rightarrow> Event" where
  "ref_access t k = (ref_audit t ''GetObject'')\<lparr>Category := EventData, evBucket := ''bkt'', evKey := k\<rparr>"

end
