(* ===== verification/Event_Data.thy ===== *)
theory Event_Data
  imports Event_History
begin

text \<open>
  The data log as a list: what the flusher leaves in the data bucket is the events of the batches it
  wrote, in the order of their times, under the retention in force at each flush.
\<close>

section \<open>The abstract log\<close>

text \<open>An event goes behind those that are not younger; a flush then applies the two caps.\<close>

definition log_event :: "Event \<Rightarrow> Event list \<Rightarrow> Event list" where
  "log_event e es =
     takeWhile (\<lambda>x. TimeUnixNano x \<le> TimeUnixNano e) es @ e # dropWhile (\<lambda>x. TimeUnixNano x \<le> TimeUnixNano e) es"

definition retain :: "access_log \<Rightarrow> time \<Rightarrow> Event list \<Rightarrow> Event list" where
  "retain st t es =
     keep_newest (accessMaxCount st)
       (if accessMaxAgeNs st > 0 then filter (\<lambda>x. t - accessMaxAgeNs st \<le> TimeUnixNano x) es else es)"

fun log_step :: "observation \<Rightarrow> Event list \<Rightarrow> Event list" where
  "log_step (Flushed st t b) es = (if b = [] then es else retain st t (fold log_event b es))"
| "log_step _ es = es"

definition logged :: "observation list \<Rightarrow> Event list" where
  "logged tr = fold log_step tr []"

definition by_time :: "Event list \<Rightarrow> bool" where
  "by_time es \<longleftrightarrow> sorted (map TimeUnixNano es) \<and> (\<forall>x\<in>set es. valid_event x)"

lemma set_log_event: "set (log_event e es) = insert e (set es)"
proof -
  let ?P = "\<lambda>x. TimeUnixNano x \<le> TimeUnixNano e"
  have "set (takeWhile ?P es) \<union> set (dropWhile ?P es) = set es" by (metis set_append takeWhile_dropWhile_id)
  then show ?thesis by (auto simp: log_event_def)
qed

lemma by_time_log_event:
  assumes "by_time es" "valid_event e"
  shows "by_time (log_event e es)"
proof -
  let ?P = "\<lambda>x. TimeUnixNano x \<le> TimeUnixNano e"
  obtain us vs where split: "takeWhile ?P es = us" "dropWhile ?P es = vs" "es = us @ vs" by (metis takeWhile_dropWhile_id)
  have "sorted (map TimeUnixNano us)" "sorted (map TimeUnixNano vs)" "\<forall>x\<in>set us. \<forall>y\<in>set vs. TimeUnixNano x \<le> TimeUnixNano y"
    using assms(1) unfolding by_time_def split(3) by (auto simp: sorted_append)
  moreover have "\<forall>x\<in>set us. TimeUnixNano x \<le> TimeUnixNano e" unfolding split(1)[symmetric] by (auto dest: set_takeWhileD)
  moreover have "\<forall>x\<in>set vs. TimeUnixNano e < TimeUnixNano x"
    using assms(1) unfolding split(2)[symmetric] by_time_def by (simp add: dropWhile_le_sorted)
  ultimately have "sorted (map TimeUnixNano (log_event e es))"
    unfolding log_event_def split(1,2) by (auto simp: sorted_append intro: order.strict_implies_order)
  moreover have "\<forall>x\<in>set (log_event e es). valid_event x" using assms by (simp add: set_log_event by_time_def)
  ultimately show ?thesis by (simp add: by_time_def)
qed

lemma by_time_drop: "by_time es \<Longrightarrow> by_time (drop n es)"
  by (auto simp: by_time_def drop_map[symmetric] sorted_wrt_drop dest: in_set_dropD)

lemma by_time_filter: "by_time es \<Longrightarrow> by_time (filter P es)"
  by (simp add: by_time_def sorted_filter)

lemma by_time_retain: "by_time es \<Longrightarrow> by_time (retain st t es)"
  by (simp add: retain_def keep_newest_def by_time_drop by_time_filter)

section \<open>One event\<close>

lemma split_map2:
  assumes "map f xs = map f' ys" "map h xs = map h' ys"
  shows "map h (takeWhile (\<lambda>x. P (f x)) xs) = map h' (takeWhile (\<lambda>y. P (f' y)) ys)"
    "map h (dropWhile (\<lambda>x. P (f x)) xs) = map h' (dropWhile (\<lambda>y. P (f' y)) ys)"
proof -
  have "map h (takeWhile (\<lambda>x. P (f x)) xs) = map h' (takeWhile (\<lambda>y. P (f' y)) ys)
      \<and> map h (dropWhile (\<lambda>x. P (f x)) xs) = map h' (dropWhile (\<lambda>y. P (f' y)) ys)"
    using assms
  proof (induction xs arbitrary: ys)
    case (Cons x xs)
    then obtain y zs where "ys = y # zs" by (cases ys) auto
    with Cons show ?case by auto
  qed simp
  then show "map h (takeWhile (\<lambda>x. P (f x)) xs) = map h' (takeWhile (\<lambda>y. P (f' y)) ys)"
    "map h (dropWhile (\<lambda>x. P (f x)) xs) = map h' (dropWhile (\<lambda>y. P (f' y)) ys)" by blast+
qed

lemma insort_key_split: "insort_key f x xs = takeWhile (\<lambda>y. f y < f x) xs @ x # dropWhile (\<lambda>y. f y < f x) xs"
  by (induction xs) auto

lemma takeWhile_dropWhile_cong:
  "(\<And>x. x \<in> set xs \<Longrightarrow> P x = Q x) \<Longrightarrow> takeWhile P xs = takeWhile Q xs \<and> dropWhile P xs = dropWhile Q xs"
  by (simp cong: takeWhile_cong dropWhile_cong)

lemma encodeEventKey_not_less:
  assumes "0 \<le> t" "t < key_nano k" "k = encodeEventKey t' s'"
  shows "\<not> k < encodeEventKey t s"
proof -
  let ?a = "be_bytes 8 t'" and ?b = "be_bytes 8 t"
  have r: "0 \<le> be_val ?a" "be_val ?a < 2 ^ 64" using be_val_bytes[of 8 t'] by simp_all
  have "int64 (be_val ?a) = key_nano k" by (simp add: assms(3) key_nano_def encodeEventKey_def)
  moreover have "int64 x \<le> x" if "0 \<le> x" "x < 2 ^ 64" for x
  proof (cases "x < 2 ^ 63")
    case False
    have "(x + 2 ^ 63) mod 2 ^ 64 = (x + 2 ^ 63 - 2 ^ 64) mod (2 ^ 64 :: int)" by (metis minus_mod_self2)
    also have "\<dots> = x + 2 ^ 63 - 2 ^ 64" using that False by (intro mod_pos_pos_trivial) auto
    finally show ?thesis using that by (simp add: int64_def)
  qed (use that in \<open>simp add: int64_def\<close>)
  ultimately have a: "t < be_val ?a" using assms(2) r by force
  have "be_val ?b = t" using be_val_bytes[of 8 t] assms(1) a r by simp
  then have "?b < ?a" using less_be_val[of ?b ?a] a by simp
  then have "encodeEventKey t s < k" using less_append[of ?b ?a] by (simp add: encodeEventKey_def assms(3))
  then show ?thesis by simp
qed

lemma putEvent_log:
  assumes "bolt_ok B" "seq_ok L B" "event_codec_ok L" "log_rel L B b d es" "by_time es" "valid_event e"
    "bseq L b d + 1 < 2 ^ 64" "putEvent L B b e d = Some d'"
  shows "log_rel L B b d' (log_event e es)" "bseq L b d' = bseq L b d + 1"
proof -
  let ?n = "bseq L b d + 1" and ?xs = "bitems B b d"
  let ?k = "encodeEventKey (TimeUnixNano e) ?n"
  have inv: "log_inv L B b d" and dec: "map (\<lambda>kv. event_dec L (snd kv)) ?xs = map Some es"
    and times: "map (\<lambda>kv. key_nano (fst kv)) ?xs = map TimeUnixNano es" using assms(4) by (simp_all add: log_rel_def)
  note p = putEvent_items[OF assms(1,2) inv assms(7,8)]
  show "bseq L b d' = bseq L b d + 1" by (rule p(2))
  obtain v where v: "event_enc L e = Some v" "bitems B b d' = insort_key fst (?k, v) ?xs" using p(1) by blast
  have t: "0 \<le> TimeUnixNano e" "TimeUnixNano e < 2 ^ 63" using assms(6) by (simp_all add: valid_event_def)
  have lt: "fst kv < ?k \<longleftrightarrow> key_nano (fst kv) \<le> TimeUnixNano e" if kv: "kv \<in> set ?xs" for kv
  proof -
    obtain t' s where k: "fst kv = encodeEventKey t' s" "0 < s" "s \<le> bseq L b d" using inv kv by (auto simp: log_inv_def)
    have "key_nano (fst kv) \<in> TimeUnixNano ` set es" using times kv by (metis list.set_map image_eqI)
    then have "0 \<le> key_nano (fst kv)" using assms(5) by (auto simp: by_time_def valid_event_def)
    then have "fst kv < ?k" if "key_nano (fst kv) \<le> TimeUnixNano e"
      using that k(2,3) assms(7) t(2) unfolding k(1) by (intro encodeEventKey_less[OF refl]) auto
    moreover have "\<not> fst kv < ?k" if "\<not> key_nano (fst kv) \<le> TimeUnixNano e"
      using that by (intro encodeEventKey_not_less[OF t(1) _ k(1)]) simp
    ultimately show ?thesis by blast
  qed
  have ins: "bitems B b d' = takeWhile (\<lambda>kv. key_nano (fst kv) \<le> TimeUnixNano e) ?xs @ (?k, v)
      # dropWhile (\<lambda>kv. key_nano (fst kv) \<le> TimeUnixNano e) ?xs"
    using takeWhile_dropWhile_cong[of ?xs "\<lambda>kv. fst kv < ?k", OF lt] unfolding v(2) insort_key_split by simp
  have "event_dec L v = Some e" using assms(3,6) v(1) unfolding event_codec_ok_def by blast
  moreover have "key_nano ?k = TimeUnixNano e" using t by (intro key_nano_encode) auto
  ultimately show "log_rel L B b d' (log_event e es)"
    using p(3) split_map2[OF times dec, of "\<lambda>x. x \<le> TimeUnixNano e"] split_map2[OF times times, of "\<lambda>x. x \<le> TimeUnixNano e"]
    by (simp add: log_rel_def ins log_event_def)
qed

section \<open>A batch and its retention\<close>

definition data_rel :: "'db event_lib \<Rightarrow> 'db bolt \<Rightarrow> 'db \<Rightarrow> Event list \<Rightarrow> bool" where
  "data_rel L B d es \<longleftrightarrow> log_rel L B eventDataBucket d es \<and> by_time es"

lemma put_events_data:
  assumes "bolt_ok B" "seq_ok L B" "event_codec_ok L" "data_rel L B d es" "\<forall>e\<in>set b. valid_event e"
    "bseq L eventDataBucket d + int (length b) < 2 ^ 64" "put_events L B eventDataBucket b d = Some d'"
  shows "data_rel L B d' (fold log_event b es) \<and> bseq L eventDataBucket d' = bseq L eventDataBucket d + int (length b)"
  using assms(4-)
proof (induction b arbitrary: d es)
  case (Cons e b)
  obtain d1 where d1: "putEvent L B eventDataBucket e d = Some d1" "put_events L B eventDataBucket b d1 = Some d'"
    using Cons.prems(4) by (auto split: option.splits)
  have r: "log_rel L B eventDataBucket d es" "by_time es" "valid_event e" "bseq L eventDataBucket d + 1 < 2 ^ 64"
    using Cons.prems(1-3) by (simp_all add: data_rel_def)
  note p = putEvent_log[OF assms(1-3) r d1(1)]
  have "data_rel L B d1 (log_event e es)" using p(1) by_time_log_event[OF r(2,3)] by (simp add: data_rel_def)
  from Cons.IH[OF this _ _ d1(2)] Cons.prems(2,3) p(2) show ?case by simp
qed simp

lemma prune_data:
  assumes "bolt_ok B" "seq_ok L B" "data_rel L B d es" "pruneBucket B st eventDataBucket EventData t d = Some d'"
  shows "data_rel L B d' (retain st t es)" "bseq L eventDataBucket d' = bseq L eventDataBucket d"
proof -
  let ?xs = "bitems B eventDataBucket d" and ?c = "t - accessMaxAgeNs st"
  have inv: "log_inv L B eventDataBucket d" and dec: "map (\<lambda>kv. event_dec L (snd kv)) ?xs = map Some es"
    and times: "map (\<lambda>kv. key_nano (fst kv)) ?xs = map TimeUnixNano es" and bt: "by_time es"
    using assms(3) by (simp_all add: data_rel_def log_rel_def)
  have sorted: "dropWhile (\<lambda>x. TimeUnixNano x < ?c) es = filter (\<lambda>x. ?c \<le> TimeUnixNano x) es"
    using dropWhile_le_sorted[of TimeUnixNano es "?c - 1"] bt by (simp add: by_time_def diff_less_eq)
  note cut = split_map2(2)[OF times _, of _ _ "\<lambda>x. x < ?c", unfolded sorted]
  have "map (\<lambda>kv. event_dec L (snd kv)) (pruned st EventData t ?xs) = map Some (retain st t es)"
    using cut[OF dec] dec by (simp add: pruned_def retain_def keep_since_def map_keep_newest)
  moreover have "map (\<lambda>kv. key_nano (fst kv)) (pruned st EventData t ?xs) = map TimeUnixNano (retain st t es)"
    using cut[OF times] times by (simp add: pruned_def retain_def keep_since_def map_keep_newest)
  ultimately show "data_rel L B d' (retain st t es)"
    using pruneBucket_items(1)[OF assms(1,4)] pruneBucket_inv[OF assms(1,2) inv assms(4)] by_time_retain[OF bt]
    by (simp add: data_rel_def log_rel_def)
  show "bseq L eventDataBucket d' = bseq L eventDataBucket d" by (rule prune_seq[OF assms(2,4)])
qed

lemma flush_data:
  assumes "bolt_ok B" "seq_ok L B" "event_codec_ok L" "data_rel L B (fdb f) es" "\<forall>e\<in>set (batch f). valid_event e"
    "bseq L eventDataBucket (fdb f) + int (length (batch f)) < 2 ^ 64"
  shows "data_rel L B (fdb (flush L B t f)) (log_step (flush_result L B t f) es)
    \<and> bseq L eventDataBucket (fdb (flush L B t f)) \<le> bseq L eventDataBucket (fdb f) + int (length (batch f))"
proof (cases "flushEvents L B (flog f) t (batch f) (fdb f)")
  case None
  then show ?thesis using assms(4) by (simp add: flush_def flush_result_def)
next
  case (Some d)
  then have eq: "fdb (flush L B t f) = d" "flush_result L B t f = Flushed (flog f) t (batch f)" by (simp_all add: flush_def flush_result_def)
  show ?thesis
  proof (cases "batch f = []")
    case False
    then obtain d1 where d1: "put_events L B eventDataBucket (batch f) (fdb f) = Some d1"
      "pruneBucket B (flog f) eventDataBucket EventData t d1 = Some d" using Some by (auto simp: flushEvents_def split: option.splits)
    note p = put_events_data[OF assms(1-6) d1(1)]
    show ?thesis using prune_data[OF assms(1,2) conjunct1[OF p] d1(2)] p False unfolding eq by simp
  qed (use Some assms(4) eq in \<open>simp add: flushEvents_def\<close>)
qed

section \<open>Runs\<close>

lemma AppendEvent_data:
  assumes "bolt_ok B" "seq_ok L B" "Category e = EventControl" "AppendEvent L B st e d = Some d'"
  shows "bitems B eventDataBucket d' = bitems B eventDataBucket d" "bseq L eventDataBucket d' = bseq L eventDataBucket d"
proof -
  have b: "bucketFor (Category e) = eventControlBucket" using assms(3) by (simp add: bucketFor_def EventControl_def EventData_def)
  obtain d1 where d1: "putEvent L B eventControlBucket e d = Some d1"
    "pruneBucket B st eventControlBucket (Category e) (TimeUnixNano e) d1 = Some d'"
    using assms(4) unfolding AppendEvent_def b by (auto split: option.splits)
  note ne = control_not_data[symmetric]
  show "bitems B eventDataBucket d' = bitems B eventDataBucket d" "bseq L eventDataBucket d' = bseq L eventDataBucket d"
    using putEvent_other[OF assms(1,2) d1(1) ne] pruneBucket_items(2)[OF assms(1) d1(2) ne] prune_seq[OF assms(2) d1(2)] by simp_all
qed

lemma flusher_step_data:
  assumes "bolt_ok B" "seq_ok L B" "event_codec_ok L" "flusher_step L B mb f x f'" "data_rel L B (fdb f) es"
    "\<forall>e\<in>set (batch_of x). valid_event e" "bseq L eventDataBucket (fdb f) + int (length (batch_of x)) < 2 ^ 64"
  shows "data_rel L B (fdb f') (log_step x es)
    \<and> bseq L eventDataBucket (fdb f') \<le> bseq L eventDataBucket (fdb f) + int (length (batch_of x))"
  using assms(4)
proof cases
  case (receive_full e es1 f1 t)
  then have "fdb f1 = fdb f" by simp
  then show ?thesis using flush_data[OF assms(1-3), of f1 es t] assms(5-7) unfolding receive_full(1,2) by simp
next
  case (tick t)
  then show ?thesis using flush_data[OF assms(1-3,5)] assms(6,7) by simp
next
  case (audit e d)
  note a = AppendEvent_data[OF assms(1,2) audit(3,4)]
  show ?thesis using assms(5) a log_rel_cong[OF a] audit by (simp add: data_rel_def)
qed (use assms(5) in auto)

lemma flusher_run_data:
  assumes "bolt_ok B" "seq_ok L B" "event_codec_ok L" "flusher_run L B mb f tr f'" "data_rel L B (fdb f) []"
    "\<forall>e\<in>set (batches tr). valid_event e" "bseq L eventDataBucket (fdb f) + int (length (batches tr)) < 2 ^ 64"
  shows "data_rel L B (fdb f') (logged tr)
    \<and> bseq L eventDataBucket (fdb f') \<le> bseq L eventDataBucket (fdb f) + int (length (batches tr))"
  using assms(4-)
proof (induction rule: flusher_run.induct)
  case (start f)
  then show ?case by (simp add: logged_def)
next
  case (snoc f tr f1 x f2)
  then have "data_rel L B (fdb f1) (logged tr)" "bseq L eventDataBucket (fdb f1) \<le> bseq L eventDataBucket (fdb f) + int (length (batches tr))"
    by simp_all
  with flusher_step_data[OF assms(1-3) snoc.hyps(2), of "logged tr"] snoc.prems show ?case by (simp add: logged_def)
qed

section \<open>Drops\<close>

text \<open>A database that takes every write; the codec has a text for every valid event.\<close>

definition writes_succeed :: "'db event_lib \<Rightarrow> 'db bolt \<Rightarrow> bool" where
  "writes_succeed L B \<longleftrightarrow> (\<forall>b d. NextSequence L b d \<noteq> None) \<and> (\<forall>b k v d. bput B b k v d \<noteq> None)
     \<and> (\<forall>b k d. bdelete B b k d \<noteq> None) \<and> (\<forall>e. valid_event e \<longrightarrow> event_enc L e \<noteq> None)"

lemma flushEvents_succeeds:
  assumes "writes_succeed L B" "\<forall>e\<in>set b. valid_event e"
  shows "flushEvents L B st t b d \<noteq> None"
proof -
  have del: "delete_all B b' ks d' \<noteq> None" for b' ks d'
    using assms(1) by (induction ks arbitrary: d') (auto simp: writes_succeed_def split: option.split)
  have "putEvent L B b' e d' \<noteq> None" if "valid_event e" for b' e d'
    using assms(1) that by (auto simp: putEvent_def writes_succeed_def split: option.split prod.split)
  then have put: "put_events L B b' b d' \<noteq> None" for b' d'
    using assms(2) by (induction b arbitrary: d') (auto split: option.split)
  have "pruneBucket B st b' c t d' \<noteq> None" for b' c d'
    using del by (auto simp: pruneBucket_def pruneByAge_def pruneByCount_def Let_def simp del: not_None_eq split: option.split)
  then show ?thesis using put[of eventDataBucket d] by (auto simp: flushEvents_def split: option.split)
qed

lemma flusher_run_writes:
  assumes "writes_succeed L B" "flusher_run L B mb f tr f'" "\<forall>e\<in>set (batches tr). valid_event e"
  shows "\<forall>x\<in>set tr. dropped_of x = []"
  using assms(2,3)
proof (induction rule: flusher_run.induct)
  case (snoc f tr f1 x f2)
  have r: "dropped_of (flush_result L B t g) = []" if "\<forall>e\<in>set (batch g). valid_event e" for t g
    using flushEvents_succeeds[OF assms(1) that, of "flog g" t "fdb g"] by (auto simp: flush_result_def)
  from snoc.hyps(2) have "dropped_of x = []" by cases (use r snoc.prems in auto)
  with snoc show ?case by auto
qed simp

end
