(* ===== verification/Request_Samples.thy ===== *)
theory Request_Samples
  imports Event_Log Http "HOL-Library.Word" "HOL-Library.Signed_Division"
begin

text \<open>
  The request-outcome time series: the store of \<open>internal/storage/request_samples.go\<close>, the
  sampler of \<open>internal/sampler/sampler.go\<close> and the aggregation of
  \<open>internal/handlers/requests_chart.go\<close>.  Counters (\<open>float64\<close> in the code) are rationals.
\<close>

section \<open>The store\<close>

record RequestSample =
  MinuteUnix :: int
  C2xx :: "32 word"
  C4xx :: "32 word"
  C5xx :: "32 word"

definition requestSamplesBucket :: string where "requestSamplesBucket = ''RequestSamples''"
definition requestSampleValueLen :: nat where "requestSampleValueLen = 12"

definition encodeSampleKey :: "int \<Rightarrow> bytes" where
  "encodeSampleKey minuteUnix = be_bytes 8 minuteUnix"

definition encodeSampleValue :: "RequestSample \<Rightarrow> bytes" where
  "encodeSampleValue s = be_bytes 4 (uint (C2xx s)) @ be_bytes 4 (uint (C4xx s)) @ be_bytes 4 (uint (C5xx s))"

definition decode_sample :: "bytes \<times> bytes \<Rightarrow> RequestSample" where
  "decode_sample kv = (let v = snd kv in
     \<lparr>MinuteUnix = int64 (be_val (fst kv)), C2xx = word_of_int (be_val (take 4 v)),
      C4xx = word_of_int (be_val (take 4 (drop 4 v))), C5xx = word_of_int (be_val (take 4 (drop 8 v)))\<rparr>)"

definition PutRequestSample :: "'db bolt \<Rightarrow> RequestSample \<Rightarrow> 'db \<Rightarrow> 'db option" where
  "PutRequestSample B s d = bput B requestSamplesBucket (encodeSampleKey (MinuteUnix s)) (encodeSampleValue s) d"

definition QueryRequestSamples :: "'db bolt \<Rightarrow> int \<Rightarrow> int \<Rightarrow> 'db \<Rightarrow> RequestSample list" where
  "QueryRequestSamples B fromUnix toUnix d =
     map decode_sample (filter (\<lambda>kv. length (snd kv) = requestSampleValueLen)
       (takeWhile (\<lambda>kv. fst kv < encodeSampleKey toUnix)
         (dropWhile (\<lambda>kv. fst kv < encodeSampleKey fromUnix) (bitems B requestSamplesBucket d))))"

definition PruneRequestSamples :: "'db bolt \<Rightarrow> int \<Rightarrow> 'db \<Rightarrow> 'db option" where
  "PruneRequestSamples B beforeUnix d =
     delete_all B requestSamplesBucket
       (takeWhile (\<lambda>k. k < encodeSampleKey beforeUnix) (map fst (bitems B requestSamplesBucket d))) d"

section \<open>The sampler\<close>

record RequestOutcomes =
  Success :: rat
  Redirect :: rat
  ClientError :: rat
  ServerError :: rat

definition toU32 :: "rat \<Rightarrow> 32 word" where
  "toU32 f = (if f < 0 then 0 else if f > 4294967295 then 4294967295 else word_of_int \<lfloor>f\<rfloor>)"

definition sub :: "rat \<Rightarrow> rat \<Rightarrow> 32 word" where
  "sub prev cur = (if cur < prev then toU32 cur else toU32 (cur - prev))"

definition delta :: "RequestOutcomes \<Rightarrow> RequestOutcomes \<Rightarrow> RequestSample" where
  "delta prev cur = \<lparr>MinuteUnix = 0, C2xx = sub (Success prev) (Success cur),
     C4xx = sub (ClientError prev) (ClientError cur), C5xx = sub (ServerError prev) (ServerError cur)\<rparr>"

text \<open>\<open>t.Truncate(d)\<close> for a \<open>d\<close> that divides a day, and \<open>t.Unix()\<close>.\<close>

definition Truncate :: "time \<Rightarrow> duration \<Rightarrow> time" where
  "Truncate t d = t - t mod d"

definition Unix :: "time \<Rightarrow> int" where
  "Unix t = t div Second"

text \<open>
  One tick: the new reading is kept whatever happens to the store, and the database is the one after
  the last transaction that succeeded; the flag is false when a transaction failed.
\<close>

definition tick :: "'db bolt \<Rightarrow> time \<Rightarrow> int \<Rightarrow> RequestOutcomes \<Rightarrow> RequestOutcomes \<times> 'db \<Rightarrow> bool \<times> RequestOutcomes \<times> 'db" where
  "tick B t retentionDays cur st =
     (let (last, db) = st;
          s = (delta last cur)\<lparr>MinuteUnix := Unix (Truncate t Minute)\<rparr>
      in case PutRequestSample B s db of
           None \<Rightarrow> (False, cur, db)
         | Some db1 \<Rightarrow>
             (case PruneRequestSamples B (Unix (t + int64 (int64 (- retentionDays * 24) * Hour))) db1 of
                None \<Rightarrow> (False, cur, db1)
              | Some db2 \<Rightarrow> (True, cur, db2)))"

section \<open>The chart\<close>

record rangeGeometry =
  geom_bucket :: duration
  geom_count :: nat

definition requestRanges :: "(string \<times> rangeGeometry) list" where
  "requestRanges =
     [(''1h'', \<lparr>geom_bucket = Minute, geom_count = 60\<rparr>),
      (''24h'', \<lparr>geom_bucket = Hour, geom_count = 24\<rparr>),
      (''7d'', \<lparr>geom_bucket = 24 * Hour, geom_count = 7\<rparr>),
      (''14d'', \<lparr>geom_bucket = 24 * Hour, geom_count = 14\<rparr>),
      (''30d'', \<lparr>geom_bucket = 24 * Hour, geom_count = 30\<rparr>)]"

definition defaultRequestRange :: string where "defaultRequestRange = ''24h''"

record requestBucketDTO =
  bkTs :: int
  bk2xx :: "32 word"
  bk4xx :: "32 word"
  bk5xx :: "32 word"

record requestTotals =
  tot2xx :: "64 word"
  tot4xx :: "64 word"
  tot5xx :: "64 word"

record requestSeriesDTO =
  rsRange :: string
  rsOffset :: int
  rsFrom :: int
  rsTo :: int
  rsBucketSeconds :: int
  rsCanBack :: bool
  rsCanForward :: bool
  rsTotals :: requestTotals
  rsBuckets :: "requestBucketDTO list"

text \<open>The bounds of a window; \<open>Duration\<close> arithmetic wraps at 64 bits.\<close>

definition series_end :: "time \<Rightarrow> rangeGeometry \<Rightarrow> int \<Rightarrow> time" where
  "series_end t g offset =
     Truncate t (geom_bucket g) + geom_bucket g + int64 (int64 (- offset) * (geom_bucket g * int (geom_count g)))"

definition series_start :: "time \<Rightarrow> rangeGeometry \<Rightarrow> int \<Rightarrow> time" where
  "series_start t g offset = series_end t g offset - geom_bucket g * int (geom_count g)"

definition bucket_secs :: "rangeGeometry \<Rightarrow> int" where
  "bucket_secs g = geom_bucket g div Second"

definition add_bucket :: "RequestSample \<Rightarrow> requestBucketDTO \<Rightarrow> requestBucketDTO" where
  "add_bucket s b = b\<lparr>bk2xx := bk2xx b + C2xx s, bk4xx := bk4xx b + C4xx s, bk5xx := bk5xx b + C5xx s\<rparr>"

definition add_totals :: "RequestSample \<Rightarrow> requestTotals \<Rightarrow> requestTotals" where
  "add_totals s t = t\<lparr>tot2xx := tot2xx t + ucast (C2xx s), tot4xx := tot4xx t + ucast (C4xx s), tot5xx := tot5xx t + ucast (C5xx s)\<rparr>"

text \<open>Integer division of Go truncates towards zero.\<close>

definition sample_index :: "int \<Rightarrow> rangeGeometry \<Rightarrow> RequestSample \<Rightarrow> int" where
  "sample_index startUnix g s = int64 (MinuteUnix s - startUnix) sdiv bucket_secs g"

fun add_samples :: "int \<Rightarrow> rangeGeometry \<Rightarrow> RequestSample list \<Rightarrow> requestBucketDTO list \<times> requestTotals
    \<Rightarrow> requestBucketDTO list \<times> requestTotals" where
  "add_samples startUnix g [] acc = acc"
| "add_samples startUnix g (s # ss) (bs, tot) =
     (let idx = sample_index startUnix g s
      in if idx < 0 \<or> idx \<ge> int (geom_count g) then add_samples startUnix g ss (bs, tot)
         else add_samples startUnix g ss (bs[nat idx := add_bucket s (bs ! nat idx)], add_totals s tot))"

definition empty_buckets :: "int \<Rightarrow> rangeGeometry \<Rightarrow> requestBucketDTO list" where
  "empty_buckets startUnix g =
     map (\<lambda>i. \<lparr>bkTs = startUnix + int i * bucket_secs g, bk2xx = 0, bk4xx = 0, bk5xx = 0\<rparr>) [0..<geom_count g]"

text \<open>\<open>None\<close> is an error: an unknown range or a query that failed.\<close>

definition buildRequestSeries ::
  "time \<Rightarrow> string \<Rightarrow> int \<Rightarrow> duration \<Rightarrow> (int \<Rightarrow> int \<Rightarrow> RequestSample list option) \<Rightarrow> requestSeriesDTO option" where
  "buildRequestSeries t token offset0 retention query =
     (case map_of requestRanges token of
        None \<Rightarrow> None
      | Some g \<Rightarrow>
          (let offset = (if offset0 < 0 then 0 else offset0);
               endUnix = Unix (series_end t g offset);
               startUnix = Unix (series_start t g offset)
           in case query startUnix endUnix of
                None \<Rightarrow> None
              | Some samples \<Rightarrow>
                  (let (buckets, totals) = add_samples startUnix g samples
                         (empty_buckets startUnix g, \<lparr>tot2xx = 0, tot4xx = 0, tot5xx = 0\<rparr>)
                   in Some \<lparr>rsRange = token, rsOffset = offset, rsFrom = startUnix, rsTo = endUnix, rsBucketSeconds = bucket_secs g,
                        rsCanBack = series_start t g offset > t - retention, rsCanForward = offset > 0,
                        rsTotals = totals, rsBuckets = buckets\<rparr>)))"

definition bucket_tree :: "requestBucketDTO \<Rightarrow> tree" where
  "bucket_tree b = TObj [(''ts'', TInt (bkTs b)), (''c2xx'', TInt (uint (bk2xx b))), (''c4xx'', TInt (uint (bk4xx b))),
     (''c5xx'', TInt (uint (bk5xx b)))]"

definition series_tree :: "requestSeriesDTO \<Rightarrow> tree" where
  "series_tree s = TObj [(''range'', TStr (rsRange s)), (''offset'', TInt (rsOffset s)), (''from'', TInt (rsFrom s)),
     (''to'', TInt (rsTo s)), (''bucketSeconds'', TInt (rsBucketSeconds s)), (''canBack'', TBool (rsCanBack s)),
     (''canForward'', TBool (rsCanForward s)),
     (''totals'', TObj [(''c2xx'', TInt (uint (tot2xx (rsTotals s)))), (''c4xx'', TInt (uint (tot4xx (rsTotals s)))),
        (''c5xx'', TInt (uint (tot5xx (rsTotals s))))]),
     (''buckets'', TList (map bucket_tree (rsBuckets s)))]"

definition GetRequestSeriesHandler :: "'db bolt \<Rightarrow> time \<Rightarrow> duration \<Rightarrow> request \<Rightarrow> 'db \<Rightarrow> response" where
  "GetRequestSeriesHandler B t retention r d =
     (let token = (if hasQuery r ''range'' then Query r ''range'' else defaultRequestRange);
          raw = Query r ''offset''
      in case (if raw = [] then Some 0 else case ParseInt raw of Inl _ \<Rightarrow> None | Inr n \<Rightarrow> Some n) of
           None \<Rightarrow> respondError r 400 ''InvalidArgument'' ''offset must be an integer''
         | Some offset \<Rightarrow>
             (case buildRequestSeries t token offset retention (\<lambda>a b. Some (QueryRequestSamples B a b d)) of
                None \<Rightarrow> respondError r 400 ''InvalidArgument'' ''Unknown range; use 1h, 24h, 7d, 14d, or 30d''
              | Some dto \<Rightarrow> c_JSON 200 (series_tree dto)))"

end
