(* ===== verification/Sample_Laws.thy ===== *)
theory Sample_Laws
  imports Request_Samples Event_History
begin

text \<open>
  The series of samples as a list in time order: what a put, a prune and a query do to it, what
  a run of the sampler records, and how the chart distributes samples over its bars.
\<close>

section \<open>Encoding\<close>

lemma decode_sample_encode:
  assumes "0 \<le> MinuteUnix s" "MinuteUnix s < 2 ^ 63"
  shows "decode_sample (encodeSampleKey (MinuteUnix s), encodeSampleValue s) = s"
proof -
  have m: "int64 (be_val (be_bytes 8 (MinuteUnix s))) = MinuteUnix s"
    using assms int64_small[of "MinuteUnix s"] by (simp add: be_val_bytes)
  have w: "word_of_int (be_val (be_bytes 4 (uint x))) = x" for x :: "32 word"
    using uint_lt2p[of x] by (simp add: be_val_bytes)
  show ?thesis using m w by (simp add: decode_sample_def encodeSampleKey_def encodeSampleValue_def Let_def)
qed

lemma length_encodeSampleValue: "length (encodeSampleValue s) = requestSampleValueLen"
  by (simp add: encodeSampleValue_def requestSampleValueLen_def)

lemma encodeSampleKey_less:
  assumes "0 \<le> m" "m < 2 ^ 63" "0 \<le> n" "n < 2 ^ 63"
  shows "encodeSampleKey m < encodeSampleKey n \<longleftrightarrow> m < n"
  using assms less_be_val[of "be_bytes 8 m" "be_bytes 8 n"] by (simp add: encodeSampleKey_def be_val_bytes)

section \<open>The series\<close>

definition entry_of :: "RequestSample \<Rightarrow> bytes \<times> bytes" where
  "entry_of s = (encodeSampleKey (MinuteUnix s), encodeSampleValue s)"

definition minute_ok :: "int \<Rightarrow> bool" where
  "minute_ok m \<longleftrightarrow> 0 \<le> m \<and> m < 2 ^ 63"

definition series_rel :: "'db bolt \<Rightarrow> 'db \<Rightarrow> RequestSample list \<Rightarrow> bool" where
  "series_rel B d ss \<longleftrightarrow> bitems B requestSamplesBucket d = map entry_of ss \<and> (\<forall>s\<in>set ss. minute_ok (MinuteUnix s))"

lemma series_sorted:
  assumes "bolt_ok B" "series_rel B d ss"
  shows "sorted (map MinuteUnix ss)"
proof -
  have "sorted (map (\<lambda>s. encodeSampleKey (MinuteUnix s)) ss)"
    using bolt_items(1)[OF assms(1), of requestSamplesBucket d] assms(2) by (simp add: series_rel_def comp_def entry_of_def)
  moreover have "MinuteUnix s \<le> MinuteUnix s'" if "s \<in> set ss" "s' \<in> set ss" "encodeSampleKey (MinuteUnix s) \<le> encodeSampleKey (MinuteUnix s')" for s s'
    using that assms(2) encodeSampleKey_less[of "MinuteUnix s'" "MinuteUnix s"] by (force simp: series_rel_def minute_ok_def)
  ultimately show ?thesis unfolding sorted_map by (rule sorted_wrt_mono_rel[rotated])
qed

lemma entry_less:
  "\<lbrakk>series_rel B d ss; s \<in> set ss; minute_ok m\<rbrakk> \<Longrightarrow> fst (entry_of s) < encodeSampleKey m \<longleftrightarrow> MinuteUnix s < m"
  using encodeSampleKey_less by (simp add: series_rel_def entry_of_def minute_ok_def)

lemma takeWhile_sorted_less: "sorted (map f xs) \<Longrightarrow> takeWhile (\<lambda>x. f x < c) xs = filter (\<lambda>x. f x < c) xs"
proof (induction xs)
  case (Cons x xs)
  show ?case
  proof (cases "f x < c")
    case False
    then have "\<forall>y\<in>set xs. \<not> f y < c" using Cons.prems by auto
    then show ?thesis using False by (simp add: filter_empty_conv)
  qed (use Cons in simp)
qed simp

lemma dropWhile_sorted_less: "sorted (map f xs) \<Longrightarrow> dropWhile (\<lambda>x. f x < (c :: int)) xs = filter (\<lambda>x. c \<le> f x) xs"
proof -
  have "(c - 1 < y) = (c \<le> y)" "(y \<le> c - 1) = (y < c)" for y by linarith+
  then show "sorted (map f xs) \<Longrightarrow> ?thesis" using dropWhile_le_sorted[of f xs "c - 1"] by simp
qed

lemma takeWhile_entries:
  assumes "series_rel B d ss" "minute_ok m" "set xs \<subseteq> set ss"
  shows "takeWhile (\<lambda>kv. fst kv < encodeSampleKey m) (map entry_of xs) = map entry_of (takeWhile (\<lambda>s. MinuteUnix s < m) xs)"
    "dropWhile (\<lambda>kv. fst kv < encodeSampleKey m) (map entry_of xs) = map entry_of (dropWhile (\<lambda>s. MinuteUnix s < m) xs)"
proof -
  have "takeWhile (\<lambda>s. fst (entry_of s) < encodeSampleKey m) xs = takeWhile (\<lambda>s. MinuteUnix s < m) xs"
    "dropWhile (\<lambda>s. fst (entry_of s) < encodeSampleKey m) xs = dropWhile (\<lambda>s. MinuteUnix s < m) xs"
    using entry_less[OF assms(1) _ assms(2)] assms(3) by (auto intro: takeWhile_cong dropWhile_cong)
  then show "takeWhile (\<lambda>kv. fst kv < encodeSampleKey m) (map entry_of xs) = map entry_of (takeWhile (\<lambda>s. MinuteUnix s < m) xs)"
    "dropWhile (\<lambda>kv. fst kv < encodeSampleKey m) (map entry_of xs) = map entry_of (dropWhile (\<lambda>s. MinuteUnix s < m) xs)"
    by (simp_all add: takeWhile_map dropWhile_map comp_def)
qed

lemma decode_entries: "\<forall>s\<in>set xs. minute_ok (MinuteUnix s) \<Longrightarrow> map decode_sample (map entry_of xs) = xs"
  by (induction xs) (simp_all add: entry_of_def decode_sample_encode minute_ok_def)

lemma Query_series:
  assumes "bolt_ok B" "series_rel B d ss" "minute_ok a" "minute_ok b"
  shows "QueryRequestSamples B a b d = filter (\<lambda>s. a \<le> MinuteUnix s \<and> MinuteUnix s < b) ss"
proof -
  note srt = series_sorted[OF assms(1,2)]
  let ?xs = "dropWhile (\<lambda>s. MinuteUnix s < a) ss"
  have sub: "set ?xs \<subseteq> set ss" using set_dropWhileD by fast
  have "sorted (map MinuteUnix ?xs)" using srt by (simp add: dropWhile_sorted_less sorted_filter)
  then have eq: "takeWhile (\<lambda>s. MinuteUnix s < b) ?xs = filter (\<lambda>s. a \<le> MinuteUnix s \<and> MinuteUnix s < b) ss"
    using srt by (simp add: takeWhile_sorted_less dropWhile_sorted_less conj_commute)
  have fit: "filter (\<lambda>kv. length (snd kv) = requestSampleValueLen) (map entry_of xs) = map entry_of xs" for xs
    by (induction xs) (simp_all add: entry_of_def length_encodeSampleValue)
  have "QueryRequestSamples B a b d = map decode_sample (map entry_of (filter (\<lambda>s. a \<le> MinuteUnix s \<and> MinuteUnix s < b) ss))"
    using assms(2) takeWhile_entries[OF assms(2)] assms(3,4) sub
    by (simp add: QueryRequestSamples_def series_rel_def[of B d ss] fit eq)
  also have "\<dots> = filter (\<lambda>s. a \<le> MinuteUnix s \<and> MinuteUnix s < b) ss"
    using assms(2) by (intro decode_entries) (auto simp: series_rel_def)
  finally show ?thesis .
qed

lemma Put_series:
  assumes "bolt_ok B" "series_rel B d ss" "minute_ok (MinuteUnix s)" "\<forall>x\<in>set ss. MinuteUnix x < MinuteUnix s"
    "PutRequestSample B s d = Some d'"
  shows "series_rel B d' (ss @ [s])"
proof -
  have lt: "fst kv < encodeSampleKey (MinuteUnix s)" if "kv \<in> set (map entry_of ss)" for kv
    using that entry_less[OF assms(2) _ assms(3)] assms(4) by auto
  have put: "bput B requestSamplesBucket (fst (entry_of s)) (snd (entry_of s)) d = Some d'"
    using assms(5) by (simp add: PutRequestSample_def entry_of_def)
  have items: "bitems B requestSamplesBucket d = map entry_of ss" using assms(2) by (simp add: series_rel_def)
  have "fst (entry_of s) \<notin> fst ` set (bitems B requestSamplesBucket d)"
    unfolding items using lt by (force simp: entry_of_def)
  from bput_items[OF assms(1) put this] have "bitems B requestSamplesBucket d' = insort_key fst (entry_of s) (map entry_of ss)"
    by (simp add: items)
  also have "\<dots> = map entry_of ss @ [entry_of s]" using lt by (intro insort_key_last) (simp add: entry_of_def)
  finally show ?thesis using assms(2,3) by (simp add: series_rel_def)
qed

lemma Prune_series:
  assumes "bolt_ok B" "series_rel B d ss" "minute_ok c" "PruneRequestSamples B c d = Some d'"
  shows "series_rel B d' (filter (\<lambda>s. c \<le> MinuteUnix s) ss)"
proof -
  let ?xs = "map entry_of ss" and ?P = "\<lambda>kv. fst kv < encodeSampleKey c"
  have items: "bitems B requestSamplesBucket d = ?xs" using assms(2) by (simp add: series_rel_def)
  have del: "delete_all B requestSamplesBucket (map fst (takeWhile ?P ?xs)) d = Some d'"
    using assms(4) by (simp add: PruneRequestSamples_def items takeWhile_map comp_def)
  have "distinct (map fst (takeWhile ?P ?xs @ dropWhile ?P ?xs))"
    using bolt_items(2)[OF assms(1), of requestSamplesBucket d] by (simp only: takeWhile_dropWhile_id items)
  from filter_prefix[OF this] have "bitems B requestSamplesBucket d' = dropWhile ?P ?xs"
    using delete_all_items[OF assms(1) del, of requestSamplesBucket] by (simp add: items)
  also have "\<dots> = map entry_of (filter (\<lambda>s. c \<le> MinuteUnix s) ss)"
    using takeWhile_entries(2)[OF assms(2,3) order.refl] dropWhile_sorted_less[OF series_sorted[OF assms(1,2)]] by simp
  finally show ?thesis using assms(2) by (simp add: series_rel_def)
qed

section \<open>The sampler\<close>

definition minute_of :: "time \<Rightarrow> int" where
  "minute_of t = Unix (Truncate t Minute)"

definition cutoff_of :: "int \<Rightarrow> time \<Rightarrow> int" where
  "cutoff_of days t = Unix (t - days * 24 * Hour)"

text \<open>Successive ticks; \<open>None\<close> when one of them failed.\<close>

fun run_ticks :: "'db bolt \<Rightarrow> int \<Rightarrow> (time \<times> RequestOutcomes) list \<Rightarrow> RequestOutcomes \<times> 'db \<Rightarrow> (RequestOutcomes \<times> 'db) option" where
  "run_ticks B days [] st = Some st"
| "run_ticks B days ((t, cur) # ts) st =
     (let (ok, st1) = tick B t days cur st in if ok then run_ticks B days ts st1 else None)"

fun deltas :: "RequestOutcomes \<Rightarrow> (time \<times> RequestOutcomes) list \<Rightarrow> RequestSample list" where
  "deltas prev [] = []"
| "deltas prev ((t, cur) # ts) = (delta prev cur)\<lparr>MinuteUnix := minute_of t\<rparr> # deltas cur ts"

lemma Unix_mono: "t \<le> u \<Longrightarrow> Unix t \<le> Unix u"
  by (simp add: Unix_def zdiv_mono1)

lemma minute_of_mono: "t \<le> u \<Longrightarrow> minute_of t \<le> minute_of u"
  unfolding minute_of_def Truncate_def minus_mod_eq_div_mult by (intro Unix_mono mult_right_mono zdiv_mono1) (simp_all add: Minute_def Second_def)

lemma Unix_range:
  assumes "0 \<le> t" "t < 2 ^ 63"
  shows "minute_ok (Unix t)"
proof -
  have "Unix t \<le> t div 1" unfolding Unix_def Second_def using assms(1) by (intro zdiv_mono2) simp_all
  then show ?thesis using assms by (simp add: minute_ok_def Unix_def pos_imp_zdiv_nonneg_iff)
qed

lemma minute_of_range:
  assumes "0 \<le> t" "t < 2 ^ 63"
  shows "minute_ok (minute_of t)"
proof -
  have "0 < Minute" by (simp add: Minute_def)
  then have "t mod Minute \<le> t" "0 \<le> t mod Minute" using zmod_le_nonneg_dividend[OF assms(1)] by simp_all
  then show ?thesis unfolding minute_of_def Truncate_def using assms(2) by (intro Unix_range) simp_all
qed

lemma cutoff_range:
  assumes "days * 24 * Hour \<le> t" "0 \<le> days" "days \<le> 365" "t < 2 ^ 63"
  shows "int64 (int64 (- days * 24) * Hour) = - days * 24 * Hour" "minute_ok (cutoff_of days t)"
proof -
  have "int64 (- days * 24) = - days * 24" using assms by (intro int64_small) auto
  moreover have "int64 (- days * 24 * Hour) = - days * 24 * Hour"
    using assms by (intro int64_small) (auto simp: Hour_def Minute_def Second_def)
  ultimately show "int64 (int64 (- days * 24) * Hour) = - days * 24 * Hour" by simp
  have "0 \<le> t - days * 24 * Hour" "t - days * 24 * Hour \<le> t" using assms by (simp_all add: Hour_def Minute_def Second_def)
  then show "minute_ok (cutoff_of days t)" unfolding cutoff_of_def using assms(4) by (intro Unix_range) linarith+
qed

definition tick_time :: "int \<Rightarrow> time \<Rightarrow> bool" where
  "tick_time days t \<longleftrightarrow> days * 24 * Hour \<le> t \<and> t < 2 ^ 63"

lemma tick_series:
  assumes "bolt_ok B" "series_rel B d ss" "0 \<le> days" "days \<le> 365" "tick_time days t"
    "\<forall>x\<in>set ss. MinuteUnix x < minute_of t" "tick B t days cur (prev, d) = (True, prev', d')"
  shows "prev' = cur \<and> series_rel B d' (filter (\<lambda>s. cutoff_of days t \<le> MinuteUnix s)
    (ss @ [(delta prev cur)\<lparr>MinuteUnix := minute_of t\<rparr>]))"
proof -
  let ?s = "(delta prev cur)\<lparr>MinuteUnix := minute_of t\<rparr>"
  have t: "days * 24 * Hour \<le> t" "t < 2 ^ 63" using assms(5) by (simp_all add: tick_time_def)
  moreover have "0 \<le> days * 24 * Hour" using assms(3) by (simp add: Hour_def Minute_def Second_def)
  ultimately have m: "minute_ok (minute_of t)" by (intro minute_of_range) linarith+
  obtain d1 where d1: "PutRequestSample B ?s d = Some d1" "PruneRequestSamples B (cutoff_of days t) d1 = Some d'" "prev' = cur"
    using assms(7) cutoff_range(1)[OF t(1) assms(3,4) t(2)]
    by (auto simp: tick_def Let_def minute_of_def cutoff_of_def split: option.splits)
  have "series_rel B d1 (ss @ [?s])" using Put_series[OF assms(1,2) _ _ d1(1)] m assms(6) by simp
  from Prune_series[OF assms(1) this cutoff_range(2)[OF t(1) assms(3,4) t(2)] d1(2)] d1(3) show ?thesis by simp
qed

lemma cutoff_mono: "t \<le> u \<Longrightarrow> cutoff_of days t \<le> cutoff_of days u"
  by (simp add: cutoff_of_def Unix_mono)

text \<open>With increasing minutes the store holds every delta that the last cutoff has not passed.\<close>

lemma run_ticks_series:
  assumes "bolt_ok B" "0 \<le> days" "days \<le> 365"
    and "series_rel B d ss" "run_ticks B days ts (prev, d) = Some (prev', d')" "ts \<noteq> []"
    and "\<forall>(t, c)\<in>set ts. tick_time days t" "sorted_wrt (<) (map (minute_of \<circ> fst) ts)"
    and "\<forall>x\<in>set ss. \<forall>(t, c)\<in>set ts. MinuteUnix x < minute_of t"
  shows "prev' = snd (last ts) \<and>
    series_rel B d' (filter (\<lambda>s. cutoff_of days (fst (last ts)) \<le> MinuteUnix s) (ss @ deltas prev ts))"
  using assms(4-)
proof (induction ts arbitrary: d ss prev)
  case (Cons x ts)
  obtain t cur where x: "x = (t, cur)" by fastforce
  let ?s = "(delta prev cur)\<lparr>MinuteUnix := minute_of t\<rparr>"
  obtain prev1 d1 where tk: "tick B t days cur (prev, d) = (True, prev1, d1)" and rest: "run_ticks B days ts (prev1, d1) = Some (prev', d')"
    using Cons.prems(2) x by (auto split: prod.splits if_splits)
  have pre: "tick_time days t" "\<forall>y\<in>set ss. MinuteUnix y < minute_of t" using Cons.prems(4,6) x by auto
  note tick = tick_series[OF assms(1) Cons.prems(1) assms(2,3) pre tk]
  show ?case
  proof (cases "ts = []")
    case True
    then show ?thesis using rest tick x by simp
  next
    case False
    let ?ss = "filter (\<lambda>s. cutoff_of days t \<le> MinuteUnix s) (ss @ [?s])"
    have "\<forall>y\<in>set ?ss. \<forall>(u, c)\<in>set ts. MinuteUnix y < minute_of u" using Cons.prems(5,6) x by auto
    then have IH: "prev' = snd (last ts) \<and> series_rel B d' (filter (\<lambda>s. cutoff_of days (fst (last ts)) \<le> MinuteUnix s) (?ss @ deltas cur ts))"
      using Cons.IH[of d1 ?ss cur] Cons.prems(4,5) tick rest False by auto
    have "minute_of t < minute_of (fst (last ts))" using Cons.prems(5) x False last_in_set[OF False] by auto
    then have "t \<le> fst (last ts)" using minute_of_mono linorder_not_less by (metis linorder_linear)
    let ?P = "\<lambda>s. cutoff_of days (fst (last ts)) \<le> MinuteUnix s"
    from cutoff_mono[OF \<open>t \<le> fst (last ts)\<close>, of days] have "filter ?P ?ss = filter ?P (ss @ [?s])"
      unfolding filter_filter by (intro filter_cong refl) auto
    moreover have "ss @ deltas prev (x # ts) = (ss @ [?s]) @ deltas cur ts" using x by simp
    ultimately have "filter ?P (?ss @ deltas cur ts) = filter ?P (ss @ deltas prev (x # ts))"
      by (simp only: filter_append[of ?P ?ss] filter_append[of ?P "ss @ [?s]"])
    then show ?thesis using IH False by (metis last_ConsR)
  qed
qed simp

end
