(* ===== verification/Chart_Laws.thy ===== *)
theory Chart_Laws
  imports Sample_Laws
begin

text \<open>
  The deltas of the sampler add up to the growth of the counters, and the chart is a histogram
  of the samples of its window.
\<close>

section \<open>Conservation\<close>

definition counts_up :: "rat \<Rightarrow> rat \<Rightarrow> bool" where
  "counts_up a b \<longleftrightarrow> a \<le> b \<and> b - a < 4294967296 \<and> of_int \<lfloor>b - a\<rfloor> = b - a"

definition count_val :: "32 word \<Rightarrow> rat" where "count_val w = of_int (uint w)"

fun grows :: "RequestOutcomes \<Rightarrow> (time \<times> RequestOutcomes) list \<Rightarrow> bool" where
  "grows prev [] \<longleftrightarrow> True"
| "grows prev ((t, cur) # ts) \<longleftrightarrow> counts_up (Success prev) (Success cur) \<and> counts_up (ClientError prev) (ClientError cur)
     \<and> counts_up (ServerError prev) (ServerError cur) \<and> grows cur ts"

lemma sub_counts: "counts_up a b \<Longrightarrow> count_val (sub a b) = b - a"
proof -
  assume c: "counts_up a b"
  then obtain n where n: "b - a = of_int n" "n = \<lfloor>b - a\<rfloor>" by (metis counts_up_def)
  have r: "0 \<le> n" "n \<le> 4294967295" using c n(1) unfolding counts_up_def by linarith+
  then have u: "uint (word_of_int n :: 32 word) = n" unfolding uint_word_of_int by (intro mod_pos_pos_trivial) simp_all
  have "\<not> b < a" "\<not> (of_int n :: rat) < 0" "\<not> (of_int n :: rat) > 4294967295" using c r unfolding counts_up_def by simp_all
  then have "sub a b = word_of_int n" by (simp add: sub_def toU32_def n(1))
  then show ?thesis by (simp only: count_val_def u n(1))
qed

lemma deltas_sum:
  assumes "grows prev ts"
  shows "sum_list (map (\<lambda>s. count_val (C2xx s)) (deltas prev ts)) = (if ts = [] then 0 else Success (snd (last ts)) - Success prev)"
    "sum_list (map (\<lambda>s. count_val (C4xx s)) (deltas prev ts)) = (if ts = [] then 0 else ClientError (snd (last ts)) - ClientError prev)"
    "sum_list (map (\<lambda>s. count_val (C5xx s)) (deltas prev ts)) = (if ts = [] then 0 else ServerError (snd (last ts)) - ServerError prev)"
  using assms by (induction prev ts rule: grows.induct) (auto simp: delta_def sub_counts)

section \<open>The histogram\<close>

definition in_bar :: "int \<Rightarrow> rangeGeometry \<Rightarrow> nat \<Rightarrow> RequestSample \<Rightarrow> bool" where
  "in_bar startUnix g i s \<longleftrightarrow> startUnix + int i * bucket_secs g \<le> MinuteUnix s
     \<and> MinuteUnix s < startUnix + int (Suc i) * bucket_secs g"

definition in_window :: "int \<Rightarrow> rangeGeometry \<Rightarrow> RequestSample \<Rightarrow> bool" where
  "in_window startUnix g s \<longleftrightarrow> startUnix \<le> MinuteUnix s \<and> MinuteUnix s < startUnix + int (geom_count g) * bucket_secs g"

definition geom_ok :: "rangeGeometry \<Rightarrow> bool" where
  "geom_ok g \<longleftrightarrow> 0 < bucket_secs g \<and> int (geom_count g) * bucket_secs g < 2 ^ 63"

lemma div_bar:
  assumes "0 < (k :: int)"
  shows "m div k = i \<longleftrightarrow> i * k \<le> m \<and> m < (i + 1) * k"
proof
  assume "m div k = i"
  then have "m = i * k + m mod k" by (metis div_mult_mod_eq)
  then show "i * k \<le> m \<and> m < (i + 1) * k" using pos_mod_bound[OF assms, of m] pos_mod_sign[OF assms, of m] by (simp add: distrib_right)
next
  assume "i * k \<le> m \<and> m < (i + 1) * k"
  then show "m div k = i" by (intro int_div_pos_eq[of m k i "m - i * k"]) (auto simp: algebra_simps)
qed

lemma sample_index_bar:
  assumes "geom_ok g" "in_window startUnix g s"
  shows "0 \<le> sample_index startUnix g s" "sample_index startUnix g s < int (geom_count g)"
    "nat (sample_index startUnix g s) = i \<longleftrightarrow> in_bar startUnix g i s"
proof -
  let ?k = "bucket_secs g" and ?m = "MinuteUnix s - startUnix"
  have k: "0 < ?k" and m: "0 \<le> ?m" "?m < int (geom_count g) * ?k" "?m < 2 ^ 63"
    using assms by (auto simp: geom_ok_def in_window_def)
  have "int64 ?m = ?m" using m by (intro int64_small) auto
  then have idx: "sample_index startUnix g s = ?m div ?k" using k m(1) by (simp add: sample_index_def signed_divide_int_def sgn_if)
  show "0 \<le> sample_index startUnix g s" unfolding idx using k m(1) by (simp add: pos_imp_zdiv_nonneg_iff)
  moreover show "sample_index startUnix g s < int (geom_count g)" unfolding idx
    using le_less_trans[OF _ m(2), of "?m div ?k * ?k"] k pos_mod_sign[OF k, of ?m] div_mult_mod_eq[of ?m ?k] by (simp only: mult_less_cancel_right_pos)
  ultimately have "nat (sample_index startUnix g s) = i \<longleftrightarrow> ?m div ?k = int i" unfolding idx by linarith
  also have "\<dots> \<longleftrightarrow> int i * ?k \<le> ?m \<and> ?m < (int i + 1) * ?k"
    by (rule div_bar[OF k])
  finally show "nat (sample_index startUnix g s) = i \<longleftrightarrow> in_bar startUnix g i s"
    by (simp add: in_bar_def algebra_simps)
qed

lemma add_samples_bars:
  assumes "geom_ok g" "\<forall>s\<in>set ss. in_window startUnix g s" "length bs = geom_count g" "i < geom_count g"
    "add_samples startUnix g ss (bs, tot) = (bs', tot')"
  shows "length bs' = geom_count g \<and> bkTs (bs' ! i) = bkTs (bs ! i)
    \<and> bk2xx (bs' ! i) = bk2xx (bs ! i) + sum_list (map C2xx (filter (in_bar startUnix g i) ss))
    \<and> bk4xx (bs' ! i) = bk4xx (bs ! i) + sum_list (map C4xx (filter (in_bar startUnix g i) ss))
    \<and> bk5xx (bs' ! i) = bk5xx (bs ! i) + sum_list (map C5xx (filter (in_bar startUnix g i) ss))
    \<and> tot2xx tot' = tot2xx tot + sum_list (map (\<lambda>s. ucast (C2xx s)) ss)
    \<and> tot4xx tot' = tot4xx tot + sum_list (map (\<lambda>s. ucast (C4xx s)) ss)
    \<and> tot5xx tot' = tot5xx tot + sum_list (map (\<lambda>s. ucast (C5xx s)) ss)"
  using assms(2,3,5)
proof (induction ss arbitrary: bs tot)
  case (Cons s ss)
  have "in_window startUnix g s" using Cons.prems(1) by simp
  note idx = sample_index_bar[OF assms(1) this]
  let ?n = "nat (sample_index startUnix g s)"
  let ?bs = "bs[?n := add_bucket s (bs ! ?n)]"
  have run: "add_samples startUnix g ss (?bs, add_totals s tot) = (bs', tot')"
    using Cons.prems(3) idx(1,2) by (simp add: Let_def)
  have nth: "?bs ! i = (if in_bar startUnix g i s then add_bucket s (bs ! i) else bs ! i)"
    using idx(3)[of i] Cons.prems(2) assms(4) by (auto simp: nth_list_update)
  have "\<forall>s\<in>set ss. in_window startUnix g s" "length ?bs = geom_count g" using Cons.prems(1,2) by simp_all
  from Cons.IH[OF this run, unfolded nth] show ?case
    by (cases "in_bar startUnix g i s") (simp_all add: add_bucket_def add_totals_def add.assoc)
qed simp

text \<open>Every sample of the window is in one bar, so the bars add up.\<close>

lemma sum_over_bars:
  fixes f :: "RequestSample \<Rightarrow> 'a :: comm_monoid_add"
  assumes "geom_ok g" "\<forall>s\<in>set ss. in_window a g s"
  shows "(\<Sum>i<geom_count g. sum_list (map f (filter (in_bar a g i) ss))) = sum_list (map f ss)"
  using assms(2)
proof (induction ss)
  case (Cons s ss)
  have w: "in_window a g s" using Cons.prems by simp
  note idx = sample_index_bar[OF assms(1) w]
  let ?k = "nat (sample_index a g s)" and ?F = "\<lambda>i. sum_list (map f (filter (in_bar a g i) ss))"
  have k: "?k < geom_count g" using idx(1,2) by linarith
  have "(\<Sum>i<geom_count g. sum_list (map f (filter (in_bar a g i) (s # ss)))) = (\<Sum>i<geom_count g. (if i = ?k then f s else 0) + ?F i)"
    by (intro sum.cong) (auto simp: idx(3)[symmetric])
  also have "\<dots> = f s + sum_list (map f ss)" using Cons k by (simp add: sum.distrib)
  finally show ?case by simp
qed simp

lemma mod_add_dvd: "m dvd n \<Longrightarrow> (x mod n + y mod n) mod m = (x + y) mod (m :: int)"
  by (metis mod_add_eq mod_mod_cancel)

lemma ucast_add_down: "(ucast (x + y :: 64 word) :: 32 word) = ucast x + ucast y"
  by transfer (simp add: take_bit_eq_mod mod_add_dvd mod_mod_cancel)

lemma ucast_down_up: "(ucast (ucast x :: 64 word) :: 32 word) = x" for x :: "32 word"
  by transfer simp

lemma ucast_sum: "(ucast (sum_list (map (\<lambda>s. ucast (f s) :: 64 word) ss)) :: 32 word) = sum_list (map f ss)"
  by (induction ss) (simp_all add: ucast_add_down ucast_down_up)

lemma bars_add_up:
  assumes "geom_ok g" "\<forall>s\<in>set ss. in_window a g s"
    "add_samples a g ss (empty_buckets a g, \<lparr>tot2xx = 0, tot4xx = 0, tot5xx = 0\<rparr>) = (bs, tot)"
  shows "sum_list (map bk2xx bs) = ucast (tot2xx tot) \<and> sum_list (map bk4xx bs) = ucast (tot4xx tot)
    \<and> sum_list (map bk5xx bs) = ucast (tot5xx tot)"
proof (cases "geom_count g = 0")
  case True
  then have "ss = []" using assms(2) by (cases ss) (auto simp: in_window_def)
  then show ?thesis using assms(3) True by (simp add: empty_buckets_def) auto
next
  case False
  have len: "length (empty_buckets a g) = geom_count g" by (simp add: empty_buckets_def)
  note bars = add_samples_bars[OF assms(1,2) len _ assms(3)]
  have n: "length bs = geom_count g" using bars[of 0] False by simp
  have tot: "sum_list (map h bs) = (\<Sum>i<geom_count g. h (bs ! i))" for h :: "_ \<Rightarrow> 32 word"
    by (simp add: sum_list_sum_nth n atLeast0LessThan)
  have z: "bk2xx (empty_buckets a g ! i) = 0" "bk4xx (empty_buckets a g ! i) = 0" "bk5xx (empty_buckets a g ! i) = 0"
    if "i < geom_count g" for i using that by (simp_all add: empty_buckets_def)
  note over = sum_over_bars[OF assms(1,2)]
  have "sum_list (map bk2xx bs) = sum_list (map C2xx ss)" "sum_list (map bk4xx bs) = sum_list (map C4xx ss)"
    "sum_list (map bk5xx bs) = sum_list (map C5xx ss)"
    unfolding tot over[symmetric] using bars z by (auto intro!: sum.cong)
  then show ?thesis using bars[of 0] False by (simp add: ucast_sum)
qed

lemma requestRanges_ok:
  "map_of requestRanges token = Some g \<Longrightarrow> geom_ok g \<and> bucket_secs g * Second = geom_bucket g \<and> Second dvd geom_bucket g \<and> 0 < geom_bucket g"
  by (auto simp: requestRanges_def geom_ok_def bucket_secs_def Hour_def Minute_def Second_def split: if_splits)

text \<open>The window ends with the bar of the present minute, and lies whole bars back.\<close>

definition window_secs :: "rangeGeometry \<Rightarrow> int" where
  "window_secs g = int (geom_count g) * bucket_secs g"

lemma series_bounds:
  assumes "map_of requestRanges token = Some g" "0 \<le> offset" "offset * (geom_bucket g * int (geom_count g)) \<le> max_duration" "offset \<le> max_duration"
  shows "Unix (series_end t g offset) = (t div geom_bucket g + 1) * bucket_secs g - offset * window_secs g"
    "Unix (series_start t g offset) = Unix (series_end t g offset) - window_secs g"
proof -
  note r = requestRanges_ok[OF assms(1)]
  have bs: "geom_bucket g = bucket_secs g * Second" using r by simp
  have "int64 (- offset) = - offset" using assms(2,4) by (intro int64_small) (auto simp: max_duration_def)
  moreover have "int64 (- offset * (geom_bucket g * int (geom_count g))) = - offset * (geom_bucket g * int (geom_count g))"
  proof (rule int64_small)
    have "0 \<le> offset * (geom_bucket g * int (geom_count g))" using assms(2) r by (intro mult_nonneg_nonneg) simp_all
    then show "- (2 ^ 63) \<le> - offset * (geom_bucket g * int (geom_count g))" "- offset * (geom_bucket g * int (geom_count g)) < 2 ^ 63"
      using assms(3) unfolding max_duration_def mult_minus_left by linarith+
  qed
  ultimately have e: "series_end t g offset = ((t div geom_bucket g + 1) * bucket_secs g - offset * window_secs g) * Second"
    by (simp add: series_end_def Truncate_def minus_mod_eq_div_mult bs window_secs_def algebra_simps)
  have s: "series_start t g offset = (((t div geom_bucket g + 1) * bucket_secs g - offset * window_secs g) - window_secs g) * Second"
    unfolding series_start_def e by (simp add: bs window_secs_def algebra_simps)
  show "Unix (series_end t g offset) = (t div geom_bucket g + 1) * bucket_secs g - offset * window_secs g"
    unfolding e Unix_def by simp
  then show "Unix (series_start t g offset) = Unix (series_end t g offset) - window_secs g" unfolding s Unix_def by simp
qed

end
