(* ===== verification/Activity_Theorems.thy ===== *)
theory Activity_Theorems
  imports Reference_Events Event_Data Chart_Laws
begin

text \<open>Properties of the event log: the audit trail, its pages, the flusher of the access log, and the
  request-outcome chart.\<close>

section \<open>The audit trail\<close>

text \<open>C16: the audit trail is the newest 10000 acknowledged events. From an empty log, after any
  sequence of audit appends and data-plane flushes, failed ones included, a query of the control
  log answers the acknowledged audit events newest first, the latest 10000 of them; no flush of
  the access log changes it.\<close>

theorem audit_trail_is_complete:
  assumes "bolt_ok B" "seq_ok L B" "event_codec_ok L" "bitems B eventControlBucket d = []"
    and "bseq L eventControlBucket d + int (length ops) < 2 ^ 64"
    and "\<forall>e\<in>set (audits ops). valid_event e \<and> Category e = EventControl" "sorted (map TimeUnixNano (audits ops))"
    and "log_run L B st ops d = (acked, d')"
  shows "QueryEvents L B EventControl n 0 d' = take (nat n) (rev (keep_newest maxControlEvents acked))
    \<and> length (bitems B eventControlBucket d') \<le> nat maxControlEvents"
proof -
  have b: "bucketFor EventControl = eventControlBucket" by (simp add: bucketFor_def EventControl_def EventData_def)
  have "log_rel L B eventControlBucket d []" using assms(4) by (simp add: log_rel_def log_inv_def)
  from log_run_rel[OF assms(1-3) this assms(8,5,6)] assms(7)
  have rel: "log_rel L B (bucketFor EventControl) d' (keep_newest maxControlEvents acked)"
    unfolding b by (auto simp: keep_newest_def)
  then have "length (map (\<lambda>kv. key_nano (fst kv)) (bitems B eventControlBucket d')) = length (keep_newest maxControlEvents acked)"
    unfolding log_rel_def b by (metis length_map)
  moreover have "0 < maxControlEvents" by (simp add: maxControlEvents_def)
  ultimately show ?thesis using log_rel_query[OF rel] length_keep_newest[of maxControlEvents acked] by simp
qed

lemma audit_trail_is_complete_witness:
  "QueryEvents ref_event_lib seq_bolt EventControl 50 0
     (snd (log_run ref_event_lib seq_bolt init_access_log
        [AuditOp (ref_audit 7 ''CreateUser''), FlushOp 8 [ref_access 8 ''a''], AuditOp (ref_audit 9 ''DeleteUser'')] ([], [])))
   = [ref_audit 9 ''DeleteUser'', ref_audit 7 ''CreateUser'']"
proof -
  let ?ops = "[AuditOp (ref_audit 7 ''CreateUser''), FlushOp 8 [ref_access 8 ''a''], AuditOp (ref_audit 9 ''DeleteUser'')]"
  have h: "bitems seq_bolt eventControlBucket ([], []) = []"
    "\<forall>e\<in>set (audits ?ops). valid_event e \<and> Category e = EventControl" "sorted (map TimeUnixNano (audits ?ops))"
    "fst (log_run ref_event_lib seq_bolt init_access_log ?ops ([], [])) = [ref_audit 7 ''CreateUser'', ref_audit 9 ''DeleteUser'']"
    by code_simp+
  have "bseq ref_event_lib eventControlBucket ([], []) + int (length ?ops) < 2 ^ 64" by (simp add: ref_event_lib_def seq_of_def)
  from audit_trail_is_complete[OF seq_bolt_ok ref_event_seq ref_event_codec h(1) this h(2,3) surjective_pairing, of 50 init_access_log]
  show ?thesis unfolding h(4) by (simp add: keep_newest_def maxControlEvents_def)
qed

text \<open>Pages of the log join up. When no two entries of a log have the same time, a page and the
  page before its last event are together the page of both sizes; nothing is repeated or left out.\<close>

theorem log_pages_join:
  assumes "bolt_ok B" "timed L (bitems B (bucketFor c) d)" "0 \<le> n" "0 \<le> m"
    and "QueryEvents L B c n before d \<noteq> []" "t = TimeUnixNano (last (QueryEvents L B c n before d))"
  shows "QueryEvents L B c n before d @ QueryEvents L B c m t d = QueryEvents L B c (n + m) before d"
proof -
  let ?ys = "rev (bitems B (bucketFor c) d)"
  have "sorted_wrt (\<lambda>x y. key_nano (fst y) < key_nano (fst x)) ?ys"
    using assms(2) by (simp add: timed_def sorted_wrt_rev sorted_wrt_map)
  moreover have "\<forall>(k, v)\<in>set ?ys. 0 < key_nano k \<and> (\<forall>e. event_dec L v = Some e \<longrightarrow> TimeUnixNano e = key_nano k)"
    using assms(2) by (simp add: timed_def)
  ultimately have "List.map_filter (shown L t) ?ys = drop (nat n) (List.map_filter (shown L before) ?ys)"
    using assms(5,6) unfolding QueryEvents_eq by (intro map_filter_after)
  then show ?thesis using assms(3,4) by (simp add: QueryEvents_eq nat_add_distrib take_add)
qed

text \<open>Three audit events, and three of which two have the same time.\<close>

definition ref_log :: "int list \<Rightarrow> seq_db" where
  "ref_log ts = snd (log_run ref_event_lib seq_bolt init_access_log (map (\<lambda>t. AuditOp (ref_audit t ''op'')) ts) ([], []))"

lemma log_pages_join_witness:
  "QueryEvents ref_event_lib seq_bolt EventControl 2 0 (ref_log [7, 8, 9])
     @ QueryEvents ref_event_lib seq_bolt EventControl 2 8 (ref_log [7, 8, 9])
   = QueryEvents ref_event_lib seq_bolt EventControl 4 0 (ref_log [7, 8, 9])"
proof -
  have items: "bitems seq_bolt (bucketFor EventControl) (ref_log [7, 8, 9])
      = [(encodeEventKey 7 1, put_event (ref_audit 7 ''op'')), (encodeEventKey 8 2, put_event (ref_audit 8 ''op'')),
         (encodeEventKey 9 3, put_event (ref_audit 9 ''op''))]" by code_simp
  have "timed ref_event_lib (bitems seq_bolt (bucketFor EventControl) (ref_log [7, 8, 9]))"
    unfolding items by (simp add: timed_def key_nano_encode ref_event_lib_def ref_audit_def)
  moreover have "QueryEvents ref_event_lib seq_bolt EventControl 2 0 (ref_log [7, 8, 9]) \<noteq> []"
    "8 = TimeUnixNano (last (QueryEvents ref_event_lib seq_bolt EventControl 2 0 (ref_log [7, 8, 9])))" by code_simp+
  ultimately show ?thesis using log_pages_join[OF seq_bolt_ok, of ref_event_lib EventControl "ref_log [7, 8, 9]" 2 2 0 8] by simp
qed

text \<open>
  The cursor is the time alone: of two events of one nanosecond at the end of a page the older is on
  neither that page nor the next.
\<close>

lemma tie_is_skipped:
  "map TimeUnixNano (QueryEvents ref_event_lib seq_bolt EventControl 1 0 (ref_log [7, 8, 8])) = [8]"
  "map TimeUnixNano (QueryEvents ref_event_lib seq_bolt EventControl 9 8 (ref_log [7, 8, 8])) = [7]"
  by code_simp+

section \<open>The flusher of the access log\<close>


text \<open>Two requests that finish in the other order than they started in, and then the drain.\<close>

definition ref_flusher :: "seq_db flusher" where
  "ref_flusher = \<lparr>batch = [], flog = init_access_log\<lparr>accessEnabled := True\<rparr>, fdb = ([], [])\<rparr>"




text \<open>A batch whose transaction fails is gone: here the database refuses every sequence number.\<close>

lemma failed_flush_drops_its_batch:
  "flush_result (ref_event_lib\<lparr>NextSequence := \<lambda>_ _. None\<rparr>) seq_bolt 10 (ref_flusher\<lparr>batch := [ref_access 9 ''b'']\<rparr>)
     = Dropped [ref_access 9 ''b'']
   \<and> flush (ref_event_lib\<lparr>NextSequence := \<lambda>_ _. None\<rparr>) seq_bolt 10 (ref_flusher\<lparr>batch := [ref_access 9 ''b'']\<rparr>) = ref_flusher"
  by (simp add: flush_result_def flush_def flushEvents_def putEvent_def ref_flusher_def init_access_log_def)

section \<open>Request outcomes\<close>

text \<open>C24: no request is counted twice or dropped by the sampler. From an empty series, when the
  ticks fall in different minutes and their transactions succeed, a query answers exactly the
  per-minute differences of the readings that the retention has kept, and the differences add up
  to the growth of the counters.\<close>

theorem samples_are_deltas:
  assumes "bolt_ok B" "bitems B requestSamplesBucket d = []" "0 \<le> days" "days \<le> 365" "ts \<noteq> []"
    and "run_ticks B days ts (prev, d) = Some (prev', d')" "\<forall>(t, c)\<in>set ts. tick_time days t"
    and "sorted_wrt (<) (map (minute_of \<circ> fst) ts)" "grows prev ts" "minute_ok a" "minute_ok b"
  shows "QueryRequestSamples B a b d' =
      filter (\<lambda>s. cutoff_of days (fst (last ts)) \<le> MinuteUnix s \<and> a \<le> MinuteUnix s \<and> MinuteUnix s < b) (deltas prev ts)
    \<and> sum_list (map (\<lambda>s. count_val (C2xx s)) (deltas prev ts)) = Success prev' - Success prev
    \<and> sum_list (map (\<lambda>s. count_val (C4xx s)) (deltas prev ts)) = ClientError prev' - ClientError prev
    \<and> sum_list (map (\<lambda>s. count_val (C5xx s)) (deltas prev ts)) = ServerError prev' - ServerError prev"
proof -
  have "series_rel B d []" using assms(2) by (simp add: series_rel_def)
  from run_ticks_series[OF assms(1,3,4) this assms(6,5,7,8)]
  have "prev' = snd (last ts)" "series_rel B d' (filter (\<lambda>s. cutoff_of days (fst (last ts)) \<le> MinuteUnix s) (deltas prev ts))" by auto
  then show ?thesis using Query_series[OF assms(1) _ assms(10,11)] deltas_sum[OF assms(9)] assms(5)
    by (simp add: filter_filter conj_commute)
qed

definition ref_ticks :: "(time \<times> RequestOutcomes) list" where
  "ref_ticks = [(40 * 24 * Hour, \<lparr>Success = 5, Redirect = 0, ClientError = 1, ServerError = 0\<rparr>),
     (40 * 24 * Hour + Minute, \<lparr>Success = 7, Redirect = 1, ClientError = 1, ServerError = 2\<rparr>)]"

definition ref_outcomes :: RequestOutcomes where
  "ref_outcomes = \<lparr>Success = 0, Redirect = 0, ClientError = 0, ServerError = 0\<rparr>"

lemma samples_are_deltas_witness:
  "\<exists>prev' d'. run_ticks seq_bolt 30 ref_ticks (ref_outcomes, [], []) = Some (prev', d')
     \<and> QueryRequestSamples seq_bolt 3456000 3456120 d' = deltas ref_outcomes ref_ticks \<and> Success prev' = 7"
proof -
  have h: "bitems seq_bolt requestSamplesBucket ([], []) = []" "ref_ticks \<noteq> []" "\<forall>(t, c)\<in>set ref_ticks. tick_time 30 t"
    "sorted_wrt (<) (map (minute_of \<circ> fst) ref_ticks)" "grows ref_outcomes ref_ticks" "minute_ok 3456000" "minute_ok 3456120"
    "run_ticks seq_bolt 30 ref_ticks (ref_outcomes, [], []) \<noteq> None"
    by code_simp+
  obtain prev' d' where r: "run_ticks seq_bolt 30 ref_ticks (ref_outcomes, [], []) = Some (prev', d')" using h(8) by auto
  have f: "filter (\<lambda>s. cutoff_of 30 (fst (last ref_ticks)) \<le> MinuteUnix s \<and> 3456000 \<le> MinuteUnix s \<and> MinuteUnix s < 3456120)
      (deltas ref_outcomes ref_ticks) = deltas ref_outcomes ref_ticks"
    "sum_list (map (\<lambda>s. count_val (C2xx s)) (deltas ref_outcomes ref_ticks)) = 7" by code_simp+
  from samples_are_deltas[OF seq_bolt_ok h(1) _ _ h(2) r h(3,4,5,6,7)] r show ?thesis unfolding f by (simp add: ref_outcomes_def)
qed

text \<open>C23: the chart is a histogram of its window. The window of an offset ends where the one of the
  next smaller offset starts, its bars are equal and adjacent, a bar holds the counts of exactly the
  samples of its interval modulo 2^32, and the totals are the counts of all samples modulo 2^64, so
  that the bars add up to the totals modulo 2^32.\<close>

theorem chart_is_a_histogram:
  assumes "map_of requestRanges token = Some g" "0 \<le> offset" "offset \<le> max_duration"
    "offset * (geom_bucket g * int (geom_count g)) \<le> max_duration"
    and "e = (t div geom_bucket g + 1) * bucket_secs g - offset * window_secs g" "a = e - window_secs g"
    and "query a e = Some ss" "\<forall>s\<in>set ss. a \<le> MinuteUnix s \<and> MinuteUnix s < e"
  shows "\<exists>dto. buildRequestSeries t token offset retention query = Some dto \<and> rsFrom dto = a \<and> rsTo dto = e
    \<and> length (rsBuckets dto) = geom_count g
    \<and> (\<forall>i<geom_count g. let bar = rsBuckets dto ! i; xs = filter (in_bar a g i) ss in bkTs bar = a + int i * bucket_secs g
        \<and> bk2xx bar = sum_list (map C2xx xs) \<and> bk4xx bar = sum_list (map C4xx xs) \<and> bk5xx bar = sum_list (map C5xx xs))
    \<and> tot2xx (rsTotals dto) = sum_list (map (\<lambda>s. ucast (C2xx s)) ss)
    \<and> tot4xx (rsTotals dto) = sum_list (map (\<lambda>s. ucast (C4xx s)) ss)
    \<and> tot5xx (rsTotals dto) = sum_list (map (\<lambda>s. ucast (C5xx s)) ss)
    \<and> sum_list (map bk2xx (rsBuckets dto)) = ucast (tot2xx (rsTotals dto))
    \<and> sum_list (map bk4xx (rsBuckets dto)) = ucast (tot4xx (rsTotals dto))
    \<and> sum_list (map bk5xx (rsBuckets dto)) = ucast (tot5xx (rsTotals dto))"
proof -
  note bounds = series_bounds[OF assms(1,2,4,3), of t] and g = requestRanges_ok[OF assms(1)]
  have se: "Unix (series_end t g offset) = e" "Unix (series_start t g offset) = a" using bounds assms(5,6) by simp_all
  let ?z = "\<lparr>tot2xx = 0, tot4xx = 0, tot5xx = 0\<rparr>"
  obtain bs tot where run: "add_samples a g ss (empty_buckets a g, ?z) = (bs, tot)" by fastforce
  have win: "\<forall>s\<in>set ss. in_window a g s" using assms(5,6,8) by (auto simp: in_window_def window_secs_def)
  have len: "length (empty_buckets a g) = geom_count g" by (simp add: empty_buckets_def)
  have "0 < geom_count g" using assms(1) by (auto simp: requestRanges_def split: if_splits)
  moreover note bars = add_samples_bars[OF conjunct1[OF g] win len _ run]
  moreover have "sum_list (map bk2xx bs) = ucast (tot2xx tot)" "sum_list (map bk4xx bs) = ucast (tot4xx tot)"
    "sum_list (map bk5xx bs) = ucast (tot5xx tot)"
    using bars_add_up[OF conjunct1[OF g] win run] by simp_all
  moreover have "bkTs (empty_buckets a g ! i) = a + int i * bucket_secs g" "bk2xx (empty_buckets a g ! i) = 0"
    "bk4xx (empty_buckets a g ! i) = 0" "bk5xx (empty_buckets a g ! i) = 0" if "i < geom_count g" for i
    using that by (simp_all add: empty_buckets_def)
  ultimately show ?thesis using assms(1,2,7) se run by (simp add: buildRequestSeries_def Let_def)
qed

definition ref_samples :: "int \<Rightarrow> int \<Rightarrow> RequestSample list option" where
  "ref_samples a e = Some [\<lparr>MinuteUnix = a, C2xx = 3, C4xx = 0, C5xx = 0\<rparr>, \<lparr>MinuteUnix = a + 60, C2xx = 4, C4xx = 1, C5xx = 0\<rparr>]"

lemma chart_is_a_histogram_witness:
  "\<exists>dto. buildRequestSeries (3600 * Second) ''24h'' 1 0 ref_samples = Some dto \<and> rsFrom dto = - 165600 \<and> tot2xx (rsTotals dto) = 7"
proof -
  let ?g = "\<lparr>geom_bucket = Hour, geom_count = 24\<rparr>"
  have h: "map_of requestRanges ''24h'' = Some ?g" by (simp add: requestRanges_def)
  have n: "(1 :: int) \<le> max_duration" "1 * (geom_bucket ?g * int (geom_count ?g)) \<le> max_duration"
    by (simp_all add: max_duration_def Hour_def Minute_def Second_def)
  have e: "- 79200 = (3600 * Second div geom_bucket ?g + 1) * bucket_secs ?g - 1 * window_secs ?g" "- 165600 = - 79200 - window_secs ?g"
    by (simp_all add: bucket_secs_def window_secs_def Hour_def Minute_def Second_def)
  show ?thesis using chart_is_a_histogram[OF h _ n e, of ref_samples] by (fastforce simp: ref_samples_def)
qed

text \<open>
  Two ticks of one minute leave the counts of the second only; an offset of the hour range whose
  distance overflows a \<open>Duration\<close> shows a window 24 minutes back, 584 years too late; a bar wraps
  where the totals do not.
\<close>

lemma same_minute_overwrites:
  "map C2xx (QueryRequestSamples seq_bolt 0 9999999
     (snd (snd (tick seq_bolt (40 * 24 * Hour + 59 * Second) 30 (ref_outcomes\<lparr>Success := 7\<rparr>)
       (snd (tick seq_bolt (40 * 24 * Hour) 30 (ref_outcomes\<lparr>Success := 5\<rparr>) (ref_outcomes, [], []))))))) = [2]"
  by code_simp

lemma chart_offset_wraps:
  "map_option (\<lambda>dto. (rsFrom dto, rsTo dto, rsCanBack dto))
     (buildRequestSeries (3456000 * Second) ''1h'' 5124096 (30 * 24 * Hour) (\<lambda>_ _. Some [])) = Some (3450933, 3454533, True)"
  by code_simp

lemma chart_bar_wraps:
  "map_option (\<lambda>dto. (bk2xx (rsBuckets dto ! 23), tot2xx (rsTotals dto)))
     (buildRequestSeries (3600 * Second) ''24h'' 0 0 (\<lambda>_ e. Some [\<lparr>MinuteUnix = e - 60, C2xx = 4294967295, C4xx = 0, C5xx = 0\<rparr>,
        \<lparr>MinuteUnix = e - 120, C2xx = 1, C4xx = 0, C5xx = 0\<rparr>])) = Some (0, 4294967296)"
  by code_simp

end
