(* ===== verification/Activity_Handlers.thy ===== *)
theory Activity_Handlers
  imports Chart_Laws Storage_Router
begin

text \<open>
  What observes the traffic and reports on it: the counters of
  \<open>internal/middleware/metrics_s3activity.go\<close>, the access log of \<open>accesslog.go\<close>, and the
  handlers \<open>internal/handlers/audit.go\<close>, \<open>logs.go\<close> and \<open>stats.go\<close>.
\<close>

section \<open>audit.go and logs.go\<close>

definition defaultAuditLimit :: int where "defaultAuditLimit = 50"
definition maxAuditLimit :: int where "maxAuditLimit = 200"

text \<open>A failed append is logged and the action goes on.\<close>

definition recordAudit :: "'db event_lib \<Rightarrow> 'db bolt \<Rightarrow> access_log \<Rightarrow> time \<Rightarrow> request \<Rightarrow> string \<Rightarrow> string \<Rightarrow> string \<Rightarrow> 'db \<Rightarrow> 'db" where
  "recordAudit L B st t r action target detail d =
     (case AppendEvent L B st
            \<lparr>TimeUnixNano = t, Category = EventControl, Actor = actor_of r, Op = action, Target = target, evBucket = [], evKey = [],
             evStatus = 0, ErrorCode = [], ClientIP = [], BytesIn = 0, BytesOut = 0, DurationMs = 0, UserAgent = [], Detail = detail\<rparr> d of
           None \<Rightarrow> d
         | Some d1 \<Rightarrow> d1)"

definition auditLimit :: "string \<Rightarrow> int" where
  "auditLimit raw =
     (if raw = [] then defaultAuditLimit
      else case Atoi raw of
          Inl _ \<Rightarrow> defaultAuditLimit
        | Inr n \<Rightarrow> if n \<le> 0 then defaultAuditLimit else if n > maxAuditLimit then maxAuditLimit else n)"

definition audit_dto :: "lib \<Rightarrow> Event \<Rightarrow> tree" where
  "audit_dto L e = TObj [(''ts'', TInt (TimeUnixNano e)), (''time'', TStr (FormatRFC3339 L (TimeUnixNano e))), (''actor'', TStr (Actor e)),
     (''action'', TStr (Op e)), (''target'', TStr (Target e)), (''detail'', TStr (Detail e))]"

text \<open>The \<open>before\<close> parameter: \<open>None\<close> when it is malformed.\<close>

definition before_param :: "request \<Rightarrow> int option" where
  "before_param r =
     (let raw = Query r ''before'' in if raw = [] then Some 0 else case ParseInt raw of Inl _ \<Rightarrow> None | Inr n \<Rightarrow> Some n)"

definition GetAuditHandler :: "lib \<Rightarrow> 'db event_lib \<Rightarrow> 'db bolt \<Rightarrow> request \<Rightarrow> 'db \<Rightarrow> response" where
  "GetAuditHandler L EL B r d =
     (let limit = auditLimit (Query r ''limit'')
      in case before_param r of
           None \<Rightarrow> respondError r 400 ''InvalidArgument'' ''before must be a unix-nano integer''
         | Some before \<Rightarrow>
             c_JSON 200 (TObj [(''events'', TList (map (audit_dto L) (QueryEvents EL B EventControl limit before d)))]))"

definition omit_zero_int :: "string \<Rightarrow> int \<Rightarrow> (string \<times> tree) list" where
  "omit_zero_int k n = (if n = 0 then [] else [(k, TInt n)])"

definition omit_zero_rat :: "string \<Rightarrow> rat \<Rightarrow> (string \<times> tree) list" where
  "omit_zero_rat k q = (if q = 0 then [] else [(k, TFrac (fst (quotient_of q)) (snd (quotient_of q)))])"

definition toLogDTO :: "lib \<Rightarrow> Event \<Rightarrow> tree" where
  "toLogDTO L e = TObj ([(''ts'', TInt (TimeUnixNano e)), (''time'', TStr (FormatRFC3339 L (TimeUnixNano e))), (''category'', TStr (Category e))]
     @ omit_empty ''actor'' (Actor e) @ [(''op'', TStr (Op e))] @ omit_empty ''target'' (Target e) @ omit_empty ''bucket'' (evBucket e)
     @ omit_empty ''key'' (evKey e) @ omit_zero_int ''status'' (evStatus e) @ omit_empty ''errorCode'' (ErrorCode e)
     @ omit_empty ''clientIp'' (ClientIP e) @ omit_zero_int ''bytesIn'' (BytesIn e) @ omit_zero_int ''bytesOut'' (BytesOut e)
     @ omit_zero_rat ''durationMs'' (DurationMs e) @ omit_empty ''userAgent'' (UserAgent e) @ omit_empty ''detail'' (Detail e))"

definition GetLogsHandler :: "lib \<Rightarrow> 'db event_lib \<Rightarrow> 'db bolt \<Rightarrow> request \<Rightarrow> 'db \<Rightarrow> response" where
  "GetLogsHandler L EL B r d =
     (let category = Query r ''category''
      in if category \<noteq> EventControl \<and> category \<noteq> EventData
         then respondError r 400 ''InvalidArgument'' ''category must be control or data''
         else let limit = auditLimit (Query r ''limit'')
              in case before_param r of
                   None \<Rightarrow> respondError r 400 ''InvalidArgument'' ''before must be a unix-nano integer''
                 | Some before \<Rightarrow>
                     c_JSON 200 (TObj [(''events'', TList (map (toLogDTO L) (QueryEvents EL B category limit before d)))]))"

section \<open>metrics\_s3activity.go\<close>

text \<open>Counters are whole numbers here; the code keeps them as \<open>float64\<close>.\<close>

record BucketActivity =
  baUploads :: nat
  baDownloads :: nat
  baDeletes :: nat
  baBytesIn :: nat
  baBytesOut :: nat

definition no_activity :: BucketActivity where
  "no_activity = \<lparr>baUploads = 0, baDownloads = 0, baDeletes = 0, baBytesIn = 0, baBytesOut = 0\<rparr>"

definition activity_at :: "string \<Rightarrow> (string \<times> BucketActivity) list \<Rightarrow> BucketActivity" where
  "activity_at b m = (case map_of m b of None \<Rightarrow> no_activity | Some a \<Rightarrow> a)"

definition add_operation :: "(string \<times> string) \<times> nat \<Rightarrow> (string \<times> BucketActivity) list \<Rightarrow> (string \<times> BucketActivity) list" where
  "add_operation x m = (case x of ((b, op), v) \<Rightarrow>
     (let a = activity_at b m
      in AList.update b
           (if op = ''upload'' then a\<lparr>baUploads := baUploads a + v\<rparr>
            else if op = ''download'' then a\<lparr>baDownloads := baDownloads a + v\<rparr>
            else if op = ''delete'' then a\<lparr>baDeletes := baDeletes a + v\<rparr>
            else a) m))"

definition add_bytes :: "(string \<times> string) \<times> nat \<Rightarrow> (string \<times> BucketActivity) list \<Rightarrow> (string \<times> BucketActivity) list" where
  "add_bytes x m = (case x of ((b, direction), v) \<Rightarrow>
     (let a = activity_at b m
      in AList.update b
           (if direction = ''in'' then a\<lparr>baBytesIn := baBytesIn a + v\<rparr>
            else if direction = ''out'' then a\<lparr>baBytesOut := baBytesOut a + v\<rparr>
            else a) m))"

definition S3ActivityByBucket :: "world \<Rightarrow> (string \<times> BucketActivity) list" where
  "S3ActivityByBucket w = fold add_bytes (s3BytesTransferredTotal w) (fold add_operation (s3OperationsTotal w) [])"

definition statusClass :: "nat \<Rightarrow> string" where
  "statusClass code =
     (if code \<ge> 500 then ''5xx'' else if code \<ge> 400 then ''4xx'' else if code \<ge> 300 then ''3xx'' else ''2xx'')"

type_synonym class_counters = "(string \<times> nat) list"

text \<open>The label of the counter, for a response of a request that matched a route.\<close>

definition S3RequestOutcome :: "route \<Rightarrow> response \<Rightarrow> class_counters \<Rightarrow> class_counters" where
  "S3RequestOutcome rt resp m =
     (if rt = RouteNone \<or> rt = RouteHealth \<or> rt = RouteFavicon then m else bump (statusClass (status resp)) 1 m)"

definition add_class :: "string \<times> nat \<Rightarrow> RequestOutcomes \<Rightarrow> RequestOutcomes" where
  "add_class x o' = (case x of (c, v) \<Rightarrow>
     if c = ''2xx'' then o'\<lparr>Success := Success o' + of_nat v\<rparr>
     else if c = ''3xx'' then o'\<lparr>Redirect := Redirect o' + of_nat v\<rparr>
     else if c = ''4xx'' then o'\<lparr>ClientError := ClientError o' + of_nat v\<rparr>
     else if c = ''5xx'' then o'\<lparr>ServerError := ServerError o' + of_nat v\<rparr>
     else o')"

definition S3RequestOutcomes :: "class_counters \<Rightarrow> RequestOutcomes" where
  "S3RequestOutcomes m = fold add_class m \<lparr>Success = 0, Redirect = 0, ClientError = 0, ServerError = 0\<rparr>"

definition MultipartInProgress :: "world \<Rightarrow> int" where
  "MultipartInProgress w = MultipartUploadsInProgress w"

section \<open>stats.go\<close>

record bucketSize =
  bsName :: string
  bsBytes :: nat
  bsObjects :: nat

record bucketRow =
  rowName :: string
  rowBytes :: nat
  rowObjects :: nat
  rowUploads :: nat
  rowDownloads :: nat
  rowDeletes :: nat

text \<open>\<open>d.Info()\<close> is asked of every entry but directories and sidecars.\<close>

definition walkBucketObjects :: "env \<Rightarrow> string \<Rightarrow> fs \<Rightarrow> os_error + nat \<times> nat" where
  "walkBucketObjects E bucketPath fs =
     (case WalkDir (ft E) fs bucketPath of
        Inl e \<Rightarrow> Inl e
      | Inr files \<Rightarrow>
          (let objs = filter (\<lambda>(rel, _, _). \<not> isSidecar (last rel)) files
           in if \<exists>x\<in>set objs. fault.fails (ft E) OpStat (psegs bucketPath @ fst x) then Inl EFAULT
              else Inr (length objs, sum_list (map (\<lambda>(_, b, _). length b) objs))))"

fun bucket_sizes :: "env \<Rightarrow> fs \<Rightarrow> (string \<times> node) list \<Rightarrow> os_error + bucketSize list \<times> nat" where
  "bucket_sizes E fs [] = Inr ([], 0)"
| "bucket_sizes E fs ((name, n) # es) =
     (case n of
        File _ _ \<Rightarrow> bucket_sizes E fs es
      | Dir \<Rightarrow>
          (case walkBucketObjects E (PathJoin [ObjectsRoot, name]) fs of
             Inl e \<Rightarrow> Inl e
           | Inr (n0, b) \<Rightarrow>
               (case bucket_sizes E fs es of
                  Inl e \<Rightarrow> Inl e
                | Inr (sizes, k) \<Rightarrow> Inr (\<lparr>bsName = name, bsBytes = b, bsObjects = n0\<rparr> # sizes, n0 + k))))"

definition computeStorageStats :: "env \<Rightarrow> fs \<Rightarrow> os_error + bucketSize list \<times> nat" where
  "computeStorageStats E fs =
     (case ReadDir (ft E) fs ObjectsRoot of
        Inl e \<Rightarrow> if IsNotExist e then Inr ([], 0) else Inl e
      | Inr entries \<Rightarrow> bucket_sizes E fs entries)"

definition total_activity :: "(string \<times> BucketActivity) list \<Rightarrow> BucketActivity" where
  "total_activity m = foldr (\<lambda>(_, a) t. \<lparr>baUploads = baUploads t + baUploads a, baDownloads = baDownloads t + baDownloads a,
     baDeletes = baDeletes t + baDeletes a, baBytesIn = baBytesIn t + baBytesIn a, baBytesOut = baBytesOut t + baBytesOut a\<rparr>) m no_activity"

definition stats_row :: "(string \<times> BucketActivity) list \<Rightarrow> bucketSize \<Rightarrow> bucketRow" where
  "stats_row activity s =
     (let a = activity_at (bsName s) activity
      in \<lparr>rowName = bsName s, rowBytes = bsBytes s, rowObjects = bsObjects s, rowUploads = baUploads a,
          rowDownloads = baDownloads a, rowDeletes = baDeletes a\<rparr>)"

definition int_field :: "string \<Rightarrow> nat \<Rightarrow> string \<times> tree" where
  "int_field k n = (k, TInt (int n))"

definition rat_field :: "string \<Rightarrow> rat \<Rightarrow> string \<times> tree" where
  "rat_field k q = (k, TFrac (fst (quotient_of q)) (snd (quotient_of q)))"

definition row_tree :: "bucketRow \<Rightarrow> tree" where
  "row_tree x = TObj [(''name'', TStr (rowName x)), int_field ''bytes'' (rowBytes x), int_field ''objects'' (rowObjects x),
     int_field ''uploads'' (rowUploads x), int_field ''downloads'' (rowDownloads x), int_field ''deletes'' (rowDeletes x)]"

text \<open>Rows of the same size are in the order of their names; the code leaves that order open.\<close>

definition GetStatsHandler :: "class_counters \<Rightarrow> env \<Rightarrow> request \<Rightarrow> world \<Rightarrow> response" where
  "GetStatsHandler classes E r w =
     (case computeStorageStats E (disk w) of
        Inl _ \<Rightarrow> respondError r 500 ''InternalError'' ''Failed to compute stats''
      | Inr (sizes, objects) \<Rightarrow>
          (let activity = S3ActivityByBucket w;
               tot = total_activity activity;
               rows = sort_key (\<lambda>x. - int (rowBytes x)) (map (stats_row activity) sizes);
               o' = S3RequestOutcomes classes
           in c_JSON 200 (TObj [int_field ''buckets'' (length sizes), int_field ''objects'' objects,
                int_field ''bytes'' (sum_list (map bsBytes sizes)), (''multipartInProgress'', TInt (MultipartInProgress w)),
                (''activity'', TObj [int_field ''uploads'' (baUploads tot), int_field ''downloads'' (baDownloads tot),
                   int_field ''deletes'' (baDeletes tot), int_field ''bytesIn'' (baBytesIn tot), int_field ''bytesOut'' (baBytesOut tot)]),
                (''requests'', TObj [rat_field ''success'' (Success o'), rat_field ''redirect'' (Redirect o'),
                   rat_field ''clientError'' (ClientError o'), rat_field ''serverError'' (ServerError o')]),
                (''perBucket'', TList (map row_tree rows))])))"

section \<open>accesslog.go\<close>

text \<open>
  What the middleware reads when the chain has run: the size of the body sent, the time spent, the
  declared length of the request, and the request with the context keys the chain has set.
\<close>

record observed =
  obContentLength :: int
  obWriterSize :: int
  obMicroseconds :: int

definition accessActor :: "request \<Rightarrow> string" where
  "accessActor r = (case ctx_user r of Some u \<Rightarrow> if AccessKeyID u \<noteq> [] then AccessKeyID u else ''anonymous'' | None \<Rightarrow> ''anonymous'')"

definition s3Operation :: "request \<Rightarrow> string" where
  "s3Operation r =
     (let key = TrimPrefix (param_objectKey r) ''/''; has = hasQuery r
      in if req_method r = ''GET'' then
           (if has ''acl'' then ''GetAcl'' else if has ''tagging'' then ''GetObjectTagging'' else if has ''cors'' then ''GetBucketCors''
            else if has ''uploads'' then ''ListMultipartUploads'' else if has ''presign'' then ''PresignObject''
            else if Query r ''uploadId'' \<noteq> [] then ''ListParts'' else if key = [] \<and> param_bucket r = [] then ''ListBuckets''
            else if key = [] then ''ListObjects'' else ''GetObject'')
         else if req_method r = ''PUT'' then
           (if has ''acl'' then ''PutAcl'' else if has ''tagging'' then ''PutObjectTagging'' else if has ''cors'' then ''PutBucketCors''
            else if Query r ''uploadId'' \<noteq> [] \<and> Query r ''partNumber'' \<noteq> [] then ''UploadPart''
            else if GetHeader r ''x-amz-copy-source'' \<noteq> [] then ''CopyObject'' else if key = [] then ''CreateBucket'' else ''PutObject'')
         else if req_method r = ''DELETE'' then
           (if has ''tagging'' then ''DeleteObjectTagging'' else if has ''cors'' then ''DeleteBucketCors'' else if has ''delete'' then ''DeleteObjects''
            else if Query r ''uploadId'' \<noteq> [] then ''AbortMultipartUpload'' else if key = [] then ''DeleteBucket'' else ''DeleteObject'')
         else if req_method r = ''POST'' then
           (if has ''delete'' then ''DeleteObjects'' else if has ''uploads'' then ''CreateMultipartUpload''
            else if Query r ''uploadId'' \<noteq> [] then ''CompleteMultipartUpload'' else req_method r)
         else if req_method r = ''HEAD'' then (if key = [] then ''HeadBucket'' else ''HeadObject'')
         else req_method r)"

definition AccessLog :: "lib \<Rightarrow> TrustedProxyConfig \<Rightarrow> time \<Rightarrow> observed \<Rightarrow> route \<Rightarrow> request \<Rightarrow> response \<Rightarrow> access_log \<Rightarrow> access_log" where
  "AccessLog L tp start ob rt r resp st =
     (if \<not> accessEnabled st \<or> rt = RouteNone \<or> rt = RouteHealth \<or> rt = RouteFavicon then st
      else EnqueueEvent
        \<lparr>TimeUnixNano = start, Category = EventData, Actor = accessActor r, Op = s3Operation r, Target = [], evBucket = param_bucket r,
         evKey = TrimPrefix (param_objectKey r) ''/'', evStatus = int (status resp), ErrorCode = error_code resp,
         ClientIP = ResolveClientIP L tp r, BytesIn = obContentLength ob, BytesOut = obWriterSize ob,
         DurationMs = of_int (obMicroseconds ob) / 1000, UserAgent = GetHeader r ''User-Agent'', Detail = []\<rparr> st)"

end
