(* ===== verification/Stats_Laws.thy ===== *)
theory Stats_Laws
  imports Activity_Handlers Bucket_Theorems
begin

text \<open>
  The dashboard's storage figures against the tree and against the listing: what
  \<open>walkBucketObjects\<close> and \<open>computeStorageStats\<close> count, and what a listing of a bucket shows of it.
\<close>

section \<open>One bucket\<close>

lemma walkBucketObjects_counts:
  assumes "fs_wf fs" "node_at fs (psegs p) = Some Dir" "walkBucketObjects E p fs = Inr (n, b)"
  shows "n = length (walked E fs p) \<and> b = sum_list (map reSize (walked E fs p)) \<and> WalkDir (ft E) fs p = Inr (walk_files fs (psegs p))"
proof -
  obtain files where f: "WalkDir (ft E) fs p = Inr files" using assms(3) by (auto simp: walkBucketObjects_def split: sum.splits)
  then have files: "files = walk_files fs (psegs p)"
    using assms(2) lookup_iff[OF assms(1)] by (auto simp: WalkDir_def split: if_splits sum.splits node.splits)
  let ?objs = "filter (\<lambda>(rel, _, _). \<not> isSidecar (last rel)) files"
  have ok: "\<not> (\<exists>x\<in>set ?objs. fault.fails (ft E) OpStat (psegs p @ fst x))"
    and n: "n = length ?objs" "b = sum_list (map (\<lambda>(_, b, _). length b) ?objs)"
    using assms(3) f by (auto simp: walkBucketObjects_def Let_def split: if_splits)
  have "filter (\<lambda>(rel, _, _). \<not> isSidecar (last rel) \<and> \<not> fault.fails (ft E) OpStat (psegs p @ rel)) files = ?objs"
    using ok by (intro filter_cong) force+
  then have raw: "walked E fs p = map (\<lambda>(rel, b, t). \<lparr>reKey = Join ''/'' rel, reRel = rel, reMod = t, reSize = length b\<rparr>) ?objs"
    by (simp add: walked_def raw_entries_def files[symmetric])
  have "map reSize (walked E fs p) = map (\<lambda>(_, b, _). length b) ?objs" unfolding raw by (auto split: prod.splits)
  moreover have "length (walked E fs p) = length ?objs" unfolding raw by simp
  ultimately show ?thesis using f n unfolding files[symmetric] by (simp only: simp_thms)
qed

lemma count_objects: "fs_wf fs \<Longrightarrow> length (walked E fs p) = card {k. is_object E fs (psegs p) k}"
  using walked_objects[of fs E p] walked_keys(1)[of fs E p] distinct_card[of "map reKey (walked E fs p)"]
  by (simp add: distinct_keys_def)

section \<open>All buckets\<close>

lemma bucket_sizes_Inr:
  "bucket_sizes E fs es = Inr (sizes, k) \<Longrightarrow>
     map bsName sizes = map fst (filter (\<lambda>(name, n). n = Dir) es) \<and> k = sum_list (map bsObjects sizes)
     \<and> (\<forall>s\<in>set sizes. walkBucketObjects E (PathJoin [ObjectsRoot, bsName s]) fs = Inr (bsObjects s, bsBytes s))"
proof (induction es arbitrary: sizes k)
  case (Cons x es)
  obtain name n where x: "x = (name, n)" by (metis surj_pair)
  show ?case
  proof (cases n)
    case (File c t)
    then show ?thesis using Cons x by simp
  next
    case Dir
    with Cons.prems x obtain o0 b sizes1 k1 where "walkBucketObjects E (PathJoin [ObjectsRoot, name]) fs = Inr (o0, b)"
      "bucket_sizes E fs es = Inr (sizes1, k1)" "sizes = \<lparr>bsName = name, bsBytes = b, bsObjects = o0\<rparr> # sizes1" "k = o0 + k1"
      by (auto split: sum.splits)
    with Cons.IH[of sizes1 k1] x Dir show ?thesis by simp
  qed
qed simp

lemma stats_bucket_dir:
  assumes "fs_wf fs" "node_at fs (root_segs @ [name]) = Some Dir"
  shows "node_at fs (psegs (PathJoin [ObjectsRoot, name])) = Some Dir"
proof -
  have anc: "node_at fs root_segs = Some Dir" "node_at fs [''data''] = Some Dir"
    using fs_wf_ancestors[OF assms(1), of root_segs "[name]"] fs_wf_ancestors[OF assms(1), of "[''data'']" "[''objects'', name]"] assms(2)
    by (simp_all add: root_segs_def)
  have ok: "seg_ok name" using assms by (auto simp: fs_wf_def node_at_cons)
  consider "name = ''.''" | "name = ''..''" | "proper_seg name" using ok by (auto simp: seg_ok_def proper_seg_def)
  then show ?thesis
  proof cases
    case 1
    have "psegs (PathJoin [ObjectsRoot, ''.'']) = root_segs" by code_simp
    then show ?thesis using 1 anc by simp
  next
    case 2
    have "psegs (PathJoin [ObjectsRoot, ''..'']) = [''data'']" by code_simp
    then show ?thesis using 2 anc by simp
  next
    case 3
    then have "list_all proper_seg (Split CHR ''/'' name)" "Split CHR ''/'' name = [name]" by (simp_all add: proper_seg_def Split_single)
    from PathJoin_abs[OF root_proper proper_IsLocal(1)[OF this(1)]] proper_IsLocal(3)[OF this(1)] this(2)
    have "PathJoin [ObjectsRoot, name] = abs_path (root_segs @ [name])" by (simp add: ObjectsRoot_def)
    moreover have "list_all seg_ok (root_segs @ [name])" using ok root_proper proper_seg_ok by (auto simp: list_all_iff)
    ultimately show ?thesis using assms(2) psegs_abs_path by metis
  qed
qed

lemma PathJoin_bucket: "ValidateBucketName b = None \<Longrightarrow> PathJoin [ObjectsRoot, b] = bucket_path b"
  using SafeJoin_bucket[of b] by (simp split: if_splits)

lemma children_dirs:
  assumes "wf_map fs" "[] \<notin> fst ` set fs"
  shows "set (map fst (filter (\<lambda>(name, n). n = Dir) (children fs q))) = {b. map_of fs (q @ [b]) = Some Dir}"
    and "distinct (map fst (children fs q))"
proof -
  have m: "map_of fs k = Some n \<longleftrightarrow> (k, n) \<in> set fs" for k n using assms(1) by (auto simp: wf_map_def)
  show "set (map fst (filter (\<lambda>(name, n). n = Dir) (children fs q))) = {b. map_of fs (q @ [b]) = Some Dir}"
    unfolding m by (force simp: children_def image_iff)
  let ?xs = "filter (\<lambda>(k, _). k \<noteq> [] \<and> butlast k = q) fs"
  have "inj_on last {k. k \<noteq> [] \<and> butlast k = q}"
    by (rule inj_onI) (metis (mono_tags, lifting) append_butlast_last_id mem_Collect_eq)
  then have "inj_on last (set (map fst ?xs))" by (rule inj_on_subset) auto
  moreover have "distinct (map fst ?xs)" using assms(1) by (intro distinct_map_filter) (simp add: wf_map_def)
  ultimately have "distinct (map last (map fst ?xs))" by (simp only: distinct_map simp_thms)
  moreover have "map fst (children fs q) = map last (map fst ?xs)" by (simp add: children_def case_prod_beta)
  ultimately show "distinct (map fst (children fs q))" by (simp only:)
qed

text \<open>What the dashboard's totals stand for.\<close>

lemma storage_stats:
  assumes "fs_wf fs" "computeStorageStats E fs = Inr (sizes, k)"
  shows "distinct (map bsName sizes)" "set (map bsName sizes) = {b. node_at fs (root_segs @ [b]) = Some Dir}"
    "k = sum_list (map bsObjects sizes)"
    "s \<in> set sizes \<Longrightarrow> node_at fs (psegs (PathJoin [ObjectsRoot, bsName s])) = Some Dir
       \<and> walkBucketObjects E (PathJoin [ObjectsRoot, bsName s]) fs = Inr (bsObjects s, bsBytes s)"
proof -
  have root: "psegs ObjectsRoot = root_segs" by code_simp
  have wf: "wf_map fs" "[] \<notin> fst ` set fs" using assms(1) by (force simp: fs_wf_def wf_map_def dest: map_of_is_SomeI)+
  have at: "node_at fs (root_segs @ [b]) = map_of fs (root_segs @ [b])" for b by (simp add: node_at_cons)
  have *: "distinct (map bsName sizes) \<and> set (map bsName sizes) = {b. node_at fs (root_segs @ [b]) = Some Dir}
      \<and> k = sum_list (map bsObjects sizes)
      \<and> (\<forall>s\<in>set sizes. walkBucketObjects E (PathJoin [ObjectsRoot, bsName s]) fs = Inr (bsObjects s, bsBytes s))"
  proof (cases "ReadDir (ft E) fs ObjectsRoot")
    case (Inl e)
    then have "e = ENOENT" and nil: "sizes = []" "k = 0"
      using assms(2) by (auto simp: computeStorageStats_def IsNotExist_def split: if_splits)
    then have "lookup_path fs root_segs = Inl ENOENT"
      using Inl by (auto simp: ReadDir_def root split: if_splits sum.splits node.splits)
    then have "node_at fs root_segs = None" using lookup_Inl[OF assms(1)] by blast
    then have "node_at fs (root_segs @ [b]) \<noteq> Some Dir" for b using fs_wf_parent[OF assms(1), of root_segs b Dir] by auto
    then show ?thesis using nil by simp
  next
    case (Inr es)
    then have es: "es = sort_key fst (children fs root_segs)"
      by (auto simp: ReadDir_def root split: if_splits sum.splits node.splits)
    have "bucket_sizes E fs es = Inr (sizes, k)" using assms(2) Inr by (simp add: computeStorageStats_def)
    note b = bucket_sizes_Inr[OF this]
    have "mset (map fst es) = mset (map fst (children fs root_segs))" by (simp add: es)
    then have "distinct (map fst es)" using children_dirs(2)[OF wf] mset_eq_imp_distinct_iff by blast
    then have "distinct (map bsName sizes)" using b by (simp add: distinct_map_filter)
    moreover have "set (map bsName sizes) = {b. map_of fs (root_segs @ [b]) = Some Dir}"
      using b children_dirs(1)[OF wf, of root_segs] by (simp add: es)
    ultimately show ?thesis using b at by simp
  qed
  then show "distinct (map bsName sizes)" "set (map bsName sizes) = {b. node_at fs (root_segs @ [b]) = Some Dir}"
    "k = sum_list (map bsObjects sizes)" by blast+
  show "node_at fs (psegs (PathJoin [ObjectsRoot, bsName s])) = Some Dir
       \<and> walkBucketObjects E (PathJoin [ObjectsRoot, bsName s]) fs = Inr (bsObjects s, bsBytes s)" if "s \<in> set sizes"
    using * that stats_bucket_dir[OF assms(1), of "bsName s"] by auto
qed

section \<open>The listing of a bucket\<close>

lemma list_merged_all: "mset (list_merged [] [] xs) = mset (map ObjectItem xs)"
  by (simp add: list_merged_def Let_def common_prefix_def HasPrefix_def List.map_filter_def)

fun item_size :: "emitItem \<Rightarrow> nat" where
  "item_size (ObjectItem e) = reSize e"
| "item_size (PrefixItem p) = 0"

lemma resolve_items_sizes:
  "resolve_items E b base its fs = (Inr (os, ps), fs') \<Longrightarrow> sum_list (map loSize os) = sum_list (map item_size its)"
proof (induction its arbitrary: fs os ps)
  case (Cons it its)
  show ?case
  proof (cases it)
    case (PrefixItem p)
    obtain x fs1 where r: "resolve_items E b base its fs = (x, fs1)" by (metis surj_pair)
    then obtain ps1 where ps: "x = Inr (os, ps1)" "fs1 = fs'" using Cons.prems PrefixItem by (cases x) auto
    from Cons.IH[OF r[unfolded ps(1,2)]] PrefixItem show ?thesis by simp
  next
    case (ObjectItem e)
    obtain tag fs1 where t: "loadOrBackfillETag E (abs_path (base @ reRel e)) fs = (tag, fs1)" by (metis surj_pair)
    obtain x fs2 where r: "resolve_items E b base its fs1 = (x, fs2)" by (metis surj_pair)
    from Cons.prems obtain o1 os1 where os: "x = Inr (os1, ps)" "fs2 = fs'" "os = o1 # os1" "loSize o1 = reSize e"
      using ObjectItem t r by (cases x) (auto simp: Let_def split: sum.splits)
    from Cons.IH[OF r[unfolded os(1,2)]] os ObjectItem show ?thesis by simp
  qed
qed simp

text \<open>A listing from the start, with no prefix and no delimiter.\<close>

definition plain_listing :: "request \<Rightarrow> bool" where
  "plain_listing r \<longleftrightarrow>
     list_all (\<lambda>n. Query r n = []) [''prefix'', ''delimiter'', ''continuation-token'', ''start-after'', ''marker'']"

lemma list_page_Inl: "list_page E r bp files w = (Inl x, w1) \<Longrightarrow> status x = 500"
  by (auto simp: list_page_def Let_def split: prod.splits sum.splits)

lemma plain_page_shows:
  assumes "plain_listing r" "list_page E r bp files w = (Inr p, w1)" "xs = raw_entries E (psegs bp) files"
  shows "pgMaxKeys p = parseMaxKeys (Query r ''max-keys'') \<and> keyCount p = min (pgMaxKeys p) (length xs)
    \<and> (pgLastKey p = None \<longleftrightarrow> length xs \<le> pgMaxKeys p)
    \<and> (pgLastKey p = None \<longrightarrow> sum_list (map loSize (pgObjects p)) = sum_list (map reSize xs))"
proof -
  let ?m = "list_merged [] [] xs" and ?n = "parseMaxKeys (Query r ''max-keys'')"
  have q: "Query r ''prefix'' = []" "Query r ''delimiter'' = []" "list_cursor r = []"
    using assms(1) by (simp_all add: plain_listing_def list_cursor_def)
  obtain items last where c: "cut_page ?n ?m = (items, last)" by (metis surj_pair)
  obtain x fs1 where ri: "resolve_items E (param_bucket r) (psegs bp) items (disk w) = (x, fs1)" by (metis surj_pair)
  then obtain os ps where x: "x = Inr (os, ps)"
    using assms(2,3) c q by (auto simp: list_page_def Let_def seek_def split: sum.splits)
  have p: "p = \<lparr>pgBucket = param_bucket r, pgPrefix = [], pgDelimiter = [], pgMaxKeys = ?n, pgLastKey = last, pgObjects = os, pgPrefixes = ps\<rparr>"
    using assms(2,3) c ri x q by (simp add: list_page_def Let_def seek_def)
  note its = resolve_items_Inr[OF ri[unfolded x]] and sizes = resolve_items_sizes[OF ri[unfolded x]]
  have len: "length ?m = length xs" using list_merged_all[of xs] by (metis length_map size_mset)
  have "length os + length ps = length items" using its item_counts[of items] by (metis length_map)
  moreover have "length items = min ?n (length xs)" "last = None \<longleftrightarrow> length xs \<le> ?n"
    using c len by (auto simp: cut_page_def split: if_splits)
  moreover have "sum_list (map item_size ?m) = sum_list (map reSize xs)"
  proof -
    have "mset (map item_size ?m) = mset (map item_size (map ObjectItem xs))" using list_merged_all[of xs] by (metis mset_map)
    then have "sum_list (map item_size ?m) = sum_list (map item_size (map ObjectItem xs))" by (metis sum_mset_sum_list)
    then show ?thesis by (simp add: comp_def)
  qed
  moreover have "items = ?m" if "last = None" using c that by (auto simp: cut_page_def split: if_splits)
  ultimately show ?thesis using sizes by (simp add: p keyCount_def)
qed

lemma plain_listing_shows:
  assumes "plain_listing r" "ValidateBucketName (param_bucket r) = None" "node_at (disk w) (bucket_segs (param_bucket r)) = Some Dir"
    "fs_wf (disk w)" "ListObjectsHandler E r w = (resp, w')" "status resp = 200"
    "xs = walked E (disk w) (bucket_path (param_bucket r))"
  shows "\<exists>p. resp = render_list r p \<and> pgMaxKeys p = parseMaxKeys (Query r ''max-keys'')
    \<and> keyCount p = min (pgMaxKeys p) (length xs) \<and> (pgLastKey p = None \<longleftrightarrow> length xs \<le> pgMaxKeys p)
    \<and> (pgLastKey p = None \<longrightarrow> sum_list (map loSize (pgObjects p)) = sum_list (map reSize xs))"
proof -
  let ?bp = "bucket_path (param_bucket r)"
  have bp: "psegs ?bp = bucket_segs (param_bucket r)" by (rule psegs_bucket_path[OF assms(2)])
  obtain files y where f: "WalkDir (ft E) (disk w) ?bp = Inr files" and y: "list_page E r ?bp files w = (y, w')"
    and out: "resp = (case y of Inl x \<Rightarrow> x | Inr p \<Rightarrow> render_list r p)"
    using assms(5,6) by (auto simp: ListObjectsHandler_def resolvePath_bucket[OF assms(2)] split: if_splits sum.splits prod.splits)
  have "y \<noteq> Inl x" for x using list_page_Inl[of E r ?bp files w x w'] y out assms(6) by auto
  then obtain p where p: "y = Inr p" "resp = render_list r p" using out by (cases y) auto
  have "files = walk_files (disk w) (psegs ?bp)"
    using f assms(3) lookup_iff[OF assms(4)] by (auto simp: WalkDir_def bp split: if_splits sum.splits node.splits)
  then have "xs = raw_entries E (psegs ?bp) files" using assms(7) by (simp add: walked_def)
  note page = plain_page_shows[OF assms(1) y[unfolded p(1)] this]
  show ?thesis unfolding p(2) by (rule exI[of _ p], rule conjI[OF refl page])
qed

end
