(* ===== verification/Report_Theorems.thy ===== *)
theory Report_Theorems
  imports Stats_Laws Reference_Signed
begin

text \<open>
  Properties of the reports: the access log's operation names against the dispatcher, the
  dashboard's sizes against the listing, and the per-bucket activity against the counters.
\<close>

section \<open>Operation names\<close>







lemma request_key_simps [simp]:
  "hasQuery (r\<lparr>ctx_cleanedKey := k\<rparr>) n = hasQuery r n" "Query (r\<lparr>ctx_cleanedKey := k\<rparr>) n = Query r n"
  "GetHeader (r\<lparr>ctx_cleanedKey := k\<rparr>) n = GetHeader r n" "bucket_addressed (r\<lparr>ctx_cleanedKey := k\<rparr>) = bucket_addressed r"
  by (simp_all add: hasQuery_def Query_def GetHeader_def header_values_def bucket_addressed_def)









text \<open>
  The names part where a request carries a subresource of another route or method.  The dispatcher
  does not look at \<open>?uploads\<close> on an object: such a GET downloads it, and the access log names the
  operation \<open>ListMultipartUploads\<close>.  A DELETE with \<open>?delete\<close> deletes the one object; a DELETE of a bucket
  with \<open>?acl\<close> deletes nothing, and \<open>DeleteBucket\<close> is logged.
\<close>

lemma logged_as_a_listing:
  assumes "req_method r = ''GET''" "hasQuery r ''uploads''" "\<not> hasQuery r ''acl''" "\<not> hasQuery r ''tagging''" "\<not> hasQuery r ''cors''"
    "\<not> hasQuery r ''presign''" "Query r ''uploadId'' = []"
  shows "dispatchObjectGET S E r w = DownloadObjectHandler E r w \<and> s3Operation r = ''ListMultipartUploads''"
  using assms by (simp add: dispatchObjectGET_def s3Operation_def Let_def)

lemma logged_as_a_batch:
  assumes "req_method r = ''DELETE''" "hasQuery r ''delete''" "\<not> hasQuery r ''tagging''" "\<not> hasQuery r ''cors''" "Query r ''uploadId'' = []"
  shows "dispatchObjectDELETE E r w = DeleteObjectHandler E r w \<and> s3Operation r = ''DeleteObjects''"
  using assms by (simp add: dispatchObjectDELETE_def s3Operation_def Let_def)

lemma logged_as_a_bucket_delete:
  assumes "req_method r = ''DELETE''" "hasQuery r ''acl''" "\<not> hasQuery r ''tagging''" "\<not> hasQuery r ''cors''" "\<not> hasQuery r ''delete''"
    "Query r ''uploadId'' = []" "param_objectKey r = []"
  shows "dispatchBucketSubresource DeleteBucketHandler ''DELETE'' E r w = (Status 200, w) \<and> s3Operation r = ''DeleteBucket''"
  using assms by (simp add: dispatchBucketSubresource_def no_handler_def s3Operation_def Let_def TrimPrefix_def)

section \<open>The dashboard\<close>

text \<open>C35: the dashboard counts what a listing shows. When the statistics are answered, their buckets
  are the directories of the object store, each once; the object total is the sum over the
  buckets of the number of objects in each, and the byte total the sum of their sizes; the rows show
  the buckets with these figures, the largest first. A listing of a bucket from its start, with no
  prefix and no delimiter, shows that many keys, or as many as fit the page and then a cursor;
  when they all fit their sizes add up to the bytes of the bucket.\<close>

theorem stats_agree_with_listing:
  assumes "fs_wf (disk w)" "GetStatsHandler classes E q w = resp" "status resp = 200"
  shows "\<exists>(sizes :: bucketSize list) rows fields. payload resp = JSON (TObj fields)
    \<and> distinct (map bsName sizes) \<and> set (map bsName sizes) = {b. node_at (disk w) (root_segs @ [b]) = Some Dir}
    \<and> map_of fields ''buckets'' = Some (TInt (int (length sizes)))
    \<and> map_of fields ''objects'' = Some (TInt (int (\<Sum>s\<leftarrow>sizes. bsObjects s)))
    \<and> map_of fields ''bytes'' = Some (TInt (int (\<Sum>s\<leftarrow>sizes. bsBytes s)))
    \<and> map_of fields ''perBucket'' = Some (TList (map row_tree rows)) \<and> sorted_wrt (\<lambda>x y. rowBytes y \<le> rowBytes x) rows
    \<and> mset (map (\<lambda>x. (rowName x, rowBytes x, rowObjects x)) rows) = mset (map (\<lambda>s. (bsName s, bsBytes s, bsObjects s)) sizes)
    \<and> (\<forall>s\<in>set sizes. bsObjects s = card {k. is_object E (disk w) (psegs (PathJoin [ObjectsRoot, bsName s])) k})
    \<and> (\<forall>s\<in>set sizes. \<forall>r resp' w'. ValidateBucketName (bsName s) = None \<and> param_bucket r = bsName s \<and> plain_listing r
          \<and> ListObjectsHandler E r w = (resp', w') \<and> status resp' = 200 \<longrightarrow>
        (\<exists>p. resp' = render_list r p \<and> pgMaxKeys p = parseMaxKeys (Query r ''max-keys'')
           \<and> keyCount p = min (pgMaxKeys p) (bsObjects s) \<and> (pgLastKey p = None \<longleftrightarrow> bsObjects s \<le> pgMaxKeys p)
           \<and> (pgLastKey p = None \<longrightarrow> sum_list (map loSize (pgObjects p)) = bsBytes s)))"
proof -
  obtain sizes k where c: "computeStorageStats E (disk w) = Inr (sizes, k)"
    using assms(2,3) by (auto simp: GetStatsHandler_def split: sum.splits)
  define rows where "rows = sort_key (\<lambda>x. - int (rowBytes x)) (map (stats_row (S3ActivityByBucket w)) sizes)"
  have "\<exists>fields. payload resp = JSON (TObj fields) \<and> map_of fields ''buckets'' = Some (TInt (int (length sizes)))
      \<and> map_of fields ''objects'' = Some (TInt (int k)) \<and> map_of fields ''bytes'' = Some (TInt (int (\<Sum>s\<leftarrow>sizes. bsBytes s)))
      \<and> map_of fields ''perBucket'' = Some (TList (map row_tree rows))"
    unfolding assms(2)[symmetric] GetStatsHandler_def c Let_def sum.case prod.case rows_def[symmetric]
    by (simp add: int_field_def c_JSON_def)
  then obtain fields where p: "payload resp = JSON (TObj fields)"
    "map_of fields ''buckets'' = Some (TInt (int (length sizes)))" "map_of fields ''objects'' = Some (TInt (int k))"
    "map_of fields ''bytes'' = Some (TInt (int (\<Sum>s\<leftarrow>sizes. bsBytes s)))" "map_of fields ''perBucket'' = Some (TList (map row_tree rows))"
    by blast
  note st = storage_stats[OF assms(1) c]
  have rows: "sorted_wrt (\<lambda>x y. rowBytes y \<le> rowBytes x) rows"
    using sorted_sort_key[of "\<lambda>x. - int (rowBytes x)" "map (stats_row (S3ActivityByBucket w)) sizes"]
    by (simp add: rows_def sorted_map del: sorted_sort_key)
  have same: "mset (map (\<lambda>x. (rowName x, rowBytes x, rowObjects x)) rows) = mset (map (\<lambda>s. (bsName s, bsBytes s, bsObjects s)) sizes)"
    by (simp add: rows_def stats_row_def Let_def multiset.map_comp comp_def)
  have each: "length (walked E (disk w) (PathJoin [ObjectsRoot, bsName s])) = bsObjects s"
    "sum_list (map reSize (walked E (disk w) (PathJoin [ObjectsRoot, bsName s]))) = bsBytes s" if "s \<in> set sizes" for s
    using walkBucketObjects_counts[OF assms(1) conjunct1[OF st(4)[OF that]] conjunct2[OF st(4)[OF that]]] by simp_all
  have objs: "\<forall>s\<in>set sizes. bsObjects s = card {k. is_object E (disk w) (psegs (PathJoin [ObjectsRoot, bsName s])) k}"
    using each(1) count_objects[OF assms(1)] by metis
  have lists: "\<exists>p. resp' = render_list r p \<and> pgMaxKeys p = parseMaxKeys (Query r ''max-keys'')
      \<and> keyCount p = min (pgMaxKeys p) (bsObjects s) \<and> (pgLastKey p = None \<longleftrightarrow> bsObjects s \<le> pgMaxKeys p)
      \<and> (pgLastKey p = None \<longrightarrow> sum_list (map loSize (pgObjects p)) = bsBytes s)"
    if "s \<in> set sizes" "ValidateBucketName (bsName s) = None" "param_bucket r = bsName s" "plain_listing r"
      "ListObjectsHandler E r w = (resp', w')" "status resp' = 200" for s r resp' w'
  proof -
    have "node_at (disk w) (bucket_segs (param_bucket r)) = Some Dir" using st(2) that(1,3) by (auto simp: bucket_segs_def)
    from plain_listing_shows[OF that(4) _ this assms(1) that(5,6) refl] that(2,3) each[OF that(1)]
    show ?thesis by (simp add: PathJoin_bucket)
  qed
  show ?thesis
  proof (rule exI[of _ sizes], rule exI[of _ rows], rule exI[of _ fields], intro conjI)
    show "map_of fields ''objects'' = Some (TInt (int (\<Sum>s\<leftarrow>sizes. bsObjects s)))" using p(3) st(3) by simp
  qed (rule p(1) p(2) p(4) p(5) st(1) st(2) rows same objs | (intro ballI allI impI, elim conjE, rule lists))+
qed

text \<open>A bucket with three objects, and its listing.\<close>

lemma stats_agree_with_listing_witness:
  "\<exists>fields p. payload (GetStatsHandler [] ref_env (ref_request ''GET'' [] [] []) ref_listed) = JSON (TObj fields)
     \<and> map_of fields ''objects'' = Some (TInt 3)
     \<and> fst (ListObjectsHandler ref_env (ref_request ''GET'' ''bkt'' [] []) ref_listed) = render_list (ref_request ''GET'' ''bkt'' [] []) p
     \<and> keyCount p = 3 \<and> pgLastKey p = None \<and> sum_list (map loSize (pgObjects p)) = 8"
proof -
  let ?q = "ref_request ''GET'' [] [] []" and ?r = "ref_request ''GET'' ''bkt'' [] []"
  let ?S = "GetStatsHandler [] ref_env ?q ref_listed" and ?l = "ListObjectsHandler ref_env ?r ref_listed"
  have s: "status ?S = 200" "case payload ?S of JSON (TObj fs) \<Rightarrow> map_of fs ''objects'' = Some (TInt 3) \<and> map_of fs ''bytes'' = Some (TInt 8) | _ \<Rightarrow> False"
    and l: "status (fst ?l) = 200" "plain_listing ?r" "ValidateBucketName ''bkt'' = None" "param_bucket ?r = ''bkt''" "parseMaxKeys (Query ?r ''max-keys'') = 1000"
    by code_simp+
  from stats_agree_with_listing[OF ref_listed_wf refl s(1)] obtain sizes :: "bucketSize list" and fields where
    f: "payload ?S = JSON (TObj fields)" "distinct (map bsName sizes)" "set (map bsName sizes) = {b. node_at (disk ref_listed) (root_segs @ [b]) = Some Dir}"
      "map_of fields ''objects'' = Some (TInt (int (\<Sum>s\<leftarrow>sizes. bsObjects s)))" "map_of fields ''bytes'' = Some (TInt (int (\<Sum>s\<leftarrow>sizes. bsBytes s)))"
    and each: "\<And>s r resp' w'. s \<in> set sizes \<Longrightarrow> ValidateBucketName (bsName s) = None \<Longrightarrow> param_bucket r = bsName s \<Longrightarrow> plain_listing r
        \<Longrightarrow> ListObjectsHandler ref_env r ref_listed = (resp', w') \<Longrightarrow> status resp' = 200 \<Longrightarrow>
        (\<exists>p. resp' = render_list r p \<and> pgMaxKeys p = parseMaxKeys (Query r ''max-keys'')
           \<and> keyCount p = min (pgMaxKeys p) (bsObjects s) \<and> (pgLastKey p = None \<longleftrightarrow> bsObjects s \<le> pgMaxKeys p)
           \<and> (pgLastKey p = None \<longrightarrow> sum_list (map loSize (pgObjects p)) = bsBytes s))" by blast
  have "set (map bsName sizes) = {''bkt''}"
    unfolding f(3) by (auto simp: ref_listed_def node_at_def bucket_segs_def root_segs_def split: if_splits)
  then have "length sizes = Suc 0" using distinct_card[OF f(2)] by simp
  then obtain b where one: "sizes = [b]" unfolding length_Suc_conv by blast
  note b = this \<open>set (map bsName sizes) = {''bkt''}\<close>[unfolded this, simplified]
  have n: "bsObjects b = 3" "bsBytes b = 8" using s(2) f(1,4,5) b by simp_all
  have "b \<in> set sizes" "ValidateBucketName (bsName b) = None" "param_bucket ?r = bsName b" using b l(3,4) by simp_all
  from each[OF this l(2) surjective_pairing l(1)] obtain p where
    p: "fst ?l = render_list ?r p" "pgMaxKeys p = 1000" "keyCount p = min (pgMaxKeys p) 3" "pgLastKey p = None \<longleftrightarrow> 3 \<le> pgMaxKeys p"
    "pgLastKey p = None \<longrightarrow> sum_list (map loSize (pgObjects p)) = 8" unfolding l(5) n by (elim exE conjE)
  have "keyCount p = 3" "pgLastKey p = None" "sum_list (map loSize (pgObjects p)) = 8" using p(2-5) by simp_all
  moreover have "map_of fields ''objects'' = Some (TInt 3)" using f(4) n(1) b(1) by simp
  ultimately show ?thesis by (intro exI[of _ fields] exI[of _ p] conjI f(1) p(1))
qed

section \<open>Activity\<close>

definition counter :: "'k \<Rightarrow> ('k \<times> nat) list \<Rightarrow> nat" where
  "counter k m = (case map_of m k of None \<Rightarrow> 0 | Some n \<Rightarrow> n)"

lemma activity_at_update [simp]: "activity_at b (AList.update b' a m) = (if b = b' then a else activity_at b m)"
  by (simp add: activity_at_def update_conv')

lemma counter_Cons: "counter k ((k', n) # m) = (if k = k' then n else counter k m)"
  by (simp add: counter_def)

lemma counter_fresh: "k \<notin> fst ` set m \<Longrightarrow> counter k m = 0"
  by (simp add: counter_def map_of_eq_None_iff[THEN iffD2] split: option.split)

lemma operations_at:
  "wf_map xs \<Longrightarrow> activity_at b (fold add_operation xs m) = (activity_at b m)
     \<lparr>baUploads := baUploads (activity_at b m) + counter (b, ''upload'') xs,
      baDownloads := baDownloads (activity_at b m) + counter (b, ''download'') xs,
      baDeletes := baDeletes (activity_at b m) + counter (b, ''delete'') xs\<rparr>"
proof (induction xs arbitrary: m)
  case (Cons x xs)
  obtain b' op v where x: "x = ((b', op), v)" by (metis surj_pair)
  have fresh: "(b', op) \<notin> fst ` set xs" and "wf_map xs" using Cons.prems x by (auto simp: wf_map_def)
  then show ?case using Cons.IH[of "add_operation x m"] counter_fresh[OF fresh] unfolding x
    by (cases "b = b'") (auto simp: add_operation_def Let_def counter_Cons)
qed (simp add: counter_def)

lemma bytes_at:
  "wf_map xs \<Longrightarrow> activity_at b (fold add_bytes xs m) = (activity_at b m)
     \<lparr>baBytesIn := baBytesIn (activity_at b m) + counter (b, ''in'') xs,
      baBytesOut := baBytesOut (activity_at b m) + counter (b, ''out'') xs\<rparr>"
proof (induction xs arbitrary: m)
  case (Cons x xs)
  obtain b' dir v where x: "x = ((b', dir), v)" by (metis surj_pair)
  have fresh: "(b', dir) \<notin> fst ` set xs" and "wf_map xs" using Cons.prems x by (auto simp: wf_map_def)
  then show ?case using Cons.IH[of "add_bytes x m"] counter_fresh[OF fresh] unfolding x
    by (cases "b = b'") (auto simp: add_bytes_def Let_def counter_Cons)
qed (simp add: counter_def)

text \<open>The roll-up of a bucket reads its counters.\<close>

lemma rollup_reads_the_counters:
  assumes "wf_map (s3OperationsTotal w)" "wf_map (s3BytesTransferredTotal w)"
  shows "activity_at b (S3ActivityByBucket w) =
    \<lparr>baUploads = counter (b, ''upload'') (s3OperationsTotal w), baDownloads = counter (b, ''download'') (s3OperationsTotal w),
     baDeletes = counter (b, ''delete'') (s3OperationsTotal w), baBytesIn = counter (b, ''in'') (s3BytesTransferredTotal w),
     baBytesOut = counter (b, ''out'') (s3BytesTransferredTotal w)\<rparr>"
  using operations_at[OF assms(1), of b "[]"] bytes_at[OF assms(2), of b]
  by (simp add: S3ActivityByBucket_def activity_at_def[of b "[]"] no_activity_def)

end
