(* ===== verification/Settings.thy ===== *)
theory Settings
  imports Activity_Handlers Rate_Limit Ip_Ban
begin

text \<open>
  Runtime settings: the key-value store of \<open>internal/storage/config.go\<close>, the live values, and the
  handlers \<open>ratelimit.go\<close>, \<open>ipban.go\<close>, \<open>durability.go\<close>, \<open>retention.go\<close>, \<open>accesslog.go\<close>,
  \<open>trustedproxy.go\<close>, \<open>config.go\<close> and \<open>whoami.go\<close> of \<open>internal/handlers\<close>.
\<close>

section \<open>The config store\<close>

definition configBucket :: string where "configBucket = ''Config''"

text \<open>The database, and the keys whose reads fail; a read of an empty value yields a nil slice.\<close>

record 'db config_io =
  kv :: "'db bolt"
  read_fails :: "string \<Rightarrow> bool"

definition GetConfigValue :: "'db config_io \<Rightarrow> string \<Rightarrow> 'db \<Rightarrow> unit + bytes option" where
  "GetConfigValue C key d =
     (if read_fails C key then Inl ()
      else case bget (kv C) configBucket key d of
          None \<Rightarrow> Inr None
        | Some v \<Rightarrow> Inr (if v = [] then None else Some v))"

definition PutConfigValue :: "'db config_io \<Rightarrow> string \<Rightarrow> bytes \<Rightarrow> 'db \<Rightarrow> 'db option" where
  "PutConfigValue C key val d = bput (kv C) configBucket key val d"

definition DeleteConfigValue :: "'db config_io \<Rightarrow> string \<Rightarrow> 'db \<Rightarrow> 'db option" where
  "DeleteConfigValue C key d = bdelete (kv C) configBucket key d"

section \<open>State\<close>

text \<open>The codecs of the request bodies and of the stored blobs.\<close>

record settings_lib =
  ratelimit_enc :: "RateLimitConfig \<Rightarrow> bytes option"
  ratelimit_dec :: "bytes \<Rightarrow> RateLimitConfig option"
  ipban_enc :: "IPBanConfig \<Rightarrow> bytes option"
  ipban_dec :: "bytes \<Rightarrow> IPBanConfig option"
  headers_enc :: "string list \<Rightarrow> bytes option"
  headers_dec :: "bytes \<Rightarrow> string list option"
  sync_dec :: "bytes \<Rightarrow> bool option"
  days_dec :: "bytes \<Rightarrow> int option"
  accesslog_dec :: "bytes \<Rightarrow> (bool \<times> int \<times> int) option"
  proxy_dec :: "bytes \<Rightarrow> (string list \<times> bool) option"

text \<open>The live values: the package variables of \<open>handlers\<close>, \<open>storage\<close> and the two controllers.\<close>

record 'l settings =
  syncWrites :: bool
  requestRetentionDays :: int
  accessLog :: access_log
  trustedProxy :: TrustedProxyConfig
  rlController :: "'l RateLimitController"
  rlEnv :: RateLimitConfig
  banController :: IPBanController
  banEnv :: IPBanConfig

text \<open>A request finds the settings, the config database and the event database.\<close>

record ('db, 'edb, 'l) admin_state =
  live :: "'l settings"
  cfgdb :: 'db
  evdb :: 'edb

record ('db, 'edb) admin_io =
  cio :: "'db config_io"
  codec :: settings_lib
  elib :: "'edb event_lib"
  ebolt :: "'edb bolt"
  clock :: time

definition audit :: "('db, 'edb) admin_io \<Rightarrow> request \<Rightarrow> string \<Rightarrow> string \<Rightarrow> string \<Rightarrow> ('db, 'edb, 'l) admin_state \<Rightarrow> ('db, 'edb, 'l) admin_state" where
  "audit A r action target detail s =
     s\<lparr>evdb := recordAudit (elib A) (ebolt A) (accessLog (live s)) (clock A) r action target detail (evdb s)\<rparr>"

type_synonym ('db, 'edb, 'l) admin_handler =
  "('db, 'edb) admin_io \<Rightarrow> request \<Rightarrow> ('db, 'edb, 'l) admin_state \<Rightarrow> response \<times> ('db, 'edb, 'l) admin_state"

definition json_error :: "nat \<Rightarrow> string \<Rightarrow> response" where
  "json_error s msg = c_JSON s (TObj [(''error'', TStr msg)])"

text \<open>\<open>ShouldBindJSON\<close>: a body that cannot be read or decoded is an error.\<close>

definition bind :: "(bytes \<Rightarrow> 'a option) \<Rightarrow> request \<Rightarrow> 'a option" where
  "bind dec r = (if req_body_fails r then None else dec (req_body r))"

definition bool_text :: "bool \<Rightarrow> string" where
  "bool_text b = (if b then ''true'' else ''false'')"

section \<open>ratelimit.go\<close>

definition rateLimitConfigKey :: string where "rateLimitConfigKey = ''ratelimit''"
definition maxRateLimitRPS :: rat where "maxRateLimitRPS = 1000000"
definition maxRateLimitBurst :: int where "maxRateLimitBurst = 1000000"

definition rateLimitDTO :: "RateLimitConfig \<Rightarrow> tree" where
  "rateLimitDTO c = TObj [(''enabled'', TBool (rlEnabled c)), (''rps'', TFrac (fst (quotient_of (RPS c))) (snd (quotient_of (RPS c)))),
     (''burst'', TInt (Burst c))]"

text \<open>The checks for NaN and infinities have no counterpart: a rational is neither.\<close>

definition validateRateLimit :: "RateLimitConfig \<Rightarrow> string" where
  "validateRateLimit d =
     (if RPS d < 0 \<or> RPS d > maxRateLimitRPS then ''rps out of range''
      else if Burst d < 0 \<or> Burst d > maxRateLimitBurst then ''burst out of range''
      else if rlEnabled d \<and> (RPS d < 1 \<or> Burst d < 1) then ''enabled limiting requires rps and burst of at least 1''
      else [])"

definition loadRateLimitOverride :: "('db, 'edb) admin_io \<Rightarrow> 'db \<Rightarrow> unit + RateLimitConfig option" where
  "loadRateLimitOverride A d =
     (case GetConfigValue (cio A) rateLimitConfigKey d of
        Inl e \<Rightarrow> Inl e
      | Inr None \<Rightarrow> Inr None
      | Inr (Some raw) \<Rightarrow> (case ratelimit_dec (codec A) raw of None \<Rightarrow> Inl () | Some c \<Rightarrow> Inr (Some c)))"

definition apply_rl :: "RateLimitConfig \<Rightarrow> 'l settings \<Rightarrow> 'l settings" where
  "apply_rl c s = s\<lparr>rlController := ApplyRateLimit c (rlController s)\<rparr>"

definition InitRateLimitFromStore :: "('db, 'edb) admin_io \<Rightarrow> 'db \<Rightarrow> 'l settings \<Rightarrow> (unit + RateLimitConfig) \<times> 'l settings" where
  "InitRateLimitFromStore A d s =
     (case loadRateLimitOverride A d of
        Inl e \<Rightarrow> (Inl e, s)
      | Inr None \<Rightarrow> (Inr (CurrentRateLimit (rlController s)), s)
      | Inr (Some ov) \<Rightarrow> (let s1 = apply_rl ov s in (Inr (CurrentRateLimit (rlController s1)), s1)))"

definition effective_rl :: "'l settings \<Rightarrow> response" where
  "effective_rl s = c_JSON 200 (TObj [(''effective'', rateLimitDTO (CurrentRateLimit (rlController s)))])"

definition GetRateLimitHandler :: "('db, 'edb, 'l) admin_handler" where
  "GetRateLimitHandler A r s =
     (case loadRateLimitOverride A (cfgdb s) of
        Inl _ \<Rightarrow> (json_error 500 ''failed to read rate-limit override'', s)
      | Inr ov \<Rightarrow>
          (c_JSON 200 (TObj [(''effective'', rateLimitDTO (CurrentRateLimit (rlController (live s)))), (''env'', rateLimitDTO (rlEnv (live s))),
             (''override'', case ov of None \<Rightarrow> TNull | Some c \<Rightarrow> rateLimitDTO c)]), s))"

definition PutRateLimitHandler :: "('db, 'edb, 'l) admin_handler" where
  "PutRateLimitHandler A r s =
     (case bind (ratelimit_dec (codec A)) r of
        None \<Rightarrow> (json_error 400 ''invalid request body'', s)
      | Some d \<Rightarrow>
          if validateRateLimit d \<noteq> [] then (json_error 400 (validateRateLimit d), s)
          else case ratelimit_enc (codec A) d of
              None \<Rightarrow> (json_error 500 ''failed to encode override'', s)
            | Some blob \<Rightarrow>
                (case PutConfigValue (cio A) rateLimitConfigKey blob (cfgdb s) of
                   None \<Rightarrow> (json_error 500 ''failed to persist override'', s)
                 | Some db \<Rightarrow>
                     (let s1 = audit A r ''config.ratelimit.set'' [] [] (s\<lparr>cfgdb := db, live := apply_rl d (live s)\<rparr>)
                      in (effective_rl (live s1), s1))))"

definition DeleteRateLimitHandler :: "('db, 'edb, 'l) admin_handler" where
  "DeleteRateLimitHandler A r s =
     (case DeleteConfigValue (cio A) rateLimitConfigKey (cfgdb s) of
        None \<Rightarrow> (json_error 500 ''failed to clear override'', s)
      | Some db \<Rightarrow>
          (let s1 = audit A r ''config.ratelimit.clear'' [] [] (s\<lparr>cfgdb := db, live := apply_rl (rlEnv (live s)) (live s)\<rparr>)
           in (effective_rl (live s1), s1)))"

section \<open>ipban.go\<close>

definition ipBanConfigKey :: string where "ipBanConfigKey = ''ipban''"

definition ipBanDTO :: "IPBanConfig \<Rightarrow> tree" where
  "ipBanDTO c = TObj [(''enabled'', TBool (ibEnabled c)), (''maxFailures'', TInt (MaxFailures c)),
     (''windowSeconds'', TInt (WindowSeconds c)), (''banSeconds'', TInt (BanSeconds c))]"

fun ban_field_text :: "ban_field \<Rightarrow> string" where
  "ban_field_text BadMaxFailures = ''maxFailures must be between 1 and '' @ Itoa MaxIPBanFailures"
| "ban_field_text BadWindowSeconds = ''windowSeconds must be between 1 and '' @ Itoa MaxIPBanWindowSeconds"
| "ban_field_text BadBanSeconds = ''banSeconds must be between 1 and '' @ Itoa MaxIPBanSeconds"

definition loadIPBanOverride :: "('db, 'edb) admin_io \<Rightarrow> 'db \<Rightarrow> unit + IPBanConfig option" where
  "loadIPBanOverride A d =
     (case GetConfigValue (cio A) ipBanConfigKey d of
        Inl e \<Rightarrow> Inl e
      | Inr None \<Rightarrow> Inr None
      | Inr (Some raw) \<Rightarrow>
          (case ipban_dec (codec A) raw of
             None \<Rightarrow> Inl ()
           | Some c \<Rightarrow> if Validate c \<noteq> None then Inl () else Inr (Some c)))"

definition apply_ban :: "IPBanConfig \<Rightarrow> 'l settings \<Rightarrow> 'l settings" where
  "apply_ban c s = s\<lparr>banController := ApplyIPBan c (banController s)\<rparr>"

definition InitIPBanFromStore :: "('db, 'edb) admin_io \<Rightarrow> 'db \<Rightarrow> 'l settings \<Rightarrow> (unit + IPBanConfig) \<times> 'l settings" where
  "InitIPBanFromStore A d s =
     (case loadIPBanOverride A d of
        Inl e \<Rightarrow> (Inl e, s)
      | Inr None \<Rightarrow> (Inr (CurrentIPBan (banController s)), s)
      | Inr (Some ov) \<Rightarrow> (let s1 = apply_ban ov s in (Inr (CurrentIPBan (banController s1)), s1)))"

definition effective_ban :: "'l settings \<Rightarrow> response" where
  "effective_ban s = c_JSON 200 (TObj [(''effective'', ipBanDTO (CurrentIPBan (banController s)))])"

definition GetIPBanHandler :: "('db, 'edb, 'l) admin_handler" where
  "GetIPBanHandler A r s =
     (case loadIPBanOverride A (cfgdb s) of
        Inl _ \<Rightarrow> (json_error 500 ''failed to read ip ban override'', s)
      | Inr ov \<Rightarrow>
          (c_JSON 200 (TObj [(''effective'', ipBanDTO (CurrentIPBan (banController (live s)))), (''env'', ipBanDTO (banEnv (live s))),
             (''override'', case ov of None \<Rightarrow> TNull | Some c \<Rightarrow> ipBanDTO c)]), s))"

definition putConfigJSON :: "'db config_io \<Rightarrow> string \<Rightarrow> bytes option \<Rightarrow> 'db \<Rightarrow> 'db option" where
  "putConfigJSON C key blob d = (case blob of None \<Rightarrow> None | Some b \<Rightarrow> PutConfigValue C key b d)"

definition PutIPBanHandler :: "('db, 'edb, 'l) admin_handler" where
  "PutIPBanHandler A r s =
     (case bind (ipban_dec (codec A)) r of
        None \<Rightarrow> (json_error 400 ''invalid request body'', s)
      | Some cfg \<Rightarrow>
          (case Validate cfg of
             Some e \<Rightarrow> (json_error 400 (ban_field_text e), s)
           | None \<Rightarrow>
               (case putConfigJSON (cio A) ipBanConfigKey (ipban_enc (codec A) cfg) (cfgdb s) of
                  None \<Rightarrow> (json_error 500 ''failed to persist override'', s)
                | Some db \<Rightarrow>
                    (let s1 = audit A r ''config.ipban.set'' [] [] (s\<lparr>cfgdb := db, live := apply_ban cfg (live s)\<rparr>)
                     in (effective_ban (live s1), s1)))))"

definition DeleteIPBanHandler :: "('db, 'edb, 'l) admin_handler" where
  "DeleteIPBanHandler A r s =
     (case DeleteConfigValue (cio A) ipBanConfigKey (cfgdb s) of
        None \<Rightarrow> (json_error 500 ''failed to clear override'', s)
      | Some db \<Rightarrow>
          (let s1 = audit A r ''config.ipban.clear'' [] [] (s\<lparr>cfgdb := db, live := apply_ban (banEnv (live s)) (live s)\<rparr>)
           in (effective_ban (live s1), s1)))"

section \<open>durability.go and retention.go\<close>

definition syncWritesConfigKey :: string where "syncWritesConfigKey = ''syncwrites''"

definition InitSyncWritesFromStore :: "('db, 'edb) admin_io \<Rightarrow> 'db \<Rightarrow> 'l settings \<Rightarrow> (unit + bool) \<times> 'l settings" where
  "InitSyncWritesFromStore A d s =
     (case GetConfigValue (cio A) syncWritesConfigKey d of
        Inl e \<Rightarrow> (Inl e, s)
      | Inr raw \<Rightarrow>
          (let s1 = (case raw of None \<Rightarrow> s | Some v \<Rightarrow> s\<lparr>syncWrites := (v = ''true'')\<rparr>) in (Inr (syncWrites s1), s1)))"

definition GetSyncWritesHandler :: "('db, 'edb, 'l) admin_handler" where
  "GetSyncWritesHandler A r s = (c_JSON 200 (TObj [(''enabled'', TBool (syncWrites (live s)))]), s)"

definition PutSyncWritesHandler :: "('db, 'edb, 'l) admin_handler" where
  "PutSyncWritesHandler A r s =
     (case bind (sync_dec (codec A)) r of
        None \<Rightarrow> (respondError r 400 ''InvalidArgument'' ''Invalid request body'', s)
      | Some enabled \<Rightarrow>
          (case PutConfigValue (cio A) syncWritesConfigKey (bool_text enabled) (cfgdb s) of
             None \<Rightarrow> (respondError r 500 ''InternalError'' ''Failed to persist durability setting'', s)
           | Some db \<Rightarrow>
               (c_JSON 200 (TObj [(''enabled'', TBool enabled)]),
                audit A r ''config.sync'' (bool_text enabled) [] (s\<lparr>cfgdb := db, live := (live s)\<lparr>syncWrites := enabled\<rparr>\<rparr>))))"

definition requestRetentionConfigKey :: string where "requestRetentionConfigKey = ''requestretentiondays''"
definition defaultRetentionDays :: int where "defaultRetentionDays = 30"
definition minRetentionDays :: int where "minRetentionDays = 1"
definition maxRetentionDays :: int where "maxRetentionDays = 365"

definition requestRetentionWindow :: "'l settings \<Rightarrow> duration" where
  "requestRetentionWindow s = requestRetentionDays s * 24 * Hour"

definition clampRetentionDays :: "int \<Rightarrow> int" where
  "clampRetentionDays n = (if n < minRetentionDays then minRetentionDays else if n > maxRetentionDays then maxRetentionDays else n)"

definition InitRequestRetentionFromStore :: "('db, 'edb) admin_io \<Rightarrow> 'db \<Rightarrow> 'l settings \<Rightarrow> (unit + int) \<times> 'l settings" where
  "InitRequestRetentionFromStore A d s =
     (case GetConfigValue (cio A) requestRetentionConfigKey d of
        Inl e \<Rightarrow> (Inl e, s)
      | Inr raw \<Rightarrow>
          (let s1 = (case raw of None \<Rightarrow> s | Some v \<Rightarrow>
                       (case Atoi v of Inl _ \<Rightarrow> s | Inr n \<Rightarrow> s\<lparr>requestRetentionDays := clampRetentionDays n\<rparr>))
           in (Inr (requestRetentionDays s1), s1)))"

definition days_tree :: "int \<Rightarrow> tree" where
  "days_tree n = TObj [(''days'', TInt n)]"

definition GetRetentionHandler :: "('db, 'edb, 'l) admin_handler" where
  "GetRetentionHandler A r s = (c_JSON 200 (days_tree (requestRetentionDays (live s))), s)"

definition PutRetentionHandler :: "('db, 'edb, 'l) admin_handler" where
  "PutRetentionHandler A r s =
     (case bind (days_dec (codec A)) r of
        None \<Rightarrow> (respondError r 400 ''InvalidArgument'' ''Invalid request body'', s)
      | Some n \<Rightarrow>
          (let days = clampRetentionDays n
           in case PutConfigValue (cio A) requestRetentionConfigKey (Itoa days) (cfgdb s) of
                None \<Rightarrow> (respondError r 500 ''InternalError'' ''Failed to persist retention setting'', s)
              | Some db \<Rightarrow>
                  (c_JSON 200 (days_tree days),
                   audit A r ''config.retention'' (Itoa days) [] (s\<lparr>cfgdb := db, live := (live s)\<lparr>requestRetentionDays := days\<rparr>\<rparr>))))"

section \<open>accesslog.go\<close>

definition accessLogEnabledKey :: string where "accessLogEnabledKey = ''accesslogenabled''"
definition accessLogMaxEventsKey :: string where "accessLogMaxEventsKey = ''accesslogmaxevents''"
definition accessLogMaxAgeDaysKey :: string where "accessLogMaxAgeDaysKey = ''accesslogmaxagedays''"
definition minAccessLogAgeDays :: int where "minAccessLogAgeDays = 0"
definition maxAccessLogAgeDays :: int where "maxAccessLogAgeDays = 365"

definition clampAccessLogAgeDays :: "int \<Rightarrow> int" where
  "clampAccessLogAgeDays n = (if n < minAccessLogAgeDays then minAccessLogAgeDays else if n > maxAccessLogAgeDays then maxAccessLogAgeDays else n)"

definition clampAccessLogMaxEvents :: "int \<Rightarrow> int" where
  "clampAccessLogMaxEvents n = (if n < 0 then 0 else n)"

definition accessLogMaxAgeDays :: "access_log \<Rightarrow> int" where
  "accessLogMaxAgeDays st = accessMaxAgeNs st div (24 * Hour)"

definition currentAccessLogDTO :: "access_log \<Rightarrow> tree" where
  "currentAccessLogDTO st = TObj [(''enabled'', TBool (accessEnabled st)), (''maxEvents'', TInt (accessMaxCount st)),
     (''maxAgeDays'', TInt (accessLogMaxAgeDays st))]"

definition apply_text :: "bytes option \<Rightarrow> (bytes \<Rightarrow> access_log \<Rightarrow> access_log) \<Rightarrow> access_log \<Rightarrow> access_log" where
  "apply_text raw f st = (case raw of None \<Rightarrow> st | Some v \<Rightarrow> f v st)"

definition apply_int :: "(int \<Rightarrow> access_log \<Rightarrow> access_log) \<Rightarrow> bytes \<Rightarrow> access_log \<Rightarrow> access_log" where
  "apply_int f v st = (case Atoi v of Inl _ \<Rightarrow> st | Inr n \<Rightarrow> f n st)"

text \<open>Each value is applied as it is read: an error later on leaves the earlier ones in place.\<close>

definition InitAccessLogFromStore :: "('db, 'edb) admin_io \<Rightarrow> 'db \<Rightarrow> access_log \<Rightarrow> bool \<times> access_log" where
  "InitAccessLogFromStore A d st =
     (case GetConfigValue (cio A) accessLogEnabledKey d of
        Inl _ \<Rightarrow> (False, st)
      | Inr e \<Rightarrow>
          (let st1 = apply_text e (\<lambda>v. SetAccessLogEnabled (v = ''true'')) st
           in case GetConfigValue (cio A) accessLogMaxEventsKey d of
                Inl _ \<Rightarrow> (False, st1)
              | Inr m \<Rightarrow>
                  (let st2 = apply_text m (apply_int (\<lambda>n. SetAccessLogMaxEvents (clampAccessLogMaxEvents n))) st1
                   in case GetConfigValue (cio A) accessLogMaxAgeDaysKey d of
                        Inl _ \<Rightarrow> (False, st2)
                      | Inr a \<Rightarrow> (True, apply_text a (apply_int (\<lambda>n. SetAccessLogMaxAge (clampAccessLogAgeDays n * 24 * Hour))) st2))))"

definition GetAccessLogHandler :: "('db, 'edb, 'l) admin_handler" where
  "GetAccessLogHandler A r s = (c_JSON 200 (currentAccessLogDTO (accessLog (live s))), s)"

text \<open>Puts one after the other until one fails; the database after the last that succeeded.\<close>

fun put_all :: "'db config_io \<Rightarrow> (string \<times> bytes) list \<Rightarrow> 'db \<Rightarrow> bool \<times> 'db" where
  "put_all C [] d = (True, d)"
| "put_all C ((k, v) # kvs) d = (case PutConfigValue C k v d of None \<Rightarrow> (False, d) | Some d1 \<Rightarrow> put_all C kvs d1)"

definition set_access_log :: "bool \<Rightarrow> int \<Rightarrow> int \<Rightarrow> access_log \<Rightarrow> access_log" where
  "set_access_log enabled maxEvents days st =
     SetAccessLogMaxAge (days * 24 * Hour) (SetAccessLogMaxEvents maxEvents (SetAccessLogEnabled enabled st))"

text \<open>\<open>order\<close> is the order in which Go happens to range over the map of the three keys.\<close>

definition PutAccessLogHandler :: "((string \<times> bytes) list \<Rightarrow> (string \<times> bytes) list) \<Rightarrow> ('db, 'edb, 'l) admin_handler" where
  "PutAccessLogHandler order A r s =
     (case bind (accesslog_dec (codec A)) r of
        None \<Rightarrow> (respondError r 400 ''InvalidArgument'' ''Invalid request body'', s)
      | Some (enabled, ev, ag) \<Rightarrow>
          (let maxEvents = clampAccessLogMaxEvents ev; days = clampAccessLogAgeDays ag;
               (ok, db) = put_all (cio A) (order [(accessLogEnabledKey, bool_text enabled), (accessLogMaxEventsKey, Itoa maxEvents),
                  (accessLogMaxAgeDaysKey, Itoa days)]) (cfgdb s)
           in if \<not> ok then (respondError r 500 ''InternalError'' ''Failed to persist access-log setting'', s\<lparr>cfgdb := db\<rparr>)
              else let s1 = audit A r ''config.accesslog'' (bool_text enabled) []
                         (s\<lparr>cfgdb := db, live := (live s)\<lparr>accessLog := set_access_log enabled maxEvents days (accessLog (live s))\<rparr>\<rparr>)
                   in (c_JSON 200 (currentAccessLogDTO (accessLog (live s1))), s1)))"

section \<open>trustedproxy.go\<close>

definition trustedProxyHeadersKey :: string where "trustedProxyHeadersKey = ''trustedproxyheaders''"
definition trustedProxyLeftmostKey :: string where "trustedProxyLeftmostKey = ''trustedproxyleftmost''"
definition maxTrustedProxyHeaders :: nat where "maxTrustedProxyHeaders = 8"

definition trustedProxyHeaderRe :: "string \<Rightarrow> bool" where
  "trustedProxyHeaderRe h \<longleftrightarrow> 1 \<le> length h \<and> length h \<le> 64
     \<and> list_all (\<lambda>c. (CHR ''A'' \<le> c \<and> c \<le> CHR ''Z'') \<or> (CHR ''a'' \<le> c \<and> c \<le> CHR ''z'') \<or> is_digit c \<or> c = CHR ''-'') h"

definition currentTrustedProxyDTO :: "TrustedProxyConfig \<Rightarrow> tree" where
  "currentTrustedProxyDTO cfg = TObj [(''headers'', TList (map TStr (tpHeaders cfg))), (''useLeftmostIP'', TBool (tpUseLeftmostIP cfg))]"

fun sanitize_loop :: "string list \<Rightarrow> string list \<Rightarrow> string list option" where
  "sanitize_loop seen [] = Some []"
| "sanitize_loop seen (h0 # hs) =
     (let h = TrimSpace h0
      in if \<not> trustedProxyHeaderRe h then None
         else if ToLower h \<in> set seen then sanitize_loop seen hs
         else map_option ((#) h) (sanitize_loop (ToLower h # seen) hs))"

definition sanitizeTrustedProxyHeaders :: "string list \<Rightarrow> string list option" where
  "sanitizeTrustedProxyHeaders hs = (if length hs > maxTrustedProxyHeaders then None else sanitize_loop [] hs)"

definition InitTrustedProxyFromStore :: "('db, 'edb) admin_io \<Rightarrow> 'db \<Rightarrow> TrustedProxyConfig \<Rightarrow> bool \<times> TrustedProxyConfig" where
  "InitTrustedProxyFromStore A d live_cfg =
     (case GetConfigValue (cio A) trustedProxyHeadersKey d of
        Inl _ \<Rightarrow> (False, live_cfg)
      | Inr hraw \<Rightarrow>
          (let cfg = (case hraw of None \<Rightarrow> live_cfg | Some v \<Rightarrow>
                        (case headers_dec (codec A) v of
                           None \<Rightarrow> live_cfg
                         | Some hs \<Rightarrow> (case sanitizeTrustedProxyHeaders hs of None \<Rightarrow> live_cfg | Some clean \<Rightarrow> live_cfg\<lparr>tpHeaders := clean\<rparr>)))
           in case GetConfigValue (cio A) trustedProxyLeftmostKey d of
                Inl _ \<Rightarrow> (False, live_cfg)
              | Inr lraw \<Rightarrow> (True, case lraw of None \<Rightarrow> cfg | Some v \<Rightarrow> cfg\<lparr>tpUseLeftmostIP := (v = ''true'')\<rparr>)))"

definition GetTrustedProxyHandler :: "('db, 'edb, 'l) admin_handler" where
  "GetTrustedProxyHandler A r s = (c_JSON 200 (currentTrustedProxyDTO (trustedProxy (live s))), s)"

definition PutTrustedProxyHandler :: "((string \<times> bytes) list \<Rightarrow> (string \<times> bytes) list) \<Rightarrow> ('db, 'edb, 'l) admin_handler" where
  "PutTrustedProxyHandler order A r s =
     (case bind (proxy_dec (codec A)) r of
        None \<Rightarrow> (respondError r 400 ''InvalidArgument'' ''Invalid request body'', s)
      | Some (hs, leftmost) \<Rightarrow>
          (case sanitizeTrustedProxyHeaders hs of
             None \<Rightarrow> (respondError r 400 ''InvalidArgument'' ''Invalid trusted-proxy header list'', s)
           | Some clean \<Rightarrow>
               (case headers_enc (codec A) clean of
                  None \<Rightarrow> (respondError r 500 ''InternalError'' ''Failed to encode trusted-proxy headers'', s)
                | Some blob \<Rightarrow>
                    (let (ok, db) = put_all (cio A) (order [(trustedProxyHeadersKey, blob), (trustedProxyLeftmostKey, bool_text leftmost)]) (cfgdb s)
                     in if \<not> ok then (respondError r 500 ''InternalError'' ''Failed to persist trusted-proxy setting'', s\<lparr>cfgdb := db\<rparr>)
                        else let s1 = audit A r ''config.trustedproxy'' (Join '','' clean) []
                                   (s\<lparr>cfgdb := db, live := (live s)\<lparr>trustedProxy := \<lparr>tpHeaders = clean, tpUseLeftmostIP = leftmost\<rparr>\<rparr>\<rparr>)
                             in (c_JSON 200 (currentTrustedProxyDTO (trustedProxy (live s1))), s1)))))"

section \<open>config.go and whoami.go\<close>

definition SetPublicBaseURL :: "string \<Rightarrow> string" where
  "SetPublicBaseURL v = TrimRight v CHR ''/''"

definition GetConfigHandler :: "surface \<Rightarrow> response" where
  "GetConfigHandler S = c_JSON 200 (TObj [(''publicBaseURL'', TStr (publicBaseURL S))])"

definition GetWhoAmIHandler :: "lib \<Rightarrow> ('db, 'edb, 'l) admin_handler" where
  "GetWhoAmIHandler L A r s =
     (let cfg = trustedProxy (live s)
      in (c_JSON 200 (TObj [(''ip'', TStr (ResolveClientIP L cfg r)), (''remoteAddr'', TStr (RemoteIP r)),
            (''forwardedFor'', TStr (GetHeader r ''X-Forwarded-For'')), (''detectedHeader'', TStr (DetectProxyHeader r (tpHeaders cfg))),
            (''trustedHeaders'', TList (map TStr (tpHeaders cfg))), (''useLeftmostIP'', TBool (tpUseLeftmostIP cfg))]), s))"

end
