(* ===== verification/Admin_Router.thy ===== *)
theory Admin_Router
  imports Settings Admin_Auth Users
begin

text \<open>
  The admin surface: the user handlers of \<open>internal/handlers/admin_handlers.go\<close>, and the route
  table and middleware chain of \<open>internal/router/admin_router.go\<close> over the state of the process.
\<close>

section \<open>admin\_handlers.go\<close>

text \<open>
  The random draws and the nonce of a new user; the codec of the request body, which fails when the
  \<open>acl\<close> field is missing; and the JSON text of a creation time.
\<close>

record user_io =
  uLib :: lib
  uKey :: bytes
  uNonce :: bytes
  uDraw1 :: "nat \<Rightarrow> nat"
  uDraw2 :: "nat \<Rightarrow> nat"
  acl_body_dec :: "bytes \<Rightarrow> ACLRule list option"
  json_time :: "time option \<Rightarrow> string"

definition rule_json :: "ACLRule \<Rightarrow> tree" where
  "rule_json a = TObj [(''effect'', TStr (Effect a)), (''buckets'', json_slice (map TStr (Buckets a))), (''actions'', json_slice (map TStr (Actions a)))]"

definition acl_json :: "ACLRule list \<Rightarrow> tree" where
  "acl_json rules = json_slice (map rule_json rules)"

text \<open>The text after the colon is the store's error, left out here.\<close>

definition CreateUserHandler :: "user_io \<Rightarrow> ('db, 'edb, 'l) admin_handler" where
  "CreateUserHandler U A r s =
     (case bind (acl_body_dec U) r of
        None \<Rightarrow> (json_error 400 ''Invalid request: missing ACL rules'', s)
      | Some aclRules \<Rightarrow>
          (case CreateUserWithACL (uLib U) (kv (cio A)) (uKey U) (uNonce U) (uDraw1 U) (uDraw2 U) (clock A) aclRules (cfgdb s) of
             (Inl e, _) \<Rightarrow> (json_error 500 ''Error creating user: '', s)
           | (Inr user, db) \<Rightarrow>
               (c_JSON 201 (TObj [(''accessKeyID'', TStr (AccessKeyID user)), (''acl'', acl_json (ACL user)),
                  (''secretAccessKey'', TStr (SecretAccessKey user))]),
                audit A r ''user.create'' (AccessKeyID user) [] (s\<lparr>cfgdb := db\<rparr>))))"

definition UpdateUserHandler :: "user_io \<Rightarrow> string \<Rightarrow> ('db, 'edb, 'l) admin_handler" where
  "UpdateUserHandler U accessKeyID A r s =
     (case bind (acl_body_dec U) r of
        None \<Rightarrow> (json_error 400 ''Invalid request: missing ACL rules'', s)
      | Some aclRules \<Rightarrow>
          (case UpdateUserACL (uLib U) (kv (cio A)) accessKeyID aclRules (cfgdb s) of
             (Some ErrUserNotFound, _) \<Rightarrow> (json_error 404 ''User not found'', s)
           | (Some _, _) \<Rightarrow> (json_error 500 ''Error updating user: '', s)
           | (None, db) \<Rightarrow> (Status 200, audit A r ''user.update'' accessKeyID [] (s\<lparr>cfgdb := db\<rparr>))))"

definition user_json :: "user_io \<Rightarrow> User \<Rightarrow> tree" where
  "user_json U u = TObj [(''accessKeyID'', TStr (AccessKeyID u)), (''acl'', acl_json (ACL u)), (''createdAt'', TStr (json_time U (CreatedAt u)))]"

definition ListUsersHandler :: "user_io \<Rightarrow> ('db, 'edb, 'l) admin_handler" where
  "ListUsersHandler U A r s =
     (case ListUsers (uLib U) (kv (cio A)) (cfgdb s) of
        Inl _ \<Rightarrow> (json_error 500 ''Error listing users'', s)
      | Inr users \<Rightarrow> (c_JSON 200 (json_slice (map (user_json U) users)), s))"

definition DeleteUserHandler :: "string \<Rightarrow> ('db, 'edb, 'l) admin_handler" where
  "DeleteUserHandler accessKeyID A r s =
     (case DeleteUser (kv (cio A)) accessKeyID (cfgdb s) of
        (Some _, _) \<Rightarrow> (json_error 500 ''Error deleting user: '', s)
      | (None, db) \<Rightarrow> (Status 204, audit A r ''user.delete'' accessKeyID [] (s\<lparr>cfgdb := db\<rparr>)))"

section \<open>The state of the process\<close>

record ('db, 'edb, 'l) server =
  admin :: "('db, 'edb, 'l) admin_state"
  adminAuth :: admin_auth
  objects :: world
  classes :: class_counters

text \<open>What is fixed for one request: its clock and draws, and what surrounds the program.\<close>

record ('db, 'edb, 'l) request_io =
  rEnv :: env
  rIO :: "('db, 'edb) admin_io"
  rUsers :: user_io
  rSurface :: surface
  rBuckets :: "'l buckets"
  rOrder :: "(string \<times> bytes) list \<Rightarrow> (string \<times> bytes) list"
  rSession :: bytes
  rObserved :: observed
  rScrape :: response
  rSPA :: "request \<Rightarrow> response"

text \<open>The live settings the handlers read.\<close>

definition live_env :: "env \<Rightarrow> ('db, 'edb, 'l) server \<Rightarrow> env" where
  "live_env E s = E\<lparr>durable := syncWrites (live (admin s)), tproxy := trustedProxy (live (admin s))\<rparr>"

section \<open>The route table\<close>

datatype api_route = ApiSession | ApiConfig | ApiStats | ApiStatsRequests | ApiAudit | ApiLogs | ApiWhoAmI | ApiTrustedProxy | ApiRetention
  | ApiAccessLog | ApiRateLimit | ApiIPBan | ApiSync | ApiUsers | ApiUser string

datatype admin_route = AdminHealth | AdminMetrics | AdminLogin | AdminLogout | AdminApi api_route | AdminS3 route | AdminUnmatched

text \<open>A handler that only reads.\<close>

definition viewing :: "(request \<Rightarrow> ('db, 'edb, 'l) server \<Rightarrow> response) \<Rightarrow> request \<Rightarrow> ('db, 'edb, 'l) server \<Rightarrow> response \<times> ('db, 'edb, 'l) server" where
  "viewing f r s = (f r s, s)"

definition on_admin :: "('db, 'edb, 'l) request_io \<Rightarrow> ('db, 'edb, 'l) admin_handler \<Rightarrow> request \<Rightarrow> ('db, 'edb, 'l) server
    \<Rightarrow> response \<times> ('db, 'edb, 'l) server" where
  "on_admin Q h r s = (let (resp, a) = h (rIO Q) r (admin s) in (resp, s\<lparr>admin := a\<rparr>))"

definition api_handler :: "('db, 'edb, 'l) request_io \<Rightarrow> api_route \<Rightarrow> string
    \<Rightarrow> (request \<Rightarrow> ('db, 'edb, 'l) server \<Rightarrow> response \<times> ('db, 'edb, 'l) server) option" where
  "api_handler Q rt m =
     (let E = rEnv Q; A = rIO Q; get = (m = ''GET''); put = (m = ''PUT''); delete = (m = ''DELETE'')
      in case rt of
        ApiSession \<Rightarrow> if get then Some (viewing (\<lambda>r s. case SessionHandler r of Some resp \<Rightarrow> resp | None \<Rightarrow> Status 500)) else None
      | ApiConfig \<Rightarrow> if get then Some (viewing (\<lambda>r s. GetConfigHandler (rSurface Q))) else None
      | ApiStats \<Rightarrow> if get then Some (viewing (\<lambda>r s. GetStatsHandler (classes s) E r (objects s))) else None
      | ApiStatsRequests \<Rightarrow> if get then Some (viewing (\<lambda>r s. GetRequestSeriesHandler (kv (cio A)) (now E) (requestRetentionWindow (live (admin s))) r (cfgdb (admin s)))) else None
      | ApiAudit \<Rightarrow> if get then Some (viewing (\<lambda>r s. GetAuditHandler (lb E) (elib A) (ebolt A) r (evdb (admin s)))) else None
      | ApiLogs \<Rightarrow> if get then Some (viewing (\<lambda>r s. GetLogsHandler (lb E) (elib A) (ebolt A) r (evdb (admin s)))) else None
      | ApiWhoAmI \<Rightarrow> if get then Some (on_admin Q (GetWhoAmIHandler (lb E))) else None
      | ApiTrustedProxy \<Rightarrow> if get then Some (on_admin Q GetTrustedProxyHandler) else if put then Some (on_admin Q (PutTrustedProxyHandler (rOrder Q))) else None
      | ApiRetention \<Rightarrow> if get then Some (on_admin Q GetRetentionHandler) else if put then Some (on_admin Q PutRetentionHandler) else None
      | ApiAccessLog \<Rightarrow> if get then Some (on_admin Q GetAccessLogHandler) else if put then Some (on_admin Q (PutAccessLogHandler (rOrder Q))) else None
      | ApiRateLimit \<Rightarrow> if get then Some (on_admin Q GetRateLimitHandler) else if put then Some (on_admin Q PutRateLimitHandler)
          else if delete then Some (on_admin Q DeleteRateLimitHandler) else None
      | ApiIPBan \<Rightarrow> if get then Some (on_admin Q GetIPBanHandler) else if put then Some (on_admin Q PutIPBanHandler)
          else if delete then Some (on_admin Q DeleteIPBanHandler) else None
      | ApiSync \<Rightarrow> if get then Some (on_admin Q GetSyncWritesHandler) else if put then Some (on_admin Q PutSyncWritesHandler) else None
      | ApiUsers \<Rightarrow> if m = ''POST'' then Some (on_admin Q (CreateUserHandler (rUsers Q))) else if get then Some (on_admin Q (ListUsersHandler (rUsers Q))) else None
      | ApiUser ak \<Rightarrow> if put then Some (on_admin Q (UpdateUserHandler (rUsers Q) ak)) else if delete then Some (on_admin Q (DeleteUserHandler ak)) else None)"

text \<open>The storage routes below \<open>/api/s3\<close>, with the outcome counter and the access log around them.\<close>

definition s3_handler :: "('db, 'edb, 'l) request_io \<Rightarrow> route \<Rightarrow> string
    \<Rightarrow> (request \<Rightarrow> ('db, 'edb, 'l) server \<Rightarrow> response \<times> ('db, 'edb, 'l) server) option" where
  "s3_handler Q rt m =
     (case RegisterStorageRoutes (rSurface Q) rt m of
        None \<Rightarrow> None
      | Some h \<Rightarrow> Some (\<lambda>r s.
          (let (resp, w) = h (live_env (rEnv Q) s) r (objects s);
               l = live (admin s);
               st = AccessLog (lb (rEnv Q)) (trustedProxy l) (now (rEnv Q)) (rObserved Q) rt r resp (accessLog l)
           in (resp, s\<lparr>objects := w, classes := S3RequestOutcome rt resp (classes s), admin := (admin s)\<lparr>live := l\<lparr>accessLog := st\<rparr>\<rparr>\<rparr>))))"

text \<open>The handler a path and method are registered for below \<open>/api\<close>.\<close>

definition group_handler :: "('db, 'edb, 'l) request_io \<Rightarrow> admin_route \<Rightarrow> string
    \<Rightarrow> (request \<Rightarrow> ('db, 'edb, 'l) server \<Rightarrow> response \<times> ('db, 'edb, 'l) server) option" where
  "group_handler Q rt m = (case rt of AdminApi a \<Rightarrow> api_handler Q a m | AdminS3 sr \<Rightarrow> s3_handler Q sr m | _ \<Rightarrow> None)"

text \<open>The authenticated group: admin authentication, name validation, the handler.\<close>

definition admin_group :: "('db, 'edb, 'l) request_io \<Rightarrow> (request \<Rightarrow> ('db, 'edb, 'l) server \<Rightarrow> response \<times> ('db, 'edb, 'l) server)
    \<Rightarrow> request \<Rightarrow> ('db, 'edb, 'l) server \<Rightarrow> response \<times> ('db, 'edb, 'l) server" where
  "admin_group Q h r s =
     (case AdminAuthMiddleware (live_env (rEnv Q) s) (kv (cio (rIO Q))) (cfgdb (admin s)) r (adminAuth s) of
        (Inl resp, aa) \<Rightarrow> (resp, s\<lparr>adminAuth := aa\<rparr>)
      | (Inr r1, aa) \<Rightarrow>
          (case ValidateNames r1 of
             Inl resp \<Rightarrow> (resp, s\<lparr>adminAuth := aa\<rparr>)
           | Inr r2 \<Rightarrow> h r2 (s\<lparr>adminAuth := aa\<rparr>)))"

definition admin_core :: "('db, 'edb, 'l) request_io \<Rightarrow> admin_route \<Rightarrow> request \<Rightarrow> ('db, 'edb, 'l) server \<Rightarrow> response \<times> ('db, 'edb, 'l) server" where
  "admin_core Q rt r s =
     (let E = live_env (rEnv Q) s; m = req_method r
      in if rt = AdminHealth \<and> m = ''GET'' then (HealthHandler, s)
         else if rt = AdminMetrics \<and> m = ''GET'' then (rScrape Q, s)
         else if rt = AdminLogin \<and> m = ''POST'' then
           (let (resp, aa) = LoginHandler E (kv (cio (rIO Q))) (cfgdb (admin s)) r (rSession Q) (adminAuth s) in (resp, s\<lparr>adminAuth := aa\<rparr>))
         else if rt = AdminLogout \<and> m = ''POST'' then (let (resp, aa) = LogoutHandler E r (adminAuth s) in (resp, s\<lparr>adminAuth := aa\<rparr>))
         else case group_handler Q rt m of
             Some h \<Rightarrow> admin_group Q h r s
           | None \<Rightarrow> (rSPA Q r, s))"

text \<open>The shared rate limiter, whose controller is one of the live settings.\<close>

definition admin_limited :: "('db, 'edb, 'l) request_io \<Rightarrow> (request \<Rightarrow> ('db, 'edb, 'l) server \<Rightarrow> response \<times> ('db, 'edb, 'l) server)
    \<Rightarrow> request \<Rightarrow> ('db, 'edb, 'l) server \<Rightarrow> response \<times> ('db, 'edb, 'l) server" where
  "admin_limited Q next r s =
     (let l = live (admin s); rc = rlController l
      in if \<not> rlEnabled (rc_cfg rc) then next r s
         else let (ok, rl') = allow (rBuckets Q) (now (rEnv Q)) (ResolveClientIP (lb (rEnv Q)) (trustedProxy l) r) (rc_rl rc);
                  s1 = s\<lparr>admin := (admin s)\<lparr>live := l\<lparr>rlController := rc\<lparr>rc_rl := rl'\<rparr>\<rparr>\<rparr>\<rparr>
              in if ok then next r s1
                 else (with_header ''Retry-After'' (Itoa slowDownRetryAfterSeconds) (writeSlowDown r), s1))"

definition NewAdminRouter :: "('db, 'edb, 'l) request_io \<Rightarrow> string \<Rightarrow> admin_route \<Rightarrow> request \<Rightarrow> ('db, 'edb, 'l) server \<Rightarrow> response \<times> ('db, 'edb, 'l) server" where
  "NewAdminRouter Q rid rt = RequestIDMiddleware rid (admin_limited Q (admin_core Q rt))"

end
