(* ===== verification/Startup.thy ===== *)
theory Startup
  imports Admin_Router
begin

text \<open>
  Start-up and shutdown: \<open>cmd/ByteBucket/main.go\<close>, and the opening of the databases in
  \<open>internal/storage/storage.go\<close> and \<open>events.go\<close>.  The process reads its environment, prepares the
  data directory and the databases, creates the first administrator, and brings every setting to
  the value of the environment and then to the one an administrator stored.
\<close>

section \<open>Constants\<close>

definition shutdownTimeout :: duration where "shutdownTimeout = 30 * Second"
definition requestSampleInterval :: duration where "requestSampleInterval = Minute"
definition eventFlushInterval :: duration where "eventFlushInterval = 250 * 1000000"
definition eventFlushMaxBatch :: nat where "eventFlushMaxBatch = 500"
definition readHeaderTimeout :: duration where "readHeaderTimeout = 10 * Second"
definition readTimeout :: duration where "readTimeout = 5 * Minute"
definition writeTimeout :: duration where "writeTimeout = 5 * Minute"
definition idleTimeout :: duration where "idleTimeout = 120 * Second"
definition maxHeaderBytes :: int where "maxHeaderBytes = 2 ^ 20"
definition storageBodyLimit :: int where "storageBodyLimit = 5 * 2 ^ 30"
definition adminBodyLimit :: int where "adminBodyLimit = 100 * 2 ^ 20"

record 'h http_server =
  Addr :: string
  Handler :: 'h
  ReadHeaderTimeout :: duration
  ReadTimeout :: duration
  WriteTimeout :: duration
  IdleTimeout :: duration
  MaxHeaderBytes :: int

definition newServer :: "string \<Rightarrow> 'h \<Rightarrow> 'h http_server" where
  "newServer addr h = \<lparr>Addr = addr, Handler = h, ReadHeaderTimeout = readHeaderTimeout, ReadTimeout = readTimeout,
     WriteTimeout = writeTimeout, IdleTimeout = idleTimeout, MaxHeaderBytes = maxHeaderBytes\<rparr>"

section \<open>Reading the environment\<close>

text \<open>
  \<open>os.Getenv\<close> gives the empty text for a variable that is unset.  \<open>fl\<close> is \<open>strconv.ParseFloat\<close> on the
  finite numbers.
\<close>

type_synonym getenv = "string \<Rightarrow> string"

definition ParseBool :: "string \<Rightarrow> bool option" where
  "ParseBool s =
     (if s \<in> {''1'', ''t'', ''T'', ''TRUE'', ''true'', ''True''} then Some True
      else if s \<in> {''0'', ''f'', ''F'', ''FALSE'', ''false'', ''False''} then Some False
      else None)"

definition parseBoolEnv :: "getenv \<Rightarrow> string \<Rightarrow> bool" where
  "parseBoolEnv env key = (case ParseBool (TrimSpace (env key)) of None \<Rightarrow> False | Some v \<Rightarrow> v)"

definition parseBoolEnvDefault :: "getenv \<Rightarrow> string \<Rightarrow> bool \<Rightarrow> bool" where
  "parseBoolEnvDefault env key d =
     (let s = TrimSpace (env key)
      in if s = [] then d else case ParseBool s of None \<Rightarrow> d | Some v \<Rightarrow> v)"

definition parseIntEnvDefault :: "getenv \<Rightarrow> string \<Rightarrow> int \<Rightarrow> int" where
  "parseIntEnvDefault env key d =
     (let s = TrimSpace (env key)
      in if s = [] then d else case Atoi s of Inl _ \<Rightarrow> d | Inr v \<Rightarrow> v)"

definition parseIntEnv :: "getenv \<Rightarrow> string \<Rightarrow> int" where
  "parseIntEnv env key =
     (let s = TrimSpace (env key)
      in if s = [] then 0 else case Atoi s of Inl _ \<Rightarrow> 0 | Inr v \<Rightarrow> v)"

definition parseFloatEnv :: "(string \<Rightarrow> rat option) \<Rightarrow> getenv \<Rightarrow> string \<Rightarrow> rat" where
  "parseFloatEnv fl env key =
     (let s = TrimSpace (env key)
      in if s = [] then 0 else case fl s of None \<Rightarrow> 0 | Some v \<Rightarrow> v)"

definition parseCSVEnv :: "getenv \<Rightarrow> string \<Rightarrow> string list" where
  "parseCSVEnv env key = filter (\<lambda>v. v \<noteq> []) (map TrimSpace (Split CHR '','' (env key)))"

definition defaultPublicBaseURL :: string where "defaultPublicBaseURL = ''http://localhost:9000''"

definition resolvePublicBaseURL :: "getenv \<Rightarrow> string" where
  "resolvePublicBaseURL env =
     (let v = TrimSpace (env ''PUBLIC_BASE_URL'') in if v \<noteq> [] then v else defaultPublicBaseURL)"

definition loadIPBanConfig :: "getenv \<Rightarrow> IPBanConfig" where
  "loadIPBanConfig env =
     (let d = DefaultIPBanConfig
      in Normalized \<lparr>ibEnabled = parseBoolEnv env ''IP_BAN_ENABLED'', MaxFailures = parseIntEnvDefault env ''IP_BAN_MAX_FAILURES'' (MaxFailures d),
           WindowSeconds = parseIntEnvDefault env ''IP_BAN_WINDOW_SECONDS'' (WindowSeconds d),
           BanSeconds = parseIntEnvDefault env ''IP_BAN_SECONDS'' (BanSeconds d)\<rparr>)"

definition loadRateLimitConfig :: "(string \<Rightarrow> rat option) \<Rightarrow> getenv \<Rightarrow> RateLimitConfig" where
  "loadRateLimitConfig fl env = \<lparr>rlEnabled = parseBoolEnv env ''RATE_LIMIT_ENABLED'', RPS = parseFloatEnv fl env ''RATE_LIMIT_RPS'',
     Burst = parseIntEnv env ''RATE_LIMIT_BURST''\<rparr>"

definition loadTrustedProxyConfig :: "getenv \<Rightarrow> TrustedProxyConfig" where
  "loadTrustedProxyConfig env =
     (let cfg = \<lparr>tpHeaders = parseCSVEnv env ''TRUSTED_PROXY_HEADERS'', tpUseLeftmostIP = parseBoolEnv env ''TRUSTED_PROXY_USE_LEFTMOST_IP''\<rparr>
      in if tpHeaders cfg = [] \<and> parseIntEnv env ''RATE_LIMIT_TRUSTED_PROXIES'' > 0 then cfg\<lparr>tpHeaders := [''X-Forwarded-For'']\<rparr> else cfg)"

section \<open>The logger and gin\<close>

datatype log_level = LevelDebug | LevelInfo | LevelWarn | LevelError
datatype log_format = TextHandler | JSONHandler

definition parseLogLevel :: "string \<Rightarrow> log_level" where
  "parseLogLevel s =
     (let l = ToLower s
      in if l = ''debug'' then LevelDebug
         else if l = ''warn'' \<or> l = ''warning'' then LevelWarn
         else if l = ''error'' then LevelError
         else LevelInfo)"

definition configureLogger :: "getenv \<Rightarrow> log_format \<times> log_level" where
  "configureLogger env =
     (if ToLower (env ''LOG_FORMAT'') = ''text'' then TextHandler else JSONHandler, parseLogLevel (env ''LOG_LEVEL''))"

definition configureGinMode :: "getenv \<Rightarrow> string" where
  "configureGinMode env = (let mode = TrimSpace (env ''GIN_MODE'') in if mode \<noteq> [] then mode else ''release'')"

section \<open>The health check\<close>

datatype probe_error = Unreachable string | BadStatus string nat

definition healthCheckURLs :: "string list" where
  "healthCheckURLs = [''http://127.0.0.1:9000/health'', ''http://127.0.0.1:9001/health'']"

text \<open>\<open>get url\<close> is the status the server there answers with, \<open>None\<close> when the request fails.\<close>

definition probeHealth :: "(string \<Rightarrow> nat option) \<Rightarrow> string \<Rightarrow> probe_error option" where
  "probeHealth get url =
     (case get url of
        None \<Rightarrow> Some (Unreachable url)
      | Some code \<Rightarrow> if code \<noteq> 200 then Some (BadStatus url code) else None)"

fun runHealthCheck :: "(string \<Rightarrow> nat option) \<Rightarrow> string list \<Rightarrow> probe_error option" where
  "runHealthCheck get [] = None"
| "runHealthCheck get (url # urls) =
     (case probeHealth get url of Some e \<Rightarrow> Some e | None \<Rightarrow> runHealthCheck get urls)"

section \<open>Directories, key and databases\<close>

datatype setup_error = DirectoryError os_error | KeyMissing | KeyNotBase64 | KeyWrongLength | OpenError | BucketError
  | NoCredentials | UserStoreError user_error

fun ensure_dirs :: "fault \<Rightarrow> string list \<Rightarrow> fs \<Rightarrow> os_error option \<times> fs" where
  "ensure_dirs F [] d = (None, d)"
| "ensure_dirs F (dir # dirs) d =
     (case Stat F d dir of
        Inl e \<Rightarrow>
          if IsNotExist e then
            (case MkdirAll F dir d of (Some e', d1) \<Rightarrow> (Some e', d1) | (None, d1) \<Rightarrow> ensure_dirs F dirs d1)
          else ensure_dirs F dirs d
      | Inr _ \<Rightarrow> ensure_dirs F dirs d)"

definition ensureDirectoriesExist :: "fault \<Rightarrow> fs \<Rightarrow> os_error option \<times> fs" where
  "ensureDirectoriesExist F d = ensure_dirs F [''/data'', ''/data/objects''] d"

definition loadEncryptionKey :: "getenv \<Rightarrow> setup_error + bytes" where
  "loadEncryptionKey env =
     (let s = env ''ENCRYPTION_KEY''
      in if s = [] then Inl KeyMissing
         else if length s = 32 then Inr s
         else case b64_decode StdEncoding s of
             None \<Rightarrow> Inl KeyNotBase64
           | Some key \<Rightarrow> if length key \<noteq> 32 then Inl KeyWrongLength else Inr key)"

definition isRunningInDocker :: "fault \<Rightarrow> fs \<Rightarrow> bool" where
  "isRunningInDocker F d =
     (case ReadFile F d ''/proc/1/cgroup'' of
        Inl _ \<Rightarrow> False
      | Inr content \<Rightarrow> Contains content ''docker'' \<or> Contains content ''containerd'')"

definition getStoragePath :: "fault \<Rightarrow> fs \<Rightarrow> string \<Rightarrow> string" where
  "getStoragePath F d fileName =
     (if isRunningInDocker F d then ''/data/'' @ fileName else ''./data/'' @ fileName)"

text \<open>
  A relative path starts from the working directory \<open>cwd\<close>, itself an absolute path; the kernel
  walks over the \<open>.\<close> segments.
\<close>

definition from_cwd :: "string \<Rightarrow> string \<Rightarrow> string" where
  "from_cwd cwd p = (if HasPrefix p ''./'' then cwd @ tl p else p)"

definition parent_dir :: "string \<Rightarrow> string" where
  "parent_dir p = rev (tl (dropWhile (\<lambda>c. c \<noteq> CHR ''/'') (rev p)))"

definition ensureDataDirExists :: "fault \<Rightarrow> string \<Rightarrow> string \<Rightarrow> fs \<Rightarrow> os_error option \<times> fs" where
  "ensureDataDirExists F cwd p d = MkdirAll F (from_cwd cwd (parent_dir p)) d"

text \<open>
  What start-up finds: the environment, the calls that fail, the two database files by path, and
  the transaction that creates a bucket when it is missing.
\<close>

record ('db, 'edb) boot =
  bEnv :: getenv
  bFloat :: "string \<Rightarrow> rat option"
  bFault :: fault
  bCwd :: string
  bLib :: lib
  bNonce :: bytes
  bIO :: "('db, 'edb) admin_io"
  bOpen :: "string \<Rightarrow> 'db option"
  bOpenEvents :: "string \<Rightarrow> 'edb option"
  bCreate :: "string \<Rightarrow> 'db \<Rightarrow> 'db option"
  bCreateEvents :: "string \<Rightarrow> 'edb \<Rightarrow> 'edb option"

fun create_buckets :: "(string \<Rightarrow> 'd \<Rightarrow> 'd option) \<Rightarrow> string list \<Rightarrow> 'd \<Rightarrow> 'd option" where
  "create_buckets mk [] d = Some d"
| "create_buckets mk (b # bs) d = (case mk b d of None \<Rightarrow> None | Some d1 \<Rightarrow> create_buckets mk bs d1)"

definition InitUserStore :: "('db, 'edb) boot \<Rightarrow> string \<Rightarrow> fs \<Rightarrow> (setup_error + 'db) \<times> fs" where
  "InitUserStore B fileName d =
     (let dbPath = getStoragePath (bFault B) d fileName
      in case ensureDataDirExists (bFault B) (bCwd B) dbPath d of
           (Some e, d1) \<Rightarrow> (Inl (DirectoryError e), d1)
         | (None, d1) \<Rightarrow>
             (case bOpen B (from_cwd (bCwd B) dbPath) of
                None \<Rightarrow> (Inl OpenError, d1)
              | Some db \<Rightarrow>
                  (case create_buckets (bCreate B) [users_bucket, configBucket, requestSamplesBucket] db of
                     None \<Rightarrow> (Inl BucketError, d1)
                   | Some db1 \<Rightarrow> (Inr db1, d1))))"

text \<open>The channel of buffered events is made here, empty.\<close>

definition InitEventStore :: "('db, 'edb) boot \<Rightarrow> string \<Rightarrow> fs \<Rightarrow> (setup_error + 'edb) \<times> fs" where
  "InitEventStore B fileName d =
     (let dbPath = getStoragePath (bFault B) d fileName
      in case ensureDataDirExists (bFault B) (bCwd B) dbPath d of
           (Some e, d1) \<Rightarrow> (Inl (DirectoryError e), d1)
         | (None, d1) \<Rightarrow>
             (case bOpenEvents B (from_cwd (bCwd B) dbPath) of
                None \<Rightarrow> (Inl OpenError, d1)
              | Some db \<Rightarrow>
                  (case create_buckets (bCreateEvents B) [eventControlBucket, eventDataBucket] db of
                     None \<Rightarrow> (Inl BucketError, d1)
                   | Some db1 \<Rightarrow> (Inr db1, d1))))"

definition bootstrapSuperUser :: "('db, 'edb) boot \<Rightarrow> bytes \<Rightarrow> 'db \<Rightarrow> setup_error + 'db" where
  "bootstrapSuperUser B key db =
     (if UsersExist (kv (cio (bIO B))) db then Inr db
      else let accessKey = bEnv B ''ACCESS_KEY_ID''; secret = bEnv B ''SECRET_ACCESS_KEY''
           in if accessKey = [] \<or> secret = [] then Inl NoCredentials
              else case CreateSuperUser (bLib B) (kv (cio (bIO B))) key (bNonce B) (clock (bIO B)) accessKey secret db of
                  (Inl e, _) \<Rightarrow> Inl (UserStoreError e)
                | (Inr _, db1) \<Rightarrow> Inr db1)"

definition initStores :: "('db, 'edb) boot \<Rightarrow> fs \<Rightarrow> (setup_error + bytes \<times> 'db \<times> 'edb) \<times> fs" where
  "initStores B d =
     (case ensureDirectoriesExist (bFault B) d of
        (Some e, d1) \<Rightarrow> (Inl (DirectoryError e), d1)
      | (None, d1) \<Rightarrow>
          (case loadEncryptionKey (bEnv B) of
             Inl e \<Rightarrow> (Inl e, d1)
           | Inr key \<Rightarrow>
               (case InitUserStore B ''/data/users.db'' d1 of
                  (Inl e, d2) \<Rightarrow> (Inl e, d2)
                | (Inr db, d2) \<Rightarrow>
                    (case InitEventStore B ''/data/logs.db'' d2 of
                       (Inl e, d3) \<Rightarrow> (Inl e, d3)
                     | (Inr edb, d3) \<Rightarrow>
                         (case bootstrapSuperUser B key db of
                            Inl e \<Rightarrow> (Inl e, d3)
                          | Inr db1 \<Rightarrow> (Inr (key, db1, edb), d3))))))"

section \<open>The settings\<close>

text \<open>
  The package variables before \<open>run\<close>.  The two controllers are nil until their step builds them;
  they stand here with their zero configuration.
\<close>

definition package_settings :: "'l settings" where
  "package_settings = \<lparr>syncWrites = True, requestRetentionDays = defaultRetentionDays, accessLog = init_access_log,
     trustedProxy = \<lparr>tpHeaders = [], tpUseLeftmostIP = False\<rparr>,
     rlController = NewRateLimitController \<lparr>rlEnabled = False, RPS = 0, Burst = 0\<rparr>, rlEnv = \<lparr>rlEnabled = False, RPS = 0, Burst = 0\<rparr>,
     banController = NewIPBanController DefaultIPBanConfig, banEnv = DefaultIPBanConfig\<rparr>"

definition initSyncWrites :: "('db, 'edb) boot \<Rightarrow> 'db \<Rightarrow> 'l settings \<Rightarrow> 'l settings option" where
  "initSyncWrites B db s =
     (case InitSyncWritesFromStore (bIO B) db (s\<lparr>syncWrites := parseBoolEnvDefault (bEnv B) ''SYNC_WRITES'' True\<rparr>) of
        (Inl _, _) \<Rightarrow> None
      | (Inr _, s1) \<Rightarrow> Some s1)"

definition initRetention :: "('db, 'edb) boot \<Rightarrow> 'db \<Rightarrow> 'l settings \<Rightarrow> 'l settings option" where
  "initRetention B db s =
     (case InitRequestRetentionFromStore (bIO B) db s of (Inl _, _) \<Rightarrow> None | (Inr _, s1) \<Rightarrow> Some s1)"

definition env_access_log :: "getenv \<Rightarrow> access_log \<Rightarrow> access_log" where
  "env_access_log env st =
     (let st1 = SetAccessLogEnabled (parseBoolEnv env ''ACCESS_LOG_ENABLED'') st;
          st2 = SetAccessLogMaxEvents (parseIntEnvDefault env ''ACCESS_LOG_MAX_EVENTS'' (accessMaxCount st1)) st1
      in SetAccessLogMaxAge (wrap64 (parseIntEnvDefault env ''ACCESS_LOG_MAX_AGE_DAYS'' (accessMaxAgeNs st2 div (24 * Hour)) * 24 * Hour)) st2)"

definition initAccessLog :: "('db, 'edb) boot \<Rightarrow> 'db \<Rightarrow> 'l settings \<Rightarrow> 'l settings option" where
  "initAccessLog B db s =
     (case InitAccessLogFromStore (bIO B) db (env_access_log (bEnv B) (accessLog s)) of
        (ok, st) \<Rightarrow> if ok then Some (s\<lparr>accessLog := st\<rparr>) else None)"

definition initTrustedProxy :: "('db, 'edb) boot \<Rightarrow> 'db \<Rightarrow> 'l settings \<Rightarrow> 'l settings option" where
  "initTrustedProxy B db s =
     (case InitTrustedProxyFromStore (bIO B) db (loadTrustedProxyConfig (bEnv B)) of
        (ok, c) \<Rightarrow> if ok then Some (s\<lparr>trustedProxy := c\<rparr>) else None)"

definition initRateLimit :: "('db, 'edb) boot \<Rightarrow> 'db \<Rightarrow> 'l settings \<Rightarrow> 'l settings option" where
  "initRateLimit B db s =
     (let cfg = loadRateLimitConfig (bFloat B) (bEnv B)
      in case InitRateLimitFromStore (bIO B) db (s\<lparr>rlController := NewRateLimitController cfg, rlEnv := cfg\<rparr>) of
           (Inl _, _) \<Rightarrow> None
         | (Inr _, s1) \<Rightarrow> Some s1)"

definition initIPBan :: "('db, 'edb) boot \<Rightarrow> 'db \<Rightarrow> 'l settings \<Rightarrow> 'l settings option" where
  "initIPBan B db s =
     (let cfg = loadIPBanConfig (bEnv B)
      in case InitIPBanFromStore (bIO B) db (s\<lparr>banController := NewIPBanController cfg, banEnv := cfg\<rparr>) of
           (Inl _, _) \<Rightarrow> None
         | (Inr _, s1) \<Rightarrow> Some s1)"

section \<open>run, up to the servers\<close>

record ('db, 'edb, 'l) process =
  pKey :: bytes
  pAdmin :: "('db, 'edb, 'l) admin_state"
  pPublicBase :: string

datatype run_error = SetupError setup_error | SyncError | RetentionError | AccessLogError | ProxyError | RateLimitError | IPBanError
  | ServeError string

text \<open>The settings in the order \<open>run\<close> brings them up; the first that fails ends the process.\<close>

definition init_settings :: "('db, 'edb) boot \<Rightarrow> 'db \<Rightarrow> run_error + 'l settings" where
  "init_settings B db =
     (case initSyncWrites B db package_settings of None \<Rightarrow> Inl SyncError | Some s1 \<Rightarrow>
     (case initRetention B db s1 of None \<Rightarrow> Inl RetentionError | Some s2 \<Rightarrow>
     (case initAccessLog B db s2 of None \<Rightarrow> Inl AccessLogError | Some s3 \<Rightarrow>
     (case initTrustedProxy B db s3 of None \<Rightarrow> Inl ProxyError | Some s4 \<Rightarrow>
     (case initRateLimit B db s4 of None \<Rightarrow> Inl RateLimitError | Some s5 \<Rightarrow>
     (case initIPBan B db s5 of None \<Rightarrow> Inl IPBanError | Some s6 \<Rightarrow> Inr s6))))))"

definition start_up :: "('db, 'edb) boot \<Rightarrow> fs \<Rightarrow> (run_error + ('db, 'edb, 'l) process) \<times> fs" where
  "start_up B d =
     (case initStores B d of
        (Inl e, d1) \<Rightarrow> (Inl (SetupError e), d1)
      | (Inr (key, db, edb), d1) \<Rightarrow>
          (case init_settings B db of
             Inl e \<Rightarrow> (Inl e, d1)
           | Inr s \<Rightarrow> (Inr \<lparr>pKey = key, pAdmin = \<lparr>live = s, cfgdb = db, evdb = edb\<rparr>,
                pPublicBase = SetPublicBaseURL (resolvePublicBaseURL (bEnv B))\<rparr>, d1)))"

section \<open>Serving and shutting down\<close>

datatype listen_error = ErrServerClosed | ListenError string

text \<open>What a listener's goroutine sends to the error channel when \<open>ListenAndServe\<close> returns.\<close>

definition startListener :: "listen_error \<Rightarrow> string option" where
  "startListener e = (case e of ErrServerClosed \<Rightarrow> None | ListenError m \<Rightarrow> Some m)"

text \<open>The errors of the drained servers in the order their goroutines finish; the first is returned.\<close>

fun shutdownAll :: "string option list \<Rightarrow> string option" where
  "shutdownAll [] = None"
| "shutdownAll (None # rs) = shutdownAll rs"
| "shutdownAll (Some e # rs) = Some e"

text \<open>What ends the service: the context, or the first error a listener sends.\<close>

datatype stop = ContextDone | ListenerFailed string

definition serve :: "stop \<Rightarrow> string option list \<Rightarrow> string option" where
  "serve why drained =
     (let serveErr = (case why of ContextDone \<Rightarrow> None | ListenerFailed m \<Rightarrow> Some m)
      in case shutdownAll drained of
           Some e \<Rightarrow> if serveErr = None then Some e else serveErr
         | None \<Rightarrow> serveErr)"

definition run :: "('db, 'edb) boot \<Rightarrow> stop \<Rightarrow> string option list \<Rightarrow> fs \<Rightarrow> run_error option" where
  "run B why drained d =
     (case fst (start_up B d :: (run_error + ('db, 'edb, unit) process) \<times> fs) of
        Inl e \<Rightarrow> Some e
      | Inr _ \<Rightarrow> map_option ServeError (serve why drained))"

text \<open>The exit status of the process.\<close>

definition main_exit :: "string list \<Rightarrow> (string \<Rightarrow> nat option) \<Rightarrow> ('db, 'edb) boot \<Rightarrow> stop \<Rightarrow> string option list \<Rightarrow> fs \<Rightarrow> nat" where
  "main_exit args get B why drained d =
     (if length args > 1 \<and> args ! 1 = ''healthcheck''
      then (if runHealthCheck get healthCheckURLs \<noteq> None then 1 else 0)
      else if run B why drained d \<noteq> None then 1 else 0)"

end
