(* ===== verification/Settings_Laws.thy ===== *)
theory Settings_Laws
  imports Settings
begin

text \<open>
  What a stored setting promises: the value that was saved and applied is the value a restart
  loads.  The contract is a locale, interpreted for each of the six settings.
\<close>

section \<open>The contract\<close>

text \<open>\<open>load\<close> is what start-up does to the live settings, \<open>None\<close> when it fails.\<close>

locale persisted_setting =
  fixes save :: "'v \<Rightarrow> 'db \<Rightarrow> 'db option"
    and load :: "'db \<Rightarrow> 's \<Rightarrow> 's option"
    and apply_setting :: "'v \<Rightarrow> 's \<Rightarrow> 's"
    and view :: "'s \<Rightarrow> 'w"
    and ok :: "'v \<Rightarrow> bool"
  assumes load_save: "\<lbrakk>ok v; save v d = Some d'\<rbrakk> \<Longrightarrow> \<exists>s1. load d' s = Some s1 \<and> view s1 = view (apply_setting v s)"
    and view_apply: "ok v \<Longrightarrow> view (apply_setting v s) = view (apply_setting v t)"
begin

lemma restart: "\<lbrakk>ok v; save v d = Some d'\<rbrakk> \<Longrightarrow> \<exists>s1. load d' s0 = Some s1 \<and> view s1 = view (apply_setting v s)"
  using load_save view_apply by metis

end

section \<open>The store and the codecs\<close>

definition settings_codec_ok :: "settings_lib \<Rightarrow> bool" where
  "settings_codec_ok L \<longleftrightarrow>
     (\<forall>c v. ratelimit_enc L c = Some v \<longrightarrow> v \<noteq> [] \<and> ratelimit_dec L v = Some c)
   \<and> (\<forall>c v. ipban_enc L c = Some v \<longrightarrow> v \<noteq> [] \<and> ipban_dec L v = Some c)
   \<and> (\<forall>hs v. list_all trustedProxyHeaderRe hs \<and> headers_enc L hs = Some v \<longrightarrow> v \<noteq> [] \<and> headers_dec L v = Some hs)
   \<and> (\<forall>b e m a. accesslog_dec L b = Some (e, m, a) \<longrightarrow> m < 2 ^ 63)"

definition store_ok :: "('db, 'edb) admin_io \<Rightarrow> bool" where
  "store_ok A \<longleftrightarrow> bolt_ok (kv (cio A)) \<and> settings_codec_ok (codec A) \<and> (\<forall>k. \<not> read_fails (cio A) k)"

lemma GetConfig_put:
  "\<lbrakk>store_ok A; PutConfigValue (cio A) k v d = Some d'; v \<noteq> []\<rbrakk> \<Longrightarrow>
     GetConfigValue (cio A) k' d' = (if k' = k then Inr (Some v) else GetConfigValue (cio A) k' d)"
  using bolt_put[of "kv (cio A)" configBucket k v d d'] by (simp add: GetConfigValue_def PutConfigValue_def store_ok_def)

lemma put_all_get:
  assumes "store_ok A" "\<forall>(k, v)\<in>set kvs. v \<noteq> []" "distinct (map fst kvs)" "put_all (cio A) kvs d = (True, d')"
  shows "GetConfigValue (cio A) k d' = (case map_of kvs k of Some v \<Rightarrow> Inr (Some v) | None \<Rightarrow> GetConfigValue (cio A) k d)"
  using assms(2-)
proof (induction kvs arbitrary: d)
  case (Cons kv kvs)
  obtain k0 v where kv: "kv = (k0, v)" by fastforce
  obtain d1 where d1: "PutConfigValue (cio A) k0 v d = Some d1" "put_all (cio A) kvs d1 = (True, d')"
    using Cons.prems(3) kv by (auto split: option.splits)
  have k0: "map_of kvs k0 = None" "v \<noteq> []" using Cons.prems kv by (auto simp: map_of_eq_None_iff)
  have "\<forall>(k, v)\<in>set kvs. v \<noteq> []" "distinct (map fst kvs)" using Cons.prems(1,2) by auto
  from Cons.IH[OF this d1(2)] k0 show ?case using GetConfig_put[OF assms(1) d1(1)] kv by (cases "k = k0") (simp_all split: option.split)
qed simp

text \<open>Any order in which a map may be ranged over.\<close>

definition range_order :: "((string \<times> bytes) list \<Rightarrow> (string \<times> bytes) list) \<Rightarrow> bool" where
  "range_order order \<longleftrightarrow> (\<forall>xs. set (order xs) = set xs \<and> (distinct (map fst xs) \<longrightarrow> distinct (map fst (order xs))))"

lemma put_map_get:
  assumes "store_ok A" "range_order order" "\<forall>(k, v)\<in>set kvs. v \<noteq> []" "distinct (map fst kvs)" "put_all (cio A) (order kvs) d = (True, d')"
  shows "GetConfigValue (cio A) k d' = (case map_of kvs k of Some v \<Rightarrow> Inr (Some v) | None \<Rightarrow> GetConfigValue (cio A) k d)"
proof -
  have s: "set (order kvs) = set kvs" "distinct (map fst (order kvs))" using assms(2,4) unfolding range_order_def by blast+
  have "map_of (order kvs) = map_of kvs" using s assms(4) by (simp add: map_of_inject_set)
  then show ?thesis using put_all_get[OF assms(1) _ s(2) assms(5)] assms(3) s(1) by simp
qed

section \<open>The header list\<close>

lemma re_no_space: "trustedProxyHeaderRe h \<Longrightarrow> TrimSpace h = h"
proof -
  assume "trustedProxyHeaderRe h"
  then have "\<forall>c\<in>set h. \<not> is_space c"
    by (auto simp: trustedProxyHeaderRe_def list_all_iff is_space_def is_digit_def less_eq_char_def less_char_def Let_def)
  then have "dropWhile is_space xs = xs" if "set xs \<subseteq> set h" for xs
    using that by (cases xs) auto
  then show ?thesis by (simp add: TrimSpace_def)
qed

lemma sanitize_again: "sanitize_loop seen hs = Some out \<Longrightarrow> sanitize_loop seen out = Some out \<and> list_all trustedProxyHeaderRe out \<and> length out \<le> length hs"
proof (induction seen hs arbitrary: out rule: sanitize_loop.induct)
  case (2 seen h0 hs)
  let ?h = "TrimSpace h0"
  have re: "trustedProxyHeaderRe ?h" using 2(3) by (auto simp: Let_def split: if_splits)
  show ?case
  proof (cases "ToLower ?h \<in> set seen")
    case True
    then show ?thesis using 2(1)[OF refl _ True, of out] 2(3) re by (auto simp: Let_def)
  next
    case False
    then obtain o1 where o1: "sanitize_loop (ToLower ?h # seen) hs = Some o1" "out = ?h # o1" using 2(3) re by (auto simp: Let_def)
    then show ?thesis using 2(2)[OF refl _ False o1(1)] re re_no_space[OF re] False by (simp add: Let_def)
  qed
qed simp

lemma sanitize_clean:
  assumes "sanitizeTrustedProxyHeaders hs = Some out"
  shows "sanitizeTrustedProxyHeaders out = Some out" "list_all trustedProxyHeaderRe out"
  using assms sanitize_again[of "[]" hs out] by (auto simp: sanitizeTrustedProxyHeaders_def split: if_splits)

section \<open>The six settings\<close>

definition ok_init :: "(unit + 'v) \<times> 's \<Rightarrow> 's option" where
  "ok_init x = (case x of (Inl _, s) \<Rightarrow> None | (Inr _, s) \<Rightarrow> Some s)"

definition save_rl :: "('db, 'edb) admin_io \<Rightarrow> RateLimitConfig \<Rightarrow> 'db \<Rightarrow> 'db option" where
  "save_rl A c d = putConfigJSON (cio A) rateLimitConfigKey (ratelimit_enc (codec A) c) d"

interpretation rl: persisted_setting "save_rl A" "\<lambda>d s. ok_init (InitRateLimitFromStore A d s)" apply_rl
    "\<lambda>s. rateLimitDTO (CurrentRateLimit (rlController s))" "\<lambda>_. store_ok A"
proof
  fix c d d' and s :: "'c settings"
  assume A: "store_ok A" and put: "save_rl A c d = Some d'"
  obtain v where v: "ratelimit_enc (codec A) c = Some v" "PutConfigValue (cio A) rateLimitConfigKey v d = Some d'"
    using put by (auto simp: save_rl_def putConfigJSON_def split: option.splits)
  then have "v \<noteq> []" "ratelimit_dec (codec A) v = Some c" using A by (auto simp: store_ok_def settings_codec_ok_def)
  then show "\<exists>s1. ok_init (InitRateLimitFromStore A d' s) = Some s1
      \<and> rateLimitDTO (CurrentRateLimit (rlController s1)) = rateLimitDTO (CurrentRateLimit (rlController (apply_rl c s)))"
    using GetConfig_put[OF A v(2)] by (simp add: InitRateLimitFromStore_def loadRateLimitOverride_def ok_init_def Let_def)
qed (simp add: apply_rl_def ApplyRateLimit_def CurrentRateLimit_def)

definition save_ban :: "('db, 'edb) admin_io \<Rightarrow> IPBanConfig \<Rightarrow> 'db \<Rightarrow> 'db option" where
  "save_ban A c d = putConfigJSON (cio A) ipBanConfigKey (ipban_enc (codec A) c) d"

interpretation ban: persisted_setting "save_ban A" "\<lambda>d s. ok_init (InitIPBanFromStore A d s)" apply_ban
    "\<lambda>s. ipBanDTO (CurrentIPBan (banController s))" "\<lambda>c. store_ok A \<and> Validate c = None"
proof
  fix c d d' and s :: "'c settings"
  assume A: "store_ok A \<and> Validate c = None" and put: "save_ban A c d = Some d'"
  obtain v where v: "ipban_enc (codec A) c = Some v" "PutConfigValue (cio A) ipBanConfigKey v d = Some d'"
    using put by (auto simp: save_ban_def putConfigJSON_def split: option.splits)
  then have "v \<noteq> []" "ipban_dec (codec A) v = Some c" using A by (auto simp: store_ok_def settings_codec_ok_def)
  then show "\<exists>s1. ok_init (InitIPBanFromStore A d' s) = Some s1
      \<and> ipBanDTO (CurrentIPBan (banController s1)) = ipBanDTO (CurrentIPBan (banController (apply_ban c s)))"
    using GetConfig_put[OF conjunct1[OF A] v(2)] A by (simp add: InitIPBanFromStore_def loadIPBanOverride_def ok_init_def Let_def)
qed (simp add: apply_ban_def ApplyIPBan_def CurrentIPBan_def Let_def)

definition apply_sync :: "bool \<Rightarrow> 'l settings \<Rightarrow> 'l settings" where
  "apply_sync b s = s\<lparr>syncWrites := b\<rparr>"

interpretation sync: persisted_setting "\<lambda>b. PutConfigValue (cio A) syncWritesConfigKey (bool_text b)"
    "\<lambda>d s. ok_init (InitSyncWritesFromStore A d s)" apply_sync "\<lambda>s. TBool (syncWrites s)" "\<lambda>_. store_ok A"
proof
  fix b d d' and s :: "'c settings"
  assume A: "store_ok A" and put: "PutConfigValue (cio A) syncWritesConfigKey (bool_text b) d = Some d'"
  then show "\<exists>s1. ok_init (InitSyncWritesFromStore A d' s) = Some s1 \<and> TBool (syncWrites s1) = TBool (syncWrites (apply_sync b s))"
    using GetConfig_put[OF A put] by (simp add: InitSyncWritesFromStore_def bool_text_def ok_init_def apply_sync_def Let_def)
qed (simp add: apply_sync_def)

definition apply_days :: "int \<Rightarrow> 'l settings \<Rightarrow> 'l settings" where
  "apply_days n s = s\<lparr>requestRetentionDays := n\<rparr>"

lemma Itoa_not_empty: "Itoa n \<noteq> []"
  by (simp add: Itoa_def nat_digits.simps)

interpretation days: persisted_setting "\<lambda>n. PutConfigValue (cio A) requestRetentionConfigKey (Itoa n)"
    "\<lambda>d s. ok_init (InitRequestRetentionFromStore A d s)" apply_days "\<lambda>s. days_tree (requestRetentionDays s)"
    "\<lambda>n. store_ok A \<and> 1 \<le> n \<and> n \<le> 365"
proof
  fix n d d' and s :: "'c settings"
  assume A: "store_ok A \<and> 1 \<le> n \<and> n \<le> 365" and put: "PutConfigValue (cio A) requestRetentionConfigKey (Itoa n) d = Some d'"
  have "ParseInt (Itoa n) = Inr n" "clampRetentionDays n = n"
    using A ParseInt_Itoa[of n] by (simp_all add: clampRetentionDays_def minRetentionDays_def maxRetentionDays_def)
  then show "\<exists>s1. ok_init (InitRequestRetentionFromStore A d' s) = Some s1 \<and> days_tree (requestRetentionDays s1) = days_tree (requestRetentionDays (apply_days n s))"
    using GetConfig_put[OF conjunct1[OF A] put Itoa_not_empty] by (simp add: InitRequestRetentionFromStore_def ok_init_def apply_days_def Let_def)
qed (simp add: apply_days_def)

definition access_log_entries :: "bool \<times> int \<times> int \<Rightarrow> (string \<times> bytes) list" where
  "access_log_entries x = (case x of (e, m, a) \<Rightarrow>
     [(accessLogEnabledKey, bool_text e), (accessLogMaxEventsKey, Itoa m), (accessLogMaxAgeDaysKey, Itoa a)])"

definition save_all :: "('db, 'edb) admin_io \<Rightarrow> (string \<times> bytes) list \<Rightarrow> 'db \<Rightarrow> 'db option" where
  "save_all A kvs d = (case put_all (cio A) kvs d of (True, d') \<Rightarrow> Some d' | _ \<Rightarrow> None)"

lemma save_all_Some: "save_all A kvs d = Some d' \<longleftrightarrow> put_all (cio A) kvs d = (True, d')"
  by (auto simp: save_all_def split: prod.splits bool.splits)

definition flag_init :: "bool \<times> 's \<Rightarrow> 's option" where
  "flag_init x = (if fst x then Some (snd x) else None)"

lemma day_ns_div: "n * 24 * Hour div (24 * Hour) = n"
  by (simp add: Hour_def Minute_def Second_def)

interpretation alog: persisted_setting "\<lambda>x. save_all A (order (access_log_entries x))"
    "\<lambda>d st. flag_init (InitAccessLogFromStore A d st)" "\<lambda>(e, m, a). set_access_log e m a" currentAccessLogDTO
    "\<lambda>(e, m, a). store_ok A \<and> range_order order \<and> 0 \<le> m \<and> m < 2 ^ 63 \<and> 0 \<le> a \<and> a \<le> 365"
proof
  fix x :: "bool \<times> int \<times> int" and d d' and st :: access_log
  obtain e m a where x: "x = (e, m, a)" by (metis surj_pair)
  assume "case x of (e, m, a) \<Rightarrow> store_ok A \<and> range_order order \<and> 0 \<le> m \<and> m < 2 ^ 63 \<and> 0 \<le> a \<and> a \<le> 365"
    and put: "save_all A (order (access_log_entries x)) d = Some d'"
  then have A: "store_ok A" "range_order order" and r: "0 \<le> m" "m < 2 ^ 63" "0 \<le> a" "a \<le> 365" by (simp_all add: x)
  have ne: "\<forall>(k, v)\<in>set (access_log_entries x). v \<noteq> []" "distinct (map fst (access_log_entries x))"
    by (simp_all add: x access_log_entries_def bool_text_def Itoa_not_empty accessLogEnabledKey_def accessLogMaxEventsKey_def accessLogMaxAgeDaysKey_def)
  note g = put_map_get[OF A ne put[unfolded save_all_Some]]
  have "GetConfigValue (cio A) accessLogEnabledKey d' = Inr (Some (bool_text e))"
    "GetConfigValue (cio A) accessLogMaxEventsKey d' = Inr (Some (Itoa m))"
    "GetConfigValue (cio A) accessLogMaxAgeDaysKey d' = Inr (Some (Itoa a))"
    unfolding g by (simp_all add: x access_log_entries_def accessLogEnabledKey_def accessLogMaxEventsKey_def accessLogMaxAgeDaysKey_def)
  moreover have "ParseInt (Itoa m) = Inr m" "ParseInt (Itoa a) = Inr a" using r ParseInt_Itoa[of m] ParseInt_Itoa[of a] by simp_all
  moreover have "bool_text e = ''true'' \<longleftrightarrow> e" by (simp add: bool_text_def)
  moreover have "clampAccessLogMaxEvents m = m" "clampAccessLogAgeDays a = a"
    using r by (simp_all add: clampAccessLogMaxEvents_def clampAccessLogAgeDays_def minAccessLogAgeDays_def maxAccessLogAgeDays_def)
  ultimately show "\<exists>s1. flag_init (InitAccessLogFromStore A d' st) = Some s1
      \<and> currentAccessLogDTO s1 = currentAccessLogDTO ((case x of (e, m, a) \<Rightarrow> set_access_log e m a) st)"
    by (simp add: InitAccessLogFromStore_def flag_init_def apply_text_def apply_int_def Let_def x set_access_log_def)
qed (auto simp: set_access_log_def SetAccessLogMaxAge_def SetAccessLogMaxEvents_def SetAccessLogEnabled_def currentAccessLogDTO_def accessLogMaxAgeDays_def)

definition proxy_entries :: "settings_lib \<Rightarrow> TrustedProxyConfig \<Rightarrow> (string \<times> bytes) list" where
  "proxy_entries L c = [(trustedProxyHeadersKey, the (headers_enc L (tpHeaders c))), (trustedProxyLeftmostKey, bool_text (tpUseLeftmostIP c))]"

interpretation proxy: persisted_setting "\<lambda>c. save_all A (order (proxy_entries (codec A) c))"
    "\<lambda>d c0. flag_init (InitTrustedProxyFromStore A d c0)" "\<lambda>c _. c" currentTrustedProxyDTO
    "\<lambda>c. store_ok A \<and> range_order order \<and> sanitizeTrustedProxyHeaders (tpHeaders c) = Some (tpHeaders c)
       \<and> list_all trustedProxyHeaderRe (tpHeaders c) \<and> headers_enc (codec A) (tpHeaders c) \<noteq> None"
proof
  fix c d d' and c0 :: TrustedProxyConfig
  assume ok: "store_ok A \<and> range_order order \<and> sanitizeTrustedProxyHeaders (tpHeaders c) = Some (tpHeaders c)
       \<and> list_all trustedProxyHeaderRe (tpHeaders c) \<and> headers_enc (codec A) (tpHeaders c) \<noteq> None"
    and put: "save_all A (order (proxy_entries (codec A) c)) d = Some d'"
  obtain v where v: "headers_enc (codec A) (tpHeaders c) = Some v" using ok by auto
  then have dec: "v \<noteq> []" "headers_dec (codec A) v = Some (tpHeaders c)" using ok by (auto simp: store_ok_def settings_codec_ok_def)
  have ne: "\<forall>(k, v)\<in>set (proxy_entries (codec A) c). v \<noteq> []" "distinct (map fst (proxy_entries (codec A) c))"
    using dec v by (simp_all add: proxy_entries_def bool_text_def trustedProxyHeadersKey_def trustedProxyLeftmostKey_def)
  note g = put_map_get[OF conjunct1[OF ok] conjunct1[OF conjunct2[OF ok]] ne put[unfolded save_all_Some]]
  have "GetConfigValue (cio A) trustedProxyHeadersKey d' = Inr (Some v)"
    "GetConfigValue (cio A) trustedProxyLeftmostKey d' = Inr (Some (bool_text (tpUseLeftmostIP c)))"
    unfolding g using v by (simp_all add: proxy_entries_def trustedProxyHeadersKey_def trustedProxyLeftmostKey_def)
  then show "\<exists>s1. flag_init (InitTrustedProxyFromStore A d' c0) = Some s1 \<and> currentTrustedProxyDTO s1 = currentTrustedProxyDTO c"
    using dec ok by (simp add: InitTrustedProxyFromStore_def flag_init_def bool_text_def Let_def currentTrustedProxyDTO_def)
qed simp

text \<open>The facts of the interpretations, over the model's definitions.\<close>

lemma alog_restart:
  assumes "store_ok A" "range_order order" "0 \<le> m \<and> m < 2 ^ 63 \<and> 0 \<le> a \<and> a \<le> 365"
    "save_all A (order (access_log_entries (e, m, a))) d = Some d'"
  shows "\<exists>st. flag_init (InitAccessLogFromStore A d' st0) = Some st \<and> currentAccessLogDTO st = currentAccessLogDTO (set_access_log e m a st1)"
  using alog.restart[of A order "(e, m, a)" d d' st0 st1] assms by simp

lemma proxy_restart:
  assumes "store_ok A" "range_order order" "sanitizeTrustedProxyHeaders (tpHeaders c) = Some (tpHeaders c)"
    "list_all trustedProxyHeaderRe (tpHeaders c)" "headers_enc (codec A) (tpHeaders c) \<noteq> None"
    "save_all A (order (proxy_entries (codec A) c)) d = Some d'"
  shows "\<exists>c1. flag_init (InitTrustedProxyFromStore A d' c0) = Some c1 \<and> currentTrustedProxyDTO c1 = currentTrustedProxyDTO c"
  using proxy.restart[of A order c d d' c0] assms by simp

end
