(* ===== verification/Settings_Theorems.thy ===== *)
theory Settings_Theorems
  imports Settings_Laws Reference_Events Reference_Env
begin

text \<open>Properties of the runtime settings over all six of them, with an instance of their parameters.\<close>

section \<open>The settings by name\<close>

datatype setting = RateLimitSetting | IPBanSetting | SyncSetting | RetentionSetting | AccessLogSetting | ProxySetting

type_synonym order = "(string \<times> bytes) list \<Rightarrow> (string \<times> bytes) list"

fun put_setting :: "order \<Rightarrow> setting \<Rightarrow> ('db, 'edb, 'l) admin_handler" where
  "put_setting order RateLimitSetting = PutRateLimitHandler"
| "put_setting order IPBanSetting = PutIPBanHandler"
| "put_setting order SyncSetting = PutSyncWritesHandler"
| "put_setting order RetentionSetting = PutRetentionHandler"
| "put_setting order AccessLogSetting = PutAccessLogHandler order"
| "put_setting order ProxySetting = PutTrustedProxyHandler order"

text \<open>What start-up does with the stored value of a setting, over the values the environment gave.\<close>

fun init_setting :: "setting \<Rightarrow> ('db, 'edb) admin_io \<Rightarrow> 'db \<Rightarrow> 'l settings \<Rightarrow> 'l settings option" where
  "init_setting RateLimitSetting A d s = ok_init (InitRateLimitFromStore A d s)"
| "init_setting IPBanSetting A d s = ok_init (InitIPBanFromStore A d s)"
| "init_setting SyncSetting A d s = ok_init (InitSyncWritesFromStore A d s)"
| "init_setting RetentionSetting A d s = ok_init (InitRequestRetentionFromStore A d s)"
| "init_setting AccessLogSetting A d s = map_option (\<lambda>st. s\<lparr>accessLog := st\<rparr>) (flag_init (InitAccessLogFromStore A d (accessLog s)))"
| "init_setting ProxySetting A d s = map_option (\<lambda>c. s\<lparr>trustedProxy := c\<rparr>) (flag_init (InitTrustedProxyFromStore A d (trustedProxy s)))"

text \<open>The effective value as the admin API shows it.\<close>

fun setting_view :: "setting \<Rightarrow> 'l settings \<Rightarrow> tree" where
  "setting_view RateLimitSetting s = rateLimitDTO (CurrentRateLimit (rlController s))"
| "setting_view IPBanSetting s = ipBanDTO (CurrentIPBan (banController s))"
| "setting_view SyncSetting s = TBool (syncWrites s)"
| "setting_view RetentionSetting s = days_tree (requestRetentionDays s)"
| "setting_view AccessLogSetting s = currentAccessLogDTO (accessLog s)"
| "setting_view ProxySetting s = currentTrustedProxyDTO (trustedProxy s)"

lemma audit_keeps [simp]: "live (audit A r a t dt s) = live s" "cfgdb (audit A r a t dt s) = cfgdb s"
  by (simp_all add: audit_def)

lemma json_error_status [simp]: "status (json_error n m) = n"
  by (simp add: json_error_def)

section \<open>What an accepted change did\<close>

lemma PutRateLimit_200:
  "status (fst (PutRateLimitHandler A r s)) = 200 \<Longrightarrow>
     \<exists>c. save_rl A c (cfgdb s) = Some (cfgdb (snd (PutRateLimitHandler A r s))) \<and> live (snd (PutRateLimitHandler A r s)) = apply_rl c (live s)"
  by (auto simp: PutRateLimitHandler_def save_rl_def putConfigJSON_def Let_def split: option.splits if_splits)

lemma PutIPBan_200:
  "status (fst (PutIPBanHandler A r s)) = 200 \<Longrightarrow>
     \<exists>c. Validate c = None \<and> save_ban A c (cfgdb s) = Some (cfgdb (snd (PutIPBanHandler A r s))) \<and> live (snd (PutIPBanHandler A r s)) = apply_ban c (live s)"
  by (auto simp: PutIPBanHandler_def save_ban_def Let_def split: option.splits)

lemma PutSync_200:
  "status (fst (PutSyncWritesHandler A r s)) = 200 \<Longrightarrow>
     \<exists>b. PutConfigValue (cio A) syncWritesConfigKey (bool_text b) (cfgdb s) = Some (cfgdb (snd (PutSyncWritesHandler A r s)))
       \<and> live (snd (PutSyncWritesHandler A r s)) = apply_sync b (live s)"
  by (auto simp: PutSyncWritesHandler_def apply_sync_def split: option.splits)

lemma clampRetentionDays_range: "1 \<le> clampRetentionDays n" "clampRetentionDays n \<le> 365"
  by (simp_all add: clampRetentionDays_def minRetentionDays_def maxRetentionDays_def)

lemma PutRetention_200:
  "status (fst (PutRetentionHandler A r s)) = 200 \<Longrightarrow>
     \<exists>n. 1 \<le> n \<and> n \<le> 365 \<and> PutConfigValue (cio A) requestRetentionConfigKey (Itoa n) (cfgdb s) = Some (cfgdb (snd (PutRetentionHandler A r s)))
       \<and> live (snd (PutRetentionHandler A r s)) = apply_days n (live s)"
  using clampRetentionDays_range by (fastforce simp: PutRetentionHandler_def apply_days_def Let_def split: option.splits)

lemma PutAccessLog_200:
  assumes "store_ok A" "status (fst (PutAccessLogHandler order A r s)) = 200"
  shows "\<exists>e m a. 0 \<le> m \<and> m < 2 ^ 63 \<and> 0 \<le> a \<and> a \<le> 365
    \<and> save_all A (order (access_log_entries (e, m, a))) (cfgdb s) = Some (cfgdb (snd (PutAccessLogHandler order A r s)))
    \<and> live (snd (PutAccessLogHandler order A r s)) = (live s)\<lparr>accessLog := set_access_log e m a (accessLog (live s))\<rparr>"
proof -
  obtain e ev ag where b: "bind (accesslog_dec (codec A)) r = Some (e, ev, ag)"
    using assms(2) by (auto simp: PutAccessLogHandler_def split: option.splits)
  let ?m = "clampAccessLogMaxEvents ev" and ?a = "clampAccessLogAgeDays ag"
  obtain ok db where p: "put_all (cio A) (order (access_log_entries (e, ?m, ?a))) (cfgdb s) = (ok, db)" by fastforce
  have "accesslog_dec (codec A) (req_body r) = Some (e, ev, ag)" using b by (simp add: bind_def split: if_splits)
  then have "ev < 2 ^ 63" using assms(1) unfolding store_ok_def settings_codec_ok_def by blast
  then have "0 \<le> ?m" "?m < 2 ^ 63" "0 \<le> ?a" "?a \<le> 365"
    by (simp_all add: clampAccessLogMaxEvents_def clampAccessLogAgeDays_def minAccessLogAgeDays_def maxAccessLogAgeDays_def)
  moreover have "ok" using assms(2) b p by (auto simp: PutAccessLogHandler_def access_log_entries_def Let_def split: if_splits)
  ultimately show ?thesis using b p
    by (intro exI[of _ e] exI[of _ ?m] exI[of _ ?a])
      (simp add: PutAccessLogHandler_def access_log_entries_def save_all_Some Let_def)
qed

lemma PutProxy_200:
  assumes "status (fst (PutTrustedProxyHandler order A r s)) = 200"
  shows "\<exists>c. sanitizeTrustedProxyHeaders (tpHeaders c) = Some (tpHeaders c) \<and> list_all trustedProxyHeaderRe (tpHeaders c)
    \<and> headers_enc (codec A) (tpHeaders c) \<noteq> None
    \<and> save_all A (order (proxy_entries (codec A) c)) (cfgdb s) = Some (cfgdb (snd (PutTrustedProxyHandler order A r s)))
    \<and> live (snd (PutTrustedProxyHandler order A r s)) = (live s)\<lparr>trustedProxy := c\<rparr>"
proof -
  obtain hs l where b: "bind (proxy_dec (codec A)) r = Some (hs, l)"
    using assms by (auto simp: PutTrustedProxyHandler_def split: option.splits)
  obtain clean v where c: "sanitizeTrustedProxyHeaders hs = Some clean" "headers_enc (codec A) clean = Some v"
    using assms b by (auto simp: PutTrustedProxyHandler_def split: option.splits)
  let ?c = "\<lparr>tpHeaders = clean, tpUseLeftmostIP = l\<rparr>"
  obtain ok db where p: "put_all (cio A) (order (proxy_entries (codec A) ?c)) (cfgdb s) = (ok, db)" by fastforce
  have "ok" using assms b c p by (auto simp: PutTrustedProxyHandler_def proxy_entries_def Let_def split: if_splits)
  then show ?thesis using b c p sanitize_clean[OF c(1)]
    by (intro exI[of _ ?c]) (simp add: PutTrustedProxyHandler_def proxy_entries_def save_all_Some Let_def)
qed

section \<open>An instance\<close>

definition put_rl :: "RateLimitConfig \<Rightarrow> bytes" where
  "put_rl c = put_int (if rlEnabled c then 1 else 0) @ put_rat (RPS c) @ put_int (Burst c)"

definition get_rl :: "bytes \<Rightarrow> RateLimitConfig option" where
  "get_rl b = (case get_int b of None \<Rightarrow> None | Some (e, r) \<Rightarrow> (case get_rat r of None \<Rightarrow> None | Some (q, r1) \<Rightarrow>
     (case get_int r1 of None \<Rightarrow> None | Some (n, _) \<Rightarrow> Some \<lparr>rlEnabled = (e = 1), RPS = q, Burst = n\<rparr>)))"

definition put_ints :: "int list \<Rightarrow> bytes" where "put_ints ns = put_list put_int ns"

definition get_ints :: "bytes \<Rightarrow> int list option" where "get_ints b = whole_input (get_all get_int b)"

lemma get_put_ints [simp]: "get_ints (put_ints ns) = Some ns"
  using get_put_all[of ns get_int put_int "[]"] by (simp add: get_ints_def put_ints_def)

definition put_ban :: "IPBanConfig \<Rightarrow> bytes" where
  "put_ban c = put_ints [if ibEnabled c then 1 else 0, MaxFailures c, WindowSeconds c, BanSeconds c]"

definition get_ban :: "bytes \<Rightarrow> IPBanConfig option" where
  "get_ban b = (case get_ints b of Some [e, m, w, n] \<Rightarrow> Some \<lparr>ibEnabled = (e = 1), MaxFailures = m, WindowSeconds = w, BanSeconds = n\<rparr> | _ \<Rightarrow> None)"

definition get_alog :: "bytes \<Rightarrow> (bool \<times> int \<times> int) option" where
  "get_alog b = (case get_ints b of Some [e, m, a] \<Rightarrow> if m < 2 ^ 63 then Some (e = 1, m, a) else None | _ \<Rightarrow> None)"

definition ref_settings_lib :: settings_lib where
  "ref_settings_lib = \<lparr>ratelimit_enc = (\<lambda>c. Some (put_rl c)), ratelimit_dec = get_rl, ipban_enc = (\<lambda>c. Some (put_ban c)), ipban_dec = get_ban,
     headers_enc = (\<lambda>hs. Some (put_strs hs)), headers_dec = (\<lambda>b. whole_input (get_strs b)),
     sync_dec = (\<lambda>b. Some (b = ''on'')), days_dec = (\<lambda>b. Some (int (length b))), accesslog_dec = get_alog,
     proxy_dec = (\<lambda>b. map_option (\<lambda>hs. (hs, False)) (whole_input (get_strs b)))\<rparr>"

lemma put_int_not_empty [simp]: "put_int n \<noteq> []"
  by (simp add: put_int_def)

lemma put_list_not_empty: "put_list p xs \<noteq> []"
  by (cases xs) simp_all

lemma ref_settings_codec: "settings_codec_ok ref_settings_lib"
proof -
  have "get_rl (put_rl c) = Some c" for c using get_put_int[of "Burst c" "[]"] by (simp add: get_rl_def put_rl_def)
  moreover have "get_ban (put_ban c) = Some c" for c by (simp add: get_ban_def put_ban_def)
  moreover have "whole_input (get_strs (put_strs hs)) = Some hs" for hs using get_put_strs[of hs "[]"] by simp
  moreover have "get_alog b = Some (e, m, a) \<Longrightarrow> m < 2 ^ 63" for b e m a by (auto simp: get_alog_def split: option.splits list.splits if_splits)
  moreover have "put_rl c \<noteq> []" "put_ban c' \<noteq> []" "put_strs hs \<noteq> []" for c c' hs
    using put_list_not_empty by (simp_all add: put_rl_def put_ban_def put_ints_def put_strs_def)
  ultimately show ?thesis by (auto simp: settings_codec_ok_def ref_settings_lib_def)
qed

text \<open>A store that refuses the writes of one key; no key is empty, so the empty one refuses nothing.\<close>

definition refusing :: "string \<Rightarrow> ref_db bolt" where
  "refusing key = ref_bolt\<lparr>bput := (\<lambda>b k v d. if k = key then None else bput ref_bolt b k v d)\<rparr>"

lemma refusing_ok: "bolt_ok (refusing key)"
  using ref_bolt_ok unfolding bolt_ok_def refusing_def by (auto split: if_splits)

definition ref_io :: "string \<Rightarrow> (ref_db, seq_db) admin_io" where
  "ref_io key = \<lparr>cio = \<lparr>kv = refusing key, read_fails = (\<lambda>_. False)\<rparr>, codec = ref_settings_lib, elib = ref_event_lib, ebolt = seq_bolt, clock = 9\<rparr>"

lemma ref_store_ok: "store_ok (ref_io key)"
  using refusing_ok ref_settings_codec by (simp add: store_ok_def ref_io_def)

definition ref_settings :: "unit settings" where
  "ref_settings = \<lparr>syncWrites = True, requestRetentionDays = defaultRetentionDays, accessLog = init_access_log,
     trustedProxy = \<lparr>tpHeaders = [], tpUseLeftmostIP = False\<rparr>, rlController = NewRateLimitController \<lparr>rlEnabled = False, RPS = 0, Burst = 0\<rparr>,
     rlEnv = \<lparr>rlEnabled = False, RPS = 0, Burst = 0\<rparr>, banController = \<lparr>ban_store = newBanStore DefaultIPBanConfig 4, ban_cfg = DefaultIPBanConfig\<rparr>, banEnv = DefaultIPBanConfig\<rparr>"

definition ref_admin :: "(ref_db, seq_db, unit) admin_state" where
  "ref_admin = \<lparr>live = ref_settings, cfgdb = [], evdb = ([], [])\<rparr>"

lemma range_order_rev: "range_order rev"
  by (simp add: range_order_def rev_map[symmetric])

section \<open>Properties\<close>

text \<open>An accepted setting survives a restart. When a change answers 200, start-up from the
  resulting database succeeds for that setting, whatever the environment gives, and the admin API
  then shows the value it shows now. Settings with several keys may be written in any order.\<close>

theorem settings_survive_restart:
  fixes s s' :: "('db, 'edb, 'l) admin_state" and s0 :: "'l settings"
  assumes "store_ok A" "range_order order" "put_setting order k A r s = (resp, s')" "status resp = 200"
  shows "\<exists>s1. init_setting k A (cfgdb s') s0 = Some s1 \<and> setting_view k s1 = setting_view k (live s')"
proof (cases k)
  case RateLimitSetting
  then obtain c where "save_rl A c (cfgdb s) = Some (cfgdb s')" "live s' = apply_rl c (live s)"
    using PutRateLimit_200[of A r s] assms(3,4) by auto
  then show ?thesis using rl.restart[OF assms(1)] RateLimitSetting by simp
next
  case IPBanSetting
  then obtain c where "Validate c = None" "save_ban A c (cfgdb s) = Some (cfgdb s')" "live s' = apply_ban c (live s)"
    using PutIPBan_200[of A r s] assms(3,4) by auto
  then show ?thesis using ban.restart[of A c] assms(1) IPBanSetting by simp
next
  case SyncSetting
  then obtain b where "PutConfigValue (cio A) syncWritesConfigKey (bool_text b) (cfgdb s) = Some (cfgdb s')" "live s' = apply_sync b (live s)"
    using PutSync_200[of A r s] assms(3,4) by auto
  then show ?thesis using sync.restart[OF assms(1)] SyncSetting by simp
next
  case RetentionSetting
  then obtain n where "1 \<le> n \<and> n \<le> 365" "PutConfigValue (cio A) requestRetentionConfigKey (Itoa n) (cfgdb s) = Some (cfgdb s')"
    "live s' = apply_days n (live s)" using PutRetention_200[of A r s] assms(3,4) by auto
  then show ?thesis using days.restart[of A n] assms(1) RetentionSetting by simp
next
  case AccessLogSetting
  then obtain e m a where x: "0 \<le> m \<and> m < 2 ^ 63 \<and> 0 \<le> a \<and> a \<le> 365" "save_all A (order (access_log_entries (e, m, a))) (cfgdb s) = Some (cfgdb s')"
    "live s' = (live s)\<lparr>accessLog := set_access_log e m a (accessLog (live s))\<rparr>" using PutAccessLog_200[OF assms(1), of order r s] assms(3,4) by auto
  from alog_restart[OF assms(1,2) x(1,2)] x(3) show ?thesis using AccessLogSetting by fastforce
next
  case ProxySetting
  then obtain c where c: "sanitizeTrustedProxyHeaders (tpHeaders c) = Some (tpHeaders c)" "list_all trustedProxyHeaderRe (tpHeaders c)"
    "headers_enc (codec A) (tpHeaders c) \<noteq> None" "save_all A (order (proxy_entries (codec A) c)) (cfgdb s) = Some (cfgdb s')"
    "live s' = (live s)\<lparr>trustedProxy := c\<rparr>" using PutProxy_200[of order A r s] assms(3,4) by auto
  from proxy_restart[OF assms(1,2) c(1-4)] c(5) show ?thesis using ProxySetting by fastforce
qed

text \<open>C34: a refused setting does not take effect. When a change is not answered with 200, the live
  settings and the audit log are as they were, and so is the config database unless it is one of the
  two settings with several keys and the store failed.\<close>

theorem refused_setting_changes_nothing:
  assumes "put_setting order k A r s = (resp, s')" "status resp \<noteq> 200"
  shows "live s' = live s \<and> evdb s' = evdb s
    \<and> (cfgdb s' = cfgdb s \<or> status resp = 500 \<and> (k = AccessLogSetting \<or> k = ProxySetting))"
proof (cases k)
  case AccessLogSetting
  then show ?thesis using assms
    by (auto simp: PutAccessLogHandler_def Let_def respondXMLOrJSON_def split: option.splits prod.splits if_splits)
next
  case ProxySetting
  then show ?thesis using assms
    by (auto simp: PutTrustedProxyHandler_def Let_def split: option.splits prod.splits if_splits)
next
  case RateLimitSetting
  then show ?thesis using assms
    by (auto simp: PutRateLimitHandler_def effective_rl_def Let_def split: option.splits if_splits)
next
  case IPBanSetting
  then show ?thesis using assms by (auto simp: PutIPBanHandler_def effective_ban_def Let_def split: option.splits)
next
  case SyncSetting
  then show ?thesis using assms by (auto simp: PutSyncWritesHandler_def split: option.splits)
next
  case RetentionSetting
  then show ?thesis using assms by (auto simp: PutRetentionHandler_def Let_def split: option.splits)
qed

lemma settings_survive_restart_witness:
  "\<exists>s1. init_setting AccessLogSetting (ref_io [])
       (cfgdb (snd (put_setting rev AccessLogSetting (ref_io []) (ref_request ''PUT'' [] [] (put_ints [1, 7, 30])) ref_admin))) ref_settings = Some s1
     \<and> setting_view AccessLogSetting s1 = TObj [(''enabled'', TBool True), (''maxEvents'', TInt 7), (''maxAgeDays'', TInt 30)]"
proof -
  let ?r = "ref_request ''PUT'' [] [] (put_ints [1, 7, 30])"
  have h: "status (fst (put_setting rev AccessLogSetting (ref_io []) ?r ref_admin)) = 200"
    "setting_view AccessLogSetting (live (snd (put_setting rev AccessLogSetting (ref_io []) ?r ref_admin)))
      = TObj [(''enabled'', TBool True), (''maxEvents'', TInt 7), (''maxAgeDays'', TInt 30)]"
    by code_simp+
  from settings_survive_restart[OF ref_store_ok range_order_rev surjective_pairing h(1), of ref_settings] show ?thesis unfolding h(2) .
qed

lemma refused_setting_changes_nothing_witness:
  "live (snd (put_setting rev SyncSetting (ref_io syncWritesConfigKey) (ref_request ''PUT'' [] [] ''on'') ref_admin)) = ref_settings"
proof -
  have "status (fst (put_setting rev SyncSetting (ref_io syncWritesConfigKey) (ref_request ''PUT'' [] [] ''on'') ref_admin)) \<noteq> 200" by code_simp
  from refused_setting_changes_nothing[OF surjective_pairing this] show ?thesis by (simp add: ref_admin_def)
qed

text \<open>
  A change of the access log whose second write fails is answered with 500 and not applied, and the
  next start applies the key that was written.  A stored rate limit is not validated when it is
  loaded: here start-up applies a burst that the admin API refuses.
\<close>

lemma access_log_partly_persisted:
  "status (fst (put_setting id AccessLogSetting (ref_io accessLogMaxEventsKey) (ref_request ''PUT'' [] [] (put_ints [1, 7, 30])) ref_admin)) = 500"
  "map_option (setting_view AccessLogSetting) (init_setting AccessLogSetting (ref_io [])
     (cfgdb (snd (put_setting id AccessLogSetting (ref_io accessLogMaxEventsKey) (ref_request ''PUT'' [] [] (put_ints [1, 7, 30])) ref_admin))) ref_settings)
   = Some (TObj [(''enabled'', TBool True), (''maxEvents'', TInt 100000), (''maxAgeDays'', TInt 30)])"
  by code_simp+

lemma stale_rate_limit_applied:
  "status (fst (put_setting id RateLimitSetting (ref_io []) (ref_request ''PUT'' [] [] (put_rl \<lparr>rlEnabled = True, RPS = 2, Burst = 0\<rparr>)) ref_admin)) = 400"
  "map_option (\<lambda>s. CurrentRateLimit (rlController s)) (init_setting RateLimitSetting (ref_io [])
     [((configBucket, rateLimitConfigKey), put_rl \<lparr>rlEnabled = True, RPS = 2, Burst = 0\<rparr>)] ref_settings)
   = Some \<lparr>rlEnabled = True, RPS = 2, Burst = 0\<rparr>"
  by code_simp+

end
