(* ===== verification/Admin_Theorems.thy ===== *)
theory Admin_Theorems
  imports Admin_Router Settings_Theorems
begin

text \<open>Properties of the admin surface as a whole, and of the user handlers against authentication.\<close>

section \<open>What the middleware lets through\<close>

lemma AdminAuth_Inr:
  assumes "AdminAuthMiddleware E B d r st = (Inr r1, st')"
  shows "\<exists>u ak. GetUser (lb E) B ak d = Inr u \<and> isAdmin u \<and> ctx_user r1 = Some u"
proof -
  have v: "\<exists>u. GetUser (lb E) B ak d = Inr u \<and> isAdmin u \<and> u = x" if "verifyAdmin E B d ak secret = Inr x" for ak secret x
    using that by (auto simp: verifyAdmin_def Let_def split: sum.splits option.splits if_splits)
  have c: "\<exists>u. GetUser (lb E) B ak d = Inr u \<and> isAdmin u \<and> u = x" if "checkCredentials E B d r ak secret st = (Inr x, st1)" for ak secret x st1
    using that v by (auto simp: checkCredentials_def Let_def split: option.splits sum.splits prod.splits)
  show ?thesis using assms c
    by (fastforce simp: AdminAuthMiddleware_def cookieAuth_def publishAdmin_def Let_def split: if_splits option.splits prod.splits sum.splits)
qed

text \<open>The part of the process a request must not change without an administrator: all but the
  session store, the lockout table and the counters of the rate limiter.\<close>

definition protected :: "('db, 'edb, 'l) server \<Rightarrow> 'db \<times> 'edb \<times> world \<times> class_counters
    \<times> bool \<times> int \<times> access_log \<times> TrustedProxyConfig \<times> RateLimitConfig \<times> IPBanController" where
  "protected s = (let l = live (admin s) in (cfgdb (admin s), evdb (admin s), objects s, classes s,
     syncWrites l, requestRetentionDays l, accessLog l, trustedProxy l, CurrentRateLimit (rlController l), banController l))"

lemma protected_auth [simp]: "protected (s\<lparr>adminAuth := aa\<rparr>) = protected s"
  by (simp add: protected_def Let_def)

lemma admin_group_protected:
  assumes "protected (snd (admin_group Q h r s)) \<noteq> protected s"
  shows "\<exists>r1 aa. AdminAuthMiddleware (live_env (rEnv Q) s) (kv (cio (rIO Q))) (cfgdb (admin s)) r (adminAuth s) = (Inr r1, aa)"
  using assms by (auto simp: admin_group_def split: prod.splits sum.splits)

lemma admin_core_protected:
  assumes "protected (snd (admin_core Q rt r s)) \<noteq> protected s"
  shows "\<exists>r1 aa. AdminAuthMiddleware (live_env (rEnv Q) s) (kv (cio (rIO Q))) (cfgdb (admin s)) r (adminAuth s) = (Inr r1, aa)"
  using assms admin_group_protected by (fastforce simp: admin_core_def Let_def split: if_splits option.splits prod.splits)

lemma admin_limited_protected:
  assumes "protected (snd (admin_limited Q (admin_core Q rt) r s)) \<noteq> protected s"
  shows "\<exists>r1 aa. AdminAuthMiddleware (live_env (rEnv Q) s) (kv (cio (rIO Q))) (cfgdb (admin s)) r (adminAuth s) = (Inr r1, aa)"
proof -
  let ?l = "live (admin s)"
  let ?s1 = "\<lambda>rl. s\<lparr>admin := (admin s)\<lparr>live := ?l\<lparr>rlController := (rlController ?l)\<lparr>rc_rl := rl\<rparr>\<rparr>\<rparr>\<rparr>"
  have same: "protected (?s1 rl) = protected s" "live_env (rEnv Q) (?s1 rl) = live_env (rEnv Q) s"
    "cfgdb (admin (?s1 rl)) = cfgdb (admin s)" "adminAuth (?s1 rl) = adminAuth s" for rl
    by (simp_all add: protected_def live_env_def CurrentRateLimit_def Let_def)
  show ?thesis
  proof (cases "rlEnabled (rc_cfg (rlController ?l))")
    case False
    then show ?thesis using assms by (intro admin_core_protected[of Q rt]) (simp add: admin_limited_def Let_def)
  next
    case True
    obtain ok rl where al: "allow (rBuckets Q) (now (rEnv Q)) (ResolveClientIP (lb (rEnv Q)) (trustedProxy ?l) r) (rc_rl (rlController ?l)) = (ok, rl)"
      by fastforce
    have lim: "admin_limited Q (admin_core Q rt) r s = (if ok then admin_core Q rt r (?s1 rl)
        else (with_header ''Retry-After'' (Itoa slowDownRetryAfterSeconds) (writeSlowDown r), ?s1 rl))"
      by (simp only: admin_limited_def Let_def True al prod.case if_True if_False not_True_eq_False)
    have "ok" using assms[unfolded lim] same(1)[of rl] by (cases ok) (simp_all only: if_False snd_conv simp_thms)
    then have "protected (snd (admin_core Q rt r (?s1 rl))) \<noteq> protected (?s1 rl)"
      using assms[unfolded lim] by (simp only: if_True same(1) simp_thms)
    from admin_core_protected[OF this] show ?thesis unfolding same(2-4) .
  qed
qed

lemma admin_gate:
  assumes "protected (snd (NewAdminRouter Q rid rt r s)) \<noteq> protected s"
  shows "\<exists>r1 aa u ak. AdminAuthMiddleware (live_env (rEnv Q) s) (kv (cio (rIO Q))) (cfgdb (admin s)) (r\<lparr>ctx_requestID := rid\<rparr>) (adminAuth s) = (Inr r1, aa)
    \<and> ctx_user r1 = Some u \<and> GetUser (lb (rEnv Q)) (kv (cio (rIO Q))) ak (cfgdb (admin s)) = Inr u \<and> isAdmin u"
proof -
  have "snd (NewAdminRouter Q rid rt r s) = snd (admin_limited Q (admin_core Q rt) (r\<lparr>ctx_requestID := rid\<rparr>) s)"
    by (auto simp: NewAdminRouter_def RequestIDMiddleware_def split: prod.splits)
  then obtain r1 aa where m: "AdminAuthMiddleware (live_env (rEnv Q) s) (kv (cio (rIO Q))) (cfgdb (admin s)) (r\<lparr>ctx_requestID := rid\<rparr>) (adminAuth s) = (Inr r1, aa)"
    using admin_limited_protected assms by metis
  have "lb (live_env (rEnv Q) s) = lb (rEnv Q)" by (simp add: live_env_def)
  with AdminAuth_Inr[OF m] m show ?thesis by fastforce
qed

text \<open>C8: nothing on the admin port changes without an administrator. If a request to any route, with
  any method, changes the stored objects, the user and settings database, the event log, the
  counters or a live setting, then the admin middleware accepted it, for a user that is stored
  and an administrator.\<close>

theorem admin_state_needs_an_admin:
  assumes "NewAdminRouter Q rid rt r s = (resp, s')" "protected s' \<noteq> protected s"
  shows "\<exists>r1 aa u ak. AdminAuthMiddleware (live_env (rEnv Q) s) (kv (cio (rIO Q))) (cfgdb (admin s)) (r\<lparr>ctx_requestID := rid\<rparr>) (adminAuth s) = (Inr r1, aa)
    \<and> ctx_user r1 = Some u \<and> GetUser (lb (rEnv Q)) (kv (cio (rIO Q))) ak (cfgdb (admin s)) = Inr u \<and> isAdmin u"
proof -
  have "snd (NewAdminRouter Q rid rt r s) = s'" using assms(1) by simp
  with admin_gate[of Q rid rt r s] assms(2) show ?thesis by simp
qed

section \<open>An instance of the surface\<close>

definition ref_users :: user_io where
  "ref_users = \<lparr>uLib = ref_lib, uKey = enc_key ref_env, uNonce = replicate 12 CHR ''n'', uDraw1 = id, uDraw2 = id,
     acl_body_dec = (\<lambda>b. Some [admin_rule]), json_time = (\<lambda>_. ''t'')\<rparr>"

definition ref_request_io :: "(ref_db, seq_db, unit) request_io" where
  "ref_request_io = \<lparr>rEnv = ref_env, rIO = ref_io [], rUsers = ref_users, rSurface = \<lparr>publicBaseURL = [], FaviconICO = None, dirTimes = (\<lambda>_. 0)\<rparr>,
     rBuckets = \<lparr>NewLimiter = (\<lambda>_ _. ()), Allow = (\<lambda>_ l. (True, l))\<rparr>, rOrder = id, rSession = [],
     rObserved = \<lparr>obContentLength = 0, obWriterSize = 0, obMicroseconds = 0\<rparr>, rScrape = Status 200, rSPA = (\<lambda>_. Status 200)\<rparr>"

definition ref_server :: "(ref_db, seq_db, unit) server" where
  "ref_server = \<lparr>admin = ref_admin\<lparr>cfgdb := ref_store\<rparr>, adminAuth = init_admin_auth, objects = ref_world, classes = []\<rparr>"

definition ref_put_sync :: request where
  "ref_put_sync = (ref_request ''PUT'' [] [] ''off'')\<lparr>req_header := [(''X-Admin-Accesskey'', [''AK'']), (''X-Admin-Secret'', [''s3cret''])]\<rparr>"

lemma admin_state_needs_an_admin_witness:
  "\<exists>u ak. GetUser ref_lib (refusing []) ak ref_store = Inr u \<and> isAdmin u"
proof -
  let ?x = "NewAdminRouter ref_request_io ''id'' (AdminApi ApiSync) ref_put_sync ref_server"
  have "syncWrites (live (admin (snd ?x))) \<noteq> syncWrites (live (admin ref_server))" by code_simp
  then have "protected (snd ?x) \<noteq> protected ref_server" by (auto simp: protected_def Let_def)
  from admin_state_needs_an_admin[OF surjective_pairing this] show ?thesis
    by (auto simp: ref_request_io_def ref_server_def ref_io_def)
qed

section \<open>Deleted users\<close>

text \<open>C20: a deleted user is out at once. After a delete that answers 204 the access key names no user,
  every other key names the user it named before, and no later request is accepted on the admin
  API with that access key, by its secret or by a session it opened.\<close>

theorem deleted_user_is_locked_out:
  assumes "bolt_ok (kv (cio A))" "DeleteUserHandler ak A r s = (resp, s')" "status resp = 204"
  shows "GetUser (lb E) (kv (cio A)) ak (cfgdb s') = Inl ErrUserNotFound
    \<and> (\<forall>k. k \<noteq> ak \<longrightarrow> GetUser (lb E) (kv (cio A)) k (cfgdb s') = GetUser (lb E) (kv (cio A)) k (cfgdb s))
    \<and> (GetHeader q ''X-Admin-AccessKey'' = ak \<and> ak \<noteq> [] \<longrightarrow> isl (fst (AdminAuthMiddleware E (kv (cio A)) (cfgdb s') q aa)))
    \<and> (fst (lookup (sha256 (lb E)) (now E) token (aa_sessions aa)) = Some ak \<longrightarrow> isl (fst (cookieAuth E (kv (cio A)) (cfgdb s') q token aa)))"
proof -
  have d: "bdelete (kv (cio A)) users_bucket ak (cfgdb s) = Some (cfgdb s')"
    using assms(2,3) by (auto simp: DeleteUserHandler_def DeleteUser_def split: option.splits)
  have get: "GetUser (lb E) (kv (cio A)) k (cfgdb s') = (if k = ak then Inl ErrUserNotFound else GetUser (lb E) (kv (cio A)) k (cfgdb s))" for k
    using bolt_delete[OF assms(1) d] by (simp add: GetUser_def)
  have chk: "isl (fst (checkCredentials E (kv (cio A)) (cfgdb s') q ak secret aa))" for secret
    using get[of ak] by (simp add: checkCredentials_def verifyAdmin_def Let_def split: option.split prod.split)
  have "GetHeader q ''X-Admin-AccessKey'' = ak \<and> ak \<noteq> [] \<Longrightarrow> isl (fst (AdminAuthMiddleware E (kv (cio A)) (cfgdb s') q aa))"
    using chk[of "GetHeader q ''X-Admin-Secret''"]
    by (cases "checkCredentials E (kv (cio A)) (cfgdb s') q ak (GetHeader q ''X-Admin-Secret'') aa")
      (auto simp: AdminAuthMiddleware_def Let_def split: sum.splits)
  moreover have "fst (lookup (sha256 (lb E)) (now E) token (aa_sessions aa)) = Some ak \<Longrightarrow> isl (fst (cookieAuth E (kv (cio A)) (cfgdb s') q token aa))"
    using get[of ak] by (auto simp: cookieAuth_def Let_def split: prod.splits option.splits)
  ultimately show ?thesis using get by simp
qed

lemma deleted_user_is_locked_out_witness:
  "isl (fst (AdminAuthMiddleware ref_env (refusing []) (cfgdb (snd (DeleteUserHandler ''AK'' (ref_io []) ref_put_sync (ref_admin\<lparr>cfgdb := ref_store\<rparr>)))) ref_put_sync init_admin_auth))"
proof -
  have h: "status (fst (DeleteUserHandler ''AK'' (ref_io []) ref_put_sync (ref_admin\<lparr>cfgdb := ref_store\<rparr>))) = 204"
    "GetHeader ref_put_sync ''X-Admin-AccessKey'' = ''AK''" by code_simp+
  have kv: "kv (cio (ref_io [])) = refusing []" by (simp add: ref_io_def)
  from deleted_user_is_locked_out[OF _ surjective_pairing h(1), of ref_env ref_put_sync init_admin_auth "[]"] h(2) refusing_ok
  show ?thesis unfolding kv by simp
qed

end
