(* ===== verification/Startup_Theorems.thy ===== *)
theory Startup_Theorems
  imports Startup Admin_Theorems
begin

text \<open>Properties of start-up and shutdown: the first administrator, the stored settings, the exit status.\<close>

section \<open>What start-up went through\<close>

text \<open>Opening a bucket that is there, or creating one, leaves the stored values alone.\<close>

definition create_ok :: "('db, 'edb) boot \<Rightarrow> bool" where
  "create_ok B \<longleftrightarrow> (\<forall>b d d' b' k. bCreate B b d = Some d' \<longrightarrow> bget (kv (cio (bIO B))) b' k d' = bget (kv (cio (bIO B))) b' k d)"

text \<open>The database file holds \<open>db\<close>, if it can be opened.\<close>

definition opens :: "('db, 'edb) boot \<Rightarrow> 'db \<Rightarrow> bool" where
  "opens B db \<longleftrightarrow> (\<forall>p x. bOpen B p = Some x \<longrightarrow> x = db)"

lemma create_buckets_get:
  "\<lbrakk>create_ok B; create_buckets (bCreate B) bs d = Some d'\<rbrakk> \<Longrightarrow> bget (kv (cio (bIO B))) b k d' = bget (kv (cio (bIO B))) b k d"
  by (induction bs arbitrary: d) (auto simp: create_ok_def split: option.splits)

lemma initStores_Inr:
  assumes "initStores B d = (Inr (key, db, edb), d')"
  obtains p d1 db0 db1 where "loadEncryptionKey (bEnv B) = Inr key" "bOpen B p = Some db0"
    "create_buckets (bCreate B) [users_bucket, configBucket, requestSamplesBucket] db0 = Some db1"
    "bootstrapSuperUser B key db1 = Inr db"
  using assms by (fastforce simp: initStores_def InitUserStore_def Let_def split: option.splits prod.splits sum.splits)

lemma start_up_Inr:
  assumes "start_up B d = (Inr P, d')"
  obtains db edb where "initStores B d = (Inr (pKey P, db, edb), d')" "cfgdb (pAdmin P) = db" "init_settings B db = Inr (live (pAdmin P))"
  using assms by (auto simp: start_up_def split: sum.splits prod.splits)

lemma loadEncryptionKey_length: "loadEncryptionKey env = Inr key \<Longrightarrow> length key = 32"
  by (auto simp: loadEncryptionKey_def Let_def split: if_splits option.splits)

lemma CreateUser_other_bucket:
  "\<lbrakk>bolt_ok B; CreateUser L B t u d = (Inr v, d'); b \<noteq> users_bucket\<rbrakk> \<Longrightarrow> bget B b k d' = bget B b k d"
  by (auto simp: CreateUser_def Let_def bolt_put split: if_splits option.splits)

lemma bootstrap_other_bucket:
  "\<lbrakk>bolt_ok (kv (cio (bIO B))); bootstrapSuperUser B key db = Inr db'; b \<noteq> users_bucket\<rbrakk>
     \<Longrightarrow> bget (kv (cio (bIO B))) b k db' = bget (kv (cio (bIO B))) b k db"
  by (auto simp: bootstrapSuperUser_def CreateSuperUser_def Let_def dest: CreateUser_other_bucket split: if_splits option.splits sum.splits prod.splits)

section \<open>The first administrator\<close>

text \<open>The text of a base64 encoding is ASCII, so the JSON codec keeps it.\<close>

lemma Encrypt_valid: "Encrypt L key nonce p = Some c \<Longrightarrow> ValidString c"
  using ascii_valid[OF ascii_b64] by (auto simp: Encrypt_def split: if_splits)

lemma bootstrap_creates:
  assumes "bolt_ok (kv (cio (bIO B)))" "user_codec_ok (bLib B)" "cipher_ok (bLib B)" "length (bNonce B) = NonceSize"
    "ValidString (bEnv B ''ACCESS_KEY_ID'')" "\<not> UsersExist (kv (cio (bIO B))) db" "bootstrapSuperUser B key db = Inr db'"
  shows "\<exists>u. GetUser (bLib B) (kv (cio (bIO B))) (bEnv B ''ACCESS_KEY_ID'') db' = Inr u \<and> isAdmin u
    \<and> Decrypt (bLib B) key (EncryptedSecret u) = Some (bEnv B ''SECRET_ACCESS_KEY'')
    \<and> bEnv B ''ACCESS_KEY_ID'' \<noteq> [] \<and> bEnv B ''SECRET_ACCESS_KEY'' \<noteq> []"
proof -
  let ?ak = "bEnv B ''ACCESS_KEY_ID''" and ?sk = "bEnv B ''SECRET_ACCESS_KEY''" and ?K = "kv (cio (bIO B))"
  have ne: "?ak \<noteq> []" "?sk \<noteq> []" using assms(6,7) by (auto simp: bootstrapSuperUser_def Let_def split: if_splits)
  then obtain enc u where enc: "Encrypt (bLib B) key (bNonce B) ?sk = Some enc"
    and cr: "CreateUser (bLib B) ?K (clock (bIO B)) \<lparr>AccessKeyID = ?ak, EncryptedSecret = enc, ACL = [admin_rule], CreatedAt = None, SecretAccessKey = []\<rparr> db = (Inr u, db')"
    using assms(6,7) by (auto simp: bootstrapSuperUser_def CreateSuperUser_def Let_def split: if_splits option.splits sum.splits prod.splits)
  let ?n = "\<lparr>AccessKeyID = ?ak, EncryptedSecret = enc, ACL = [admin_rule], CreatedAt = None, SecretAccessKey = []\<rparr>"
  have "valid_rule admin_rule" by (simp add: valid_rule_def admin_rule_def) code_simp
  then have v: "valid_user ?n" using assms(5) Encrypt_valid[OF enc] by (simp add: valid_user_def)
  have u: "u = ?n\<lparr>CreatedAt := Some (clock (bIO B))\<rparr>" using cr by (auto simp: CreateUser_def Let_def split: if_splits option.splits)
  have "user_view (bLib B) ?K db' ?ak = Some (u\<lparr>SecretAccessKey := []\<rparr>)" using CreateUser_view(2)[OF assms(1,2) v cr] by simp
  then have "GetUser (bLib B) ?K ?ak db' = Inr (u\<lparr>SecretAccessKey := []\<rparr>)" by (auto simp: user_view_def split: sum.splits)
  then show ?thesis using ne Decrypt_Encrypt[OF assms(3,4) enc] u
    by (auto simp: isAdmin_def admin_rule_def containsWildcard_def EqualFold_def)
qed

lemma headers_accept:
  assumes "GetUser (lb E) K ak d = Inr u" "isAdmin u" "Decrypt (lb E) (enc_key E) (EncryptedSecret u) = Some sk"
    "GetHeader r ''X-Admin-AccessKey'' = ak" "GetHeader r ''X-Admin-Secret'' = sk" "ak \<noteq> []" "sk \<noteq> []"
    "blocked (now E) (client_ip E r) (aa_failures st) = None"
  shows "fst (AdminAuthMiddleware E K d r st) = Inr (publishAdmin u authMethodHdr r)"
  using assms by (simp add: AdminAuthMiddleware_def checkCredentials_def verifyAdmin_def secretsEqual_def Let_def)

lemma UsersExist_get:
  assumes "bolt_ok K"
  shows "UsersExist K d \<longleftrightarrow> (\<exists>k. bget K users_bucket k d \<noteq> None)"
proof -
  have "bitems K users_bucket d \<noteq> [] \<longleftrightarrow> (\<exists>k v. (k, v) \<in> set (bitems K users_bucket d))"
    by (cases "bitems K users_bucket d") auto
  then show ?thesis by (simp add: UsersExist_def bolt_items_mem[OF assms])
qed

lemma booted_user_db:
  assumes "start_up B d = (Inr P, d')"
  obtains p db0 db1 where "bOpen B p = Some db0" "loadEncryptionKey (bEnv B) = Inr (pKey P)"
    "create_buckets (bCreate B) [users_bucket, configBucket, requestSamplesBucket] db0 = Some db1"
    "bootstrapSuperUser B (pKey P) db1 = Inr (cfgdb (pAdmin P))"
  using assms start_up_Inr initStores_Inr by metis

text \<open>C10: the first start makes an administrator who can log in, and later starts leave the users
  alone. When the process comes up on a database without users, the credentials of the environment
  are accepted on the admin API, under the encryption key the process loaded. When it comes up on a
  database that has users, every access key names the user it named before, whatever the
  environment holds.\<close>

theorem first_start_makes_the_admin:
  assumes "bolt_ok (kv (cio (bIO B)))" "user_codec_ok (bLib B)" "cipher_ok (bLib B)" "length (bNonce B) = NonceSize" "create_ok B"
    "ValidString (bEnv B ''ACCESS_KEY_ID'')" "opens B db0" "start_up B d = (Inr P, d')"
  shows "(\<not> UsersExist (kv (cio (bIO B))) db0 \<longrightarrow>
        lb E = bLib B \<and> enc_key E = pKey P \<and> GetHeader r ''X-Admin-AccessKey'' = bEnv B ''ACCESS_KEY_ID''
        \<and> GetHeader r ''X-Admin-Secret'' = bEnv B ''SECRET_ACCESS_KEY'' \<and> blocked (now E) (client_ip E r) (aa_failures st) = None \<longrightarrow>
        (\<exists>u. fst (AdminAuthMiddleware E (kv (cio (bIO B))) (cfgdb (pAdmin P)) r st) = Inr (publishAdmin u authMethodHdr r) \<and> isAdmin u))
    \<and> (UsersExist (kv (cio (bIO B))) db0 \<longrightarrow>
        (\<forall>ak. GetUser (bLib B) (kv (cio (bIO B))) ak (cfgdb (pAdmin P)) = GetUser (bLib B) (kv (cio (bIO B))) ak db0))"
proof -
  let ?K = "kv (cio (bIO B))"
  obtain db1 where cb: "create_buckets (bCreate B) [users_bucket, configBucket, requestSamplesBucket] db0 = Some db1"
    and bs: "bootstrapSuperUser B (pKey P) db1 = Inr (cfgdb (pAdmin P))"
    using booted_user_db[OF assms(8)] assms(7)[unfolded opens_def] by metis
  note same = create_buckets_get[OF assms(5) cb]
  have ex: "UsersExist ?K db1 = UsersExist ?K db0" using UsersExist_get[OF assms(1)] same by simp
  show ?thesis
  proof (cases "UsersExist ?K db0")
    case True
    then have "cfgdb (pAdmin P) = db1" using bs ex by (simp add: bootstrapSuperUser_def)
    then show ?thesis using True same by (simp add: GetUser_def)
  next
    case False
    then obtain u where "GetUser (bLib B) ?K (bEnv B ''ACCESS_KEY_ID'') (cfgdb (pAdmin P)) = Inr u" "isAdmin u"
      "Decrypt (bLib B) (pKey P) (EncryptedSecret u) = Some (bEnv B ''SECRET_ACCESS_KEY'')"
      "bEnv B ''ACCESS_KEY_ID'' \<noteq> []" "bEnv B ''SECRET_ACCESS_KEY'' \<noteq> []"
      using bootstrap_creates[OF assms(1-4,6) _ bs] ex by auto
    then show ?thesis using False headers_accept[of E ?K "bEnv B ''ACCESS_KEY_ID''" "cfgdb (pAdmin P)" u "bEnv B ''SECRET_ACCESS_KEY''" r st] by auto
  qed
qed

section \<open>Bringing up the settings\<close>

text \<open>A setting as the environment leaves it, before the stored value is looked up.\<close>

fun env_setting :: "setting \<Rightarrow> ('db, 'edb) boot \<Rightarrow> 'l settings \<Rightarrow> 'l settings" where
  "env_setting SyncSetting B s = s\<lparr>syncWrites := parseBoolEnvDefault (bEnv B) ''SYNC_WRITES'' True\<rparr>"
| "env_setting RetentionSetting B s = s"
| "env_setting AccessLogSetting B s = s\<lparr>accessLog := env_access_log (bEnv B) (accessLog s)\<rparr>"
| "env_setting ProxySetting B s = s\<lparr>trustedProxy := loadTrustedProxyConfig (bEnv B)\<rparr>"
| "env_setting RateLimitSetting B s = s\<lparr>rlController := NewRateLimitController (loadRateLimitConfig (bFloat B) (bEnv B)), rlEnv := loadRateLimitConfig (bFloat B) (bEnv B)\<rparr>"
| "env_setting IPBanSetting B s = s\<lparr>banController := NewIPBanController (loadIPBanConfig (bEnv B)), banEnv := loadIPBanConfig (bEnv B)\<rparr>"

definition boot_setting :: "('db, 'edb) boot \<Rightarrow> 'db \<Rightarrow> setting \<Rightarrow> 'l settings \<Rightarrow> 'l settings option" where
  "boot_setting B db k s = init_setting k (bIO B) db (env_setting k B s)"

lemma boot_steps:
  "initSyncWrites B db = boot_setting B db SyncSetting" "initRetention B db = boot_setting B db RetentionSetting"
  "initAccessLog B db = boot_setting B db AccessLogSetting" "initTrustedProxy B db = boot_setting B db ProxySetting"
  "initRateLimit B db = boot_setting B db RateLimitSetting" "initIPBan B db = boot_setting B db IPBanSetting"
  by (auto simp: boot_setting_def initSyncWrites_def initRetention_def initAccessLog_def initTrustedProxy_def initRateLimit_def initIPBan_def
      ok_init_def flag_init_def Let_def split: prod.splits sum.splits intro!: ext)

text \<open>A step changes what the admin API shows of its own setting only.\<close>

lemma init_setting_other:
  "\<lbrakk>init_setting k A d s = Some s1; k' \<noteq> k\<rbrakk> \<Longrightarrow> setting_view k' s1 = setting_view k' s"
  by (cases k; cases k')
    (auto simp: ok_init_def InitRateLimitFromStore_def InitIPBanFromStore_def InitSyncWritesFromStore_def InitRequestRetentionFromStore_def
      apply_rl_def apply_ban_def Let_def split: sum.splits option.splits)

lemma boot_setting_other:
  assumes "boot_setting B db k s = Some s1" "k' \<noteq> k"
  shows "setting_view k' s1 = setting_view k' s"
proof -
  have "setting_view k' (env_setting k B s) = setting_view k' s" using assms(2) by (cases k; cases k') simp_all
  then show ?thesis using init_setting_other assms unfolding boot_setting_def by metis
qed

fun step_error :: "setting \<Rightarrow> run_error" where
  "step_error SyncSetting = SyncError"
| "step_error RetentionSetting = RetentionError"
| "step_error AccessLogSetting = AccessLogError"
| "step_error ProxySetting = ProxyError"
| "step_error RateLimitSetting = RateLimitError"
| "step_error IPBanSetting = IPBanError"

text \<open>The steps as one loop over the six settings.\<close>

fun boot_all :: "('db, 'edb) boot \<Rightarrow> 'db \<Rightarrow> setting list \<Rightarrow> 'l settings \<Rightarrow> run_error + 'l settings" where
  "boot_all B db [] s = Inr s"
| "boot_all B db (k # ks) s = (case boot_setting B db k s of None \<Rightarrow> Inl (step_error k) | Some s1 \<Rightarrow> boot_all B db ks s1)"

definition boot_order :: "setting list" where
  "boot_order = [SyncSetting, RetentionSetting, AccessLogSetting, ProxySetting, RateLimitSetting, IPBanSetting]"

lemma init_settings_loop: "init_settings B db = boot_all B db boot_order package_settings"
  by (simp add: init_settings_def boot_order_def boot_steps split: option.split)

lemma boot_all_other: "\<lbrakk>boot_all B db ks s = Inr s1; k \<notin> set ks\<rbrakk> \<Longrightarrow> setting_view k s1 = setting_view k s"
  by (induction ks arbitrary: s) (auto dest: boot_setting_other split: option.splits)

lemma step_error_inj: "step_error k = step_error k' \<longleftrightarrow> k = k'"
  by (cases k; cases k') simp_all

text \<open>If the step of a setting succeeds from any state with a view \<open>v\<close>, so does its part of the loop.\<close>

lemma boot_all_view:
  fixes s :: "'l settings"
  assumes "\<And>s :: 'l settings. \<exists>s1. boot_setting B db k s = Some s1 \<and> setting_view k s1 = v" "distinct ks" "k \<in> set ks"
  shows "boot_all B db ks s \<noteq> Inl (step_error k) \<and> (\<forall>s1. boot_all B db ks s = Inr s1 \<longrightarrow> setting_view k s1 = v)"
  using assms(2,3)
proof (induction ks arbitrary: s)
  case (Cons k0 ks)
  show ?case
  proof (cases "k0 = k")
    case True
    obtain s1 where s1: "boot_setting B db k s = Some s1" "setting_view k s1 = v" using assms(1) by blast
    have "boot_all B db ks' s' \<noteq> Inl (step_error k)" if "k \<notin> set ks'" for ks' s'
      using that by (induction ks' arbitrary: s') (auto simp: step_error_inj split: option.splits)
    then show ?thesis using Cons.prems True s1 boot_all_other by fastforce
  next
    case False
    then show ?thesis using Cons by (auto simp: step_error_inj split: option.splits)
  qed
qed simp

text \<open>A step looks at the database through the config keys only.\<close>

lemma init_setting_cong:
  assumes "cio A = cio A'" "codec A = codec A'" "\<And>key. GetConfigValue (cio A) key d = GetConfigValue (cio A) key d'"
  shows "init_setting k A d s = init_setting k A' d' s"
  using assms by (cases k)
    (simp_all add: InitRateLimitFromStore_def loadRateLimitOverride_def InitIPBanFromStore_def loadIPBanOverride_def InitSyncWritesFromStore_def
      InitRequestRetentionFromStore_def InitAccessLogFromStore_def InitTrustedProxyFromStore_def cong: option.case_cong sum.case_cong)

section \<open>Settings across a restart\<close>

lemma bucket_names: "configBucket \<noteq> users_bucket"
  by (simp add: configBucket_def users_bucket_def)

lemma start_up_cases:
  fixes B :: "('db, 'edb) boot" and P :: "('db, 'edb, 'l) process"
  assumes "bolt_ok (kv (cio (bIO B)))" "create_ok B" "opens B db0"
  shows "(\<exists>e. fst (start_up B d :: (run_error + ('db, 'edb, 'l) process) \<times> fs) = Inl (SetupError e))
    \<or> (\<exists>db. (\<forall>key. GetConfigValue (cio (bIO B)) key db = GetConfigValue (cio (bIO B)) key db0)
         \<and> (\<forall>e. init_settings B db = (Inl e :: run_error + 'l settings) \<longrightarrow> fst (start_up B d :: (run_error + ('db, 'edb, 'l) process) \<times> fs) = Inl e)
         \<and> (\<forall>s :: 'l settings. init_settings B db = Inr s \<longrightarrow> (\<exists>P. fst (start_up B d) = Inr P \<and> live (pAdmin P) = s)))"
proof (cases "initStores B d")
  case (Pair res d1)
  show ?thesis
  proof (cases res)
    case (Inl e)
    then show ?thesis using Pair by (simp add: start_up_def)
  next
    case (Inr x)
    obtain key db edb where x: "x = (key, db, edb)" by (cases x)
    obtain db1 where cb: "create_buckets (bCreate B) [users_bucket, configBucket, requestSamplesBucket] db0 = Some db1" and bs: "bootstrapSuperUser B key db1 = Inr db"
      using initStores_Inr[of B d key db edb d1] Pair Inr x assms(3)[unfolded opens_def] by metis
    have "GetConfigValue (cio (bIO B)) c db = GetConfigValue (cio (bIO B)) c db0" for c
      using create_buckets_get[OF assms(2) cb] bootstrap_other_bucket[OF assms(1) bs bucket_names] by (simp add: GetConfigValue_def)
    then show ?thesis using Pair Inr x by (intro disjI2 exI[of _ db]) (simp add: start_up_def)
  qed
qed

lemma boot_order_all: "distinct boot_order" "k \<in> set boot_order"
  by (simp_all add: boot_order_def) (cases k; simp)

text \<open>C11: an accepted setting survives a reboot. When a change of a setting answers 200, the next start
  of the process from the resulting database, under any environment, does not fail because of that
  setting, and if it comes up then the admin API shows the value it showed before, whatever the
  environment says. Settings with several keys may be written in any order.\<close>

theorem settings_survive_a_reboot:
  fixes s s' :: "('db, 'edb, 'l) admin_state" and B :: "('db, 'edb) boot" and P :: "('db, 'edb, 'l) process"
  assumes "store_ok A" "range_order order" "put_setting order k A r s = (resp, s')" "status resp = 200"
    "cio (bIO B) = cio A" "codec (bIO B) = codec A" "create_ok B" "opens B (cfgdb s')"
  shows "(fst (start_up B d) :: run_error + ('db, 'edb, 'l) process) \<noteq> Inl (step_error k)
    \<and> (fst (start_up B d) = Inr P \<longrightarrow> setting_view k (live (pAdmin P)) = setting_view k (live s'))"
proof -
  let ?st = "start_up B d :: (run_error + ('db, 'edb, 'l) process) \<times> fs"
  have bolt: "bolt_ok (kv (cio (bIO B)))" using assms(1,5) by (simp add: store_ok_def)
  consider e where "fst ?st = Inl (SetupError e)"
    | db where "\<forall>key. GetConfigValue (cio (bIO B)) key db = GetConfigValue (cio (bIO B)) key (cfgdb s')"
      "\<forall>e. init_settings B db = (Inl e :: run_error + 'l settings) \<longrightarrow> fst ?st = Inl e"
      "\<forall>s :: 'l settings. init_settings B db = Inr s \<longrightarrow> (\<exists>P. fst ?st = Inr P \<and> live (pAdmin P) = s)"
    using start_up_cases[OF bolt assms(7,8), where d = d and ?'l = 'l] by blast
  then show ?thesis
  proof cases
    case 1
    then show ?thesis by (cases k) simp_all
  next
    case 2
    have "\<exists>s1. boot_setting B db k s0 = Some s1 \<and> setting_view k s1 = setting_view k (live s')" for s0 :: "'l settings"
      using settings_survive_restart[OF assms(1-4), of "env_setting k B s0"] init_setting_cong[OF assms(5,6), of db "cfgdb s'" k "env_setting k B s0"] 2(1)
      by (simp add: boot_setting_def)
    from boot_all_view[OF this boot_order_all, of package_settings] 2(2,3)
    show ?thesis unfolding init_settings_loop[symmetric]
      by (cases "init_settings B db :: run_error + 'l settings") auto
  qed
qed

section \<open>An instance\<close>

definition ref_getenv :: getenv where
  "ref_getenv key =
     (if key = ''ENCRYPTION_KEY'' then replicate 32 CHR ''k''
      else if key = ''ACCESS_KEY_ID'' then ''AK''
      else if key = ''SECRET_ACCESS_KEY'' then ''s3cret''
      else if key = ''SYNC_WRITES'' then ''true''
      else [])"

definition ref_boot :: "getenv \<Rightarrow> ref_db \<Rightarrow> (ref_db, seq_db) boot" where
  "ref_boot env db = \<lparr>bEnv = env, bFloat = (\<lambda>_. None), bFault = no_fault, bCwd = [], bLib = ref_lib, bNonce = replicate 12 CHR ''n'',
     bIO = ref_io [], bOpen = (\<lambda>_. Some db), bOpenEvents = (\<lambda>_. Some ([], [])), bCreate = (\<lambda>_ d. Some d), bCreateEvents = (\<lambda>_ d. Some d)\<rparr>"

lemma ref_boot_ok: "create_ok (ref_boot env db)" "opens (ref_boot env db) db"
  by (simp_all add: create_ok_def opens_def ref_boot_def)

definition ref_boot_headers :: request where
  "ref_boot_headers = (ref_request ''GET'' [] [] [])\<lparr>req_header := [(''X-Admin-Accesskey'', [''AK'']), (''X-Admin-Secret'', [''s3cret''])]\<rparr>"

text \<open>A start that finds no stored limit and no stored ban comes up as soon as the stores do.\<close>

lemma init_setting_some:
  assumes "\<And>key. GetConfigValue (cio A) key d \<noteq> Inl ()" "GetConfigValue (cio A) rateLimitConfigKey d = Inr None" "GetConfigValue (cio A) ipBanConfigKey d = Inr None"
  shows "init_setting k A d s \<noteq> None"
proof (cases k)
  case AccessLogSetting
  have "\<exists>x y z. GetConfigValue (cio A) accessLogEnabledKey d = Inr x \<and> GetConfigValue (cio A) accessLogMaxEventsKey d = Inr y \<and> GetConfigValue (cio A) accessLogMaxAgeDaysKey d = Inr z"
    using assms(1) by (metis old.unit.exhaust sum.exhaust)
  then show ?thesis using AccessLogSetting by (auto simp: InitAccessLogFromStore_def flag_init_def Let_def)
next
  case ProxySetting
  have "\<exists>x y. GetConfigValue (cio A) trustedProxyHeadersKey d = Inr x \<and> GetConfigValue (cio A) trustedProxyLeftmostKey d = Inr y"
    using assms(1) by (metis old.unit.exhaust sum.exhaust)
  then show ?thesis using ProxySetting by (auto simp: InitTrustedProxyFromStore_def flag_init_def Let_def)
qed (use assms in \<open>auto simp: ok_init_def InitRateLimitFromStore_def loadRateLimitOverride_def InitIPBanFromStore_def loadIPBanOverride_def
      InitSyncWritesFromStore_def InitRequestRetentionFromStore_def Let_def split: sum.splits\<close>)

lemma start_up_comes_up:
  fixes B :: "('db, 'edb) boot"
  assumes "initStores B d = (Inr (key, db, edb), d1)" "\<And>key. GetConfigValue (cio (bIO B)) key db \<noteq> Inl ()"
    "GetConfigValue (cio (bIO B)) rateLimitConfigKey db = Inr None" "GetConfigValue (cio (bIO B)) ipBanConfigKey db = Inr None"
  shows "\<exists>P :: ('db, 'edb, 'l) process. start_up B d = (Inr P, d1)"
proof -
  have "\<exists>s1. boot_all B db ks s = Inr s1" for ks and s :: "'l settings"
  proof (induction ks arbitrary: s)
    case (Cons k ks)
    then show ?case using init_setting_some[OF assms(2-4), of k "env_setting k B s"] by (auto simp: boot_setting_def)
  qed simp
  then obtain s1 :: "'l settings" where "init_settings B db = Inr s1" unfolding init_settings_loop by blast
  then show ?thesis using assms(1) by (simp add: start_up_def)
qed

definition no_overrides :: "(ref_db, seq_db) boot \<Rightarrow> setup_error + bytes \<times> ref_db \<times> seq_db \<Rightarrow> bool" where
  "no_overrides B x = (case x of Inl _ \<Rightarrow> False | Inr (key, db, edb) \<Rightarrow>
     GetConfigValue (cio (bIO B)) rateLimitConfigKey db = Inr None \<and> GetConfigValue (cio (bIO B)) ipBanConfigKey db = Inr None)"

lemma ref_boot_comes_up:
  assumes "read_fails (cio (bIO B)) = (\<lambda>_. False)" "no_overrides B (fst (initStores B d))"
  shows "\<exists>(P :: (ref_db, seq_db, 'l) process) d'. start_up B d = (Inr P, d')"
proof -
  obtain x d1 where x: "initStores B d = (x, d1)" by fastforce
  then obtain key db edb where i: "initStores B d = (Inr (key, db, edb), d1)" "GetConfigValue (cio (bIO B)) rateLimitConfigKey db = Inr None"
    "GetConfigValue (cio (bIO B)) ipBanConfigKey db = Inr None"
    using assms(2) by (cases x) (auto simp: no_overrides_def)
  have r: "GetConfigValue (cio (bIO B)) key db \<noteq> Inl ()" for key using assms(1) by (simp add: GetConfigValue_def split: option.split)
  have "\<exists>P :: (ref_db, seq_db, 'l) process. start_up B d = (Inr P, d1)" by (rule start_up_comes_up[OF i(1) r i(2,3)])
  then show ?thesis by blast
qed

lemma first_start_makes_the_admin_witness:
  "\<exists>P u. fst (start_up (ref_boot ref_getenv []) (disk ref_world)) = Inr (P :: (ref_db, seq_db, unit) process)
     \<and> fst (AdminAuthMiddleware ref_env (refusing []) (cfgdb (pAdmin P)) ref_boot_headers init_admin_auth) = Inr (publishAdmin u authMethodHdr ref_boot_headers) \<and> isAdmin u"
proof -
  let ?B = "ref_boot ref_getenv []"
  have i: "no_overrides ?B (fst (initStores ?B (disk ref_world)))" by code_simp
  have f: "kv (cio (bIO ?B)) = refusing []" "bLib ?B = ref_lib" "length (bNonce ?B) = NonceSize" "bEnv ?B = ref_getenv" "read_fails (cio (bIO ?B)) = (\<lambda>_. False)"
    by (simp_all add: ref_boot_def ref_io_def NonceSize_def)
  obtain P :: "(ref_db, seq_db, unit) process" and d' where up: "start_up ?B (disk ref_world) = (Inr P, d')"
    using ref_boot_comes_up[OF f(5) i] by blast
  have h: "ValidString (ref_getenv ''ACCESS_KEY_ID'')" "\<not> UsersExist (refusing []) []" "GetHeader ref_boot_headers ''X-Admin-AccessKey'' = ref_getenv ''ACCESS_KEY_ID''"
    "GetHeader ref_boot_headers ''X-Admin-Secret'' = ref_getenv ''SECRET_ACCESS_KEY''"
    "blocked (now ref_env) (client_ip ref_env ref_boot_headers) (aa_failures init_admin_auth) = None"
    by code_simp+
  have "loadEncryptionKey (bEnv ?B) = Inr (pKey P)" using booted_user_db[OF up] by metis
  then have key: "enc_key ref_env = pKey P" by (simp add: f(4) loadEncryptionKey_def ref_getenv_def ref_env_def)
  have c: "bolt_ok (kv (cio (bIO ?B)))" "user_codec_ok (bLib ?B)" "cipher_ok (bLib ?B)" "ValidString (bEnv ?B ''ACCESS_KEY_ID'')"
    using refusing_ok ref_lib_ok(1,2) h(1) by (simp_all add: f)
  from conjunct1[OF first_start_makes_the_admin[OF c(1-3) f(3) ref_boot_ok(1) c(4) ref_boot_ok(2) up, of ref_env ref_boot_headers init_admin_auth]] h(2-5) key
  have "\<exists>u. fst (AdminAuthMiddleware ref_env (refusing []) (cfgdb (pAdmin P)) ref_boot_headers init_admin_auth) = Inr (publishAdmin u authMethodHdr ref_boot_headers) \<and> isAdmin u"
    by (simp add: f)
  then show ?thesis using up by (metis fst_conv)
qed

lemma settings_survive_a_reboot_witness:
  "\<exists>P. fst (start_up (ref_boot ref_getenv (cfgdb (snd (put_setting id SyncSetting (ref_io []) (ref_request ''PUT'' [] [] ''off'') ref_admin)))) (disk ref_world))
        = Inr (P :: (ref_db, seq_db, unit) process) \<and> setting_view SyncSetting (live (pAdmin P)) = TBool False"
proof -
  let ?x = "put_setting id SyncSetting (ref_io []) (ref_request ''PUT'' [] [] ''off'') ref_admin"
  let ?B = "ref_boot ref_getenv (cfgdb (snd ?x))"
  have h: "status (fst ?x) = 200" "setting_view SyncSetting (live (snd ?x)) = TBool False" by code_simp+
  have i: "no_overrides ?B (fst (initStores ?B (disk ref_world)))" by code_simp
  have f: "cio (bIO ?B) = cio (ref_io [])" "codec (bIO ?B) = codec (ref_io [])" "read_fails (cio (bIO ?B)) = (\<lambda>_. False)" by (simp_all add: ref_boot_def ref_io_def)
  obtain P :: "(ref_db, seq_db, unit) process" where up: "fst (start_up ?B (disk ref_world)) = Inr P"
    using ref_boot_comes_up[OF f(3) i] by (metis fst_conv)
  have o: "range_order id" by (simp add: range_order_def)
  from settings_survive_a_reboot[OF ref_store_ok o surjective_pairing h(1) f(1,2) ref_boot_ok, of "disk ref_world" P] up h(2) show ?thesis by auto
qed

section \<open>The environment alone\<close>

text \<open>Whatever the variables say, the ban starts with a configuration the admin API would accept.\<close>

lemma env_ban_is_valid: "Validate (loadIPBanConfig env) = None"
  by (simp add: loadIPBanConfig_def Normalized_def Validate_def inRange_def DefaultIPBanConfig_def Let_def MaxIPBanFailures_def
      MaxIPBanWindowSeconds_def MaxIPBanSeconds_def defaultIPBanMaxFailures_def defaultIPBanWindowSeconds_def defaultIPBanSeconds_def)

text \<open>Without a key of 32 bytes, given as it is or in base64, the process ends before a database is opened.\<close>

lemma no_start_without_a_key:
  assumes "start_up B d = (Inr P, d')"
  shows "length (pKey P) = 32 \<and> (bEnv B ''ENCRYPTION_KEY'' = pKey P \<or> b64_decode StdEncoding (bEnv B ''ENCRYPTION_KEY'') = Some (pKey P))"
proof -
  have "loadEncryptionKey (bEnv B) = Inr (pKey P)" using booted_user_db[OF assms] by metis
  then show ?thesis by (auto simp: loadEncryptionKey_def Let_def split: if_splits option.splits)
qed

lemma health_check_exact: "runHealthCheck get urls = None \<longleftrightarrow> (\<forall>u\<in>set urls. get u = Some 200)"
  by (induction urls) (auto simp: probeHealth_def split: option.splits)

lemma health_check_names_the_first:
  "runHealthCheck get (us @ u # vs) = probeHealth get u" if "\<forall>x\<in>set us. get x = Some 200" "get u \<noteq> Some 200"
  using that by (induction us) (auto simp: probeHealth_def split: option.splits)

lemma serve_result: "serve why drained = None \<longleftrightarrow> why = ContextDone \<and> (\<forall>r\<in>set drained. r = None)"
proof -
  have "shutdownAll drained = None \<longleftrightarrow> (\<forall>r\<in>set drained. r = None)" by (induction drained rule: shutdownAll.induct) auto
  then show ?thesis by (auto simp: serve_def Let_def split: stop.splits option.splits)
qed

section \<open>Findings\<close>

text \<open>
  The environment's retention is not clamped, and its nanoseconds wrap around: 213504 days, asked for
  as an age cap of 584 years, are one of 25 minutes, and 106752 days remove the cap.
\<close>

lemma env_retention_wraps:
  "accessMaxAgeNs (env_access_log (\<lambda>k. if k = ''ACCESS_LOG_MAX_AGE_DAYS'' then ''213504'' else []) init_access_log) = 1526290448384
    \<and> accessMaxAgeNs (env_access_log (\<lambda>k. if k = ''ACCESS_LOG_MAX_AGE_DAYS'' then ''106752'' else []) init_access_log) = 0"
proof -
  have "TrimSpace ''213504'' = ''213504''" "TrimSpace ''106752'' = ''106752''" by code_simp+
  moreover have "Atoi ''213504'' = Inr 213504" "Atoi ''106752'' = Inr 106752"
    by (simp_all add: ParseInt_def ParseUint_def parse_uint_loop.simps is_digit_def digit_val_def Let_def)
  moreover have "wrap64 (213504 * 24 * Hour) = 1526290448384" "wrap64 (106752 * 24 * Hour) < 0"
    by (simp_all add: wrap64_def Hour_def Minute_def Second_def)
  ultimately show ?thesis
    by (simp add: env_access_log_def parseIntEnvDefault_def SetAccessLogMaxAge_def SetAccessLogMaxEvents_def SetAccessLogEnabled_def Let_def)
qed

text \<open>The database named \<open>/data/users.db\<close> is opened below another \<open>data\<close>, in a container and outside one.\<close>

lemma databases_below_data_data:
  "psegs (from_cwd ''/srv'' (getStoragePath F d ''/data/users.db'')) = (if isRunningInDocker F d then [] else [''srv'']) @ [''data'', ''data'', ''users.db'']"
proof -
  have "psegs (from_cwd ''/srv'' ''/data//data/users.db'') = [''data'', ''data'', ''users.db'']"
    "psegs (from_cwd ''/srv'' ''./data//data/users.db'') = [''srv'', ''data'', ''data'', ''users.db'']" by code_simp+
  then show ?thesis by (simp add: getStoragePath_def)
qed

text \<open>
  A file where the data directory should be is taken for it: the check reports success, no directory
  is made, and the object root does not exist.
\<close>

lemma file_taken_for_the_data_directory:
  "fst (ensureDirectoriesExist no_fault [([''data''], File [] 0)]) = None
    \<and> Stat no_fault (snd (ensureDirectoriesExist no_fault [([''data''], File [] 0)])) ''/data/objects'' = Inl ENOTDIR"
  by code_simp

end
