(* ===== verification/Route_Wf.thy ===== *)
theory Route_Wf
  imports Router_Laws Bucket_Laws Object_Laws
begin

text \<open>
  Every route of the storage surface leaves a well-formed file system behind, whatever fails on the
  way: no file loses its directory and none becomes a directory's parent.  A handler is read as the
  sequence of the file system calls it makes, each of which keeps the tree well formed.
\<close>

named_theorems fs_keep

lemmas call_steps = Let_def case_prod_unfold

lemmas fs_calls [fs_keep] = WriteFile_wf MkdirAll_wf Rename_wf Remove_wf RemoveAll_wf write_replace_wf
  loadOrBackfillETag_wf evaluatePutConditional_wf collapse_dirs_wf

section \<open>Sidecars\<close>

lemma sidecars_keep [fs_keep]:
  assumes "fs_wf fs"
  shows "fs_wf (snd (PutBucketACL E b v fs))" "fs_wf (snd (SetObjectACL E p v fs))" "fs_wf (snd (SetObjectTags E p ts fs))"
    "fs_wf (snd (DeleteObjectTags E p fs))" "fs_wf (snd (PutBucketCORS E b c fs))" "fs_wf (snd (DeleteBucketCORS E b fs))"
  using assms
  by (simp_all add: PutBucketACL_def SetObjectACL_def SetObjectTags_def DeleteObjectTags_def PutBucketCORS_def DeleteBucketCORS_def
      call_steps fs_keep split: sum.split option.split)

section \<open>Objects\<close>

lemma stream_keep [fs_keep]: "\<lbrakk>fs_wf fs; tmp_ok E\<rbrakk> \<Longrightarrow> fs_wf (snd (streamToObject E dir dst src sf fs))"
  using streamToObject_facts(1) unfolding tmp_ok_def by (metis prod.collapse)

lemma finalize_keep [fs_keep]: "\<lbrakk>fs_wf (disk w); tmp_ok E\<rbrakk> \<Longrightarrow> fs_wf (disk (snd (finalizeObjectWrite E b dst src sf m w)))"
  by (simp add: finalizeObjectWrite_def add_bytes_def call_steps fs_keep split: option.split sum.split)

lemma counters_disk [simp]:
  "disk (RecordObjectUpload b n w) = disk w" "disk (RecordObjectDownload b n w) = disk w" "disk (RecordObjectDelete b w) = disk w"
  "disk (auditACLChange E r kind b key old new w) = disk w" "disk (add_bytes b i w) = disk w" "disk (gauge_add i w) = disk w"
  by (simp_all add: RecordObjectUpload_def RecordObjectDownload_def RecordObjectDelete_def auditACLChange_def add_bytes_def gauge_add_def Let_def)

lemma upload_keep [fs_keep]: "\<lbrakk>fs_wf (disk w); tmp_ok E\<rbrakk> \<Longrightarrow> fs_wf (disk (snd (UploadObjectHandler E r w)))"
  by (simp add: UploadObjectHandler_def upload_check_def upload_commit_def call_steps fs_keep split: option.split sum.split)

lemma serve_disk: "disk (snd (serve_object E r p hs n w)) = disk w"
  by (auto simp: serve_object_def Let_def split: node.splits)

lemma download_keep [fs_keep]: "fs_wf (disk w) \<Longrightarrow> fs_wf (disk (snd (DownloadObjectHandler E r w)))"
  by (simp add: DownloadObjectHandler_def call_steps serve_disk fs_keep split: option.split sum.split)

lemma metadata_keep [fs_keep]: "fs_wf (disk w) \<Longrightarrow> fs_wf (disk (snd (GetObjectMetadataHandler E r w)))"
  by (simp add: GetObjectMetadataHandler_def call_steps fs_keep split: option.split sum.split)

lemma remove_keep [fs_keep]: "fs_wf (disk w) \<Longrightarrow> fs_wf (disk (snd (removeObject E b k w)))"
  by (simp add: removeObject_def remove_finish_disk call_steps fs_keep split: option.split sum.split)

lemma delete_keep [fs_keep]: "fs_wf (disk w) \<Longrightarrow> fs_wf (disk (snd (DeleteObjectHandler E r w)))"
  by (simp add: DeleteObjectHandler_def call_steps fs_keep split: option.split)

lemma copy_write_keep [fs_keep]: "\<lbrakk>fs_wf (disk w); tmp_ok E\<rbrakk> \<Longrightarrow> fs_wf (disk (snd (copy_write E r k src acl m w)))"
  by (simp add: copy_write_def call_steps fs_keep split: option.split sum.split)

lemma copy_keep [fs_keep]: "\<lbrakk>fs_wf (disk w); tmp_ok E\<rbrakk> \<Longrightarrow> fs_wf (disk (snd (CopyObjectHandler E r w)))"
  by (simp add: CopyObjectHandler_def call_steps fs_keep split: option.split sum.split)

lemma delete_keys_keep [fs_keep]: "fs_wf (disk w) \<Longrightarrow> fs_wf (disk (snd (delete_keys E b ks w)))"
  by (induction ks arbitrary: w) (simp_all add: call_steps fs_keep split: option.split sum.split)

lemma batch_keep [fs_keep]: "fs_wf (disk w) \<Longrightarrow> fs_wf (disk (snd (DeleteObjectsHandler E r w)))"
  by (simp add: DeleteObjectsHandler_def call_steps fs_keep split: option.split sum.split)

section \<open>Buckets and subresources\<close>

lemma resolve_keep [fs_keep]: "fs_wf fs \<Longrightarrow> fs_wf (snd (resolve_items E b base its fs))"
proof (induction its arbitrary: fs)
  case (Cons it its)
  then show ?case by (cases it) (simp_all add: call_steps fs_keep split: sum.split)
qed simp

lemma listing_keep [fs_keep]: "fs_wf (disk w) \<Longrightarrow> fs_wf (disk (snd (ListObjectsHandler E r w)))"
  by (simp add: ListObjectsHandler_def list_page_def call_steps fs_keep split: sum.split)

lemmas create_bucket_keep [fs_keep] = CreateBucket_wf

lemma subresource_keep [fs_keep]:
  assumes "fs_wf (disk w)"
  shows "fs_wf (disk (snd (PutBucketACLHandler E r w)))" "fs_wf (disk (snd (PutObjectACLHandler E r w)))"
    "fs_wf (disk (snd (PutObjectTaggingHandler E r w)))" "fs_wf (disk (snd (DeleteObjectTaggingHandler E r w)))"
    "fs_wf (disk (snd (PutBucketCORSHandler E r w)))" "fs_wf (disk (snd (DeleteBucketCORSHandler E r w)))"
    "fs_wf (disk (snd (DeleteBucketHandler E r w)))"
  using assms
  by (simp_all add: PutBucketACLHandler_def PutObjectACLHandler_def PutObjectTaggingHandler_def DeleteObjectTaggingHandler_def
      PutBucketCORSHandler_def DeleteBucketCORSHandler_def DeleteBucketHandler_def call_steps fs_keep
      split: option.split sum.split bool.split)

section \<open>Multipart uploads\<close>

lemma create_part_keep [fs_keep]: "fs_wf fs \<Longrightarrow> fs_wf (snd (CreateMultipartUpload E b k m fs))"
  by (simp add: CreateMultipartUpload_def writeManifest_def call_steps fs_keep split: option.split sum.split)

lemma part_keep [fs_keep]: "fs_wf fs \<Longrightarrow> fs_wf (snd (UploadPart E b k uid n src sf fs))"
proof (cases "openUpload E b k uid fs")
  case (Inr ud)
  assume "fs_wf fs"
  then show ?thesis using Inr UploadPart_facts(1)[of fs E b k uid "fst ud" "snd ud" n src sf] by (metis prod.collapse)
qed (simp add: UploadPart_def)

lemma assemble_keep [fs_keep]:
  assumes "fs_wf fs"
  shows "fs_wf (snd (assemble E dir p expected fs))"
proof (cases "CreateFile (ft E) (now E) (p @ ''.mpu.tmp'') fs")
  case (Pair e fs1)
  show ?thesis
  proof (cases e)
    case (Some e')
    then show ?thesis using assms Pair CreateFile_error[of "ft E" "now E" "p @ ''.mpu.tmp''" fs] by (simp add: assemble_def Let_def)
  next
    case None
    have "fs_wf (snd (fill_file E (p @ ''.mpu.tmp'') out False fs1))" for out
      using create_fill(1)[OF assms Pair[unfolded None]] by (metis prod.collapse)
    then show ?thesis using Pair None by (simp add: assemble_def call_steps fs_keep split: option.split sum.split)
  qed
qed

lemma multipart_keep [fs_keep]:
  assumes "fs_wf fs"
  shows "fs_wf (snd (CompleteMultipartUpload E b k uid ps fs))" "fs_wf (snd (AbortMultipartUpload E b k uid fs))"
  using assms
  by (simp_all add: CompleteMultipartUpload_def finish_upload_def AbortMultipartUpload_def call_steps fs_keep
      del: SafeJoin.simps split: option.split sum.split)

lemma multipart_handlers_keep [fs_keep]:
  assumes "fs_wf (disk w)"
  shows "fs_wf (disk (snd (CreateMultipartUploadHandler E r w)))" "fs_wf (disk (snd (UploadPartHandler E r w)))"
    "fs_wf (disk (snd (CompleteMultipartUploadHandler E r w)))" "fs_wf (disk (snd (AbortMultipartUploadHandler E r w)))"
  using assms
  by (simp_all add: CreateMultipartUploadHandler_def UploadPartHandler_def CompleteMultipartUploadHandler_def AbortMultipartUploadHandler_def
      call_steps fs_keep split: option.split sum.split)

section \<open>The routes\<close>

definition keeps_tree :: "handler \<Rightarrow> bool" where
  "keeps_tree h \<longleftrightarrow> (\<forall>E r w. fs_wf (disk w) \<and> tmp_ok E \<longrightarrow> fs_wf (disk (snd (h E r w))))"

lemma dispatchers_keep:
  "keeps_tree (reading f)" "keeps_tree methodNotAllowed" "keeps_tree no_handler" "keeps_tree (dispatchBucketCORS m)"
  "keeps_tree dispatchObjectPUT" "keeps_tree (dispatchObjectGET S)" "keeps_tree dispatchObjectDELETE" "keeps_tree dispatchObjectPOST"
  "keeps_tree dispatchObjectHEAD" "keeps_tree CreateBucketHandler" "keeps_tree ListObjectsHandler" "keeps_tree DeleteBucketHandler"
  by (simp_all add: keeps_tree_def reading_def methodNotAllowed_def no_handler_def dispatchBucketCORS_def dispatchObjectPUT_def
      dispatchObjectGET_def dispatchObjectDELETE_def dispatchObjectPOST_def dispatchObjectHEAD_def fs_keep)

lemma subresource_dispatch_keeps: "keeps_tree h \<Longrightarrow> keeps_tree (dispatchBucketSubresource h m)"
  using dispatchers_keep(1-4) by (auto simp: keeps_tree_def dispatchBucketSubresource_def fs_keep)

lemma validated_keeps: "keeps_tree h \<Longrightarrow> keeps_tree (validated h)"
  by (simp add: keeps_tree_def validated_def split: sum.split)

lemma routes_keep: "RegisterStorageRoutes S rt m = Some h \<Longrightarrow> keeps_tree h"
  by (auto simp: RegisterStorageRoutes_def dispatchers_keep subresource_dispatch_keeps validated_keeps split: if_splits)

end
