(* ===== verification/Process.thy ===== *)
theory Process
  imports Startup Route_Wf
begin

text \<open>
  The running process: the two servers that \<open>run\<close> of \<open>cmd/ByteBucket/main.go\<close> assembles, over one
  state, next to the goroutines that flush events, sample the counters and clean the tables.  A step
  is one request on either port or one round of one goroutine, and steps come in any order.
\<close>

section \<open>The storage port\<close>

text \<open>
  The gin context once the chain has run: what the middlewares in front of the route have
  published.  Only a request that passes all of them carries a user.
\<close>

definition chain_context :: "env \<Rightarrow> 'db bolt \<Rightarrow> 'db \<Rightarrow> route \<Rightarrow> request \<Rightarrow> world \<Rightarrow> request" where
  "chain_context E B d rt r w =
     (if rt = RouteHealth \<or> rt = RouteFavicon then r
      else case BucketCORSMiddleware E r (disk w) of
          Inl _ \<Rightarrow> r
        | Inr _ \<Rightarrow>
            (case ValidateNames r of
               Inl _ \<Rightarrow> r
             | Inr r1 \<Rightarrow> (case AuthMiddleware E B d (disk w) r1 of Inl _ \<Rightarrow> r1 | Inr r2 \<Rightarrow> r2)))"

definition with_context :: "(request \<Rightarrow> 'w \<Rightarrow> response \<times> 'w) \<Rightarrow> (request \<Rightarrow> 'w \<Rightarrow> request) \<Rightarrow> request \<Rightarrow> 'w \<times> request \<Rightarrow> response \<times> 'w \<times> request" where
  "with_context h ctx r st = (let (resp, w) = h r (fst st) in (resp, w, ctx r (fst st)))"

text \<open>
  From the outcome counter inwards: the ban and the limiter, which are live settings, around the
  chain; then the access log and the counter see the response.
\<close>

definition storage_observed :: "('db, 'edb, 'l) request_io \<Rightarrow> time \<Rightarrow> route \<Rightarrow> request \<Rightarrow> ('db, 'edb, 'l) server
    \<Rightarrow> response \<times> ('db, 'edb, 'l) server" where
  "storage_observed Q now2 rt r s =
     (let l = live (admin s); E = live_env (rEnv Q) s; B = kv (cio (rIO Q)); d = cfgdb (admin s);
          (resp, bc, rc, w, r1) = IPBanMiddleware (lb E) (tproxy E) (now E) now2
             (RateLimitMiddleware (lb E) (rBuckets Q) (tproxy E) (now E)
                (with_context (storage_core (rSurface Q) E B d rt) (chain_context E B d rt)))
             r (banController l, rlController l, objects s, r);
          st = AccessLog (lb E) (trustedProxy l) (now E) (rObserved Q) rt r1 resp (accessLog l)
      in (resp, s\<lparr>admin := (admin s)\<lparr>live := l\<lparr>banController := bc, rlController := rc, accessLog := st\<rparr>\<rparr>,
           objects := w, classes := S3RequestOutcome rt resp (classes s)\<rparr>))"

section \<open>The two servers\<close>

text \<open>\<open>reads\<close> is how far the handler of a request reads its body, and the headers set when it does.\<close>

definition storageSrv :: "(request \<Rightarrow> nat \<times> (string \<times> string) list) \<Rightarrow> ('db, 'edb, 'l) request_io \<Rightarrow> time \<Rightarrow> string \<Rightarrow> route
    \<Rightarrow> (request \<Rightarrow> ('db, 'edb, 'l) server \<Rightarrow> response \<times> ('db, 'edb, 'l) server) http_server" where
  "storageSrv reads Q now2 rid rt =
     newServer '':9000'' (BodyLimit storageBodyLimit reads (RequestIDMiddleware rid (storage_observed Q now2 rt)))"

definition adminSrv :: "(request \<Rightarrow> nat \<times> (string \<times> string) list) \<Rightarrow> ('db, 'edb, 'l) request_io \<Rightarrow> string \<Rightarrow> admin_route
    \<Rightarrow> (request \<Rightarrow> ('db, 'edb, 'l) server \<Rightarrow> response \<times> ('db, 'edb, 'l) server) http_server" where
  "adminSrv reads Q rid rt = newServer '':9001'' (BodyLimit adminBodyLimit reads (NewAdminRouter Q rid rt))"

section \<open>The state and its steps\<close>

text \<open>Besides the servers' state: the flusher's batch and the sampler's last reading.\<close>

record ('db, 'edb, 'l) machine =
  srv :: "('db, 'edb, 'l) server"
  pending :: "Event list"
  lastOutcomes :: RequestOutcomes

definition started :: "('db, 'edb, 'l) process \<Rightarrow> fs \<Rightarrow> ('db, 'edb, 'l) machine" where
  "started p d = \<lparr>srv = \<lparr>admin = pAdmin p, adminAuth = init_admin_auth,
       objects = \<lparr>disk = d, ObjectsBytesTotal = [], s3OperationsTotal = [], s3BytesTransferredTotal = [],
                  MultipartUploadsInProgress = 0, acl_log = []\<rparr>, classes = []\<rparr>,
     pending = [], lastOutcomes = \<lparr>Success = 0, Redirect = 0, ClientError = 0, ServerError = 0\<rparr>\<rparr>"

abbreviation settings_of :: "('db, 'edb, 'l) machine \<Rightarrow> 'l settings" where
  "settings_of m \<equiv> live (admin (srv m))"

definition with_settings :: "'l settings \<Rightarrow> ('db, 'edb, 'l) machine \<Rightarrow> ('db, 'edb, 'l) machine" where
  "with_settings l m = m\<lparr>srv := (srv m)\<lparr>admin := (admin (srv m))\<lparr>live := l\<rparr>\<rparr>\<rparr>"

definition flusher_of :: "('db, 'edb, 'l) machine \<Rightarrow> 'edb flusher" where
  "flusher_of m = \<lparr>batch = pending m, flog = accessLog (settings_of m), fdb = evdb (admin (srv m))\<rparr>"

definition with_flusher :: "'edb flusher \<Rightarrow> ('db, 'edb, 'l) machine \<Rightarrow> ('db, 'edb, 'l) machine" where
  "with_flusher f m = m\<lparr>pending := batch f, srv := (srv m)\<lparr>admin := (admin (srv m))\<lparr>
     live := (settings_of m)\<lparr>accessLog := flog f\<rparr>, evdb := fdb f\<rparr>\<rparr>\<rparr>"

text \<open>The event branch of the flusher's loop, and one tick of the sampler.\<close>

definition flusher_event :: "('db, 'edb) admin_io \<Rightarrow> Event \<Rightarrow> Event list \<Rightarrow> 'edb flusher \<Rightarrow> 'edb flusher" where
  "flusher_event A e es f =
     (let f1 = take_event e es f
      in if length (batch f1) \<ge> eventFlushMaxBatch then flush (elib A) (ebolt A) (clock A) f1 else f1)"

definition sampler_round :: "('db, 'edb) admin_io \<Rightarrow> ('db, 'edb, 'l) machine \<Rightarrow> ('db, 'edb, 'l) machine" where
  "sampler_round A m =
     (let (ok, cur, db) = tick (kv (cio A)) (clock A) (requestRetentionDays (settings_of m)) (S3RequestOutcomes (classes (srv m)))
          (lastOutcomes m, cfgdb (admin (srv m)))
      in m\<lparr>lastOutcomes := cur, srv := (srv m)\<lparr>admin := (admin (srv m))\<lparr>cfgdb := db\<rparr>\<rparr>\<rparr>)"

text \<open>
  \<open>B\<close> is the database of users and settings that the process opened.  \<open>Q\<close> is what surrounds one
  step: its clock, its random draws and the calls that fail in it.
\<close>

inductive process_step :: "'db bolt \<Rightarrow> ('db, 'edb, 'l) machine \<Rightarrow> ('db, 'edb, 'l) machine \<Rightarrow> bool" for B where
  storage: "\<lbrakk>kv (cio (rIO Q)) = B; tmp_ok (rEnv Q)\<rbrakk>
     \<Longrightarrow> process_step B m (m\<lparr>srv := snd (Handler (storageSrv reads Q now2 rid rt) r (srv m))\<rparr>)"
| administration: "\<lbrakk>kv (cio (rIO Q)) = B; tmp_ok (rEnv Q)\<rbrakk>
     \<Longrightarrow> process_step B m (m\<lparr>srv := snd (Handler (adminSrv reads Q rid art) r (srv m))\<rparr>)"
| event: "\<lbrakk>kv (cio A) = B; eventCh (accessLog (settings_of m)) = e # es\<rbrakk>
     \<Longrightarrow> process_step B m (with_flusher (flusher_event A e es (flusher_of m)) m)"
| flush_tick: "kv (cio (A :: ('db, 'edb) admin_io)) = B \<Longrightarrow> process_step B m (with_flusher (flush (elib A) (ebolt A) t (flusher_of m)) m)"
| sampling: "kv (cio A) = B \<Longrightarrow> process_step B m (sampler_round A m)"
| ban_janitor: "l = settings_of m \<Longrightarrow> process_step B m
     (with_settings (l\<lparr>banController := (banController l)\<lparr>ban_store := reap t (ban_store (banController l))\<rparr>\<rparr>) m)"
| limiter_janitor: "l = settings_of m \<Longrightarrow> process_step B m
     (with_settings (l\<lparr>rlController := (rlController l)\<lparr>rc_rl := reapIdle t (rc_rl (rlController l))\<rparr>\<rparr>) m)"

text \<open>The states of a process that came up on the disk \<open>d\<close>.\<close>

inductive process_reaches :: "('db, 'edb) boot \<Rightarrow> fs \<Rightarrow> ('db, 'edb, 'l) machine \<Rightarrow> bool" for P d where
  boot: "start_up P d = (Inr p, d1) \<Longrightarrow> process_reaches P d (started p d1)"
| step: "\<lbrakk>process_reaches P d m; process_step (kv (cio (bIO P))) m m'\<rbrakk> \<Longrightarrow> process_reaches P d m'"

end
