(* ===== verification/Process_Theorems.thy ===== *)
theory Process_Theorems
  imports Process Startup_Theorems Admin_Laws Reference_Signed
begin

text \<open>
  Properties of the running process: whatever it is sent, and in whatever order its goroutines run,
  its file tree stays well formed, its memory bounded and its settings legal.
\<close>

section \<open>The invariant\<close>

definition log_sound :: "access_log \<Rightarrow> bool" where
  "log_sound st \<longleftrightarrow> length (eventCh st) \<le> eventChanCap \<and> 0 \<le> accessMaxCount st \<and> 0 \<le> accessMaxAgeNs st"

definition settings_sound :: "'l settings \<Rightarrow> bool" where
  "settings_sound s \<longleftrightarrow> ban_inv (ban_store (banController s)) \<and> ban_limit (ban_store (banController s)) = maxBanEntries
     \<and> rate_inv (rc_rl (rlController s)) \<and> log_sound (accessLog s)
     \<and> minRetentionDays \<le> requestRetentionDays s \<and> requestRetentionDays s \<le> maxRetentionDays"

definition auth_sound :: "admin_auth \<Rightarrow> bool" where
  "auth_sound st \<longleftrightarrow> admin_inv st \<and> capacity (aa_sessions st) = sessionCap \<and> limiter_capacity (aa_failures st) = loginLimiterCap"

definition server_sound :: "('db, 'edb, 'l) server \<Rightarrow> bool" where
  "server_sound s \<longleftrightarrow> fs_wf (disk (objects s)) \<and> settings_sound (live (admin s)) \<and> auth_sound (adminAuth s)"

definition process_sound :: "('db, 'edb, 'l) machine \<Rightarrow> bool" where
  "process_sound m \<longleftrightarrow> server_sound (srv m) \<and> length (pending m) < eventFlushMaxBatch"

named_theorems sound

section \<open>The settings\<close>

lemma log_setters [sound]:
  assumes "log_sound st"
  shows "log_sound (SetAccessLogEnabled b st)" "log_sound (SetAccessLogMaxEvents n st)" "log_sound (SetAccessLogMaxAge t st)"
    "log_sound (EnqueueEvent e st)" "log_sound (AccessLog L tp t0 ob rt r resp st)" "log_sound (set_access_log b n d st)"
  using assms
  by (simp_all add: log_sound_def SetAccessLogEnabled_def SetAccessLogMaxEvents_def SetAccessLogMaxAge_def EnqueueEvent_def
      AccessLog_def set_access_log_def)

lemma ban_sound [sound]:
  assumes "ban_inv (ban_store bc)" "ban_limit (ban_store bc) = maxBanEntries"
  shows "ban_inv (ban_store (ApplyIPBan c bc)) \<and> ban_limit (ban_store (ApplyIPBan c bc)) = maxBanEntries"
    "ban_inv (ban_store (fst (snd (IPBanMiddleware L tp t t' next r (bc, w)))))
      \<and> ban_limit (ban_store (fst (snd (IPBanMiddleware L tp t t' next r (bc, w))))) = maxBanEntries"
    "ban_inv (reap t (ban_store bc)) \<and> ban_limit (reap t (ban_store bc)) = maxBanEntries"
proof -
  show "ban_inv (ban_store (ApplyIPBan c bc)) \<and> ban_limit (ban_store (ApplyIPBan c bc)) = maxBanEntries"
    using ban_step_inv[OF assms(1), of "Reconfigure (Normalized c)"] assms(2) by (simp add: ApplyIPBan_def Let_def reconfigure_def)
  have "ban_limit (ban_store (fst (snd (IPBanMiddleware L tp t t' next r (bc, w))))) = ban_limit (ban_store bc)"
    by (simp add: IPBanMiddleware_def Let_def case_prod_unfold record_failure_def banned_def bannedLocked_limit ban_fail_limit split: option.split)
  then show "ban_inv (ban_store (fst (snd (IPBanMiddleware L tp t t' next r (bc, w)))))
      \<and> ban_limit (ban_store (fst (snd (IPBanMiddleware L tp t t' next r (bc, w))))) = maxBanEntries"
    using ban_enabled_inv[OF assms(1)] assms(2) by metis
  show "ban_inv (reap t (ban_store bc)) \<and> ban_limit (reap t (ban_store bc)) = maxBanEntries"
    using ban_step_inv[OF assms(1), of "Reap t"] assms(2) by (simp add: reap_def)
qed

lemma limiter_sound [sound]:
  assumes "rate_inv (rc_rl rc)"
  shows "rate_inv (rc_rl (ApplyRateLimit c rc))" "rate_inv (rc_rl (fst (snd (RateLimitMiddleware L K tp t next r (rc, w)))))"
    "rate_inv (reapIdle t (rc_rl rc))" "rate_inv (snd (allow K t key (rc_rl rc)))"
proof -
  show "rate_inv (rc_rl (ApplyRateLimit c rc))"
    using rate_step_inv[OF assms, of _ "RateReconfigure (RPS c) (Burst c)"] by (simp add: ApplyRateLimit_def)
  show "rate_inv (reapIdle t (rc_rl rc))" using rate_step_inv[OF assms, of _ "RateReap t"] by simp
  show "rate_inv (rc_rl (fst (snd (RateLimitMiddleware L K tp t next r (rc, w)))))"
    using assms by (simp add: RateLimitMiddleware_def Let_def case_prod_unfold allow_inv)
  show "rate_inv (snd (allow K t key (rc_rl rc)))" using assms by (rule allow_inv)
qed

lemma clamp_range [simp]: "minRetentionDays \<le> clampRetentionDays n" "clampRetentionDays n \<le> maxRetentionDays"
  by (simp_all add: clampRetentionDays_def minRetentionDays_def maxRetentionDays_def)

lemma applied_sound [sound]:
  assumes "settings_sound s"
  shows "settings_sound (apply_rl c s)" "settings_sound (apply_ban b s)"
  using assms by (simp_all add: settings_sound_def apply_rl_def apply_ban_def sound)

lemma updated_sound [sound]:
  assumes "settings_sound s"
  shows "settings_sound (s\<lparr>syncWrites := b\<rparr>)" "settings_sound (s\<lparr>trustedProxy := c\<rparr>)"
    "settings_sound (s\<lparr>requestRetentionDays := clampRetentionDays n\<rparr>)" "log_sound st \<Longrightarrow> settings_sound (s\<lparr>accessLog := st\<rparr>)"
    "rate_inv (rc_rl rc) \<Longrightarrow> settings_sound (s\<lparr>rlController := rc\<rparr>)"
  using assms by (simp_all add: settings_sound_def)

lemma settings_log [sound]: "settings_sound s \<Longrightarrow> log_sound (accessLog s)" "settings_sound s \<Longrightarrow> rate_inv (rc_rl (rlController s))"
  by (simp_all add: settings_sound_def)

section \<open>The admin port\<close>

lemma audit_live [simp]: "live (audit A r a t d s) = live s"
  by (simp add: audit_def)

lemma setting_handlers_sound [sound]:
  assumes "settings_sound (live s)"
  shows "settings_sound (live (snd (PutRateLimitHandler A r s)))" "settings_sound (live (snd (DeleteRateLimitHandler A r s)))"
    "settings_sound (live (snd (GetRateLimitHandler A r s)))" "settings_sound (live (snd (PutIPBanHandler A r s)))"
    "settings_sound (live (snd (DeleteIPBanHandler A r s)))" "settings_sound (live (snd (GetIPBanHandler A r s)))"
    "settings_sound (live (snd (PutSyncWritesHandler A r s)))" "settings_sound (live (snd (PutRetentionHandler A r s)))"
    "settings_sound (live (snd (PutAccessLogHandler order A r s)))" "settings_sound (live (snd (PutTrustedProxyHandler order A r s)))"
  using assms
  by (simp_all add: PutRateLimitHandler_def DeleteRateLimitHandler_def GetRateLimitHandler_def PutIPBanHandler_def DeleteIPBanHandler_def
      GetIPBanHandler_def PutSyncWritesHandler_def PutRetentionHandler_def PutAccessLogHandler_def PutTrustedProxyHandler_def
      call_steps sound split: option.split sum.split)

lemma user_handlers_live [simp]:
  "live (snd (CreateUserHandler U A r s)) = live s" "live (snd (UpdateUserHandler U ak A r s)) = live s"
  "live (snd (ListUsersHandler U A r s)) = live s" "live (snd (DeleteUserHandler ak A r s)) = live s"
  by (simp_all add: CreateUserHandler_def UpdateUserHandler_def ListUsersHandler_def DeleteUserHandler_def call_steps
      split: option.split sum.split user_error.split)

lemma read_handlers_live [simp]:
  "snd (GetWhoAmIHandler L A r s) = s" "snd (GetTrustedProxyHandler A r s) = s" "snd (GetRetentionHandler A r s) = s"
  "snd (GetAccessLogHandler A r s) = s" "snd (GetSyncWritesHandler A r s) = s"
  by (simp_all add: GetWhoAmIHandler_def GetTrustedProxyHandler_def GetRetentionHandler_def GetAccessLogHandler_def GetSyncWritesHandler_def Let_def)

definition keeps_server :: "(request \<Rightarrow> ('db, 'edb, 'l) server \<Rightarrow> response \<times> ('db, 'edb, 'l) server) \<Rightarrow> bool" where
  "keeps_server h \<longleftrightarrow> (\<forall>r s. server_sound s \<longrightarrow> server_sound (snd (h r s)))"

lemma viewing_keeps [sound]: "keeps_server (viewing f)"
  by (simp add: keeps_server_def viewing_def)

lemma on_admin_keeps: "(\<And>A r s. settings_sound (live s) \<Longrightarrow> settings_sound (live (snd (h A r s)))) \<Longrightarrow> keeps_server (on_admin Q h)"
  by (simp add: keeps_server_def on_admin_def server_sound_def call_steps)

lemma api_keeps: "api_handler Q rt m = Some h \<Longrightarrow> keeps_server h"
  by (cases rt) (auto simp: api_handler_def Let_def sound intro!: on_admin_keeps split: if_splits)

lemma s3_keeps:
  assumes "s3_handler Q rt m = Some h" "tmp_ok (rEnv Q)"
  shows "keeps_server h"
proof -
  obtain h' where reg: "RegisterStorageRoutes (rSurface Q) rt m = Some h'"
    and h: "h = (\<lambda>r s. (let (resp, w) = h' (live_env (rEnv Q) s) r (objects s); l = live (admin s);
               st = AccessLog (lb (rEnv Q)) (trustedProxy l) (now (rEnv Q)) (rObserved Q) rt r resp (accessLog l)
           in (resp, s\<lparr>objects := w, classes := S3RequestOutcome rt resp (classes s), admin := (admin s)\<lparr>live := l\<lparr>accessLog := st\<rparr>\<rparr>\<rparr>)))"
    using assms(1) by (auto simp: s3_handler_def split: option.splits)
  have "tmp_ok (live_env (rEnv Q) s)" for s :: "('a, 'b, 'c) server" using assms(2) by (simp add: tmp_ok_def live_env_def)
  then show ?thesis using routes_keep[OF reg]
    by (simp add: h keeps_server_def keeps_tree_def server_sound_def call_steps sound)
qed

lemma group_keeps: "\<lbrakk>group_handler Q rt m = Some h; tmp_ok (rEnv Q)\<rbrakk> \<Longrightarrow> keeps_server h"
  by (auto simp: group_handler_def split: admin_route.splits intro: api_keeps s3_keeps)

text \<open>The sessions and the lockout table.\<close>

lemma admin_step_sound: "auth_sound st \<Longrightarrow> auth_sound (admin_step B ev st)"
  using admin_step_inv[of st B ev] adm.cap_step[of B ev st] admin_step_failures[of B ev st] by (auto simp: auth_sound_def)

lemma auth_steps [sound]:
  assumes "auth_sound st"
  shows "auth_sound (snd (AdminAuthMiddleware E B d r st))" "auth_sound (snd (LoginHandler E B d r raw st))" "auth_sound (snd (LogoutHandler E r st))"
  using admin_step_sound[OF assms, of B "Admin_Request E d r"] admin_step_sound[OF assms, of B "Login E d r raw"]
    admin_step_sound[OF assms, of B "Logout E r"] by simp_all

lemma server_auth [sound]:
  "server_sound s \<Longrightarrow> auth_sound (adminAuth s)" "\<lbrakk>server_sound s; auth_sound aa\<rbrakk> \<Longrightarrow> server_sound (s\<lparr>adminAuth := aa\<rparr>)"
  by (simp_all add: server_sound_def)

lemma group_sound: "\<lbrakk>keeps_server h; server_sound s\<rbrakk> \<Longrightarrow> server_sound (snd (admin_group Q h r s))"
  by (simp add: admin_group_def keeps_server_def call_steps sound split: sum.split)

lemma core_sound: "\<lbrakk>tmp_ok (rEnv Q); server_sound s\<rbrakk> \<Longrightarrow> server_sound (snd (admin_core Q rt r s))"
  by (simp add: admin_core_def call_steps group_keeps group_sound sound split: option.split)

lemma admin_router_keeps:
  assumes "tmp_ok (rEnv Q)"
  shows "keeps_server (NewAdminRouter Q rid rt)"
proof -
  have "server_sound (snd (admin_limited Q (admin_core Q rt) r s))" if "server_sound s" for r s
  proof -
    let ?s1 = "s\<lparr>admin := (admin s)\<lparr>live := (live (admin s))\<lparr>rlController := (rlController (live (admin s)))
       \<lparr>rc_rl := snd (allow (rBuckets Q) (now (rEnv Q)) (ResolveClientIP (lb (rEnv Q)) (trustedProxy (live (admin s))) r) (rc_rl (rlController (live (admin s)))))\<rparr>\<rparr>\<rparr>\<rparr>"
    have "server_sound ?s1" using that by (simp add: server_sound_def sound)
    then show ?thesis using core_sound[OF assms] that
      by (simp add: admin_limited_def call_steps keeps_server_def)
  qed
  then show ?thesis by (simp add: keeps_server_def NewAdminRouter_def RequestIDMiddleware_def call_steps)
qed

section \<open>The storage port\<close>

lemma core_wf: "\<lbrakk>tmp_ok E; fs_wf (disk w)\<rbrakk> \<Longrightarrow> fs_wf (disk (snd (storage_core S E B d rt r w)))"
  using core_gates[of S E B d rt r w] routes_keep unfolding keeps_tree_def by metis

lemma with_context_world: "fst (snd (with_context h ctx r st)) = snd (h r (fst st))"
  by (simp add: with_context_def call_steps)

lemma one_of_two: "\<lbrakk>x \<in> {a, b}; P a; P b\<rbrakk> \<Longrightarrow> P x"
  by auto

lemma storage_sound:
  assumes "tmp_ok (rEnv Q)" and s: "server_sound s"
  shows "server_sound (snd (storage_observed Q now2 rt r s))"
proof -
  let ?E = "live_env (rEnv Q) s" and ?l = "live (admin s)"
  let ?chain = "with_context (storage_core (rSurface Q) ?E (kv (cio (rIO Q))) (cfgdb (admin s)) rt)
      (chain_context ?E (kv (cio (rIO Q))) (cfgdb (admin s)) rt)"
  let ?lim = "RateLimitMiddleware (lb ?E) (rBuckets Q) (tproxy ?E) (now ?E) ?chain"
  obtain resp bc rc w r1 where run: "IPBanMiddleware (lb ?E) (tproxy ?E) (now ?E) now2 ?lim r (banController ?l, rlController ?l, objects s, r)
      = (resp, bc, rc, w, r1)" by (metis surj_pair)
  have inv: "ban_inv (ban_store (banController ?l))" "ban_limit (ban_store (banController ?l)) = maxBanEntries" "rate_inv (rc_rl (rlController ?l))"
    using s by (simp_all add: server_sound_def settings_sound_def)
  have bc: "ban_inv (ban_store bc) \<and> ban_limit (ban_store bc) = maxBanEntries"
    using ban_sound(2)[OF inv(1,2), of "lb ?E" "tproxy ?E" "now ?E" now2 ?lim r "(rlController ?l, objects s, r)"] run by simp
  have either: "(rc, w, r1) \<in> {(rlController ?l, objects s, r), snd (?lim r (rlController ?l, objects s, r))}"
    using ban_world[of "lb ?E" "tproxy ?E" "now ?E" now2 ?lim r "banController ?l" "(rlController ?l, objects s, r)"] run by simp
  have "rate_inv (rc_rl (fst (snd (?lim r (rlController ?l, objects s, r)))))" by (rule limiter_sound(2)[OF inv(3)])
  moreover have "fs_wf (disk (fst (snd (snd (?lim r (rlController ?l, objects s, r))))))"
    using rate_world[of "lb ?E" "rBuckets Q" "tproxy ?E" "now ?E" ?chain r "rlController ?l" "(objects s, r)"]
      core_wf[of ?E "objects s" "rSurface Q" "kv (cio (rIO Q))" "cfgdb (admin s)" rt r] s assms
    by (auto simp: with_context_world server_sound_def tmp_ok_def live_env_def)
  ultimately have "rate_inv (rc_rl rc) \<and> fs_wf (disk w)"
    using one_of_two[OF either, of "\<lambda>x. rate_inv (rc_rl (fst x)) \<and> fs_wf (disk (fst (snd x)))"] inv(3) s by (simp add: server_sound_def)
  then show ?thesis
    using s bc by (simp add: storage_observed_def run Let_def server_sound_def settings_sound_def log_setters)
qed

lemma storage_keeps: "tmp_ok (rEnv Q) \<Longrightarrow> keeps_server (storage_observed Q now2 rt)"
  by (simp add: keeps_server_def storage_sound)

lemma request_id_keeps: "keeps_server h \<Longrightarrow> keeps_server (RequestIDMiddleware rid h)"
  by (simp add: keeps_server_def RequestIDMiddleware_def call_steps)

lemma body_limit_keeps: "keeps_server h \<Longrightarrow> keeps_server (BodyLimit n reads h)"
  by (auto simp add: keeps_server_def BodyLimit_def call_steps split: prod.splits)

lemma servers_keep:
  assumes "tmp_ok (rEnv Q)"
  shows "keeps_server (Handler (storageSrv reads Q now2 rid rt))" "keeps_server (Handler (adminSrv reads Q rid art))"
  using assms by (simp_all add: storageSrv_def adminSrv_def newServer_def body_limit_keeps request_id_keeps storage_keeps admin_router_keeps)

section \<open>The goroutines\<close>

lemma flush_log: "log_sound (flog f) \<Longrightarrow> log_sound (flog (flush L B t f))" "batch (flush L B t f) = []"
  by (simp_all add: flush_def log_sound_def)

lemma flusher_event_sound:
  assumes "log_sound (flog f)" "eventCh (flog f) = e # es"
  shows "log_sound (flog (flusher_event A e es f)) \<and> length (batch (flusher_event A e es f)) < eventFlushMaxBatch"
proof -
  have "log_sound (flog (take_event e es f))" using assms by (simp add: log_sound_def take_event_def)
  then show ?thesis
    by (simp add: flusher_event_def Let_def flush_log not_le) (simp add: eventFlushMaxBatch_def)
qed

lemma with_flusher_sound:
  "\<lbrakk>process_sound m; log_sound (flog f); length (batch f) < eventFlushMaxBatch\<rbrakk> \<Longrightarrow> process_sound (with_flusher f m)"
  by (simp add: process_sound_def server_sound_def with_flusher_def updated_sound)

lemma flusher_of_log: "process_sound m \<Longrightarrow> log_sound (flog (flusher_of m))"
  by (simp add: process_sound_def server_sound_def flusher_of_def settings_sound_def)

lemma with_settings_sound: "\<lbrakk>process_sound m; settings_sound l\<rbrakk> \<Longrightarrow> process_sound (with_settings l m)"
  by (simp add: process_sound_def server_sound_def with_settings_def)

lemma step_sound:
  assumes "process_step B m m'" "process_sound m"
  shows "process_sound m'"
  using assms
proof cases
  case (storage Q reads now2 rid rt r)
  then show ?thesis using servers_keep(1)[of Q reads now2 rid rt] assms(2) by (simp add: process_sound_def keeps_server_def)
next
  case (administration Q reads rid art r)
  then show ?thesis using servers_keep(2)[of Q reads rid art] assms(2) by (simp add: process_sound_def keeps_server_def)
next
  case (event A e es)
  have "eventCh (flog (flusher_of m)) = e # es" using event by (simp add: flusher_of_def)
  from flusher_event_sound[OF flusher_of_log[OF assms(2)] this, of A] show ?thesis
    unfolding event(1) by (intro with_flusher_sound[OF assms(2)]) simp_all
next
  case (flush_tick A t)
  show ?thesis unfolding flush_tick(1)
    by (intro with_flusher_sound[OF assms(2)]) (simp_all add: flush_log flusher_of_log[OF assms(2)] eventFlushMaxBatch_def)
next
  case (sampling A)
  then show ?thesis using assms(2) by (simp add: sampler_round_def call_steps process_sound_def server_sound_def)
next
  case (ban_janitor l t)
  then show ?thesis using assms(2) ban_sound(3)[of "banController l" t]
    by (simp add: with_settings_def process_sound_def server_sound_def settings_sound_def)
next
  case (limiter_janitor l t)
  then show ?thesis using assms(2) limiter_sound(3)[of "rlController l" t]
    by (simp add: with_settings_def process_sound_def server_sound_def settings_sound_def)
qed

section \<open>Start-up\<close>

lemma package_sound: "settings_sound package_settings"
proof -
  have "0 < maxBanEntries" by (simp add: maxBanEntries_def)
  then have "ban_inv (ban_store (NewIPBanController DefaultIPBanConfig))" "ban_limit (ban_store (NewIPBanController DefaultIPBanConfig)) = maxBanEntries"
    by (simp_all add: NewIPBanController_def Let_def newBanStore_inv) (simp add: newBanStore_def reconfigure_def)
  then show ?thesis
    by (simp add: settings_sound_def package_settings_def NewRateLimitController_def newRateLimiter_inv log_sound_def init_access_log_def
        defaultRetentionDays_def minRetentionDays_def maxRetentionDays_def Hour_def Minute_def Second_def)
qed

lemma new_controllers_sound [sound]:
  "settings_sound s \<Longrightarrow> settings_sound (s\<lparr>rlController := NewRateLimitController c, rlEnv := e\<rparr>)"
  "settings_sound s \<Longrightarrow> settings_sound (s\<lparr>banController := NewIPBanController b, banEnv := e'\<rparr>)"
proof -
  have "0 < maxBanEntries" by (simp add: maxBanEntries_def)
  then have "ban_inv (ban_store (NewIPBanController b))" "ban_limit (ban_store (NewIPBanController b)) = maxBanEntries"
    by (simp_all add: NewIPBanController_def Let_def newBanStore_inv) (simp add: newBanStore_def reconfigure_def)
  then show "settings_sound s \<Longrightarrow> settings_sound (s\<lparr>banController := NewIPBanController b, banEnv := e'\<rparr>)"
    by (simp add: settings_sound_def)
  show "settings_sound s \<Longrightarrow> settings_sound (s\<lparr>rlController := NewRateLimitController c, rlEnv := e\<rparr>)"
    by (simp add: settings_sound_def NewRateLimitController_def newRateLimiter_inv)
qed

lemma stored_log_sound: "log_sound st \<Longrightarrow> log_sound (snd (InitAccessLogFromStore A d st))"
  by (simp add: InitAccessLogFromStore_def Let_def apply_text_def apply_int_def log_setters split: sum.split option.split)

lemma init_steps_sound [sound]:
  "\<lbrakk>initSyncWrites B db s = Some s1; settings_sound s\<rbrakk> \<Longrightarrow> settings_sound s1"
  "\<lbrakk>initRetention B db s = Some s1; settings_sound s\<rbrakk> \<Longrightarrow> settings_sound s1"
  "\<lbrakk>initAccessLog B db s = Some s1; settings_sound s\<rbrakk> \<Longrightarrow> settings_sound s1"
  "\<lbrakk>initTrustedProxy B db s = Some s1; settings_sound s\<rbrakk> \<Longrightarrow> settings_sound s1"
  "\<lbrakk>initRateLimit B db s = Some s1; settings_sound s\<rbrakk> \<Longrightarrow> settings_sound s1"
  "\<lbrakk>initIPBan B db s = Some s1; settings_sound s\<rbrakk> \<Longrightarrow> settings_sound s1"
proof -
  show "settings_sound s1" if "initSyncWrites B db s = Some s1" "settings_sound s"
    using that by (auto simp: initSyncWrites_def InitSyncWritesFromStore_def Let_def sound split: sum.splits option.splits)
  show "settings_sound s1" if "initRetention B db s = Some s1" "settings_sound s"
    using that by (auto simp: initRetention_def InitRequestRetentionFromStore_def Let_def sound split: sum.splits option.splits)
  show "settings_sound s1" if "initAccessLog B db s = Some s1" "settings_sound s"
    using that stored_log_sound[of "env_access_log (bEnv B) (accessLog s)" "bIO B" db]
    by (auto simp: initAccessLog_def env_access_log_def Let_def sound split: prod.splits if_splits)
  show "settings_sound s1" if "initTrustedProxy B db s = Some s1" "settings_sound s"
    using that by (auto simp: initTrustedProxy_def sound split: prod.splits if_splits)
  show "settings_sound s1" if "initRateLimit B db s = Some s1" "settings_sound s"
    using that by (auto simp: initRateLimit_def InitRateLimitFromStore_def Let_def sound split: sum.splits option.splits)
  show "settings_sound s1" if "initIPBan B db s = Some s1" "settings_sound s"
    using that by (auto simp: initIPBan_def InitIPBanFromStore_def Let_def sound split: sum.splits option.splits)
qed

lemma init_settings_sound:
  assumes "init_settings B db = Inr s"
  shows "settings_sound s"
proof -
  obtain s1 s2 s3 s4 s5 where "initSyncWrites B db package_settings = Some s1" "initRetention B db s1 = Some s2" "initAccessLog B db s2 = Some s3"
    "initTrustedProxy B db s3 = Some s4" "initRateLimit B db s4 = Some s5" "initIPBan B db s5 = Some s"
    using assms by (auto simp: init_settings_def split: option.splits)
  with package_sound show ?thesis by (metis init_steps_sound)
qed

lemma ensure_dirs_wf: "fs_wf d \<Longrightarrow> fs_wf (snd (ensure_dirs F dirs d))"
  by (induction dirs arbitrary: d) (simp_all add: call_steps MkdirAll_wf split: sum.split option.split)

lemma stores_wf:
  assumes "fs_wf d"
  shows "fs_wf (snd (ensureDirectoriesExist F d))" "fs_wf (snd (InitUserStore B f d))" "fs_wf (snd (InitEventStore B f d))"
  using assms
  by (simp_all add: InitUserStore_def InitEventStore_def ensureDataDirExists_def ensureDirectoriesExist_def call_steps MkdirAll_wf ensure_dirs_wf
      del: ensure_dirs.simps split: sum.split option.split)

lemma initStores_wf: "fs_wf d \<Longrightarrow> fs_wf (snd (initStores B d))"
  by (simp add: initStores_def case_prod_unfold stores_wf split: sum.split option.split)

lemma started_sound:
  assumes "start_up B d = (Inr p, d1)" "fs_wf d"
  shows "process_sound (started p d1)"
proof -
  obtain key db edb s where st: "initStores B d = (Inr (key, db, edb), d1)" and ini: "init_settings B db = Inr s" and p: "live (pAdmin p) = s"
    using assms(1) by (auto simp: start_up_def split: prod.splits sum.splits)
  have "fs_wf d1" using initStores_wf[OF assms(2), of B] st by simp
  moreover have "auth_sound init_admin_auth"
    using admin_inv_init by (simp add: auth_sound_def init_admin_auth_def sessions_def newSessionStore_def failures_def newFailureLimiter_def)
  ultimately show ?thesis
    using init_settings_sound[OF ini] p by (simp add: process_sound_def server_sound_def started_def eventFlushMaxBatch_def)
qed

lemma reaches_sound: "\<lbrakk>process_reaches P d m; fs_wf d\<rbrakk> \<Longrightarrow> process_sound m"
  by (induction rule: process_reaches.induct) (auto intro: started_sound step_sound)

text \<open>C4: the process stays sound. From any successful start on a well-formed disk, over every
  interleaving of requests on both ports with the flusher, the sampler and the janitors, whatever
  file system or database call fails on the way: the file tree is well formed, every table in
  memory is within its cap and the retention setting is legal.\<close>

theorem process_stays_sound:
  assumes "process_reaches P d m" "fs_wf d"
  shows "fs_wf (disk (objects (srv m)))
    \<and> length (byDigest (aa_sessions (adminAuth (srv m)))) \<le> 1024 \<and> length (byKey (aa_failures (adminAuth (srv m)))) \<le> 4096
    \<and> length (fails (ban_store (banController (settings_of m)))) \<le> maxBanEntries
    \<and> length (bans (ban_store (banController (settings_of m)))) \<le> maxBanEntries
    \<and> length (rl_entries (rc_rl (rlController (settings_of m)))) \<le> maxLimiterEntries
    \<and> length (eventCh (accessLog (settings_of m))) \<le> eventChanCap \<and> length (pending m) < eventFlushMaxBatch
    \<and> 1 \<le> requestRetentionDays (settings_of m) \<and> requestRetentionDays (settings_of m) \<le> 365"
  using reaches_sound[OF assms]
  by (auto simp: process_sound_def server_sound_def settings_sound_def auth_sound_def admin_inv_def session_inv_def limiter_inv_def
      ban_inv_def rate_inv_def log_sound_def sessionCap_def loginLimiterCap_def minRetentionDays_def maxRetentionDays_def)

lemma process_stays_sound_witness:
  "\<exists>m :: (ref_db, seq_db, unit) machine. process_reaches (ref_boot ref_getenv []) (disk ref_world) m \<and> fs_wf (disk (objects (srv m)))
     \<and> length (eventCh (accessLog (settings_of m))) \<le> eventChanCap"
proof -
  let ?B = "ref_boot ref_getenv []"
  have i: "no_overrides ?B (fst (initStores ?B (disk ref_world)))" by code_simp
  have f: "kv (cio (bIO ?B)) = refusing []" "read_fails (cio (bIO ?B)) = (\<lambda>_. False)" by (simp_all add: ref_boot_def ref_io_def)
  obtain P :: "(ref_db, seq_db, unit) process" and d' where up: "start_up ?B (disk ref_world) = (Inr P, d')"
    using ref_boot_comes_up[OF f(2) i] by blast
  have "kv (cio (rIO ref_request_io)) = kv (cio (bIO ?B))" "tmp_ok (rEnv ref_request_io)"
    by (simp_all add: ref_request_io_def ref_boot_def) code_simp
  from process_reaches.step[OF process_reaches.boot[OF up] process_step.storage[OF this]]
  obtain m :: "(ref_db, seq_db, unit) machine" where m: "process_reaches ?B (disk ref_world) m" by blast
  then show ?thesis using process_stays_sound[OF m ref_world_wf] by blast
qed

section \<open>The gauge of open uploads\<close>

text \<open>The gauge starts at zero with the process while uploads survive on the disk: aborting, after a
  restart, an upload that was created before it takes the gauge below zero.\<close>

lemma open_uploads_gauge_below_zero:
  "let d = disk (snd (CreateMultipartUploadHandler ref_env (ref_request ''POST'' ''bkt'' ''a'' []) ref_world));
       w = objects (srv (started (\<lparr>pKey = [], pAdmin = ref_admin, pPublicBase = []\<rparr>) d));
       r = (ref_request ''DELETE'' ''bkt'' ''a'' [])\<lparr>req_query := [(''uploadId'', [uuid ref_env])]\<rparr>
   in status (fst (AbortMultipartUploadHandler ref_env r w)) = 204 \<and> MultipartUploadsInProgress (snd (AbortMultipartUploadHandler ref_env r w)) = -1"
  by code_simp

end
