(* ===== verification/Users_Change.thy ===== *)
theory Users_Change
  imports Process_Theorems
begin

section \<open>Who changes the users\<close>

text \<open>The record of the user \<open>k\<close>, as it is stored.\<close>

definition stored_user :: "'db bolt \<Rightarrow> string \<Rightarrow> ('db, 'edb, 'l) server \<Rightarrow> bytes option" where
  "stored_user B k s = bget B users_bucket k (cfgdb (admin s))"

definition keeps_user :: "'db bolt \<Rightarrow> string \<Rightarrow> (request \<Rightarrow> ('db, 'edb, 'l) server \<Rightarrow> response \<times> ('db, 'edb, 'l) server) \<Rightarrow> bool" where
  "keeps_user B k h \<longleftrightarrow> (\<forall>r s. stored_user B k (snd (h r s)) = stored_user B k s)"

lemma config_users:
  assumes "bolt_ok (kv C)"
  shows "PutConfigValue C key v d = Some d' \<Longrightarrow> bget (kv C) users_bucket k d' = bget (kv C) users_bucket k d"
    "DeleteConfigValue C key d = Some d' \<Longrightarrow> bget (kv C) users_bucket k d' = bget (kv C) users_bucket k d"
    "bget (kv C) users_bucket k (snd (put_all C kvs d)) = bget (kv C) users_bucket k d"
proof -
  have ne: "users_bucket \<noteq> configBucket" by (simp add: users_bucket_def configBucket_def)
  show put: "PutConfigValue C key v d = Some d' \<Longrightarrow> bget (kv C) users_bucket k d' = bget (kv C) users_bucket k d" for key v d d'
    using bolt_put[OF assms, of configBucket key v d d'] ne by (simp add: PutConfigValue_def)
  show "DeleteConfigValue C key d = Some d' \<Longrightarrow> bget (kv C) users_bucket k d' = bget (kv C) users_bucket k d"
    using bolt_delete[OF assms, of configBucket key d d'] ne by (simp add: DeleteConfigValue_def)
  show "bget (kv C) users_bucket k (snd (put_all C kvs d)) = bget (kv C) users_bucket k d"
    by (induction kvs arbitrary: d) (auto simp: put split: option.split)
qed

lemma audit_cfgdb [simp]: "cfgdb (audit A r a t d s) = cfgdb s"
  by (simp add: audit_def)

lemma setting_handlers_users:
  assumes "bolt_ok (kv (cio A))"
  shows "bget (kv (cio A)) users_bucket k (cfgdb (snd (PutRateLimitHandler A r s))) = bget (kv (cio A)) users_bucket k (cfgdb s)"
    "bget (kv (cio A)) users_bucket k (cfgdb (snd (DeleteRateLimitHandler A r s))) = bget (kv (cio A)) users_bucket k (cfgdb s)"
    "bget (kv (cio A)) users_bucket k (cfgdb (snd (GetRateLimitHandler A r s))) = bget (kv (cio A)) users_bucket k (cfgdb s)"
    "bget (kv (cio A)) users_bucket k (cfgdb (snd (PutIPBanHandler A r s))) = bget (kv (cio A)) users_bucket k (cfgdb s)"
    "bget (kv (cio A)) users_bucket k (cfgdb (snd (DeleteIPBanHandler A r s))) = bget (kv (cio A)) users_bucket k (cfgdb s)"
    "bget (kv (cio A)) users_bucket k (cfgdb (snd (GetIPBanHandler A r s))) = bget (kv (cio A)) users_bucket k (cfgdb s)"
    "bget (kv (cio A)) users_bucket k (cfgdb (snd (PutSyncWritesHandler A r s))) = bget (kv (cio A)) users_bucket k (cfgdb s)"
    "bget (kv (cio A)) users_bucket k (cfgdb (snd (PutRetentionHandler A r s))) = bget (kv (cio A)) users_bucket k (cfgdb s)"
    "bget (kv (cio A)) users_bucket k (cfgdb (snd (PutAccessLogHandler order A r s))) = bget (kv (cio A)) users_bucket k (cfgdb s)"
    "bget (kv (cio A)) users_bucket k (cfgdb (snd (PutTrustedProxyHandler order A r s))) = bget (kv (cio A)) users_bucket k (cfgdb s)"
    "bget (kv (cio A)) users_bucket k (cfgdb (snd (ListUsersHandler U A r s))) = bget (kv (cio A)) users_bucket k (cfgdb s)"
  by (simp_all add: PutRateLimitHandler_def DeleteRateLimitHandler_def GetRateLimitHandler_def PutIPBanHandler_def DeleteIPBanHandler_def
      GetIPBanHandler_def PutSyncWritesHandler_def PutRetentionHandler_def PutAccessLogHandler_def PutTrustedProxyHandler_def
      putConfigJSON_def ListUsersHandler_def call_steps config_users[OF assms] split: option.split sum.split)

lemma on_admin_keeps_user:
  assumes "\<And>r s. bget (kv (cio (rIO Q))) users_bucket k (cfgdb (snd (h (rIO Q) r s))) = bget (kv (cio (rIO Q))) users_bucket k (cfgdb s)"
  shows "keeps_user (kv (cio (rIO Q))) k (on_admin Q h)"
  using assms by (simp add: keeps_user_def stored_user_def on_admin_def call_steps)

lemma viewing_keeps_user: "keeps_user B k (viewing f)"
  by (simp add: keeps_user_def viewing_def)

definition user_route :: "admin_route \<Rightarrow> bool" where
  "user_route rt \<longleftrightarrow> rt = AdminApi ApiUsers \<or> (\<exists>ak. rt = AdminApi (ApiUser ak))"

lemma group_keeps_user:
  assumes "bolt_ok (kv (cio (rIO Q)))" "group_handler Q rt m = Some h" "\<not> user_route rt"
  shows "keeps_user (kv (cio (rIO Q))) k h"
proof (cases rt)
  case (AdminApi a)
  have "api_handler Q a m = Some h" using assms(2) AdminApi by (simp add: group_handler_def)
  then show ?thesis using assms(3) AdminApi
    by (cases a) (auto simp: api_handler_def Let_def user_route_def viewing_keeps_user setting_handlers_users[OF assms(1)]
        intro!: on_admin_keeps_user split: if_splits)
next
  case (AdminS3 sr)
  then show ?thesis using assms(2)
    by (auto simp: group_handler_def s3_handler_def keeps_user_def stored_user_def call_steps split: option.splits)
qed (use assms(2) in \<open>simp_all add: group_handler_def\<close>)

lemma admin_router_users:
  assumes "bolt_ok (kv (cio (rIO Q)))" "stored_user (kv (cio (rIO Q))) k (snd (NewAdminRouter Q rid rt r s)) \<noteq> stored_user (kv (cio (rIO Q))) k s"
  shows "user_route rt"
proof (rule ccontr)
  assume n: "\<not> user_route rt"
  have g: "stored_user (kv (cio (rIO Q))) k (snd (admin_group Q h r s)) = stored_user (kv (cio (rIO Q))) k s" if "group_handler Q rt m = Some h" for m h r s
    using group_keeps_user[OF assms(1) that n, of k] by (simp add: admin_group_def keeps_user_def stored_user_def call_steps split: sum.split)
  have c: "stored_user (kv (cio (rIO Q))) k (snd (admin_core Q rt r s)) = stored_user (kv (cio (rIO Q))) k s" for r s
    using g by (auto simp: admin_core_def call_steps stored_user_def split: option.split)
  have "stored_user (kv (cio (rIO Q))) k (snd (admin_limited Q (admin_core Q rt) r s)) = stored_user (kv (cio (rIO Q))) k s" for r s
    by (simp add: admin_limited_def Let_def case_prod_unfold c) (simp add: stored_user_def)
  then show False using assms(2) by (simp add: NewAdminRouter_def RequestIDMiddleware_def call_steps)
qed

lemma storage_port_users: "cfgdb (admin (snd (Handler (storageSrv reads Q now2 rid rt) r s))) = cfgdb (admin s)"
  by (simp add: storageSrv_def newServer_def BodyLimit_def RequestIDMiddleware_def storage_observed_def call_steps)

lemma delete_all_get: "\<lbrakk>bolt_ok B; b \<noteq> b'; delete_all B b ks d = Some d'\<rbrakk> \<Longrightarrow> bget B b' k d' = bget B b' k d"
  by (induction ks arbitrary: d) (auto simp: bolt_delete split: option.splits)

lemma sampler_users:
  assumes "bolt_ok (kv (cio A))"
  shows "stored_user (kv (cio A)) k (srv (sampler_round A m)) = stored_user (kv (cio A)) k (srv m)"
proof -
  have ne: "requestSamplesBucket \<noteq> users_bucket" by (simp add: users_bucket_def requestSamplesBucket_def)
  show ?thesis
    using delete_all_get[OF assms ne] bolt_put[OF assms, of requestSamplesBucket] ne
    by (auto simp: sampler_round_def stored_user_def tick_def call_steps PutRequestSample_def PruneRequestSamples_def split: option.split)
qed

text \<open>The request \<open>r\<close> as it is behind the body limit, and its acceptance for the administrator \<open>u\<close>.\<close>

definition accepted_for :: "('db, 'edb, 'l) request_io \<Rightarrow> string \<Rightarrow> request \<Rightarrow> ('db, 'edb, 'l) server \<Rightarrow> User \<Rightarrow> bool" where
  "accepted_for Q rid r s u \<longleftrightarrow> isAdmin u
     \<and> (\<exists>ak. GetUser (lb (rEnv Q)) (kv (cio (rIO Q))) ak (cfgdb (admin s)) = Inr u)
     \<and> (\<exists>r1 aa. AdminAuthMiddleware (live_env (rEnv Q) s) (kv (cio (rIO Q))) (cfgdb (admin s))
           ((limit_body (nat adminBodyLimit) r)\<lparr>ctx_requestID := rid\<rparr>) (adminAuth s) = (Inr r1, aa) \<and> ctx_user r1 = Some u)"

text \<open>C7: users change by administrators only. If any step of the process (a request on either
  port, a round of the flusher, the sampler or a janitor) changes the stored record of a user,
  then the step is a request to a user route of the admin port that the admin middleware accepted
  for a stored user who is an administrator.\<close>

theorem users_change_by_an_admin:
  assumes "bolt_ok B" "process_step B m m'" "stored_user B k (srv m') \<noteq> stored_user B k (srv m)"
  shows "\<exists>reads Q rid art r u. srv m' = snd (Handler (adminSrv reads Q rid art) r (srv m)) \<and> user_route art
    \<and> kv (cio (rIO Q)) = B \<and> accepted_for Q rid r (srv m) u"
  using assms(2)
proof cases
  case (administration Q reads rid art r)
  let ?r = "limit_body (nat adminBodyLimit) r"
  have eq: "snd (Handler (adminSrv reads Q rid art) r (srv m)) = snd (NewAdminRouter Q rid art ?r (srv m))"
    by (simp add: adminSrv_def newServer_def BodyLimit_def adminBodyLimit_def call_steps)
  then have ch: "stored_user B k (snd (NewAdminRouter Q rid art ?r (srv m))) \<noteq> stored_user B k (srv m)"
    using assms(3) administration(1) by simp
  then have "protected (snd (NewAdminRouter Q rid art ?r (srv m))) \<noteq> protected (srv m)"
    by (auto simp: protected_def stored_user_def Let_def)
  from admin_gate[OF this] obtain u where "accepted_for Q rid r (srv m) u" unfolding accepted_for_def by blast
  moreover have "user_route art" using admin_router_users ch assms(1) administration(2) by metis
  moreover have "srv m' = snd (Handler (adminSrv reads Q rid art) r (srv m))" using administration(1) by simp
  ultimately show ?thesis using administration(2) by blast
next
  case (sampling A)
  then show ?thesis using assms(1,3) sampler_users[of A k m] by simp
qed (use assms(3) in \<open>simp_all add: storage_port_users stored_user_def with_flusher_def with_settings_def\<close>)

lemma users_change_by_an_admin_witness:
  "\<exists>Q rid r u. accepted_for Q rid r ref_server u"
proof -
  let ?m = "\<lparr>srv = ref_server, pending = [], lastOutcomes = \<lparr>Success = 0, Redirect = 0, ClientError = 0, ServerError = 0\<rparr>\<rparr>"
  let ?r = "ref_put_sync\<lparr>req_method := ''DELETE''\<rparr>"
  let ?s = "snd (NewAdminRouter ref_request_io ''id'' (AdminApi (ApiUser ''AK'')) ?r ref_server)"
  have q: "kv (cio (rIO ref_request_io)) = refusing []" by (simp add: ref_request_io_def ref_io_def)
  have "tmp_ok (rEnv ref_request_io)" by code_simp
  note st = process_step.administration[OF q this, of ?m "\<lambda>_. (0, [])" "''id''" "AdminApi (ApiUser ''AK'')" ?r]
  have "limit_body (nat adminBodyLimit) ?r = ?r"
    by (simp add: limit_body_def adminBodyLimit_def ref_put_sync_def ref_request_def)
  then have eq: "snd (Handler (adminSrv (\<lambda>_. (0, [])) ref_request_io ''id'' (AdminApi (ApiUser ''AK''))) ?r ref_server) = ?s"
    by (simp add: adminSrv_def newServer_def BodyLimit_def adminBodyLimit_def call_steps)
  have "stored_user (refusing []) ''AK'' ?s \<noteq> stored_user (refusing []) ''AK'' ref_server" by code_simp
  then show ?thesis using users_change_by_an_admin[OF refusing_ok st, of "''AK''"] eq by auto
qed

end
