(* ===== verification/Observers.thy ===== *)
theory Observers
  imports Startup
begin

text \<open>
  The middlewares that watch a request without answering it: the structured request log of
  \<open>internal/middleware/log.go\<close> and the HTTP metrics of \<open>internal/middleware/metrics.go\<close>.  Both run when
  the chain has answered; \<open>fullPath\<close> is the registered route template, empty when no route matched.
\<close>

section \<open>log.go\<close>

definition levelFor :: "nat \<Rightarrow> log_level" where
  "levelFor status' = (if status' \<ge> 500 then LevelError else if status' \<ge> 400 then LevelWarn else LevelInfo)"

text \<open>An attribute with an empty value is left out; no handler of the program records a gin error.\<close>

definition log_attrs :: "lib \<Rightarrow> TrustedProxyConfig \<Rightarrow> string \<Rightarrow> observed \<Rightarrow> request \<Rightarrow> response \<Rightarrow> (string \<times> tree) list" where
  "log_attrs L tp fullPath ob r resp =
     (let path = (if fullPath = [] then req_path r else fullPath); ms = Fract (obMicroseconds ob) 1000
      in [(''method'', TStr (req_method r)), (''path'', TStr path), (''status'', TInt (int (status resp))), rat_field ''duration_ms'' ms,
          (''remote_ip'', TStr (ResolveClientIP L tp r)), (''bytes_in'', TInt (obContentLength ob)), (''bytes_out'', TInt (obWriterSize ob))]
         @ omit_empty ''request_id'' (ctx_requestID r) @ omit_empty ''auth_method'' (ctx_authMethod r)
         @ (case ctx_user r of None \<Rightarrow> [] | Some u \<Rightarrow> omit_empty ''user_access_key'' (AccessKeyID u)))"

definition Log :: "lib \<Rightarrow> TrustedProxyConfig \<Rightarrow> string \<Rightarrow> observed \<Rightarrow> request \<Rightarrow> response \<Rightarrow> log_level \<times> (string \<times> tree) list" where
  "Log L tp fullPath ob r resp = (levelFor (status resp), log_attrs L tp fullPath ob r resp)"

section \<open>metrics.go\<close>

text \<open>
  A counter per label values; a histogram is the list of the values it has observed, per label
  values, from which Prometheus derives its buckets.  Sizes and seconds are rationals.
\<close>

record http_metrics =
  httpRequestsTotal :: "((string \<times> string \<times> string) \<times> nat) list"
  httpRequestDuration :: "((string \<times> string) \<times> rat list) list"
  httpRequestSize :: "((string \<times> string) \<times> rat list) list"
  httpResponseSize :: "((string \<times> string) \<times> rat list) list"

definition no_metrics :: http_metrics where
  "no_metrics = \<lparr>httpRequestsTotal = [], httpRequestDuration = [], httpRequestSize = [], httpResponseSize = []\<rparr>"

definition Observe :: "'k \<Rightarrow> rat \<Rightarrow> ('k \<times> rat list) list \<Rightarrow> ('k \<times> rat list) list" where
  "Observe k v m = AList.update k ((case map_of m k of None \<Rightarrow> [] | Some vs \<Rightarrow> vs) @ [v]) m"

definition Metrics :: "string \<Rightarrow> observed \<Rightarrow> request \<Rightarrow> response \<Rightarrow> http_metrics \<Rightarrow> http_metrics" where
  "Metrics path ob r resp m =
     (if path = [] \<or> path = ''/metrics'' then m
      else let k = (req_method r, path);
               m1 = m\<lparr>httpRequestsTotal := bump (req_method r, path, Itoa (int (status resp))) 1 (httpRequestsTotal m),
                      httpRequestDuration := Observe k (Fract (obMicroseconds ob) 1000000) (httpRequestDuration m)\<rparr>;
               m2 = (if obContentLength ob > 0 then m1\<lparr>httpRequestSize := Observe k (of_int (obContentLength ob)) (httpRequestSize m1)\<rparr> else m1)
           in if obWriterSize ob > 0 then m2\<lparr>httpResponseSize := Observe k (of_int (obWriterSize ob)) (httpResponseSize m2)\<rparr> else m2)"

section \<open>What they keep to themselves\<close>

text \<open>The request without what may carry a credential.\<close>

definition without_secrets :: "request \<Rightarrow> request" where
  "without_secrets r = r\<lparr>req_query := [], req_header := [], req_cookie := [], req_body := [], req_body_fails := False, req_escaped_path := []\<rparr>"

lemma log_attrs_blind:
  assumes "ResolveClientIP L tp r = ResolveClientIP L tp r'" "without_secrets r = without_secrets r'"
  shows "log_attrs L tp fullPath ob r resp = log_attrs L tp fullPath ob r' resp"
proof -
  have "req_method r = req_method r'" "req_path r = req_path r'" "ctx_requestID r = ctx_requestID r'" "ctx_authMethod r = ctx_authMethod r'"
    "ctx_user r = ctx_user r'"
    using arg_cong[OF assms(2), of req_method] arg_cong[OF assms(2), of req_path] arg_cong[OF assms(2), of ctx_requestID]
      arg_cong[OF assms(2), of ctx_authMethod] arg_cong[OF assms(2), of ctx_user] by (simp_all add: without_secrets_def)
  with assms(1) show ?thesis by (simp add: log_attrs_def)
qed

text \<open>The paths among the labels.\<close>

definition label_paths :: "http_metrics \<Rightarrow> string set" where
  "label_paths m = (\<lambda>(_, p, _). p) ` fst ` set (httpRequestsTotal m) \<union> snd ` fst ` set (httpRequestDuration m)
     \<union> snd ` fst ` set (httpRequestSize m) \<union> snd ` fst ` set (httpResponseSize m)"

lemma update_keys: "fst ` set (AList.update k v m) = insert k (fst ` set m)"
proof -
  have "dom (map_of (AList.update k v m)) = insert k (dom (map_of m))" by (simp add: update_conv')
  then show ?thesis by (simp add: dom_map_of_conv_image_fst)
qed

lemma label_keys: "fst ` set (bump k n m) = insert k (fst ` set m)" "fst ` set (Observe k' v m') = insert k' (fst ` set m')"
  by (simp_all only: bump_def Observe_def update_keys)

lemma Metrics_labels: "label_paths (Metrics path ob r resp m) \<subseteq> insert path (label_paths m)"
  "path = [] \<or> path = ''/metrics'' \<Longrightarrow> Metrics path ob r resp m = m"
proof -
  show same: "path = [] \<or> path = ''/metrics'' \<Longrightarrow> Metrics path ob r resp m = m" by (simp add: Metrics_def)
  show "label_paths (Metrics path ob r resp m) \<subseteq> insert path (label_paths m)"
  proof (cases "path = [] \<or> path = ''/metrics''")
    case True
    then show ?thesis using same by (simp add: subset_insertI)
  next
    case False
    then show ?thesis
      by (simp add: Metrics_def Let_def label_paths_def label_keys) blast
  qed
qed

end
