(* ===== verification/Web_Ui.thy ===== *)
theory Web_Ui
  imports Reference_Env
begin

text \<open>
  \<open>internal/webui/webui.go\<close>: the handler that serves the embedded single-page app below every path of
  the admin port that is no API route.  The bundle is built outside the repository: it is a function
  from names to what is embedded under \<open>dist/\<close>.
\<close>

datatype bundled = BundleDir | BundleFile bytes

type_synonym web_bundle = "string \<Rightarrow> bundled option"

section \<open>fs\<close>

text \<open>\<open>fs.ValidPath\<close>, and \<open>Open\<close> on the sub-tree: a name that is not valid is an error other than
  \<open>ErrNotExist\<close>.\<close>

definition ValidPath :: "string \<Rightarrow> bool" where
  "ValidPath name \<longleftrightarrow> ValidString name \<and> (name = ''.'' \<or> list_all (\<lambda>e. e \<noteq> [] \<and> e \<noteq> ''.'' \<and> e \<noteq> ''..'') (Split CHR ''/'' name))"

datatype open_error = ErrNotExist | ErrInvalid

definition fs_open :: "web_bundle \<Rightarrow> string \<Rightarrow> open_error + bundled" where
  "fs_open dist name =
     (if \<not> ValidPath name then Inl ErrInvalid
      else case dist name of None \<Rightarrow> Inl ErrNotExist | Some n \<Rightarrow> Inr n)"

section \<open>The policy\<close>

text \<open>\<open>SetMediaOrigin\<close>: the origin the content security policy admits besides its own.\<close>

definition SetMediaOrigin :: "lib \<Rightarrow> string \<Rightarrow> string" where
  "SetMediaOrigin L raw =
     (let s = TrimSpace raw
      in case url_Host L s of
           None \<Rightarrow> []
         | Some host \<Rightarrow>
             if host = [] \<or> (url_Scheme L s \<noteq> ''http'' \<and> url_Scheme L s \<noteq> ''https'') then []
             else url_Scheme L s @ ''://'' @ host)"

definition csp :: "string \<Rightarrow> string" where
  "csp mediaOrigin =
     (let extra = (if mediaOrigin \<noteq> [] then '' '' @ mediaOrigin else [])
      in ''default-src 'self'; img-src 'self' data: blob:'' @ extra @ ''; media-src 'self' blob:'' @ extra @
         ''; frame-src 'self' blob:'' @ extra @ ''; style-src 'self'; script-src 'self'; connect-src 'self'; '' @
         ''font-src 'self' data:; object-src 'none'; frame-ancestors 'none'; base-uri 'self'; form-action '' @ CHR 0x27 # ''self'' @ [CHR 0x27])"

text \<open>The inline page of a binary built without the bundle.\<close>

definition fallbackIndex :: bytes where
  "fallbackIndex = Join ''\<newline>''
     [''<!doctype html>'',
      ''<html><head><meta charset='' @ [CHR 0x22] @ ''utf-8'' @ [CHR 0x22] @ ''><title>ByteBucket</title></head>'',
      ''<body><p>Admin UI not built. Run <code>make ui</code> (local) or rebuild the Docker image (production).</p></body></html>'', []]"

section \<open>The handler\<close>

text \<open>What is handed to \<open>http.ServeContent\<close>; embedded files have no modification time.\<close>

record content =
  cName :: string
  cModTime :: "time option"
  cData :: bytes

datatype spa_answer = Refused nat string | Served content

definition security_headers :: "string \<Rightarrow> (string \<times> string) list" where
  "security_headers mediaOrigin =
     set_header ''Content-Security-Policy'' (csp mediaOrigin)
       (set_header ''Referrer-Policy'' ''no-referrer''
         (set_header ''X-Content-Type-Options'' ''nosniff'' (set_header ''X-Frame-Options'' ''DENY'' [])))"

definition index_content :: "web_bundle \<Rightarrow> time \<Rightarrow> content" where
  "index_content dist buildTime =
     \<lparr>cName = ''index.html'', cModTime = Some buildTime,
      cData = (case dist ''index.html'' of Some (BundleFile b) \<Rightarrow> b | _ \<Rightarrow> fallbackIndex)\<rparr>"

definition serveIndex :: "web_bundle \<Rightarrow> time \<Rightarrow> (string \<times> string) list \<Rightarrow> spa_answer \<times> (string \<times> string) list" where
  "serveIndex dist buildTime hs =
     (Served (index_content dist buildTime),
      set_header ''Cache-Control'' ''no-cache'' (set_header ''Content-Type'' ''text/html; charset=utf-8'' hs))"

definition ServeHTTP :: "web_bundle \<Rightarrow> time \<Rightarrow> string \<Rightarrow> request \<Rightarrow> spa_answer \<times> (string \<times> string) list" where
  "ServeHTTP dist buildTime mediaOrigin r =
     (if req_method r \<noteq> ''GET'' \<and> req_method r \<noteq> ''HEAD'' then (Refused 405 ''method not allowed'', [])
      else let hs = security_headers mediaOrigin; clean = Clean (CHR ''/'' # TrimPrefix (req_path r) ''/'')
           in if clean = ''/'' then serveIndex dist buildTime hs
              else let name = TrimPrefix clean ''/''
                   in if name = [] \<or> Contains name ''..'' then serveIndex dist buildTime hs
                      else case fs_open dist name of
                          Inl ErrNotExist \<Rightarrow> serveIndex dist buildTime hs
                        | Inl ErrInvalid \<Rightarrow> (Refused 500 ''internal error'', hs)
                        | Inr BundleDir \<Rightarrow> serveIndex dist buildTime hs
                        | Inr (BundleFile b) \<Rightarrow> (Served \<lparr>cName = last (Split CHR ''/'' name), cModTime = None, cData = b\<rparr>, hs))"

text \<open>The icon the storage surface serves as well.\<close>

definition bundle_icon :: "web_bundle \<Rightarrow> bytes option" where
  "bundle_icon dist = (case dist ''favicon.ico'' of Some (BundleFile b) \<Rightarrow> Some b | _ \<Rightarrow> None)"

section \<open>What it serves\<close>

lemma security_header_names:
  "CanonicalHeaderKey ''X-Frame-Options'' = ''X-Frame-Options''" "CanonicalHeaderKey ''X-Content-Type-Options'' = ''X-Content-Type-Options''"
  "CanonicalHeaderKey ''Referrer-Policy'' = ''Referrer-Policy''" "CanonicalHeaderKey ''Content-Security-Policy'' = ''Content-Security-Policy''"
  "CanonicalHeaderKey ''Cache-Control'' = ''Cache-Control''" "CanonicalHeaderKey ''Content-Type'' = ''Content-Type''"
  by code_simp+

lemma security_headers_get [simp]:
  "map_of (security_headers mo) ''X-Frame-Options'' = Some ''DENY''" "map_of (security_headers mo) ''X-Content-Type-Options'' = Some ''nosniff''"
  "map_of (security_headers mo) ''Referrer-Policy'' = Some ''no-referrer''" "map_of (security_headers mo) ''Content-Security-Policy'' = Some (csp mo)"
  by (simp_all add: security_headers_def map_of_set_header security_header_names csp_def Let_def)

lemma serveIndex_get [simp]:
  "fst (serveIndex dist t hs) = Served (index_content dist t)"
  "h \<noteq> ''Cache-Control'' \<Longrightarrow> h \<noteq> ''Content-Type'' \<Longrightarrow> map_of (snd (serveIndex dist t hs)) h = map_of hs h"
  by (simp_all add: serveIndex_def map_of_set_header security_header_names)

text \<open>A rooted path never cleans to a lone dot.\<close>

lemma Clean_no_dot: "Clean (CHR ''/'' # s) \<noteq> ''/.''"
proof
  let ?out = "clean_segs True (Split CHR ''/'' (CHR ''/'' # s))"
  assume "Clean (CHR ''/'' # s) = ''/.''"
  then have j: "Join ''/'' ?out = ''.''" by (simp add: Clean_def Let_def)
  then obtain x where "?out = [x]" by (cases ?out; cases "tl ?out") (auto simp: append_eq_Cons_conv)
  with j have "''.'' \<in> set ?out" by simp
  then show False using foldl_clean_mem[of "''.''" True "[]" "Split CHR ''/'' (CHR ''/'' # s)"] by (simp only: clean_segs_def set_rev) simp
qed

lemma bundled_file:
  assumes "fs_open dist name = Inr (BundleFile b)" "name \<noteq> ''.''"
  shows "list_all proper_seg (Split CHR ''/'' name)" "dist (Join ''/'' (Split CHR ''/'' name)) = Some (BundleFile b)"
proof -
  have "list_all (\<lambda>e. e \<noteq> [] \<and> e \<noteq> ''.'' \<and> e \<noteq> ''..'') (Split CHR ''/'' name)"
    using assms by (auto simp: fs_open_def ValidPath_def split: if_splits)
  then show "list_all proper_seg (Split CHR ''/'' name)"
    by (auto simp: list_all_iff proper_seg_def dest: Split_no_sep)
  show "dist (Join ''/'' (Split CHR ''/'' name)) = Some (BundleFile b)"
    using assms(1) by (simp add: fs_open_def Join_Split split: if_splits option.splits)
qed

text \<open>The app's handler serves the bundle and nothing else. It answers 405 to every method but
  GET and HEAD; to those it serves the file of the bundle at the cleaned path, whose segments are
  all proper names, or the index page, or answers 500 to a path that is not UTF-8. Every answer to
  a GET or HEAD forbids framing and sniffing and carries the content security policy.\<close>

theorem spa_serves_the_bundle:
  "case ServeHTTP dist t mo r of (answer, hs) \<Rightarrow>
     (answer = Refused 405 ''method not allowed'' \<longleftrightarrow> req_method r \<noteq> ''GET'' \<and> req_method r \<noteq> ''HEAD'')
   \<and> (answer = Refused 405 ''method not allowed'' \<or> answer = Refused 500 ''internal error'' \<or> answer = Served (index_content dist t)
        \<or> (\<exists>segs b. list_all proper_seg segs \<and> dist (Join ''/'' segs) = Some (BundleFile b)
             \<and> answer = Served \<lparr>cName = last segs, cModTime = None, cData = b\<rparr>))
   \<and> (answer \<noteq> Refused 405 ''method not allowed'' \<longrightarrow>
        map_of hs ''X-Frame-Options'' = Some ''DENY'' \<and> map_of hs ''X-Content-Type-Options'' = Some ''nosniff''
      \<and> map_of hs ''Content-Security-Policy'' = Some (csp mo))"
proof (cases "req_method r \<noteq> ''GET'' \<and> req_method r \<noteq> ''HEAD''")
  case True
  then show ?thesis by (simp add: ServeHTTP_def)
next
  case False
  let ?clean = "Clean (CHR ''/'' # TrimPrefix (req_path r) ''/'')" and ?i = "serveIndex dist t (security_headers mo)"
  let ?name = "TrimPrefix ?clean ''/''"
  have "?clean = CHR ''/'' # ?name" by (simp add: Clean_def Let_def TrimPrefix_def)
  then have dot: "?name \<noteq> ''.''" using Clean_no_dot by metis
  have i: "case ?i of (answer, hs) \<Rightarrow> answer = Served (index_content dist t) \<and> map_of hs ''X-Frame-Options'' = Some ''DENY''
      \<and> map_of hs ''X-Content-Type-Options'' = Some ''nosniff'' \<and> map_of hs ''Content-Security-Policy'' = Some (csp mo)"
    by (simp add: case_prod_unfold)
  have "ServeHTTP dist t mo r = ?i \<or> ServeHTTP dist t mo r = (Refused 500 ''internal error'', security_headers mo)
    \<or> (\<exists>b. fs_open dist ?name = Inr (BundleFile b)
        \<and> ServeHTTP dist t mo r = (Served \<lparr>cName = last (Split CHR ''/'' ?name), cModTime = None, cData = b\<rparr>, security_headers mo))"
    using False by (auto simp: ServeHTTP_def Let_def split: sum.split open_error.split bundled.split)
  then consider "ServeHTTP dist t mo r = ?i" | "ServeHTTP dist t mo r = (Refused 500 ''internal error'', security_headers mo)"
    | b where "fs_open dist ?name = Inr (BundleFile b)"
        "ServeHTTP dist t mo r = (Served \<lparr>cName = last (Split CHR ''/'' ?name), cModTime = None, cData = b\<rparr>, security_headers mo)"
    by blast
  then show ?thesis
  proof cases
    case (3 b)
    then show ?thesis using False bundled_file[OF 3(1) dot] by auto
  qed (use False i in auto)
qed

text \<open>A path that is not valid UTF-8 is no file of the bundle, but does not fall back to the index.\<close>

lemma invalid_path_is_an_error:
  "fst (ServeHTTP (\<lambda>_. None) 0 [] ((ref_request ''GET'' [] [] [])\<lparr>req_path := [CHR ''/'', CHR 0xFF]\<rparr>)) = Refused 500 ''internal error''"
  by code_simp

end
