(* ===== verification/Spec2Isabelle.thy ===== *)
theory Spec2Isabelle
  imports Object_Theorems Bucket_Theorems Auth_Theorems Access_Theorems Store_Theorems
    Surface_Theorems Subresource_Theorems Activity_Theorems Report_Theorems
    Startup_Theorems Users_Change Observers Web_Ui
begin

text \<open>
  ByteBucket is an S3-compatible object store in Go.  One process listens on two ports: the storage
  surface (\<open>:9000\<close>, S3 requests signed by users) and the admin surface (\<open>:9001\<close>, JSON API, sessions,
  and the same S3 routes below \<open>/api/s3\<close>).  Objects are files below \<open>/data/objects\<close>, users and settings
  live in one bolt database, events in another.  This development models that process in HOL and
  proves what it promises to its clients, its users and its operators.

  \<^bold>\<open>How the program is represented.\<close>  A Go \<open>string\<close> or \<open>[]byte\<close> is a list of 8-bit characters; times and
  durations are integers in nanoseconds, with the 64-bit wrap-around written out where the code can
  reach it (\<open>wrap64\<close>).  A handler is a function from the environment of one request (clock, random
  draws, injected faults), the request and the state to a response and the next state; an error
  return is a value of a sum or an option.  A handler that holds a lock is one step; where a check
  happens before the lock, the handler is split there.  The file system is a list of paths with
  nodes, and every call of \<open>os\<close> can be made to fail by the fault oracle \<open>ft E\<close>, so each error branch
  of the code is a branch of the model.

  \<^bold>\<open>The theories, from the bottom.\<close>
  \<^item> \<open>Prelude\<close>, \<open>Go_Strings\<close>, \<open>Encoding\<close>, \<open>Byte_Words\<close>: lists and maps; \<open>strings\<close>, \<open>strconv\<close>; hex, base64, UTF-8
    and percent encodings; big-endian keys.  \<open>Library\<close> holds the parameters: digests, ciphers, codecs,
    the bolt operations, with their laws; \<open>Reference_Lib\<close>, \<open>Reference_Env\<close>, \<open>Reference_Events\<close>,
    \<open>Reference_Signed\<close> are executable instances that the witnesses evaluate.
  \<^item> \<open>Names\<close> (\<open>storage/names.go\<close>, \<open>middleware/names.go\<close>), \<open>File_Sys\<close> (the \<open>os\<close> calls), \<open>Http\<close> (requests,
    responses, \<open>handlers/respond.go\<close>), \<open>Client_Ip\<close> (\<open>middleware/clientip.go\<close>).
  \<^item> \<open>Users\<close> (\<open>storage/storage.go\<close>, \<open>util/rand.go\<close>); \<open>Bounded_Table\<close> with the locales of a capped table and its
    clients \<open>Sessions\<close>, \<open>Login_Limiter\<close> (\<open>auth/session.go\<close>, \<open>limiter.go\<close>), \<open>Ip_Ban\<close>, \<open>Rate_Limit\<close>
    (\<open>middleware/ipban.go\<close>, \<open>ratelimit.go\<close>); \<open>Admin_Auth\<close>, \<open>Admin_Laws\<close>, \<open>Admin_History\<close>
    (\<open>auth/admin_session.go\<close>); \<open>Sigv4\<close>, \<open>Sigv4_Laws\<close>, \<open>Sigv4_Accept\<close> (\<open>auth/auth.go\<close>, \<open>presign.go\<close>).
  \<^item> \<open>Sidecars\<close> (\<open>storage/acl.go\<close>, \<open>tagging.go\<close>, \<open>bucket_cors.go\<close>), \<open>Object_Meta\<close>, \<open>Objects\<close>, \<open>Object_Laws\<close>,
    \<open>Object_Delete\<close> (\<open>handlers/object.go\<close>, \<open>object_meta.go\<close>, \<open>conditional.go\<close>), \<open>Buckets\<close>, \<open>Bucket_Laws\<close>,
    \<open>Listing_Laws\<close> (\<open>handlers/bucket.go\<close>), \<open>Cors\<close>, \<open>Acl_Handlers\<close>, \<open>Copy_Delete\<close>, \<open>Subresource_Laws\<close>,
    \<open>Multipart\<close>, \<open>Multipart_Laws\<close>, \<open>Multipart_Checks\<close> (\<open>storage/multipart.go\<close>, \<open>handlers/multipart.go\<close>).
  \<^item> \<open>Storage_Router\<close>, \<open>Router_Laws\<close> (\<open>router/storage_router.go\<close>, \<open>storage_routes.go\<close>, \<open>handlers/presign.go\<close>).
  \<^item> \<open>Event_Log\<close>, \<open>Event_Laws\<close>, \<open>Event_History\<close> (the control log as a history) and \<open>Event_Data\<close> (the data log as
    a list of the batches written) for \<open>storage/events.go\<close>; \<open>Request_Samples\<close>, \<open>Sample_Laws\<close>, \<open>Chart_Laws\<close>
    (\<open>storage/request_samples.go\<close>, \<open>sampler/sampler.go\<close>, \<open>handlers/requests_chart.go\<close>), \<open>Activity_Handlers\<close>
    (\<open>metrics_s3activity.go\<close>, \<open>accesslog.go\<close>, \<open>handlers/audit.go\<close>, \<open>logs.go\<close>, \<open>stats.go\<close>), \<open>Stats_Laws\<close>.
  \<^item> \<open>Settings\<close>, \<open>Settings_Laws\<close> (\<open>storage/config.go\<close> and the settings handlers), \<open>Admin_Router\<close>
    (\<open>handlers/admin_handlers.go\<close>, \<open>router/admin_router.go\<close>) over the record \<open>server\<close>, the state that the
    two ports share; \<open>Observers\<close> (\<open>middleware/log.go\<close>, \<open>metrics.go\<close>) and \<open>Web_Ui\<close> (\<open>webui/webui.go\<close>).
  \<^item> \<open>Startup\<close> (\<open>cmd/ByteBucket/main.go\<close> up to the servers) and \<open>Process\<close>: both servers over one state, with
    the relation \<open>process_step\<close> of a request on either port, a round of the flusher or the sampler, or a
    sweep of a table, and \<open>process_reaches\<close>, the states of a process that came up.  \<open>Route_Wf\<close> shows that every
    storage route keeps the file tree well formed; \<open>Process_Theorems\<close> and \<open>Users_Change\<close> hold what is true of
    the whole process.
  \<^item> The theories named \<open>_Theorems\<close> hold the properties of one area with their witnesses; this theory holds
    the two that every client relies on first.

  \<^bold>\<open>What the groups of lemmas show.\<close>  Objects: what was acknowledged is read back, writes are atomic and
  touch no other object, deletes remove exactly one object, ranges are exact.  Buckets: the listing is
  the set of objects, and its pages, followed to the end, give each entry once.  Authentication: what
  passes was signed by a user who may, and a correct signature passes; sessions and lockouts over every
  history of requests.  The surfaces: a change of state on either port needs a signature or an
  administrator.  Multipart uploads, batch deletes, CORS and ACLs; the event log as a refinement of a
  bounded list and the data log as the batches the flusher wrote, over every interleaving; the access log's
  names and the dashboard's figures against the handlers and the listing; the chart as a histogram; settings that survive
  a restart.  The process: over every interleaving its file tree stays well formed and its memory
  bounded, and users change through administrators only.  The contracts of a capped table, of a stored sidecar and of a
  persisted setting are locales (\<open>Bounded_Table\<close>, \<open>Sidecars\<close>, \<open>Settings_Laws\<close>) interpreted on the definitions of the model.

  \<^bold>\<open>Bounds and fuel.\<close>  Every definition is total.  The recursion of the code follows its data; the flusher's
  last drain takes \<open>drain_rounds\<close> rounds, one more than the events the buffer can hold, which
  \<open>flusher_delivers_in_order\<close> shows to empty it.  The tables hold at most 1024 sessions and 4096 failure
  entries, the event buckets 10000 control events and the configured number of data events.

  \<^bold>\<open>Not modelled.\<close>  gin's matching of a path against the route patterns is an input of the routers, as are
  sockets, signals and the order in which goroutines run (steps may come in any order; a step is
  atomic).  Prometheus' registry and scrape format (a histogram is the list of its observations), the
  delivery of the app's files by \<open>http.ServeContent\<close> (the model ends at the call), bolt's file format, the JSON and XML codecs and the
  AWS date formats are parameters.  The texts of operating-system and decoder errors inside a message
  are left empty.  The modification time of a directory is a parameter.  Counters that the code keeps
  in \<open>float64\<close> are whole or rational numbers.  Constant-time comparison and the dummy work that equalises
  timing have no effect on a result.  The TypeScript front end and the test suites are not part of
  the Go program.
\<close>

section \<open>Objects\<close>

text \<open>C1: an upload that answers 200 is read back. A later plain GET of the same object, with
  no read fault, answers 200 with exactly the uploaded bytes and the ETag the upload returned.\<close>

theorem put_then_get:
  assumes "names_ok b k" "for_object b k r" "fs_wf (disk w)" "fresh_tmp E b k" "utf8_request r" "meta_codec_ok (lb E)"
    and "UploadObjectHandler E r w = (resp, w1)" "status resp = 200"
    and "for_object b k r'" "lb E' = lb E" "readable E' b k" "unconditional r'" "GetHeader r' ''Range'' = []"
  shows "status (fst (DownloadObjectHandler E' r' w1)) = 200
    \<and> payload (fst (DownloadObjectHandler E' r' w1)) = RawBody (req_body r)
    \<and> map_of (headers (fst (DownloadObjectHandler E' r' w1))) ''Etag'' = map_of (headers resp) ''Etag''"
proof -
  have "stored (lb E') b k (req_body r) (now E) (formatETag (md5 (lb E) (req_body r))) (disk w1)"
    using Upload_stored[OF assms(1-8)] assms(10) by simp
  from Download_whole[OF assms(1,9) this assms(11-13)] Upload_200(4)[OF assms(1-4,7,8)] show ?thesis by simp
qed

lemma put_then_get_witness:
  "status (fst (DownloadObjectHandler ref_env (ref_request ''GET'' ''bkt'' ''a/b'' [])
      (snd (UploadObjectHandler ref_env (ref_request ''PUT'' ''bkt'' ''a/b'' ''hello'') ref_world)))) = 200
   \<and> payload (fst (DownloadObjectHandler ref_env (ref_request ''GET'' ''bkt'' ''a/b'' [])
      (snd (UploadObjectHandler ref_env (ref_request ''PUT'' ''bkt'' ''a/b'' ''hello'') ref_world)))) = RawBody ''hello''"
proof -
  let ?r = "ref_request ''PUT'' ''bkt'' ''a/b'' ''hello''" and ?g = "ref_request ''GET'' ''bkt'' ''a/b'' []"
  have h: "names_ok ''bkt'' ''a/b''" "for_object ''bkt'' ''a/b'' ?r" "fresh_tmp ref_env ''bkt'' ''a/b''" "utf8_request ?r"
    "status (fst (UploadObjectHandler ref_env ?r ref_world)) = 200"
    "for_object ''bkt'' ''a/b'' ?g" "unconditional ?g" "GetHeader ?g ''Range'' = []"
    by code_simp+
  show ?thesis
    using put_then_get[OF h(1,2) ref_world_wf h(3,4) _ surjective_pairing h(5,6) refl ref_readable h(7,8)] ref_lib_ok(3)
    by (simp add: ref_request_def)
qed

text \<open>C2: whatever an upload answers, the bytes of its own object are afterwards the old
  bytes or all of the new ones, an object that was there is still there, and no other file
  has changed but its metadata and its temporary file.\<close>

theorem put_is_atomic:
  assumes "names_ok b k" "for_object b k r" "fs_wf (disk w)" "fresh_tmp E b k"
    "UploadObjectHandler E r w = (resp, w1)"
  shows "fs_wf (disk w1) \<and> whole b k (req_body r) (disk w) (disk w1) \<and> same_files (touched E b k) (disk w) (disk w1)"
  using Upload_any[OF assms(1-4)] assms(5) by (metis snd_conv)

lemma put_is_atomic_witness:
  "fs_wf (disk (snd (UploadObjectHandler ref_env (ref_request ''PUT'' ''bkt'' ''a/b'' ''hello'') ref_world)))"
proof -
  have h: "names_ok ''bkt'' ''a/b''" "for_object ''bkt'' ''a/b'' (ref_request ''PUT'' ''bkt'' ''a/b'' ''hello'')"
    "fresh_tmp ref_env ''bkt'' ''a/b''" by code_simp+
  show ?thesis using put_is_atomic[OF h(1,2) ref_world_wf h(3) surjective_pairing] by blast
qed

end
